(* ===== verification/Prelude.thy ===== *)
theory Prelude
  imports Main
    "HOL-Library.Word"
    "HOL-Library.AList"
    "HOL-Library.List_Lexorder"
    "HOL-Library.Char_ord"
    "HOL-Library.Product_Lexorder"
    "HOL-Library.Option_ord"
begin

text \<open>
  Shared vocabulary of the development: the machine types of the Rust code, the gRPC
  status values that every fallible operation returns, the hash map of the standard
  library, and the string routines (decimal printing and parsing, prefixes) that several
  crates use.

  Conventions.
  \<^item> \<open>u64\<close> and \<open>u32\<close> are words: \<open>+\<close> wraps, as it does in a release build; where the
    code saturates, the model uses \<open>sat_add\<close> and its kin. \<open>usize\<close> is \<open>nat\<close>: it only
    counts elements of vectors, whose lengths the allocator bounds far below
    \<open>usize_MAX\<close>; where a \<open>usize\<close> sum can really overflow the overflow is written out.
    \<open>i32\<close> and \<open>i64\<close> are \<open>int\<close>: the code never does arithmetic on them, it stores and
    compares them.
  \<^item> A string is its list of bytes, and strings are compared byte by byte
    (\<open>List_Lexorder\<close>), which is what Rust's \<open>str\<close> does. ASCII is assumed where
    the code changes case or trims white space.
  \<^item> A hash map is an association list with distinct keys. Its list order stands for the
    iteration order of the table, which Rust leaves unspecified: a theorem about every
    state holds for every iteration order.
\<close>

section \<open>Machine types\<close>

type_synonym u8 = "8 word"
type_synonym u32 = "32 word"
type_synonym u64 = "64 word"
type_synonym usize = nat
type_synonym i32 = int
type_synonym i64 = int
type_synonym bytes = "u8 list"

definition usize_MAX :: usize where
  "usize_MAX = 2 ^ 64 - 1"

definition len_u64 :: "'a list \<Rightarrow> u64" where
  "len_u64 xs = of_nat (length xs)"

definition sat_add :: "'n::len word \<Rightarrow> 'n word \<Rightarrow> 'n word" where
  "sat_add a b = (if unat a + unat b < 2 ^ LENGTH('n) then a + b else - 1)"

definition sat_sub :: "'n::len word \<Rightarrow> 'n word \<Rightarrow> 'n word" where
  "sat_sub a b = (if a < b then 0 else a - b)"

definition sat_mul :: "'n::len word \<Rightarrow> 'n word \<Rightarrow> 'n word" where
  "sat_mul a b = (if unat a * unat b < 2 ^ LENGTH('n) then a * b else - 1)"

section \<open>Status values and results\<close>

datatype code =
    Ok_Code | Cancelled | Unknown | InvalidArgument | DeadlineExceeded | NotFound | AlreadyExists
  | PermissionDenied | ResourceExhausted | FailedPrecondition | Aborted | OutOfRange | Unimplemented
  | Internal | Unavailable | DataLoss | Unauthenticated

datatype status = Status (status_code: code) (status_message: string)

type_synonym 'a result = "status + 'a"

text \<open>The \<open>?\<close> operator: continue with the value of a result, or return its error.\<close>

definition try_then :: "'e + 'a \<Rightarrow> ('a \<Rightarrow> 'e + 'b) \<Rightarrow> 'e + 'b" where
  "try_then r f = (case r of Inl e \<Rightarrow> Inl e | Inr x \<Rightarrow> f x)"

lemma try_then_simps [simp]: "try_then (Inl e) f = Inl e" "try_then (Inr x) f = f x"
  by (simp_all add: try_then_def)

lemma try_then_Inr: "try_then r f = Inr y \<longleftrightarrow> (\<exists>x. r = Inr x \<and> f x = Inr y)"
  by (cases r) auto

text \<open>The same for an operation that also returns its state: an early return keeps the state reached.\<close>

definition try_st :: "('e + 'a) \<times> 's \<Rightarrow> ('a \<Rightarrow> 's \<Rightarrow> ('e + 'b) \<times> 's) \<Rightarrow> ('e + 'b) \<times> 's" where
  "try_st r f = (case r of (Inl e, s) \<Rightarrow> (Inl e, s) | (Inr x, s) \<Rightarrow> f x s)"

lemma try_st_simps [simp]: "try_st (Inl e, s) f = (Inl e, s)" "try_st (Inr x, s) f = f x s"
  by (simp_all add: try_st_def)

lemma try_st_Inr: "try_st r f = (Inr y, s') \<longleftrightarrow> (\<exists>x s. r = (Inr x, s) \<and> f x s = (Inr y, s'))"
  by (auto simp: try_st_def split: prod.splits sum.splits)

lemma try_st_cases:
  assumes "try_st r f = (q, s')"
  obtains e where "r = (Inl e, s')" "q = Inl e"
    | x s where "r = (Inr x, s)" "f x s = (q, s')"
  using assms by (auto simp: try_st_def split: prod.splits sum.splits)

definition map_error :: "('e \<Rightarrow> 'e2) \<Rightarrow> ('e + 'a) \<times> 's \<Rightarrow> ('e2 + 'a) \<times> 's" where
  "map_error g r = (case r of (Inl e, s) \<Rightarrow> (Inl (g e), s) | (Inr x, s) \<Rightarrow> (Inr x, s))"

lemma map_error_simps [simp]: "map_error g (Inl e, s) = (Inl (g e), s)" "map_error g (Inr x, s) = (Inr x, s)"
  by (simp_all add: map_error_def)

lemma snd_map_error [simp]: "snd (map_error g r) = snd r"
  by (auto simp: map_error_def split: prod.splits sum.splits)

lemma map_error_Inr: "map_error g r = (Inr x, s) \<longleftrightarrow> r = (Inr x, s)"
  by (auto simp: map_error_def split: prod.splits sum.splits)

section \<open>Chunks\<close>

text \<open>\<open>slice::chunks\<close>: consecutive pieces of a given length, the last one possibly shorter.\<close>

function slice_chunks :: "nat \<Rightarrow> 'a list \<Rightarrow> 'a list list" where
  "slice_chunks n xs = (if xs = [] \<or> n = 0 then [] else take n xs # slice_chunks n (drop n xs))"
  by pat_completeness auto
termination
  by (relation "measure (\<lambda>(n, xs). length xs)") auto

declare slice_chunks.simps [simp del]

lemma concat_slice_chunks: "0 < n \<Longrightarrow> concat (slice_chunks n xs) = xs"
  by (induction n xs rule: slice_chunks.induct) (subst slice_chunks.simps, auto)

section \<open>Proof collections\<close>

named_theorems hm_simps \<open>lookup laws of the hash map\<close>
named_theorems wf_intros \<open>preservation of the well-formedness invariants\<close>
named_theorems step_simps \<open>defining equations of operations, unfolded by case analysis\<close>

section \<open>Arithmetic lemmas\<close>

lemma unat_less_exp: "unat w < 2 ^ LENGTH('n)" for w :: "'n::len word"
  by (rule unsigned_less)

lemma unat_u32_less: "unat w < 4294967296" for w :: u32
  using unat_less_exp [of w] by simp

lemma unat_u64_less: "unat w < 18446744073709551616" for w :: u64
  using unat_less_exp [of w] by simp

lemma unat_sat_add: "unat (sat_add a b) = min (unat a + unat b) (2 ^ LENGTH('n) - 1)"
  for a b :: "'n::len word"
proof (cases "unat a + unat b < 2 ^ LENGTH('n)")
  case True
  then have "unat (a + b) = unat a + unat b"
    by (simp add: unat_word_ariths)
  with True show ?thesis by (simp add: sat_add_def)
next
  case False
  then show ?thesis by (simp add: sat_add_def unsigned_minus_1_eq_mask mask_eq_exp_minus_1)
qed

lemma unat_sat_sub: "unat (sat_sub a b) = unat a - unat b"
  by (auto simp: sat_sub_def word_less_nat_alt unat_sub_if')

lemma unat_len_u64: "length xs < 2 ^ 64 \<Longrightarrow> unat (len_u64 xs) = length xs"
  by (simp add: len_u64_def unat_of_nat)

lemma len_u64_Nil [simp]: "len_u64 [] = 0"
  by (simp add: len_u64_def)

section \<open>The hash map of the standard library\<close>

type_synonym ('k, 'v) hashmap = "('k \<times> 'v) list"

abbreviation hm_get :: "('k, 'v) hashmap \<Rightarrow> 'k \<Rightarrow> 'v option" where
  "hm_get m k \<equiv> map_of m k"

abbreviation hm_contains_key :: "('k, 'v) hashmap \<Rightarrow> 'k \<Rightarrow> bool" where
  "hm_contains_key m k \<equiv> map_of m k \<noteq> None"

abbreviation hm_insert :: "'k \<Rightarrow> 'v \<Rightarrow> ('k, 'v) hashmap \<Rightarrow> ('k, 'v) hashmap" where
  "hm_insert k v m \<equiv> AList.update k v m"

abbreviation hm_remove :: "'k \<Rightarrow> ('k, 'v) hashmap \<Rightarrow> ('k, 'v) hashmap" where
  "hm_remove k m \<equiv> AList.delete k m"

abbreviation hm_keys :: "('k, 'v) hashmap \<Rightarrow> 'k list" where
  "hm_keys m \<equiv> map fst m"

abbreviation hm_values :: "('k, 'v) hashmap \<Rightarrow> 'v list" where
  "hm_values m \<equiv> map snd m"

text \<open>\<open>get_mut\<close> followed by a write through the reference.\<close>

definition hm_modify :: "'k \<Rightarrow> ('v \<Rightarrow> 'v) \<Rightarrow> ('k, 'v) hashmap \<Rightarrow> ('k, 'v) hashmap" where
  "hm_modify k f m = map (\<lambda>(k', v). if k' = k then (k', f v) else (k', v)) m"

text \<open>\<open>collect\<close> of an iterator of pairs: later pairs overwrite earlier ones.\<close>

definition hm_collect :: "('k \<times> 'v) list \<Rightarrow> ('k, 'v) hashmap" where
  "hm_collect ps = foldl (\<lambda>m (k, v). hm_insert k v m) [] ps"

text \<open>
  The tables of the program are keyed by a function of the stored value (an object by
  bucket, key and version, a worker by its node id, and so on). \<open>keyed key_of m\<close> says
  that a table has distinct keys and that every value sits under its own key.
\<close>

definition keyed :: "('v \<Rightarrow> 'k) \<Rightarrow> ('k, 'v) hashmap \<Rightarrow> bool" where
  "keyed key_of m \<longleftrightarrow> distinct (hm_keys m) \<and> (\<forall>(k, v) \<in> set m. key_of v = k)"

lemma hm_get_insert [simp, hm_simps]: "hm_get (hm_insert k v m) = (hm_get m)(k \<mapsto> v)"
  by (rule update_conv')

lemma hm_get_remove [simp, hm_simps]: "hm_get (hm_remove k m) = (hm_get m)(k := None)"
  by (rule delete_conv')

lemma hm_get_modify [simp, hm_simps]:
  "hm_get (hm_modify k f m) = (\<lambda>k'. if k' = k then map_option f (hm_get m k) else hm_get m k')"
  by (induction m) (auto simp: hm_modify_def fun_eq_iff)

lemma hm_keys_modify [simp]: "hm_keys (hm_modify k f m) = hm_keys m"
  by (auto simp: hm_modify_def)

lemma keyedD: "keyed key_of m \<Longrightarrow> hm_get m k = Some v \<Longrightarrow> key_of v = k"
  by (auto simp: keyed_def dest: map_of_SomeD)

lemma keyed_get: "keyed key_of m \<Longrightarrow> (k, v) \<in> set m \<Longrightarrow> hm_get m (key_of v) = Some v"
  by (auto simp: keyed_def intro: map_of_is_SomeI)

lemma keyed_distinct: "keyed key_of m \<Longrightarrow> distinct (hm_keys m)"
  by (simp add: keyed_def)

lemma keyed_Nil [simp]: "keyed key_of []"
  by (simp add: keyed_def)

lemma set_hm_insert:
  "distinct (hm_keys m) \<Longrightarrow> set (hm_insert k v m) = insert (k, v) {p \<in> set m. fst p \<noteq> k}"
  by (induction m) (auto simp: image_iff rev_image_eqI)

lemma set_hm_remove: "set (hm_remove k m) = {p \<in> set m. fst p \<noteq> k}"
  by (auto simp: AList.delete_eq)

lemma set_hm_modify: "set (hm_modify k f m) = (\<lambda>(k', v). if k' = k then (k', f v) else (k', v)) ` set m"
  by (simp add: hm_modify_def)

lemma keyed_insert [wf_intros]:
  assumes "keyed key_of m" and "key_of v = k"
  shows "keyed key_of (hm_insert k v m)"
  using assms by (auto simp: keyed_def distinct_update set_hm_insert)

lemma keyed_remove [wf_intros]: "keyed key_of m \<Longrightarrow> keyed key_of (hm_remove k m)"
  by (auto simp: keyed_def distinct_delete set_hm_remove)

lemma keyed_modify [wf_intros]:
  assumes "keyed key_of m" and "\<And>v. key_of (f v) = key_of v"
  shows "keyed key_of (hm_modify k f m)"
  using assms by (auto simp: keyed_def set_hm_modify split: if_splits)

lemma hm_values_iff:
  assumes "distinct (hm_keys m)"
  shows "v \<in> set (hm_values m) \<longleftrightarrow> (\<exists>k. hm_get m k = Some v)"
  using assms by (force simp: image_iff)

lemma hm_insert_fresh: "k \<notin> set (hm_keys m) \<Longrightarrow> hm_insert k v m = m @ [(k, v)]"
  by (induction m) auto

lemma foldl_insert_distinct:
  "distinct (hm_keys m @ map fst ps) \<Longrightarrow> foldl (\<lambda>m (k, v). hm_insert k v m) m ps = m @ ps"
proof (induction ps arbitrary: m)
  case Nil
  then show ?case by simp
next
  case (Cons p ps)
  obtain k v where p: "p = (k, v)" by (cases p)
  from Cons.prems p have "hm_insert k v m = m @ [(k, v)]"
    by (auto intro: hm_insert_fresh)
  with Cons.IH [of "m @ [(k, v)]"] Cons.prems p show ?case by simp
qed

text \<open>Collecting the values of a keyed table under their keys rebuilds the table.\<close>

lemma hm_collect_keyed:
  assumes "keyed key_of m"
  shows "hm_collect (map (\<lambda>v. (key_of v, v)) (hm_values m)) = m"
proof -
  have "map (\<lambda>v. (key_of v, v)) (hm_values m) = m"
    using assms by (auto simp: keyed_def intro!: map_idI)
  with assms show ?thesis
    by (simp add: hm_collect_def keyed_def foldl_insert_distinct)
qed

lemma distinct_foldl_insert:
  "distinct (hm_keys m) \<Longrightarrow> distinct (hm_keys (foldl (\<lambda>m (k, v). hm_insert k v m) m ps))"
  by (induction ps arbitrary: m) (auto simp: distinct_update)

lemma keyed_foldl_insert:
  "keyed key_of m \<Longrightarrow> keyed key_of (foldl (\<lambda>m (k, v). hm_insert k v m) m (map (\<lambda>v. (key_of v, v)) vs))"
  by (induction vs arbitrary: m) (auto intro: keyed_insert)

lemma keyed_collect [wf_intros]: "keyed key_of (hm_collect (map (\<lambda>v. (key_of v, v)) vs))"
  unfolding hm_collect_def by (rule keyed_foldl_insert) simp

section \<open>Extremal elements of iterators\<close>

text \<open>\<open>Iterator::max_by\<close> keeps the last of several maxima, \<open>min_by\<close> the first of several minima.\<close>

definition max_by_last :: "('a \<Rightarrow> 'k::linorder) \<Rightarrow> 'a list \<Rightarrow> 'a option" where
  "max_by_last f xs =
     foldl (\<lambda>m x. case m of None \<Rightarrow> Some x | Some y \<Rightarrow> if f y \<le> f x then Some x else Some y) None xs"

definition min_by_first :: "('a \<Rightarrow> 'k::linorder) \<Rightarrow> 'a list \<Rightarrow> 'a option" where
  "min_by_first f xs =
     foldl (\<lambda>m x. case m of None \<Rightarrow> Some x | Some y \<Rightarrow> if f x < f y then Some x else Some y) None xs"

lemma max_by_last_snoc:
  "max_by_last f (xs @ [x]) =
     (case max_by_last f xs of None \<Rightarrow> Some x | Some y \<Rightarrow> if f y \<le> f x then Some x else Some y)"
  by (simp add: max_by_last_def)

lemma min_by_first_snoc:
  "min_by_first f (xs @ [x]) =
     (case min_by_first f xs of None \<Rightarrow> Some x | Some y \<Rightarrow> if f x < f y then Some x else Some y)"
  by (simp add: min_by_first_def)

lemma max_by_last_Nil [simp]: "max_by_last f [] = None"
  by (simp add: max_by_last_def)

lemma min_by_first_Nil [simp]: "min_by_first f [] = None"
  by (simp add: min_by_first_def)

lemma max_by_last_None [simp]: "max_by_last f xs = None \<longleftrightarrow> xs = []"
  by (cases xs rule: rev_cases) (auto simp: max_by_last_snoc split: option.splits)

lemma min_by_first_None [simp]: "min_by_first f xs = None \<longleftrightarrow> xs = []"
  by (cases xs rule: rev_cases) (auto simp: min_by_first_snoc split: option.splits)

lemma max_by_last_SomeD: "max_by_last f xs = Some x \<Longrightarrow> x \<in> set xs \<and> (\<forall>y \<in> set xs. f y \<le> f x)"
proof (induction xs arbitrary: x rule: rev_induct)
  case (snoc z xs)
  then show ?case by (fastforce simp: max_by_last_snoc split: option.splits if_splits)
qed simp

lemma min_by_first_SomeD: "min_by_first f xs = Some x \<Longrightarrow> x \<in> set xs \<and> (\<forall>y \<in> set xs. f x \<le> f y)"
proof (induction xs arbitrary: x rule: rev_induct)
  case (snoc z xs)
  then show ?case by (fastforce simp: min_by_first_snoc split: option.splits if_splits)
qed simp

text \<open>The maximum over the keys of a map with distinct keys is at the maximum over its entries.\<close>

lemma max_by_last_map: "max_by_last f (map g xs) = map_option g (max_by_last (\<lambda>x. f (g x)) xs)"
  by (induction xs rule: rev_induct) (auto simp: max_by_last_snoc split: option.splits)

lemma max_by_last_cong: "(\<And>x. x \<in> set xs \<Longrightarrow> f x = g x) \<Longrightarrow> max_by_last f xs = max_by_last g xs"
proof (induction xs rule: rev_induct)
  case (snoc z xs)
  then show ?case
    using max_by_last_SomeD [of g xs] by (auto simp: max_by_last_snoc split: option.splits)
qed simp

end
