(* ===== verification/Rust_Strings.thy ===== *)
theory Rust_Strings
  imports Prelude
begin

text \<open>
  The string routines of the Rust standard library that the crates use, on byte strings:
  \<open>Display\<close> and \<open>FromStr\<close> of unsigned integers, prefixes and suffixes, \<open>split\<close> and
  \<open>split_once\<close>, \<open>trim\<close>, ASCII case folding, \<open>find\<close> and \<open>replace\<close>. The lemmas
  give the laws the components rely on: printing and parsing an integer is the identity,
  \<open>split_once\<close> cuts at the first separator, and so on.
\<close>

section \<open>Definitions\<close>

subsection \<open>Decimal integers\<close>

definition digit_char :: "nat \<Rightarrow> char" where
  "digit_char d = char_of (48 + d)"

fun nat_to_string :: "nat \<Rightarrow> string" where
  "nat_to_string n =
     (if n < 10 then [digit_char n] else nat_to_string (n div 10) @ [digit_char (n mod 10)])"

declare nat_to_string.simps [simp del]

definition is_ascii_digit :: "char \<Rightarrow> bool" where
  "is_ascii_digit c \<longleftrightarrow> 48 \<le> (of_char c :: nat) \<and> (of_char c :: nat) \<le> 57"

definition digit_val :: "char \<Rightarrow> nat" where
  "digit_val c = of_char c - 48"

definition digits_val :: "string \<Rightarrow> nat" where
  "digits_val s = foldl (\<lambda>n c. 10 * n + digit_val c) 0 s"

text \<open>
  \<open>str::parse\<close> at an unsigned type with maximum \<open>mx\<close>: an optional plus sign, at least
  one digit, nothing else, and no overflow.
\<close>

definition parse_unsigned :: "nat \<Rightarrow> string \<Rightarrow> nat option" where
  "parse_unsigned mx s =
     (let ds = (case s of c # cs \<Rightarrow> if c = CHR ''+'' then cs else s | [] \<Rightarrow> [])
      in if ds \<noteq> [] \<and> list_all is_ascii_digit ds \<and> digits_val ds \<le> mx
         then Some (digits_val ds) else None)"

definition parse_u32 :: "string \<Rightarrow> u32 option" where
  "parse_u32 s = map_option of_nat (parse_unsigned (2 ^ 32 - 1) s)"

definition parse_u64 :: "string \<Rightarrow> u64 option" where
  "parse_u64 s = map_option of_nat (parse_unsigned (2 ^ 64 - 1) s)"

definition parse_usize :: "string \<Rightarrow> usize option" where
  "parse_usize s = parse_unsigned usize_MAX s"

abbreviation show_word :: "'n::len word \<Rightarrow> string" where
  "show_word w \<equiv> nat_to_string (unat w)"

subsection \<open>Prefixes, suffixes and cuts\<close>

definition starts_with :: "string \<Rightarrow> string \<Rightarrow> bool" where
  "starts_with p s \<longleftrightarrow> take (length p) s = p"

definition strip_prefix :: "string \<Rightarrow> string \<Rightarrow> string option" where
  "strip_prefix p s = (if starts_with p s then Some (drop (length p) s) else None)"

definition strip_suffix :: "string \<Rightarrow> string \<Rightarrow> string option" where
  "strip_suffix p s = map_option rev (strip_prefix (rev p) (rev s))"

fun split_once :: "char \<Rightarrow> string \<Rightarrow> (string \<times> string) option" where
  "split_once c [] = None"
| "split_once c (x # xs) =
     (if x = c then Some ([], xs)
      else case split_once c xs of None \<Rightarrow> None | Some (a, b) \<Rightarrow> Some (x # a, b))"

definition rsplit_once :: "char \<Rightarrow> string \<Rightarrow> (string \<times> string) option" where
  "rsplit_once c s =
     (case split_once c (rev s) of None \<Rightarrow> None | Some (a, b) \<Rightarrow> Some (rev b, rev a))"

fun split_char :: "char \<Rightarrow> string \<Rightarrow> string list" where
  "split_char c [] = [[]]"
| "split_char c (x # xs) =
     (if x = c then [] # split_char c xs
      else case split_char c xs of [] \<Rightarrow> [[x]] | p # ps \<Rightarrow> (x # p) # ps)"

fun str_find :: "string \<Rightarrow> string \<Rightarrow> nat option" where
  "str_find p [] = (if p = [] then Some 0 else None)"
| "str_find p (x # xs) =
     (if starts_with p (x # xs) then Some 0 else map_option Suc (str_find p xs))"

definition str_contains :: "string \<Rightarrow> string \<Rightarrow> bool" where
  "str_contains p s \<longleftrightarrow> str_find p s \<noteq> None"

subsection \<open>White space and case\<close>

definition is_space :: "char \<Rightarrow> bool" where
  "is_space c \<longleftrightarrow> (of_char c :: nat) \<in> {9, 10, 11, 12, 13, 32}"

definition trim :: "string \<Rightarrow> string" where
  "trim s = rev (dropWhile is_space (rev (dropWhile is_space s)))"

definition trim_start_chars :: "char list \<Rightarrow> string \<Rightarrow> string" where
  "trim_start_chars cs s = dropWhile (\<lambda>c. c \<in> set cs) s"

definition trim_end_chars :: "char list \<Rightarrow> string \<Rightarrow> string" where
  "trim_end_chars cs s = rev (dropWhile (\<lambda>c. c \<in> set cs) (rev s))"

definition trim_chars :: "char list \<Rightarrow> string \<Rightarrow> string" where
  "trim_chars cs s = trim_end_chars cs (trim_start_chars cs s)"

definition ascii_lower :: "char \<Rightarrow> char" where
  "ascii_lower c = (let n = (of_char c :: nat) in if 65 \<le> n \<and> n \<le> 90 then char_of (n + 32) else c)"

definition to_lowercase :: "string \<Rightarrow> string" where
  "to_lowercase s = map ascii_lower s"

definition eq_ignore_ascii_case :: "string \<Rightarrow> string \<Rightarrow> bool" where
  "eq_ignore_ascii_case a b \<longleftrightarrow> to_lowercase a = to_lowercase b"

text \<open>\<open>str::replace\<close> with a one-character pattern.\<close>

definition replace_char :: "char \<Rightarrow> string \<Rightarrow> string \<Rightarrow> string" where
  "replace_char c r s = concat (map (\<lambda>x. if x = c then r else [x]) s)"

text \<open>\<open>str::split_whitespace\<close>: the maximal runs of characters that are not white space.\<close>

fun split_by :: "(char \<Rightarrow> bool) \<Rightarrow> string \<Rightarrow> string list" where
  "split_by P [] = [[]]"
| "split_by P (x # xs) =
     (if P x then [] # split_by P xs
      else case split_by P xs of [] \<Rightarrow> [[x]] | p # ps \<Rightarrow> (x # p) # ps)"

definition split_whitespace :: "string \<Rightarrow> string list" where
  "split_whitespace s = filter (\<lambda>t. t \<noteq> []) (split_by is_space s)"

subsection \<open>Paths\<close>

text \<open>\<open>Path::join\<close> with a relative second part.\<close>

definition path_join :: "string \<Rightarrow> string \<Rightarrow> string" where
  "path_join p q = (if p = [] \<or> last p = CHR ''/'' then p @ q else p @ ''/'' @ q)"

section \<open>Laws\<close>

subsection \<open>Printing and parsing integers\<close>

lemma of_char_digit_char: "d < 10 \<Longrightarrow> (of_char (digit_char d) :: nat) = 48 + d"
  by (simp add: digit_char_def of_char_of)

lemma is_ascii_digit_digit_char: "d < 10 \<Longrightarrow> is_ascii_digit (digit_char d)"
  by (simp add: is_ascii_digit_def of_char_digit_char)

lemma digit_val_digit_char: "d < 10 \<Longrightarrow> digit_val (digit_char d) = d"
  by (simp add: digit_val_def of_char_digit_char)

lemma digits_val_snoc: "digits_val (s @ [c]) = 10 * digits_val s + digit_val c"
  by (simp add: digits_val_def)

lemma nat_to_string_nonempty [simp]: "nat_to_string n \<noteq> []"
  by (subst nat_to_string.simps) simp

lemma nat_to_string_digits: "list_all is_ascii_digit (nat_to_string n)"
proof (induction n rule: nat_to_string.induct)
  case (1 n)
  show ?case
  proof (cases "n < 10")
    case True
    then show ?thesis
      by (subst nat_to_string.simps) (simp add: is_ascii_digit_digit_char)
  next
    case False
    with "1.IH" show ?thesis
      by (subst nat_to_string.simps) (simp add: is_ascii_digit_digit_char)
  qed
qed

lemma digits_val_nat_to_string: "digits_val (nat_to_string n) = n"
proof (induction n rule: nat_to_string.induct)
  case (1 n)
  show ?case
  proof (cases "n < 10")
    case True
    then show ?thesis
      by (subst nat_to_string.simps) (simp add: digits_val_def digit_val_digit_char)
  next
    case False
    with "1.IH" show ?thesis
      by (subst nat_to_string.simps) (simp add: digits_val_snoc digit_val_digit_char)
  qed
qed

lemma nat_to_string_inject: "nat_to_string m = nat_to_string n \<longleftrightarrow> m = n"
  using digits_val_nat_to_string by metis

lemma plus_not_digit: "\<not> is_ascii_digit (CHR ''+'')"
  by (simp add: is_ascii_digit_def)

lemma nat_to_string_hd_plus: "nat_to_string n \<noteq> CHR ''+'' # s"
proof
  assume "nat_to_string n = CHR ''+'' # s"
  with nat_to_string_digits [of n] show False
    by (simp add: plus_not_digit)
qed

lemma parse_nat_to_string: "n \<le> mx \<Longrightarrow> parse_unsigned mx (nat_to_string n) = Some n"
  using nat_to_string_digits [of n] nat_to_string_hd_plus [of n] digits_val_nat_to_string [of n]
  by (auto simp: parse_unsigned_def Let_def split: list.splits)

lemma parse_unsigned_bound: "parse_unsigned mx s = Some n \<Longrightarrow> n \<le> mx"
  by (auto simp: parse_unsigned_def Let_def split: if_splits)

lemma parse_u32_show [simp]: "parse_u32 (show_word w) = Some w"
proof -
  have "unat w \<le> 2 ^ 32 - 1"
    using unat_u32_less [of w] by simp
  from parse_nat_to_string [OF this] show ?thesis
    by (simp add: parse_u32_def)
qed

lemma parse_u64_show [simp]: "parse_u64 (show_word w) = Some w"
proof -
  have "unat w \<le> 2 ^ 64 - 1"
    using unat_u64_less [of w] by simp
  from parse_nat_to_string [OF this] show ?thesis
    by (simp add: parse_u64_def)
qed

subsection \<open>Cutting strings\<close>

lemma starts_with_append [simp]: "starts_with p (p @ s)"
  by (simp add: starts_with_def)

lemma starts_with_iff: "starts_with p s \<longleftrightarrow> (\<exists>t. s = p @ t)"
  by (metis append_take_drop_id starts_with_append starts_with_def)

lemma strip_prefix_append [simp]: "strip_prefix p (p @ s) = Some s"
  by (simp add: strip_prefix_def)

lemma strip_prefix_SomeD: "strip_prefix p s = Some t \<Longrightarrow> s = p @ t"
  by (auto simp: strip_prefix_def starts_with_iff split: if_splits)

lemma split_once_Some_iff: "split_once c s = Some (a, b) \<longleftrightarrow> s = a @ c # b \<and> c \<notin> set a"
proof (induction s arbitrary: a)
  case Nil
  then show ?case by simp
next
  case (Cons x xs)
  show ?case
  proof (cases "x = c")
    case True
    then show ?thesis by (cases a) auto
  next
    case False
    with Cons.IH [of "tl a"] show ?thesis
      by (cases a) (auto split: option.splits)
  qed
qed

lemma split_once_None_iff: "split_once c s = None \<longleftrightarrow> c \<notin> set s"
  by (induction s) (auto split: option.splits)

lemma rsplit_once_Some_iff: "rsplit_once c s = Some (a, b) \<longleftrightarrow> s = a @ c # b \<and> c \<notin> set b"
proof -
  have "rsplit_once c s = Some (a, b) \<longleftrightarrow> split_once c (rev s) = Some (rev b, rev a)"
    by (auto simp: rsplit_once_def split: option.splits)
  also have "\<dots> \<longleftrightarrow> rev s = rev b @ c # rev a \<and> c \<notin> set b"
    by (simp add: split_once_Some_iff)
  also have "\<dots> \<longleftrightarrow> s = a @ c # b \<and> c \<notin> set b"
    by (metis append.assoc append_Cons append_Nil rev.simps(2) rev_append rev_rev_ident)
  finally show ?thesis .
qed

lemma split_char_nonempty [simp]: "split_char c s \<noteq> []"
  by (induction s) (auto split: list.splits)

lemma split_char_free: "p \<in> set (split_char c s) \<Longrightarrow> c \<notin> set p"
  by (induction s arbitrary: p) (auto split: list.splits if_splits)

lemma replace_char_Nil [simp]: "replace_char c r [] = []"
  by (simp add: replace_char_def)

lemma replace_char_Cons:
  "replace_char c r (x # xs) = (if x = c then r else [x]) @ replace_char c r xs"
  by (simp add: replace_char_def)

lemma replace_char_append: "replace_char c r (s @ t) = replace_char c r s @ replace_char c r t"
  by (simp add: replace_char_def)

lemma trim_keeps_prefix:
  assumes "p \<noteq> []" and "\<not> is_space (hd p)" and "\<not> is_space (last p)"
  shows "\<exists>t. trim (p @ s) = p @ t"
proof -
  have "dropWhile is_space (p @ s) = p @ s" using assms by (cases p) auto
  moreover have "dropWhile is_space (rev p) = rev p" using assms by (simp add: dropWhile_eq_self_iff hd_rev)
  then have "\<exists>t. rev (dropWhile is_space (rev s @ rev p)) = p @ t"
    by (induction s rule: rev_induct) auto
  ultimately show ?thesis by (simp add: trim_def)
qed

end
