(* ===== verification/Cache_Backend.thy ===== *)
theory Cache_Backend
  imports Rust_Strings
begin

text \<open>
  The storage of the cache (\<open>crates/cache/src/backend.rs\<close>, \<open>hdd.rs\<close>, \<open>spdk.rs\<close>): the
  interface that the cache service calls, its implementation on a directory of files, and
  the implementation that wraps it under another directory.

  The file system is a table of files together with a script of faults. Every call takes the
  next entry of the script: \<open>None\<close> lets it through, \<open>Some\<close> makes it fail with a message,
  and a failing write may leave the first bytes of its data in the file. A theorem about
  every script holds for every pattern of failures. The directories that \<open>new\<close> creates are
  there afterwards. The serialiser of the attribute files (\<open>serde_json\<close>) is a parameter.
\<close>

section \<open>The file system\<close>

datatype fault = Fault (kept: "nat option") (fault_message: string)

record file_system =
  fs_files :: "(string, bytes) hashmap"
  fs_faults :: "fault option list"

definition next_fault :: "file_system \<Rightarrow> fault option \<times> file_system" where
  "next_fault fs =
     (case fs_faults fs of [] \<Rightarrow> (None, fs) | f # rest \<Rightarrow> (f, fs\<lparr>fs_faults := rest\<rparr>))"

definition NO_SUCH_FILE :: string where
  "NO_SUCH_FILE = ''No such file or directory (os error 2)''"

definition create_dir_all :: "string \<Rightarrow> file_system \<Rightarrow> (string + unit) \<times> file_system" where
  "create_dir_all path fs =
     (case next_fault fs of
        (Some f, fs1) \<Rightarrow> (Inl (fault_message f), fs1)
      | (None, fs1) \<Rightarrow> (Inr (), fs1))"

definition file_write :: "string \<Rightarrow> bytes \<Rightarrow> file_system \<Rightarrow> (string + unit) \<times> file_system" where
  "file_write path data fs =
     (case next_fault fs of
        (Some (Fault None msg), fs1) \<Rightarrow> (Inl msg, fs1)
      | (Some (Fault (Some n) msg), fs1) \<Rightarrow>
          (Inl msg, fs1\<lparr>fs_files := hm_insert path (take n data) (fs_files fs1)\<rparr>)
      | (None, fs1) \<Rightarrow> (Inr (), fs1\<lparr>fs_files := hm_insert path data (fs_files fs1)\<rparr>))"

definition file_read :: "string \<Rightarrow> file_system \<Rightarrow> (string + bytes) \<times> file_system" where
  "file_read path fs =
     (case next_fault fs of
        (Some f, fs1) \<Rightarrow> (Inl (fault_message f), fs1)
      | (None, fs1) \<Rightarrow>
          (case hm_get (fs_files fs1) path of
             None \<Rightarrow> (Inl NO_SUCH_FILE, fs1)
           | Some data \<Rightarrow> (Inr data, fs1)))"

definition remove_file :: "string \<Rightarrow> file_system \<Rightarrow> (string + unit) \<times> file_system" where
  "remove_file path fs =
     (case next_fault fs of
        (Some f, fs1) \<Rightarrow> (Inl (fault_message f), fs1)
      | (None, fs1) \<Rightarrow>
          if hm_contains_key (fs_files fs1) path
          then (Inr (), fs1\<lparr>fs_files := hm_remove path (fs_files fs1)\<rparr>)
          else (Inl NO_SUCH_FILE, fs1))"

text \<open>The names in a directory: the paths that continue its path with one component.\<close>

definition dir_names :: "string \<Rightarrow> file_system \<Rightarrow> string list" where
  "dir_names dir fs =
     filter (\<lambda>name. CHR ''/'' \<notin> set name)
       (List.map_filter (\<lambda>path. strip_prefix (dir @ ''/'') path) (hm_keys (fs_files fs)))"

definition read_dir :: "string \<Rightarrow> file_system \<Rightarrow> (string + string list) \<times> file_system" where
  "read_dir dir fs =
     (case next_fault fs of
        (Some f, fs1) \<Rightarrow> (Inl (fault_message f), fs1)
      | (None, fs1) \<Rightarrow> (Inr (dir_names dir fs1), fs1))"

section \<open>The interface\<close>

datatype cache_category = Staging | Restored

record cache_xattrs =
  xa_bucket :: string
  xa_key :: string
  xa_version_id :: "string option"
  xa_size :: u64
  xa_expire_at :: i64
  xa_cached_at :: i64
  xa_last_access_at :: i64
  xa_access_count :: u64
  xa_checksum :: "string option"
  xa_content_type :: "string option"
  xa_etag :: "string option"
  xa_category :: cache_category

record 'b cache_backend =
  cb_write :: "string \<Rightarrow> bytes \<Rightarrow> cache_xattrs \<Rightarrow> 'b \<Rightarrow> (string + u64) \<times> 'b"
  cb_read :: "u64 \<Rightarrow> 'b \<Rightarrow> (string + bytes) \<times> 'b"
  cb_delete :: "u64 \<Rightarrow> 'b \<Rightarrow> (string + unit) \<times> 'b"
  cb_read_xattrs :: "u64 \<Rightarrow> 'b \<Rightarrow> (string + cache_xattrs) \<times> 'b"
  cb_list_all :: "'b \<Rightarrow> (string + (u64 \<times> cache_xattrs) list) \<times> 'b"
  cb_available_bytes :: "'b \<Rightarrow> (string + u64) \<times> 'b"

section \<open>The directory backend\<close>

record xattrs_json =
  xj_bucket :: string
  xj_key :: string
  xj_version_id :: "string option"
  xj_size :: u64
  xj_expire_at :: i64
  xj_cached_at :: i64
  xj_last_access_at :: "i64 option"
  xj_access_count :: "u64 option"
  xj_checksum :: "string option"
  xj_content_type :: "string option"
  xj_etag :: "string option"
  xj_category :: string

record json =
  to_vec :: "xattrs_json \<Rightarrow> string + bytes"
  from_slice :: "bytes \<Rightarrow> string + xattrs_json"

definition to_json :: "cache_xattrs \<Rightarrow> xattrs_json" where
  "to_json x =
     \<lparr>xj_bucket = xa_bucket x, xj_key = xa_key x, xj_version_id = xa_version_id x, xj_size = xa_size x,
      xj_expire_at = xa_expire_at x, xj_cached_at = xa_cached_at x,
      xj_last_access_at = Some (xa_last_access_at x), xj_access_count = Some (xa_access_count x),
      xj_checksum = xa_checksum x, xj_content_type = xa_content_type x, xj_etag = xa_etag x,
      xj_category = (case xa_category x of Staging \<Rightarrow> ''staging'' | Restored \<Rightarrow> ''restored'')\<rparr>"

definition from_json :: "xattrs_json \<Rightarrow> cache_xattrs" where
  "from_json j =
     \<lparr>xa_bucket = xj_bucket j, xa_key = xj_key j, xa_version_id = xj_version_id j, xa_size = xj_size j,
      xa_expire_at = xj_expire_at j, xa_cached_at = xj_cached_at j,
      xa_last_access_at = (case xj_last_access_at j of None \<Rightarrow> xj_cached_at j | Some t \<Rightarrow> t),
      xa_access_count = (case xj_access_count j of None \<Rightarrow> 0 | Some n \<Rightarrow> n),
      xa_checksum = xj_checksum j, xa_content_type = xj_content_type j, xa_etag = xj_etag j,
      xa_category = (if xj_category j = ''staging'' then Staging else Restored)\<rparr>"

record hdd_backend =
  hb_base_path :: string
  hb_max_size_bytes :: u64
  hb_next_id :: u64
  hb_fs :: file_system

definition data_path :: "hdd_backend \<Rightarrow> u64 \<Rightarrow> cache_category \<Rightarrow> string" where
  "data_path b i cat =
     path_join (path_join (hb_base_path b) (case cat of Staging \<Rightarrow> ''staging'' | Restored \<Rightarrow> ''restored''))
       (show_word i @ ''.dat'')"

definition meta_path :: "hdd_backend \<Rightarrow> u64 \<Rightarrow> string" where
  "meta_path b i = path_join (path_join (hb_base_path b) ''meta'') (show_word i @ ''.json'')"

text \<open>A call of the file system on behalf of the backend.\<close>

definition with_fs :: "(file_system \<Rightarrow> (string + 'a) \<times> file_system) \<Rightarrow> hdd_backend \<Rightarrow> (string + 'a) \<times> hdd_backend" where
  "with_fs f b = (case f (hb_fs b) of (r, fs) \<Rightarrow> (r, b\<lparr>hb_fs := fs\<rparr>))"

definition json_id :: "string \<Rightarrow> u64 option" where
  "json_id name = (case strip_suffix ''.json'' name of None \<Rightarrow> None | Some raw \<Rightarrow> parse_u64 raw)"

definition discover_next_id :: "string \<Rightarrow> file_system \<Rightarrow> (string + u64) \<times> file_system" where
  "discover_next_id base fs =
     try_st (read_dir (path_join base ''meta'') fs) (\<lambda>names fs.
       (Inr (foldl (\<lambda>max_id name. case json_id name of None \<Rightarrow> max_id | Some i \<Rightarrow> max max_id i) 0 names + 1), fs))"

definition hdd_new :: "string \<Rightarrow> u64 \<Rightarrow> file_system \<Rightarrow> (string + hdd_backend) \<times> file_system" where
  "hdd_new base_path max_size_gb fs =
     try_st (create_dir_all (path_join base_path ''staging'') fs) (\<lambda>_ fs.
     try_st (create_dir_all (path_join base_path ''restored'') fs) (\<lambda>_ fs.
     try_st (create_dir_all (path_join base_path ''meta'') fs) (\<lambda>_ fs.
     try_st (discover_next_id base_path fs) (\<lambda>next_id fs.
       (Inr \<lparr>hb_base_path = base_path, hb_max_size_bytes = max_size_gb * 1024 * 1024 * 1024,
             hb_next_id = next_id, hb_fs = fs\<rparr>, fs)))))"

definition hdd_read_xattrs :: "json \<Rightarrow> u64 \<Rightarrow> hdd_backend \<Rightarrow> (string + cache_xattrs) \<times> hdd_backend" where
  "hdd_read_xattrs j i b =
     try_st (with_fs (file_read (meta_path b i)) b) (\<lambda>raw b.
       case from_slice j raw of Inl err \<Rightarrow> (Inl err, b) | Inr x \<Rightarrow> (Inr (from_json x), b))"

definition hdd_write :: "json \<Rightarrow> string \<Rightarrow> bytes \<Rightarrow> cache_xattrs \<Rightarrow> hdd_backend \<Rightarrow> (string + u64) \<times> hdd_backend" where
  "hdd_write j key data xattrs b =
     (let i = hb_next_id b; b = b\<lparr>hb_next_id := i + 1\<rparr>
      in try_st (with_fs (file_write (data_path b i (xa_category xattrs)) data) b) (\<lambda>_ b.
           case to_vec j (to_json xattrs) of
             Inl err \<Rightarrow> (Inl err, b)
           | Inr raw \<Rightarrow> try_st (with_fs (file_write (meta_path b i) raw) b) (\<lambda>_ b. (Inr i, b))))"

definition hdd_read :: "json \<Rightarrow> u64 \<Rightarrow> hdd_backend \<Rightarrow> (string + bytes) \<times> hdd_backend" where
  "hdd_read j i b =
     try_st (hdd_read_xattrs j i b) (\<lambda>x b. with_fs (file_read (data_path b i (xa_category x))) b)"

definition hdd_delete :: "json \<Rightarrow> u64 \<Rightarrow> hdd_backend \<Rightarrow> (string + unit) \<times> hdd_backend" where
  "hdd_delete j i b =
     try_st (hdd_read_xattrs j i b) (\<lambda>x b.
       let (_, b) = with_fs (remove_file (data_path b i (xa_category x))) b;
           (_, b) = with_fs (remove_file (meta_path b i)) b
       in (Inr (), b))"

fun hdd_list_names ::
  "json \<Rightarrow> string list \<Rightarrow> (u64 \<times> cache_xattrs) list \<Rightarrow> hdd_backend \<Rightarrow> (u64 \<times> cache_xattrs) list \<times> hdd_backend" where
  "hdd_list_names j [] out b = (out, b)"
| "hdd_list_names j (name # names) out b =
     (case json_id name of
        None \<Rightarrow> hdd_list_names j names out b
      | Some i \<Rightarrow>
          (case hdd_read_xattrs j i b of
             (Inl _, b) \<Rightarrow> hdd_list_names j names out b
           | (Inr x, b) \<Rightarrow> hdd_list_names j names (out @ [(i, x)]) b))"

definition hdd_list_all :: "json \<Rightarrow> hdd_backend \<Rightarrow> (string + (u64 \<times> cache_xattrs) list) \<times> hdd_backend" where
  "hdd_list_all j b =
     try_st (with_fs (read_dir (path_join (hb_base_path b) ''meta'')) b) (\<lambda>names b.
       case hdd_list_names j names [] b of (out, b) \<Rightarrow> (Inr out, b))"

definition hdd_available_bytes :: "json \<Rightarrow> hdd_backend \<Rightarrow> (string + u64) \<times> hdd_backend" where
  "hdd_available_bytes j b =
     try_st (hdd_list_all j b) (\<lambda>all b.
       (Inr (sat_sub (hb_max_size_bytes b) (sum_list (map (\<lambda>(_, x). xa_size x) all))), b))"

definition hdd_ops :: "json \<Rightarrow> hdd_backend cache_backend" where
  "hdd_ops j =
     \<lparr>cb_write = hdd_write j, cb_read = hdd_read j, cb_delete = hdd_delete j, cb_read_xattrs = hdd_read_xattrs j,
      cb_list_all = hdd_list_all j, cb_available_bytes = hdd_available_bytes j\<rparr>"

section \<open>The wrapped backend\<close>

record spdk_backend =
  sp_config_file :: string
  sp_bdev_name :: string
  sp_inner :: hdd_backend

definition safe_char :: "char \<Rightarrow> bool" where
  "safe_char ch \<longleftrightarrow>
     (let n = (of_char ch :: nat)
      in 97 \<le> n \<and> n \<le> 122 \<or> 65 \<le> n \<and> n \<le> 90 \<or> 48 \<le> n \<and> n \<le> 57) \<or> ch \<in> {CHR ''-'', CHR ''_'', CHR ''.''}"

definition sanitize_bdev_name :: "string \<Rightarrow> string" where
  "sanitize_bdev_name name = map (\<lambda>ch. if safe_char ch then ch else CHR ''_'') name"

definition spdk_new :: "string \<Rightarrow> string \<Rightarrow> u64 \<Rightarrow> file_system \<Rightarrow> (string + spdk_backend) \<times> file_system" where
  "spdk_new config_file bdev_name max_size_gb fs =
     try_st (hdd_new (path_join (path_join config_file ''spdk'') (sanitize_bdev_name bdev_name)) max_size_gb fs)
       (\<lambda>inner fs. (Inr \<lparr>sp_config_file = config_file, sp_bdev_name = bdev_name, sp_inner = inner\<rparr>, fs))"

definition on_inner :: "(hdd_backend \<Rightarrow> (string + 'a) \<times> hdd_backend) \<Rightarrow> spdk_backend \<Rightarrow> (string + 'a) \<times> spdk_backend" where
  "on_inner f b = (case f (sp_inner b) of (r, h) \<Rightarrow> (r, b\<lparr>sp_inner := h\<rparr>))"

definition spdk_ops :: "json \<Rightarrow> spdk_backend cache_backend" where
  "spdk_ops j =
     \<lparr>cb_write = (\<lambda>cache_key data xattrs. on_inner (hdd_write j cache_key data xattrs)),
      cb_read = (\<lambda>storage_id. on_inner (hdd_read j storage_id)),
      cb_delete = (\<lambda>storage_id. on_inner (hdd_delete j storage_id)),
      cb_read_xattrs = (\<lambda>storage_id. on_inner (hdd_read_xattrs j storage_id)),
      cb_list_all = on_inner (hdd_list_all j), cb_available_bytes = on_inner (hdd_available_bytes j)\<rparr>"

section \<open>Files and their paths\<close>

lemma next_fault_frame: "next_fault fs = (f, fs') \<Longrightarrow> fs_files fs' = fs_files fs"
  by (auto simp: next_fault_def split: list.splits)

lemma file_read_frame:
  "file_read p fs = (r, fs') \<Longrightarrow> fs_files fs' = fs_files fs \<and> (\<forall>d. r = Inr d \<longrightarrow> hm_get (fs_files fs) p = Some d)"
  by (auto simp: file_read_def split: prod.splits option.splits dest!: next_fault_frame)

lemma file_write_frame:
  "file_write p data fs = (r, fs') \<Longrightarrow>
     (\<forall>q. q \<noteq> p \<longrightarrow> hm_get (fs_files fs') q = hm_get (fs_files fs) q) \<and>
     (\<forall>u. r = Inr u \<longrightarrow> hm_get (fs_files fs') p = Some data)"
  by (auto simp: file_write_def split: prod.splits option.splits fault.splits dest!: next_fault_frame)

lemma remove_file_frame:
  "remove_file p fs = (r, fs') \<Longrightarrow>
     (\<forall>q. q \<noteq> p \<longrightarrow> hm_get (fs_files fs') q = hm_get (fs_files fs) q) \<and>
     hm_get (fs_files fs') p \<in> {hm_get (fs_files fs) p, None}"
  by (auto simp: remove_file_def split: prod.splits option.splits if_splits dest!: next_fault_frame)

definition path_root :: "string \<Rightarrow> string" where
  "path_root p = (if p = [] \<or> last p = CHR ''/'' then p else p @ ''/'')"

lemma path_join_root: "path_join p q = path_root p @ q"
  by (simp add: path_join_def path_root_def)

lemma data_path_eq:
  "data_path b i cat =
     path_root (hb_base_path b) @ (case cat of Staging \<Rightarrow> ''staging/'' | Restored \<Rightarrow> ''restored/'') @ show_word i @ ''.dat''"
  by (cases cat) (simp_all add: data_path_def path_join_root, simp_all add: path_root_def)

lemma meta_path_eq: "meta_path b i = path_root (hb_base_path b) @ ''meta/'' @ show_word i @ ''.json''"
  by (simp add: meta_path_def path_join_root) (simp add: path_root_def)

lemma show_word_inject [simp]: "show_word a = show_word b \<longleftrightarrow> a = b"
  by (simp add: nat_to_string_inject word_unat_eq_iff)

lemma data_path_inject: "data_path b i c = data_path b i' c' \<longleftrightarrow> i = i' \<and> c = c'"
  by (cases c; cases c') (auto simp: data_path_eq)

lemma meta_path_inject: "meta_path b i = meta_path b i' \<longleftrightarrow> i = i'"
  by (auto simp: meta_path_eq)

lemma data_path_meta_path [simp]: "data_path b i c \<noteq> meta_path b i'" "meta_path b i' \<noteq> data_path b i c"
  by (cases c; simp add: data_path_eq meta_path_eq)+

lemma paths_frame [simp]:
  "data_path (b\<lparr>hb_fs := fs\<rparr>) = data_path b" "meta_path (b\<lparr>hb_fs := fs\<rparr>) = meta_path b"
  "data_path (b\<lparr>hb_next_id := n\<rparr>) = data_path b" "meta_path (b\<lparr>hb_next_id := n\<rparr>) = meta_path b"
  by (auto simp: data_path_def meta_path_def fun_eq_iff)

lemma from_json_to_json [simp]: "from_json (to_json x) = x"
  by (cases "xa_category x") (auto simp: from_json_def to_json_def)

section \<open>What a backend stores\<close>

text \<open>
  The contract of the interface. \<open>store\<close> is the table of the stored objects. A read that
  returns gives the stored data. A write that returns has stored its data under an id that
  was free; one that fails has touched no stored object. A deletion that fails has deleted
  nothing, and no deletion touches another object.
\<close>

locale object_store =
  fixes be :: "'b cache_backend"
    and inv :: "'b \<Rightarrow> bool"
    and room :: "'b \<Rightarrow> nat"
    and store :: "'b \<Rightarrow> u64 \<Rightarrow> (bytes \<times> cache_xattrs) option"
  assumes write_law: "inv b \<Longrightarrow> 0 < room b \<Longrightarrow> cb_write be k d x b = (written, b') \<Longrightarrow>
      inv b' \<and> room b \<le> room b' + 1 \<and>
      (case written of Inl e \<Rightarrow> store b \<subseteq>\<^sub>m store b'
       | Inr i \<Rightarrow> store b i = None \<and> store b' = (store b)(i \<mapsto> (d, x)))"
    and read_law: "inv b \<Longrightarrow> cb_read be i b = (got, b') \<Longrightarrow> inv b' \<and> room b' = room b \<and> store b' = store b \<and>
      (\<forall>d. got = Inr d \<longrightarrow> (\<exists>x. store b i = Some (d, x)))"
    and delete_law: "inv b \<Longrightarrow> cb_delete be i b = (deleted, b') \<Longrightarrow> inv b' \<and> room b' = room b \<and>
      (case deleted of Inl e \<Rightarrow> store b' = store b
       | Inr u \<Rightarrow> store b' \<in> {store b, (store b)(i := None)})"
    and available_law: "inv b \<Longrightarrow> cb_available_bytes be b = (bytes, b') \<Longrightarrow>
      inv b' \<and> room b' = room b \<and> store b' = store b"

text \<open>The objects of the directory backend: a readable attribute file with its data file.\<close>

definition json_laws :: "json \<Rightarrow> bool" where
  "json_laws j \<longleftrightarrow> (\<forall>x. \<exists>raw. to_vec j x = Inr raw \<and> from_slice j raw = Inr x)"

definition stored_xattrs :: "json \<Rightarrow> hdd_backend \<Rightarrow> u64 \<Rightarrow> cache_xattrs option" where
  "stored_xattrs j b i =
     (case hm_get (fs_files (hb_fs b)) (meta_path b i) of
        None \<Rightarrow> None
      | Some raw \<Rightarrow> (case from_slice j raw of Inl _ \<Rightarrow> None | Inr x \<Rightarrow> Some (from_json x)))"

definition hdd_store :: "json \<Rightarrow> hdd_backend \<Rightarrow> u64 \<Rightarrow> (bytes \<times> cache_xattrs) option" where
  "hdd_store j b i =
     (case stored_xattrs j b i of
        None \<Rightarrow> None
      | Some x \<Rightarrow> map_option (\<lambda>d. (d, x)) (hm_get (fs_files (hb_fs b)) (data_path b i (xa_category x))))"

definition hdd_inv :: "json \<Rightarrow> hdd_backend \<Rightarrow> bool" where
  "hdd_inv j b \<longleftrightarrow> json_laws j \<and> (\<forall>i. hb_next_id b \<le> i \<longrightarrow> hm_get (fs_files (hb_fs b)) (meta_path b i) = None)"

definition hdd_room :: "hdd_backend \<Rightarrow> nat" where
  "hdd_room b = unat (- 1 - hb_next_id b)"

text \<open>Two backends with the same files and paths store the same objects.\<close>

definition same_files :: "hdd_backend \<Rightarrow> hdd_backend \<Rightarrow> bool" where
  "same_files b b' \<longleftrightarrow> hb_base_path b' = hb_base_path b \<and> hb_next_id b' = hb_next_id b \<and>
     fs_files (hb_fs b') = fs_files (hb_fs b)"

lemma same_files_paths:
  assumes "hb_base_path b' = hb_base_path b"
  shows "data_path b' = data_path b" "meta_path b' = meta_path b"
  using assms by (auto simp: data_path_def meta_path_def fun_eq_iff)

lemma same_files_store:
  assumes "same_files b b'"
  shows "stored_xattrs j b' = stored_xattrs j b" "hdd_store j b' = hdd_store j b" "hdd_inv j b' = hdd_inv j b"
    "hdd_room b' = hdd_room b"
proof -
  have eqs: "data_path b' = data_path b" "meta_path b' = meta_path b" "fs_files (hb_fs b') = fs_files (hb_fs b)"
    "hb_next_id b' = hb_next_id b"
    using assms same_files_paths [of b' b] by (simp_all add: same_files_def)
  show x: "stored_xattrs j b' = stored_xattrs j b" unfolding stored_xattrs_def eqs ..
  show "hdd_store j b' = hdd_store j b" unfolding hdd_store_def x eqs ..
  show "hdd_inv j b' = hdd_inv j b" "hdd_room b' = hdd_room b" unfolding hdd_inv_def hdd_room_def eqs by (rule refl)+
qed

lemma same_files_refl [simp]: "same_files b b"
  by (simp add: same_files_def)

lemma same_files_trans: "same_files b c \<Longrightarrow> same_files c d \<Longrightarrow> same_files b d"
  by (simp add: same_files_def)

lemma with_fs_read: "with_fs (file_read p) b = (r, b') \<Longrightarrow> same_files b b' \<and>
    (\<forall>d. r = Inr d \<longrightarrow> hm_get (fs_files (hb_fs b)) p = Some d)"
  by (auto simp: with_fs_def same_files_def split: prod.splits dest!: file_read_frame)

lemma hdd_read_xattrs_frame:
  "hdd_read_xattrs j i b = (r, b') \<Longrightarrow> same_files b b' \<and> (\<forall>x. r = Inr x \<longrightarrow> stored_xattrs j b i = Some x)"
  unfolding hdd_read_xattrs_def
  by (elim try_st_cases) (auto dest!: with_fs_read simp: stored_xattrs_def split: sum.splits)

lemma hdd_list_names_frame: "same_files b (snd (hdd_list_names j names out b))"
proof (induction j names out b rule: hdd_list_names.induct)
  case (2 j name names out b)
  show ?case
  proof (cases "json_id name")
    case None
    with 2 show ?thesis by simp
  next
    case (Some i)
    obtain r b' where r: "hdd_read_xattrs j i b = (r, b')" by fastforce
    have "same_files b b'" using hdd_read_xattrs_frame [OF r] by simp
    with 2 Some r show ?thesis by (cases r) (auto intro: same_files_trans)
  qed
qed simp

lemma with_fs_read_dir: "with_fs (read_dir p) b = (r, b') \<Longrightarrow> same_files b b'"
  by (auto simp: with_fs_def same_files_def read_dir_def split: prod.splits option.splits dest!: next_fault_frame)

lemma hdd_list_all_frame: "hdd_list_all j b = (r, b') \<Longrightarrow> same_files b b'"
  unfolding hdd_list_all_def
  using hdd_list_names_frame [of _ j]
  by (elim try_st_cases) (auto dest!: with_fs_read_dir split: prod.splits, metis same_files_trans snd_conv)

lemma hdd_available_bytes_frame: "hdd_available_bytes j b = (r, b') \<Longrightarrow> same_files b b'"
  unfolding hdd_available_bytes_def by (elim try_st_cases) (auto dest!: hdd_list_all_frame)

subsection \<open>The directory backend keeps the contract\<close>

text \<open>A backend whose files differ from another one's only at the paths of one id stores the same other objects.\<close>

lemma hdd_store_other:
  assumes "hb_base_path b' = hb_base_path b" and "i' \<noteq> i"
    and "\<And>q. q \<notin> insert (meta_path b i) (range (data_path b i)) \<Longrightarrow>
      hm_get (fs_files (hb_fs b')) q = hm_get (fs_files (hb_fs b)) q"
  shows "hdd_store j b' i' = hdd_store j b i'"
proof -
  note paths = same_files_paths [OF assms(1)]
  have m: "hm_get (fs_files (hb_fs b')) (meta_path b i') = hm_get (fs_files (hb_fs b)) (meta_path b i')"
    using assms(2) by (intro assms(3)) (auto simp: meta_path_inject)
  have d: "hm_get (fs_files (hb_fs b')) (data_path b i' c) = hm_get (fs_files (hb_fs b)) (data_path b i' c)" for c
    using assms(2) by (intro assms(3)) (auto simp: data_path_inject)
  show ?thesis unfolding hdd_store_def stored_xattrs_def paths m d ..
qed

lemma hdd_inv_le:
  assumes "hdd_inv j b" and "hb_base_path b' = hb_base_path b" and "hb_next_id b \<le> hb_next_id b'"
    and "\<And>i. hb_next_id b' \<le> i \<Longrightarrow> hm_get (fs_files (hb_fs b')) (meta_path b i) \<noteq> None \<Longrightarrow>
      hm_get (fs_files (hb_fs b)) (meta_path b i) \<noteq> None"
  shows "hdd_inv j b'"
  using assms same_files_paths [OF assms(2)] unfolding hdd_inv_def by (metis order.trans)

lemma word_less_add_one: "w < w + 1" if "w \<noteq> - 1" for w :: u64
proof -
  have "unat w \<noteq> unat (- 1 :: u64)" using that by (simp add: word_unat_eq_iff)
  with unat_u64_less [of w] have "unat w + 1 < 2 ^ 64"
    by (simp add: unsigned_minus_1_eq_mask mask_eq_exp_minus_1)
  then show ?thesis by (simp add: word_less_nat_alt unat_word_ariths)
qed

lemma unat_succ_le: "unat (w + 1) \<le> unat w + 1" for w :: u64
  by (simp add: unat_word_ariths mod_Suc)

lemma hdd_write_law:
  assumes "hdd_inv j b" and "0 < hdd_room b" and "hdd_write j k d x b = (r, b')"
  shows "hdd_inv j b' \<and> hdd_room b \<le> hdd_room b' + 1 \<and> (case r of Inl e \<Rightarrow> hdd_store j b \<subseteq>\<^sub>m hdd_store j b'
     | Inr i \<Rightarrow> hdd_store j b i = None \<and> hdd_store j b' = (hdd_store j b)(i \<mapsto> (d, x)))"
proof -
  let ?i = "hb_next_id b" and ?b1 = "b\<lparr>hb_next_id := hb_next_id b + 1\<rparr>"
  let ?D = "data_path b ?i (xa_category x)" and ?M = "meta_path b ?i"
  have lt: "?i < ?i + 1" using assms(2) by (intro word_less_add_one) (auto simp: hdd_room_def)
  have none: "hm_get (fs_files (hb_fs b)) (meta_path b i) = None" if "?i \<le> i" for i
    using assms(1) that by (simp add: hdd_inv_def)
  obtain raw where raw: "to_vec j (to_json x) = Inr raw" "from_slice j raw = Inr (to_json x)"
    using assms(1) unfolding hdd_inv_def json_laws_def by blast
  obtain r1 fs1 where w1: "file_write ?D d (hb_fs b) = (r1, fs1)" by fastforce
  obtain r2 fs2 where w2: "file_write ?M raw fs1 = (r2, fs2)" by fastforce
  note f1 = file_write_frame [OF w1] and f2 = file_write_frame [OF w2]
  have b': "(r, b') = (case r1 of Inl e \<Rightarrow> (Inl e, ?b1\<lparr>hb_fs := fs1\<rparr>)
      | Inr _ \<Rightarrow> (case r2 of Inl e \<Rightarrow> (Inl e, ?b1\<lparr>hb_fs := fs2\<rparr>) | Inr _ \<Rightarrow> (Inr ?i, ?b1\<lparr>hb_fs := fs2\<rparr>)))"
    using assms(3) w1 w2 raw
    by (cases r1; cases r2) (simp_all add: hdd_write_def with_fs_def Let_def)
  then have base: "hb_base_path b' = hb_base_path b" "hb_next_id b' = ?i + 1"
    and files: "hb_fs b' \<in> {fs1, fs2}"
    by (auto split: sum.splits)
  have others: "hm_get (fs_files (hb_fs b')) q = hm_get (fs_files (hb_fs b)) q"
    if "q \<noteq> ?M" "q \<noteq> ?D" for q
    using files f1 f2 that by auto
  have inv: "hdd_inv j b'"
  proof (rule hdd_inv_le [OF assms(1) base(1)])
    show "hb_next_id b \<le> hb_next_id b'" using lt base(2) by simp
  next
    fix i assume i: "hb_next_id b' \<le> i" "hm_get (fs_files (hb_fs b')) (meta_path b i) \<noteq> None"
    with lt base(2) have "i \<noteq> ?i" by auto
    with others [of "meta_path b i"] i(2) show "hm_get (fs_files (hb_fs b)) (meta_path b i) \<noteq> None"
      by (simp add: meta_path_inject)
  qed
  have "- 1 - ?i = (- 1 - hb_next_id b') + 1" using base(2) by simp
  then have room: "hdd_room b \<le> hdd_room b' + 1"
    unfolding hdd_room_def by (metis unat_succ_le)
  have fresh: "hdd_store j b ?i = None" by (simp add: hdd_store_def stored_xattrs_def none)
  have same: "hdd_store j b' i = hdd_store j b i" if "i \<noteq> ?i" for i
    using that others by (intro hdd_store_other [OF base(1)]) auto
  show ?thesis
  proof (cases r)
    case (Inl e)
    have "hdd_store j b \<subseteq>\<^sub>m hdd_store j b'"
      unfolding map_le_def using fresh same by (metis domIff)
    with Inl inv room show ?thesis by simp
  next
    case (Inr i)
    then have r: "i = ?i" "r1 = Inr ()" "r2 = Inr ()" "hb_fs b' = fs2"
      using b' by (auto split: sum.splits)
    have "hm_get (fs_files fs2) ?M = Some raw" "hm_get (fs_files fs2) ?D = Some d"
      using f1 f2 r by auto
    then have "hdd_store j b' ?i = Some (d, x)"
      using raw(2) r(4) same_files_paths [OF base(1)] by (simp add: hdd_store_def stored_xattrs_def)
    with fresh same r(1) Inr inv room show ?thesis by (auto simp: fun_eq_iff)
  qed
qed

lemma hdd_read_law:
  assumes "hdd_inv j b" and "hdd_read j i b = (r, b')"
  shows "hdd_inv j b' \<and> hdd_room b' = hdd_room b \<and> hdd_store j b' = hdd_store j b \<and>
     (\<forall>d. r = Inr d \<longrightarrow> (\<exists>x. hdd_store j b i = Some (d, x)))"
proof -
  have *: "same_files b b' \<and> (\<forall>d. r = Inr d \<longrightarrow> (\<exists>x. hdd_store j b i = Some (d, x)))"
    using assms(2) unfolding hdd_read_def
  proof (cases rule: try_st_cases)
    case (1 e)
    with hdd_read_xattrs_frame show ?thesis by blast
  next
    case (2 x b1)
    note f = hdd_read_xattrs_frame [OF 2(1)]
    then have "data_path b1 = data_path b" "fs_files (hb_fs b1) = fs_files (hb_fs b)"
      by (auto simp: same_files_def dest: same_files_paths)
    with with_fs_read [OF 2(2)] f show ?thesis
      by (auto simp: hdd_store_def intro: same_files_trans)
  qed
  with same_files_store [of b b'] assms(1) show ?thesis by simp
qed

lemma hdd_delete_law:
  assumes "hdd_inv j b" and "hdd_delete j i b = (r, b')"
  shows "hdd_inv j b' \<and> hdd_room b' = hdd_room b \<and>
     (case r of Inl e \<Rightarrow> hdd_store j b' = hdd_store j b
      | Inr u \<Rightarrow> hdd_store j b' \<in> {hdd_store j b, (hdd_store j b)(i := None)})"
  using assms(2) unfolding hdd_delete_def
proof (cases rule: try_st_cases)
  case (1 e)
  with hdd_read_xattrs_frame same_files_store [of b b'] assms(1) show ?thesis by (auto dest!: hdd_read_xattrs_frame)
next
  case (2 x b1)
  note f = hdd_read_xattrs_frame [OF 2(1)]
  then have x: "stored_xattrs j b i = Some x" and sf: "same_files b b1" by auto
  let ?D = "data_path b i (xa_category x)" and ?M = "meta_path b i"
  have paths: "data_path b1 = data_path b" "meta_path b1 = meta_path b"
    using sf by (auto simp: same_files_def dest: same_files_paths)
  obtain r1 fs1 where w1: "remove_file ?D (hb_fs b1) = (r1, fs1)" by fastforce
  obtain r2 fs2 where w2: "remove_file ?M fs1 = (r2, fs2)" by fastforce
  have b': "r = Inr ()" "b' = b1\<lparr>hb_fs := fs2\<rparr>"
    using 2(2) w1 w2 paths by (simp_all add: with_fs_def)
  have files: "fs_files (hb_fs b1) = fs_files (hb_fs b)" "hb_base_path b' = hb_base_path b" "hb_next_id b' = hb_next_id b"
    using sf b' by (auto simp: same_files_def)
  note g1 = remove_file_frame [OF w1, unfolded files(1)] and g2 = remove_file_frame [OF w2]
  have others: "hm_get (fs_files (hb_fs b')) q = hm_get (fs_files (hb_fs b)) q" if "q \<noteq> ?M" "q \<noteq> ?D" for q
    using g1 g2 that b'(2) by auto
  have less: "hm_get (fs_files (hb_fs b')) q \<in> {hm_get (fs_files (hb_fs b)) q, None}" for q
    using g1 g2 b'(2) by (cases "q = ?M"; cases "q = ?D") auto
  have "hdd_inv j b'"
  proof (rule hdd_inv_le [OF assms(1) files(2)])
    show "hm_contains_key (fs_files (hb_fs b)) (meta_path b i')"
      if "hm_contains_key (fs_files (hb_fs b')) (meta_path b i')" for i'
      using less [of "meta_path b i'"] that by auto
  qed (simp add: files(3))
  moreover have "hdd_store j b' i' = hdd_store j b i'" if "i' \<noteq> i" for i'
    using that others by (intro hdd_store_other [OF files(2)]) auto
  then have upd: "hdd_store j b' = (hdd_store j b)(i := hdd_store j b' i)" by (auto simp: fun_eq_iff)
  have "hdd_store j b' i \<in> {hdd_store j b i, None}"
  proof (cases "hm_get (fs_files (hb_fs b')) ?M")
    case None
    then show ?thesis using same_files_paths [OF files(2)] by (simp add: hdd_store_def stored_xattrs_def)
  next
    case (Some raw)
    with less [of ?M] have "hm_get (fs_files (hb_fs b)) ?M = Some raw" by auto
    with Some x have "stored_xattrs j b' i = Some x"
      using same_files_paths [OF files(2)] by (simp add: stored_xattrs_def)
    with less [of ?D] x show ?thesis using same_files_paths [OF files(2)] by (auto simp: hdd_store_def)
  qed
  then have "hdd_store j b' \<in> {hdd_store j b, (hdd_store j b)(i := None)}"
    using upd by (metis fun_upd_triv insert_iff singletonD)
  ultimately show ?thesis using b'(1) files(3) by (simp add: hdd_room_def)
qed

interpretation hdd: object_store "hdd_ops j" "hdd_inv j" hdd_room "hdd_store j" for j
proof unfold_locales
  show "hdd_inv j b \<Longrightarrow> 0 < hdd_room b \<Longrightarrow> cb_write (hdd_ops j) k d x b = (written, b') \<Longrightarrow>
      hdd_inv j b' \<and> hdd_room b \<le> hdd_room b' + 1 \<and>
      (case written of Inl e \<Rightarrow> hdd_store j b \<subseteq>\<^sub>m hdd_store j b'
       | Inr i \<Rightarrow> hdd_store j b i = None \<and> hdd_store j b' = (hdd_store j b)(i \<mapsto> (d, x)))" for b k d x written b'
    using hdd_write_law [of j b k d x written b'] by (simp add: hdd_ops_def)
  show "hdd_inv j b \<Longrightarrow> cb_read (hdd_ops j) i b = (got, b') \<Longrightarrow> hdd_inv j b' \<and> hdd_room b' = hdd_room b \<and>
      hdd_store j b' = hdd_store j b \<and> (\<forall>d. got = Inr d \<longrightarrow> (\<exists>x. hdd_store j b i = Some (d, x)))" for b i got b'
    by (simp add: hdd_ops_def hdd_read_law)
  show "hdd_inv j b \<Longrightarrow> cb_delete (hdd_ops j) i b = (deleted, b') \<Longrightarrow> hdd_inv j b' \<and> hdd_room b' = hdd_room b \<and>
      (case deleted of Inl e \<Rightarrow> hdd_store j b' = hdd_store j b
       | Inr u \<Rightarrow> hdd_store j b' \<in> {hdd_store j b, (hdd_store j b)(i := None)})" for b i deleted b'
    by (simp add: hdd_ops_def hdd_delete_law)
  show "hdd_inv j b \<Longrightarrow> cb_available_bytes (hdd_ops j) b = (bytes, b') \<Longrightarrow> hdd_inv j b' \<and> hdd_room b' = hdd_room b \<and>
      hdd_store j b' = hdd_store j b" for b bytes b'
    using hdd_available_bytes_frame [of j b bytes b'] same_files_store [of b b'] by (simp add: hdd_ops_def)
qed

text \<open>The wrapped backend keeps it as well.\<close>

lemma on_inner_inner: "on_inner f b = (r, b') \<Longrightarrow> f (sp_inner b) = (r, sp_inner b')"
  by (auto simp: on_inner_def split: prod.splits)

lemma spdk_ops_inner:
  "cb_write (spdk_ops j) k d x b = (written, b') \<Longrightarrow> cb_write (hdd_ops j) k d x (sp_inner b) = (written, sp_inner b')"
  "cb_read (spdk_ops j) i b = (got, b') \<Longrightarrow> cb_read (hdd_ops j) i (sp_inner b) = (got, sp_inner b')"
  "cb_delete (spdk_ops j) i b = (deleted, b') \<Longrightarrow> cb_delete (hdd_ops j) i (sp_inner b) = (deleted, sp_inner b')"
  "cb_available_bytes (spdk_ops j) b = (bytes, b') \<Longrightarrow> cb_available_bytes (hdd_ops j) (sp_inner b) = (bytes, sp_inner b')"
  by (simp_all add: spdk_ops_def hdd_ops_def on_inner_inner)

interpretation spdk: object_store "spdk_ops j" "\<lambda>b. hdd_inv j (sp_inner b)" "\<lambda>b. hdd_room (sp_inner b)"
  "\<lambda>b. hdd_store j (sp_inner b)" for j
  by unfold_locales
    (fact hdd.write_law [OF _ _ spdk_ops_inner(1)] hdd.read_law [OF _ spdk_ops_inner(2)]
      hdd.delete_law [OF _ spdk_ops_inner(3)] hdd.available_law [OF _ spdk_ops_inner(4)])+

subsection \<open>A new backend\<close>

lemma foldl_max_ge:
  fixes f :: "'a \<Rightarrow> u64 option"
  shows "m \<le> foldl (\<lambda>mx x. case f x of None \<Rightarrow> mx | Some i \<Rightarrow> max mx i) m xs"
    and "x \<in> set xs \<Longrightarrow> f x = Some i \<Longrightarrow> i \<le> foldl (\<lambda>mx x. case f x of None \<Rightarrow> mx | Some i \<Rightarrow> max mx i) m xs"
proof (induction xs arbitrary: m)
  case (Cons y xs)
  { case 1
    show ?case using Cons.IH(1) by (auto split: option.splits intro: order.trans max.cobounded1)
  next
    case 2
    show ?case
    proof (cases "x \<in> set xs")
      case True
      with 2(2) Cons.IH(2) show ?thesis by simp
    next
      case False
      with 2 have "f y = Some i" by simp
      then show ?thesis using Cons.IH(1) [of "max m i"] by simp
    qed
  }
qed simp_all

lemma foldl_max_in:
  fixes f :: "'a \<Rightarrow> u64 option"
  shows "foldl (\<lambda>mx x. case f x of None \<Rightarrow> mx | Some i \<Rightarrow> max mx i) m xs \<in> insert m {i. \<exists>x \<in> set xs. f x = Some i}"
  by (induction xs rule: rev_induct) (auto split: option.splits simp: max_def)

lemma json_id_show [simp]: "json_id (show_word i @ ''.json'') = Some i"
  by (simp add: json_id_def strip_suffix_def strip_prefix_def starts_with_def)

lemma dir_names_files: "fs_files fs' = fs_files fs \<Longrightarrow> dir_names dir fs' = dir_names dir fs"
  by (simp add: dir_names_def)

lemma dir_names_mem:
  assumes "dir @ ''/'' @ name \<in> set (hm_keys (fs_files fs))" and "CHR ''/'' \<notin> set name"
  shows "name \<in> set (dir_names dir fs)"
proof -
  have "strip_prefix (dir @ ''/'') (dir @ ''/'' @ name) = Some name"
    using strip_prefix_append [of "dir @ ''/''" name] by simp
  with assms(1) have "name \<in> set (List.map_filter (strip_prefix (dir @ ''/'')) (hm_keys (fs_files fs)))"
    unfolding List.map_filter_def by force
  with assms(2) show ?thesis by (simp add: dir_names_def)
qed

lemma discover_next_id_Inr:
  assumes "discover_next_id base fs = (Inr n, fs')"
  shows "n = foldl (\<lambda>mx name. case json_id name of None \<Rightarrow> mx | Some i \<Rightarrow> max mx i) 0
      (dir_names (path_join base ''meta'') fs) + 1 \<and> fs_files fs' = fs_files fs"
proof -
  obtain names where r: "read_dir (path_join base ''meta'') fs = (Inr names, fs')"
    and n: "n = foldl (\<lambda>mx name. case json_id name of None \<Rightarrow> mx | Some i \<Rightarrow> max mx i) 0 names + 1"
    using assms by (auto simp: discover_next_id_def try_st_Inr)
  obtain f where f: "next_fault fs = (f, fs')" "f = None" "names = dir_names (path_join base ''meta'') fs'"
    using r by (auto simp: read_dir_def split: prod.splits option.splits)
  with n dir_names_files [OF next_fault_frame [OF f(1)]] next_fault_frame [OF f(1)] show ?thesis by simp
qed

lemma create_dir_all_files: "create_dir_all p fs = (r, fs') \<Longrightarrow> fs_files fs' = fs_files fs"
  by (auto simp: create_dir_all_def split: prod.splits option.splits dest!: next_fault_frame)

text \<open>A new backend hands out ids behind every attribute file it finds.\<close>

lemma hdd_new_inv:
  assumes "hdd_new base gb fs = (Inr b, fs')" and "json_laws j"
    and "\<And>name. name \<in> set (dir_names (path_join base ''meta'') fs) \<Longrightarrow> json_id name \<noteq> Some (- 1)"
  shows "hdd_inv j b"
proof -
  let ?names = "dir_names (path_join base ''meta'') fs"
  let ?max = "foldl (\<lambda>mx name. case json_id name of None \<Rightarrow> mx | Some i \<Rightarrow> max mx i) 0 ?names"
  obtain fs1 where d: "discover_next_id base fs1 = (Inr (hb_next_id b), fs')"
    and b: "hb_base_path b = base" "fs_files fs1 = fs_files fs" "hb_fs b = fs'"
    using assms(1) by (auto simp: hdd_new_def try_st_Inr dest!: create_dir_all_files)
  have nx: "hb_next_id b = ?max + 1" and files: "fs_files fs' = fs_files fs"
    using discover_next_id_Inr [OF d] b(2) dir_names_files [OF b(2)] by simp_all
  have max: "?max \<noteq> - 1"
    using foldl_max_in [of json_id 0 ?names] assms(3) by fastforce
  have below: "i \<le> ?max" if "hm_get (fs_files fs) (meta_path b i) \<noteq> None" for i
  proof -
    have "path_join base ''meta'' @ ''/'' @ show_word i @ ''.json'' = meta_path b i"
      by (simp add: meta_path_eq b(1) path_join_root)
    then have "path_join base ''meta'' @ ''/'' @ show_word i @ ''.json'' \<in> set (hm_keys (fs_files fs))"
      using that by (simp add: map_of_eq_None_iff)
    moreover have "CHR ''/'' \<notin> set (show_word i @ ''.json'')"
      using nat_to_string_digits [of "unat i"] by (auto simp: list_all_iff is_ascii_digit_def)
    ultimately have "show_word i @ ''.json'' \<in> set ?names" by (rule dir_names_mem)
    then show ?thesis by (rule foldl_max_ge(2) [where f = json_id]) (rule json_id_show)
  qed
  have "hm_get (fs_files fs) (meta_path b i) = None" if i: "hb_next_id b \<le> i" for i
  proof (rule ccontr)
    assume "hm_get (fs_files fs) (meta_path b i) \<noteq> None"
    from below [OF this] have "i < hb_next_id b"
      unfolding nx using word_less_add_one [OF max] by (rule le_less_trans)
    with i show False by simp
  qed
  with assms(2) b(3) files show ?thesis by (simp add: hdd_inv_def)
qed

end
