(* ===== verification/Common_Proto.thy ===== *)
theory Common_Proto
  imports Rust_Strings
begin

text \<open>
  The messages the services exchange (\<open>crates/proto/proto/common.proto\<close> and the requests
  of \<open>metadata.proto\<close>) and the status enumerations of \<open>crates/common/src/models.rs\<close>.
  A message is a record with one field per field of the message, prefixed by the message's
  initials; an \<open>optional\<close> field and a sub-message are options, as in the generated structs; a
  field of an enumeration type is the 32-bit integer that travels, and \<open><enum>_try_from\<close> is
  the generated conversion, which fails on a number the enumeration does not have.
\<close>

section \<open>Enumerations\<close>

datatype storage_class = StorageClassUnspecified | ColdPending | Cold

datatype restore_status =
    RestoreUnspecified | RestorePending | RestoreWaitingForMedia | RestoreInProgress
  | RestoreCompleted | RestoreExpired | RestoreFailed

datatype restore_tier = TierUnspecified | Expedited | Standard | Bulk

datatype tape_status =
  TapeStatusUnspecified | TapeOnline | TapeOffline | TapeError | TapeRetired | TapeUnknown

datatype drive_status =
    DriveStatusUnspecified | DriveIdle | DriveInUse | DriveLoading | DriveUnloading
  | DriveError | DriveOffline

datatype node_status = NodeStatusUnspecified | NodeOnline | NodeOffline | NodeDraining | NodeMaintenance

datatype worker_type = WorkerTypeUnspecified | WorkerScheduler | WorkerCache | WorkerTape

datatype archive_bundle_status =
  BundleUnspecified | BundlePending | BundleWriting | BundleCompleted | BundleFailed

datatype archive_task_status =
    ArchiveTaskUnspecified | ArchiveTaskPending | ArchiveTaskInProgress
  | ArchiveTaskCompleted | ArchiveTaskFailed

primrec storage_class_i32 :: "storage_class \<Rightarrow> i32" where
  "storage_class_i32 StorageClassUnspecified = 0"
| "storage_class_i32 ColdPending = 1"
| "storage_class_i32 Cold = 2"

primrec restore_status_i32 :: "restore_status \<Rightarrow> i32" where
  "restore_status_i32 RestoreUnspecified = 0"
| "restore_status_i32 RestorePending = 1"
| "restore_status_i32 RestoreWaitingForMedia = 2"
| "restore_status_i32 RestoreInProgress = 3"
| "restore_status_i32 RestoreCompleted = 4"
| "restore_status_i32 RestoreExpired = 5"
| "restore_status_i32 RestoreFailed = 6"

primrec restore_tier_i32 :: "restore_tier \<Rightarrow> i32" where
  "restore_tier_i32 TierUnspecified = 0"
| "restore_tier_i32 Expedited = 1"
| "restore_tier_i32 Standard = 2"
| "restore_tier_i32 Bulk = 3"

primrec tape_status_i32 :: "tape_status \<Rightarrow> i32" where
  "tape_status_i32 TapeStatusUnspecified = 0"
| "tape_status_i32 TapeOnline = 1"
| "tape_status_i32 TapeOffline = 2"
| "tape_status_i32 TapeError = 3"
| "tape_status_i32 TapeRetired = 4"
| "tape_status_i32 TapeUnknown = 5"

primrec drive_status_i32 :: "drive_status \<Rightarrow> i32" where
  "drive_status_i32 DriveStatusUnspecified = 0"
| "drive_status_i32 DriveIdle = 1"
| "drive_status_i32 DriveInUse = 2"
| "drive_status_i32 DriveLoading = 3"
| "drive_status_i32 DriveUnloading = 4"
| "drive_status_i32 DriveError = 5"
| "drive_status_i32 DriveOffline = 6"

primrec node_status_i32 :: "node_status \<Rightarrow> i32" where
  "node_status_i32 NodeStatusUnspecified = 0"
| "node_status_i32 NodeOnline = 1"
| "node_status_i32 NodeOffline = 2"
| "node_status_i32 NodeDraining = 3"
| "node_status_i32 NodeMaintenance = 4"

primrec archive_bundle_status_i32 :: "archive_bundle_status \<Rightarrow> i32" where
  "archive_bundle_status_i32 BundleUnspecified = 0"
| "archive_bundle_status_i32 BundlePending = 1"
| "archive_bundle_status_i32 BundleWriting = 2"
| "archive_bundle_status_i32 BundleCompleted = 3"
| "archive_bundle_status_i32 BundleFailed = 4"

primrec archive_task_status_i32 :: "archive_task_status \<Rightarrow> i32" where
  "archive_task_status_i32 ArchiveTaskUnspecified = 0"
| "archive_task_status_i32 ArchiveTaskPending = 1"
| "archive_task_status_i32 ArchiveTaskInProgress = 2"
| "archive_task_status_i32 ArchiveTaskCompleted = 3"
| "archive_task_status_i32 ArchiveTaskFailed = 4"

primrec worker_type_i32 :: "worker_type \<Rightarrow> i32" where
  "worker_type_i32 WorkerTypeUnspecified = 0"
| "worker_type_i32 WorkerScheduler = 1"
| "worker_type_i32 WorkerCache = 2"
| "worker_type_i32 WorkerTape = 3"

definition restore_status_try_from :: "i32 \<Rightarrow> restore_status option" where
  "restore_status_try_from n =
     List.find (\<lambda>s. restore_status_i32 s = n)
       [RestoreUnspecified, RestorePending, RestoreWaitingForMedia, RestoreInProgress,
        RestoreCompleted, RestoreExpired, RestoreFailed]"

definition archive_bundle_status_try_from :: "i32 \<Rightarrow> archive_bundle_status option" where
  "archive_bundle_status_try_from n =
     List.find (\<lambda>s. archive_bundle_status_i32 s = n)
       [BundleUnspecified, BundlePending, BundleWriting, BundleCompleted, BundleFailed]"

definition archive_task_status_try_from :: "i32 \<Rightarrow> archive_task_status option" where
  "archive_task_status_try_from n =
     List.find (\<lambda>s. archive_task_status_i32 s = n)
       [ArchiveTaskUnspecified, ArchiveTaskPending, ArchiveTaskInProgress, ArchiveTaskCompleted,
        ArchiveTaskFailed]"

definition worker_type_try_from :: "i32 \<Rightarrow> worker_type option" where
  "worker_type_try_from n =
     List.find (\<lambda>s. worker_type_i32 s = n)
       [WorkerTypeUnspecified, WorkerScheduler, WorkerCache, WorkerTape]"

definition storage_class_try_from :: "i32 \<Rightarrow> storage_class option" where
  "storage_class_try_from n =
     List.find (\<lambda>s. storage_class_i32 s = n) [StorageClassUnspecified, ColdPending, Cold]"

definition restore_tier_try_from :: "i32 \<Rightarrow> restore_tier option" where
  "restore_tier_try_from n =
     List.find (\<lambda>t. restore_tier_i32 t = n) [TierUnspecified, Expedited, Standard, Bulk]"

lemma storage_class_try_from_i32 [simp]: "storage_class_try_from (storage_class_i32 s) = Some s"
  by (cases s) (simp_all add: storage_class_try_from_def)

lemma restore_tier_try_from_i32 [simp]: "restore_tier_try_from (restore_tier_i32 t) = Some t"
  by (cases t) (simp_all add: restore_tier_try_from_def)

lemma restore_status_try_from_i32 [simp]: "restore_status_try_from (restore_status_i32 s) = Some s"
  by (cases s) (simp_all add: restore_status_try_from_def)

lemma archive_bundle_status_try_from_i32 [simp]:
  "archive_bundle_status_try_from (archive_bundle_status_i32 s) = Some s"
  by (cases s) (simp_all add: archive_bundle_status_try_from_def)

lemma archive_task_status_try_from_i32 [simp]:
  "archive_task_status_try_from (archive_task_status_i32 s) = Some s"
  by (cases s) (simp_all add: archive_task_status_try_from_def)

lemma worker_type_try_from_i32 [simp]: "worker_type_try_from (worker_type_i32 s) = Some s"
  by (cases s) (simp_all add: worker_type_try_from_def)

lemma restore_status_try_from_SomeD: "restore_status_try_from n = Some s \<Longrightarrow> n = restore_status_i32 s"
  by (auto simp: restore_status_try_from_def split: if_splits)

lemma archive_bundle_status_try_from_SomeD:
  "archive_bundle_status_try_from n = Some s \<Longrightarrow> n = archive_bundle_status_i32 s"
  by (auto simp: archive_bundle_status_try_from_def split: if_splits)

lemma archive_task_status_try_from_SomeD:
  "archive_task_status_try_from n = Some s \<Longrightarrow> n = archive_task_status_i32 s"
  by (auto simp: archive_task_status_try_from_def split: if_splits)

section \<open>Messages\<close>

record timestamp =
  ts_seconds :: i64
  ts_nanos :: i32

record object_metadata =
  om_bucket :: string
  om_key :: string
  om_version_id :: "string option"
  om_size :: u64
  om_checksum :: string
  om_content_type :: "string option"
  om_etag :: "string option"
  om_storage_class :: i32
  om_archive_id :: "string option"
  om_tape_id :: "string option"
  om_tape_set :: "string list"
  om_tape_block_offset :: "u64 option"
  om_restore_status :: "i32 option"
  om_restore_expire_at :: "timestamp option"
  om_created_at :: "timestamp option"
  om_updated_at :: "timestamp option"

record bundle_entry =
  be_bucket :: string
  be_key :: string
  be_version_id :: "string option"
  be_size :: u64
  be_offset_in_bundle :: u64
  be_tape_block_offset :: u64
  be_checksum :: string

record archive_bundle =
  ab_id :: string
  ab_tape_id :: string
  ab_tape_set :: "string list"
  ab_entries :: "bundle_entry list"
  ab_total_size :: u64
  ab_filemark_start :: u32
  ab_filemark_end :: u32
  ab_checksum :: "string option"
  ab_status :: i32
  ab_created_at :: "timestamp option"
  ab_completed_at :: "timestamp option"

record tape_info =
  ti_id :: string
  ti_barcode :: "string option"
  ti_format :: string
  ti_status :: i32
  ti_location :: "string option"
  ti_capacity_bytes :: u64
  ti_used_bytes :: u64
  ti_remaining_bytes :: u64
  ti_archive_bundle_ids :: "string list"
  ti_last_verified_at :: "timestamp option"
  ti_error_count :: u32
  ti_registered_at :: "timestamp option"

record recall_task =
  rt_id :: string
  rt_bucket :: string
  rt_key :: string
  rt_version_id :: "string option"
  rt_archive_id :: string
  rt_tape_id :: string
  rt_tape_set :: "string list"
  rt_tape_block_offset :: u64
  rt_object_size :: u64
  rt_checksum :: string
  rt_tier :: i32
  rt_days :: u32
  rt_expire_at :: "timestamp option"
  rt_status :: i32
  rt_drive_id :: "string option"
  rt_retry_count :: u32
  rt_created_at :: "timestamp option"
  rt_started_at :: "timestamp option"
  rt_completed_at :: "timestamp option"
  rt_error :: "string option"

record archive_task =
  at_id :: string
  at_bundle_id :: string
  at_tape_id :: string
  at_drive_id :: "string option"
  at_object_count :: u32
  at_total_size :: u64
  at_bytes_written :: u64
  at_status :: i32
  at_retry_count :: u32
  at_created_at :: "timestamp option"
  at_started_at :: "timestamp option"
  at_completed_at :: "timestamp option"
  at_error :: "string option"

record bucket_info =
  bi_name :: string
  bi_created_at :: "timestamp option"
  bi_owner :: "string option"
  bi_versioning_enabled :: bool
  bi_object_count :: u64
  bi_total_size :: u64

record scheduler_worker_info =
  sw_node_id :: u64
  sw_addr :: string
  sw_status :: i32
  sw_last_heartbeat :: "timestamp option"
  sw_is_active :: bool
  sw_pending_archive_tasks :: u64
  sw_pending_recall_tasks :: u64
  sw_active_jobs :: u64
  sw_paired_cache_worker_id :: u64

record cache_worker_info =
  cw_node_id :: u64
  cw_addr :: string
  cw_status :: i32
  cw_last_heartbeat :: "timestamp option"
  cw_bdev_name :: string
  cw_total_capacity :: u64
  cw_used_capacity :: u64
  cw_blob_count :: u64
  cw_io_unit_size :: u32

record drive_endpoint =
  de_drive_id :: string
  de_device_path :: string
  de_drive_type :: string
  de_status :: i32
  de_current_tape :: "string option"

record library_endpoint =
  le_device_path :: string
  le_slot_count :: u32
  le_import_export_count :: u32
  le_drive_count :: u32

record tape_worker_info =
  tw_node_id :: u64
  tw_addr :: string
  tw_status :: i32
  tw_last_heartbeat :: "timestamp option"
  tw_drives :: "drive_endpoint list"
  tw_library :: "library_endpoint option"

record metadata_node_info =
  mn_node_id :: u64
  mn_addr :: string
  mn_raft_role :: string
  mn_last_heartbeat :: "timestamp option"
  mn_status :: i32

record cluster_info =
  ci_cluster_id :: string
  ci_metadata_nodes :: "metadata_node_info list"
  ci_scheduler_workers :: "scheduler_worker_info list"
  ci_cache_workers :: "cache_worker_info list"
  ci_tape_workers :: "tape_worker_info list"
  ci_leader_id :: "u64 option"
  ci_term :: u64
  ci_committed_index :: u64

section \<open>The status model of the common crate\<close>

datatype model_restore_status =
  Mr_Pending | Mr_WaitingForMedia | Mr_InProgress | Mr_Completed | Mr_Expired | Mr_Failed

datatype model_bundle_status = Mb_Pending | Mb_Writing | Mb_Completed | Mb_Failed

datatype model_task_status = Mt_Pending | Mt_InProgress | Mt_Completed | Mt_Failed

definition restore_can_transition_to :: "model_restore_status \<Rightarrow> model_restore_status \<Rightarrow> bool" where
  "restore_can_transition_to s t =
     ((s, t) \<in> {(Mr_Pending, Mr_InProgress), (Mr_Pending, Mr_WaitingForMedia), (Mr_Pending, Mr_Failed),
       (Mr_WaitingForMedia, Mr_Pending), (Mr_WaitingForMedia, Mr_Failed),
       (Mr_InProgress, Mr_Completed), (Mr_InProgress, Mr_Failed), (Mr_Completed, Mr_Expired)})"

definition bundle_can_transition_to :: "model_bundle_status \<Rightarrow> model_bundle_status \<Rightarrow> bool" where
  "bundle_can_transition_to s t =
     ((s, t) \<in> {(Mb_Pending, Mb_Writing), (Mb_Writing, Mb_Completed), (Mb_Writing, Mb_Failed),
       (Mb_Failed, Mb_Pending)})"

definition task_can_transition_to :: "model_task_status \<Rightarrow> model_task_status \<Rightarrow> bool" where
  "task_can_transition_to s t =
     ((s, t) \<in> {(Mt_Pending, Mt_InProgress), (Mt_InProgress, Mt_Completed), (Mt_InProgress, Mt_Failed),
       (Mt_Failed, Mt_Pending)})"

end
