(* ===== verification/Config.thy ===== *)
theory Config
  imports Rust_Strings
begin

text \<open>
  The configuration structs of the services and their defaults
  (\<open>crates/common/src/config.rs\<close>). A floating-point field has the type \<open>'f\<close> of the
  reader's floats, and \<open>lit\<close> reads a decimal literal at that type.
\<close>

record gateway_config =
  gc_listen :: string
  gc_scheduler_addrs :: "string list"

definition gateway_config_default :: gateway_config where
  "gateway_config_default =
     \<lparr>gc_listen = ''0.0.0.0:9000'', gc_scheduler_addrs = [''127.0.0.1:22001'']\<rparr>"

datatype metadata_consensus_mode = Standalone | LocalRaft | PersistentRaft

record rocksdb_config =
  rc_max_open_files :: i32
  rc_write_buffer_size_mb :: u64
  rc_max_background_jobs :: i32

record metadata_config =
  mc_node_id :: u64
  mc_listen :: string
  mc_cluster :: string
  mc_data_path :: string
  mc_consensus_mode :: metadata_consensus_mode
  mc_raft_state_path :: "string option"
  mc_rocksdb :: rocksdb_config

definition default_metadata_consensus_mode :: metadata_consensus_mode where
  "default_metadata_consensus_mode = PersistentRaft"

definition metadata_config_default :: metadata_config where
  "metadata_config_default =
     \<lparr>mc_node_id = 1, mc_listen = ''0.0.0.0:21001'', mc_cluster = ''1:127.0.0.1:21001'',
      mc_data_path = ''/var/lib/coldstore/metadata'',
      mc_consensus_mode = default_metadata_consensus_mode, mc_raft_state_path = None,
      mc_rocksdb = \<lparr>rc_max_open_files = 1024, rc_write_buffer_size_mb = 64, rc_max_background_jobs = 4\<rparr>\<rparr>"

record archive_scheduler_config =
  asc_enabled :: bool
  asc_scan_interval_secs :: u64
  asc_batch_size :: usize
  asc_max_workers :: usize
  asc_drive_id :: string
  asc_tape_id :: string
  asc_tape_set :: "string list"
  asc_min_archive_size_mb :: u64
  asc_max_archive_size_mb :: u64
  asc_target_throughput_mbps :: u64
  asc_aggregation_window_secs :: u64
  asc_write_buffer_mb :: u64
  asc_block_size :: u32

record recall_scheduler_config =
  rsc_enabled :: bool
  rsc_scan_interval_secs :: u64
  rsc_max_concurrent_restores :: usize
  rsc_max_workers :: usize
  rsc_merge_window_secs :: u64
  rsc_restore_timeout_secs :: u64
  rsc_read_buffer_mb :: u64
  rsc_drive_id :: string

record scheduler_config =
  sc_node_id :: u64
  sc_listen :: string
  sc_metadata_addrs :: "string list"
  sc_cache_addrs :: "string list"
  sc_tape_addrs :: "string list"
  sc_archive :: archive_scheduler_config
  sc_recall :: recall_scheduler_config

definition default_cache_addrs :: "string list" where
  "default_cache_addrs = [''127.0.0.1:23001'']"

definition default_tape_addrs :: "string list" where
  "default_tape_addrs = [''127.0.0.1:24001'']"

definition default_recall_scan_interval_secs :: u64 where
  "default_recall_scan_interval_secs = 60"

definition default_scheduler_drive_id :: string where
  "default_scheduler_drive_id = ''drive-0''"

definition default_scheduler_tape_id :: string where
  "default_scheduler_tape_id = ''TAPE0001''"

definition default_scheduler_tape_set :: "string list" where
  "default_scheduler_tape_set = [default_scheduler_tape_id]"

definition scheduler_config_default :: scheduler_config where
  "scheduler_config_default =
     \<lparr>sc_node_id = 1, sc_listen = ''0.0.0.0:22001'', sc_metadata_addrs = [''127.0.0.1:21001''],
      sc_cache_addrs = default_cache_addrs, sc_tape_addrs = default_tape_addrs,
      sc_archive =
        \<lparr>asc_enabled = True, asc_scan_interval_secs = 60, asc_batch_size = 1000, asc_max_workers = 1,
         asc_drive_id = default_scheduler_drive_id, asc_tape_id = default_scheduler_tape_id,
         asc_tape_set = default_scheduler_tape_set, asc_min_archive_size_mb = 100,
         asc_max_archive_size_mb = 10240, asc_target_throughput_mbps = 300,
         asc_aggregation_window_secs = 300, asc_write_buffer_mb = 128, asc_block_size = 262144\<rparr>,
      sc_recall =
        \<lparr>rsc_enabled = True, rsc_scan_interval_secs = default_recall_scan_interval_secs,
         rsc_max_concurrent_restores = 10, rsc_max_workers = 1, rsc_merge_window_secs = 60,
         rsc_restore_timeout_secs = 3600, rsc_read_buffer_mb = 64,
         rsc_drive_id = default_scheduler_drive_id\<rparr>\<rparr>"

datatype cache_backend_config =
    HddConfig (hdd_path: string) (hdd_max_size_gb: u64)
  | SpdkConfig (spdk_config_file: string) (spdk_bdev_name: string) (spdk_max_size_gb: u64)
      (spdk_cluster_size_mb: u32)

record 'f cache_config =
  cc_listen :: string
  cc_metadata_addrs :: "string list"
  cc_backend :: cache_backend_config
  cc_default_ttl_secs :: u64
  cc_eviction_policy :: string
  cc_eviction_batch_size :: usize
  cc_eviction_low_watermark :: 'f
  cc_staging_capacity_ratio :: 'f
  cc_restored_capacity_ratio :: 'f

definition cache_config_default :: "(string \<Rightarrow> 'f) \<Rightarrow> 'f cache_config" where
  "cache_config_default lit =
     \<lparr>cc_listen = ''0.0.0.0:23001'', cc_metadata_addrs = [''127.0.0.1:21001''],
      cc_backend = HddConfig ''/var/lib/coldstore/cache'' 100, cc_default_ttl_secs = 86400,
      cc_eviction_policy = ''Lru'', cc_eviction_batch_size = 64,
      cc_eviction_low_watermark = lit ''0.8'', cc_staging_capacity_ratio = lit ''0.35'',
      cc_restored_capacity_ratio = lit ''0.65''\<rparr>"

record scsi_config =
  sic_devices :: "string list"
  sic_block_size :: u32
  sic_buffer_size_mb :: u64

record tape_simulator_config =
  tsc_slot_count :: u32
  tsc_tape_ids :: "string list"
  tsc_autoload_tape_id :: "string option"

record tape_config =
  tc_listen :: string
  tc_metadata_addrs :: "string list"
  tc_sdk_backend :: string
  tc_scsi :: scsi_config
  tc_simulator :: tape_simulator_config
  tc_library_device :: "string option"
  tc_supported_formats :: "string list"
  tc_tape_hold_secs :: u64
  tc_drive_acquire_timeout_secs :: u64

definition tape_simulator_config_default :: tape_simulator_config where
  "tape_simulator_config_default =
     \<lparr>tsc_slot_count = 8, tsc_tape_ids = [default_scheduler_tape_id],
      tsc_autoload_tape_id = Some default_scheduler_tape_id\<rparr>"

definition tape_config_default :: tape_config where
  "tape_config_default =
     \<lparr>tc_listen = ''0.0.0.0:24001'', tc_metadata_addrs = [''127.0.0.1:21001''],
      tc_sdk_backend = ''simulator'',
      tc_scsi = \<lparr>sic_devices = [''/dev/nst0''], sic_block_size = 262144, sic_buffer_size_mb = 64\<rparr>,
      tc_simulator = tape_simulator_config_default, tc_library_device = None,
      tc_supported_formats = [''LTO-9'', ''LTO-10''], tc_tape_hold_secs = 300,
      tc_drive_acquire_timeout_secs = 600\<rparr>"

end
