(* ===== verification/Cache_Service.thy ===== *)
theory Cache_Service
  imports Cache_Backend Common_Proto Config
begin

text \<open>
  The cache service (\<open>crates/cache/src/service.rs\<close>): an index of the staged and the restored
  objects over a storage backend, with capacity budgets for the two categories, eviction of
  restored objects by least recent or least frequent use, and expiry.

  Every operation is a state transformer on the service and its backend; the write lock of
  the code makes the writers run one after the other, and the model runs every handler
  without interleaving. A handler takes as many clock readings as the code does. The
  floating-point arithmetic of the capacity ratios is a parameter. An error of \<open>anyhow\<close> is
  its message, and \<open>map_capacity_error\<close> turns it into a status.
\<close>

section \<open>Definitions\<close>

definition STREAM_CHUNK_SIZE :: usize where
  "STREAM_CHUNK_SIZE = 64 * 1024"

type_synonym cache_key = "string \<times> string \<times> string option"

fun as_cursor :: "cache_key \<Rightarrow> string" where
  "as_cursor (bucket, key, version_id) =
     bucket @ [CHR 0x00] @ key @ [CHR 0x00] @ (case version_id of None \<Rightarrow> [] | Some v \<Rightarrow> v)"

record stored_entry =
  se_storage_id :: u64
  se_xattrs :: cache_xattrs

record cache_index =
  ix_staging :: "(cache_key, stored_entry) hashmap"
  ix_restored :: "(cache_key, stored_entry) hashmap"
  ix_used_capacity :: u64
  ix_hit_count :: u64
  ix_miss_count :: u64
  ix_evict_count :: u64
  ix_evict_bytes :: u64

definition cache_index_default :: cache_index where
  "cache_index_default =
     \<lparr>ix_staging = [], ix_restored = [], ix_used_capacity = 0, ix_hit_count = 0, ix_miss_count = 0,
      ix_evict_count = 0, ix_evict_bytes = 0\<rparr>"

datatype capacity_reject_reason =
    ZeroCapacity | IncomingLargerThanCapacity | NoEvictionCandidate | StagingBudgetExceeded
  | RestoredBudgetExceeded | GlobalCapacityExceeded | LowWatermarkExceeded

primrec reject_code :: "capacity_reject_reason \<Rightarrow> string" where
  "reject_code ZeroCapacity = ''zero_capacity''"
| "reject_code IncomingLargerThanCapacity = ''incoming_larger_than_capacity''"
| "reject_code NoEvictionCandidate = ''no_eviction_candidate''"
| "reject_code StagingBudgetExceeded = ''staging_budget_exceeded''"
| "reject_code RestoredBudgetExceeded = ''restored_budget_exceeded''"
| "reject_code GlobalCapacityExceeded = ''global_capacity_exceeded''"
| "reject_code LowWatermarkExceeded = ''low_watermark_exceeded''"

definition capacity_reject_error :: "capacity_reject_reason \<Rightarrow> string \<Rightarrow> string" where
  "capacity_reject_error reason detail = ''capacity_reject:'' @ reject_code reason @ '': '' @ detail"

text \<open>The table of a category, which the code reaches by a match on the category.\<close>

primrec table :: "cache_category \<Rightarrow> cache_index \<Rightarrow> (cache_key, stored_entry) hashmap" where
  "table Staging ix = ix_staging ix"
| "table Restored ix = ix_restored ix"

primrec map_table ::
  "((cache_key, stored_entry) hashmap \<Rightarrow> (cache_key, stored_entry) hashmap) \<Rightarrow> cache_category \<Rightarrow> cache_index \<Rightarrow> cache_index" where
  "map_table f Staging ix = ix\<lparr>ix_staging := f (ix_staging ix)\<rparr>"
| "map_table f Restored ix = ix\<lparr>ix_restored := f (ix_restored ix)\<rparr>"

definition sizes :: "(cache_key, stored_entry) hashmap \<Rightarrow> u64" where
  "sizes m = sum_list (map (\<lambda>entry. xa_size (se_xattrs entry)) (hm_values m))"

definition recompute_used_capacity :: "cache_index \<Rightarrow> cache_index" where
  "recompute_used_capacity ix =
     ix\<lparr>ix_used_capacity := sum_list (map (\<lambda>entry. xa_size (se_xattrs entry))
          (hm_values (ix_staging ix) @ hm_values (ix_restored ix)))\<rparr>"

definition staging_used :: "cache_index \<Rightarrow> u64" where
  "staging_used ix = sizes (ix_staging ix)"

definition restored_used :: "cache_index \<Rightarrow> u64" where
  "restored_used ix = sizes (ix_restored ix)"

definition rebuilt_entry_should_replace :: "stored_entry \<Rightarrow> stored_entry \<Rightarrow> bool" where
  "rebuilt_entry_should_replace current candidate \<longleftrightarrow>
     (xa_cached_at (se_xattrs current), se_storage_id current) <
     (xa_cached_at (se_xattrs candidate), se_storage_id candidate)"

datatype eviction_policy = Lru | Lfu

definition eviction_policy_from_config :: "string \<Rightarrow> eviction_policy" where
  "eviction_policy_from_config value = (if to_lowercase value = ''lfu'' then Lfu else Lru)"

record 'f f64_ops =
  f_lit :: "string \<Rightarrow> 'f"
  f_is_nan :: "'f \<Rightarrow> bool"
  f_is_finite :: "'f \<Rightarrow> bool"
  f_clamp :: "'f \<Rightarrow> 'f \<Rightarrow> 'f \<Rightarrow> 'f"
  f_add :: "'f \<Rightarrow> 'f \<Rightarrow> 'f"
  f_mul :: "'f \<Rightarrow> 'f \<Rightarrow> 'f"
  f_div :: "'f \<Rightarrow> 'f \<Rightarrow> 'f"
  f_floor :: "'f \<Rightarrow> 'f"
  f_eq :: "'f \<Rightarrow> 'f \<Rightarrow> bool"
  f_le :: "'f \<Rightarrow> 'f \<Rightarrow> bool"
  f_of_u64 :: "u64 \<Rightarrow> 'f"
  f_to_u64 :: "'f \<Rightarrow> u64"

record ('f, 'b) cache_service =
  cs_backend :: 'b
  cs_max_size_bytes :: u64
  cs_eviction_policy :: eviction_policy
  cs_eviction_batch_size :: usize
  cs_eviction_low_watermark :: 'f
  cs_staging_capacity_bytes :: u64
  cs_restored_capacity_bytes :: u64
  cs_index :: cache_index

record capacity_pressure =
  cp_staging_after :: u64
  cp_restored_after :: u64
  cp_used_after :: u64
  cp_staging_budget :: u64
  cp_restored_budget :: u64
  cp_low_watermark_target :: "u64 option"
  cp_total_capacity :: u64

subsection \<open>Clock, capacity and status helpers\<close>

definition timestamp_from_unix :: "i64 \<Rightarrow> timestamp" where
  "timestamp_from_unix seconds = \<lparr>ts_seconds = seconds, ts_nanos = 0\<rparr>"

text \<open>\<open>is_expired\<close> is \<open>is_expired_at\<close> at the clock reading it takes.\<close>

definition is_expired_at :: "i64 \<Rightarrow> i64 \<Rightarrow> bool" where
  "is_expired_at expire_at now \<longleftrightarrow> expire_at > 0 \<and> expire_at \<le> now"

definition backend_capacity_bytes :: "cache_backend_config \<Rightarrow> u64" where
  "backend_capacity_bytes config =
     (case config of
        HddConfig _ max_size_gb \<Rightarrow> sat_mul max_size_gb (1024 * 1024 * 1024)
      | SpdkConfig _ _ max_size_gb _ \<Rightarrow> sat_mul max_size_gb (1024 * 1024 * 1024))"

definition normalize_watermark :: "'f f64_ops \<Rightarrow> 'f \<Rightarrow> 'f" where
  "normalize_watermark fl watermark =
     (if f_is_nan fl watermark \<or> \<not> f_is_finite fl watermark then f_lit fl ''0.8''
      else f_clamp fl watermark (f_lit fl ''0.0'') (f_lit fl ''1.0''))"

definition normalize_cache_ratio :: "'f f64_ops \<Rightarrow> 'f \<Rightarrow> 'f" where
  "normalize_cache_ratio fl ratio =
     (if f_is_nan fl ratio \<or> \<not> f_is_finite fl ratio then f_lit fl ''0.0''
      else f_clamp fl ratio (f_lit fl ''0.0'') (f_lit fl ''1.0''))"

definition split_cache_capacity :: "'f f64_ops \<Rightarrow> u64 \<Rightarrow> 'f \<Rightarrow> 'f \<Rightarrow> u64 \<times> u64" where
  "split_cache_capacity fl total_bytes staging_ratio restored_ratio =
     (let staging = normalize_cache_ratio fl staging_ratio;
          restored = normalize_cache_ratio fl restored_ratio;
          normalized_total = f_add fl staging restored
      in if f_eq fl normalized_total (f_lit fl ''0.0'') then (0, total_bytes)
         else let staging_bytes = f_to_u64 fl (f_floor fl (f_mul fl (f_of_u64 fl total_bytes)
                    (f_div fl staging normalized_total)))
              in (staging_bytes, sat_sub total_bytes staging_bytes))"

definition internal_status :: "string \<Rightarrow> status" where
  "internal_status err = Status Internal err"

definition map_capacity_error :: "string \<Rightarrow> status" where
  "map_capacity_error message =
     (let message_lc = to_lowercase message
      in if str_contains ''capacity'' message_lc \<or> str_contains ''not enough'' message_lc \<or>
            str_contains ''not enough staging'' message_lc \<or> str_contains ''not enough restored'' message_lc \<or>
            str_contains ''exceeds'' message_lc \<or> str_contains ''no available'' message_lc \<or>
            str_contains ''insufficient'' message_lc
         then Status ResourceExhausted message
         else internal_status message)"

subsection \<open>The index\<close>

definition find_entry :: "cache_key \<Rightarrow> cache_category \<Rightarrow> ('f, 'b) cache_service \<Rightarrow> stored_entry option" where
  "find_entry key category s = hm_get (table category (cs_index s)) key"

definition insert_entry ::
  "cache_key \<Rightarrow> stored_entry \<Rightarrow> ('f, 'b) cache_service \<Rightarrow> stored_entry option \<times> ('f, 'b) cache_service" where
  "insert_entry key entry s =
     (let category = xa_category (se_xattrs entry);
          previous = hm_get (table category (cs_index s)) key
      in (previous, s\<lparr>cs_index := recompute_used_capacity
            (map_table (hm_insert key entry) category (cs_index s))\<rparr>))"

definition update_hit_state :: "bool \<Rightarrow> ('f, 'b) cache_service \<Rightarrow> ('f, 'b) cache_service" where
  "update_hit_state hit s =
     (let ix = cs_index s
      in if hit then s\<lparr>cs_index := ix\<lparr>ix_hit_count := ix_hit_count ix + 1\<rparr>\<rparr>
         else s\<lparr>cs_index := ix\<lparr>ix_miss_count := ix_miss_count ix + 1\<rparr>\<rparr>)"

definition touch_entry :: "i64 \<Rightarrow> cache_key \<Rightarrow> cache_category \<Rightarrow> ('f, 'b) cache_service \<Rightarrow> ('f, 'b) cache_service" where
  "touch_entry now key category s =
     s\<lparr>cs_index := map_table
         (hm_modify key (\<lambda>entry. entry\<lparr>se_xattrs := (se_xattrs entry)
            \<lparr>xa_last_access_at := now, xa_access_count := xa_access_count (se_xattrs entry) + 1\<rparr>\<rparr>))
         category (cs_index s)\<rparr>"

definition delete_entry ::
  "'b cache_backend \<Rightarrow> cache_key \<Rightarrow> cache_category \<Rightarrow> ('f, 'b) cache_service \<Rightarrow>
   (string + bool) \<times> ('f, 'b) cache_service" where
  "delete_entry be key category s =
     (case hm_get (table category (cs_index s)) key of
        None \<Rightarrow> (Inr False, s)
      | Some entry \<Rightarrow>
          (let storage_id = se_storage_id entry
           in case cb_delete be storage_id (cs_backend s) of
                (Inl err, b) \<Rightarrow> (Inl err, s\<lparr>cs_backend := b\<rparr>)
              | (Inr _, b) \<Rightarrow>
                  (let s = s\<lparr>cs_backend := b\<rparr>;
                       removed = (case hm_get (table category (cs_index s)) key of
                          None \<Rightarrow> False | Some entry \<Rightarrow> se_storage_id entry = storage_id)
                   in if removed
                      then (Inr True, s\<lparr>cs_index := recompute_used_capacity
                             (map_table (hm_remove key) category (cs_index s))\<rparr>)
                      else (Inr False, s))))"

subsection \<open>Rebuilding the index\<close>

text \<open>
  One object of the backend is added to the index; the loser of a duplicate is remembered.
  The counters of the code that only reach its log are left out.
\<close>

definition rebuild_step :: "u64 \<times> cache_xattrs \<Rightarrow> cache_index \<times> u64 list \<Rightarrow> cache_index \<times> u64 list" where
  "rebuild_step object acc =
     (case (object, acc) of ((storage_id, xattrs), (ix, stale)) \<Rightarrow>
        (let key = (xa_bucket xattrs, xa_key xattrs, xa_version_id xattrs);
             entry = \<lparr>se_storage_id = storage_id, se_xattrs = xattrs\<rparr>;
             category = xa_category xattrs
         in case hm_get (table category ix) key of
              Some current \<Rightarrow>
                if \<not> rebuilt_entry_should_replace current entry
                then (ix, stale @ [storage_id])
                else (map_table (hm_insert key entry) category ix, stale @ [se_storage_id current])
            | None \<Rightarrow> (map_table (hm_insert key entry) category ix, stale)))"

definition delete_stale :: "'b cache_backend \<Rightarrow> u64 list \<Rightarrow> 'b \<Rightarrow> 'b" where
  "delete_stale be stale b = foldl (\<lambda>b storage_id. snd (cb_delete be storage_id b)) b stale"

definition rebuild_index ::
  "'b cache_backend \<Rightarrow> ('f, 'b) cache_service \<Rightarrow> (string + unit) \<times> ('f, 'b) cache_service" where
  "rebuild_index be s =
     (case cb_list_all be (cs_backend s) of
        (Inl err, b) \<Rightarrow> (Inl err, s\<lparr>cs_backend := b\<rparr>)
      | (Inr objects, b) \<Rightarrow>
          (let (ix, stale) = fold rebuild_step objects (cache_index_default, [])
           in (Inr (), s\<lparr>cs_index := recompute_used_capacity ix, cs_backend := delete_stale be stale b\<rparr>)))"

text \<open>The service over a backend that \<open>new\<close> has built from the configuration.\<close>

definition service_over ::
  "'f f64_ops \<Rightarrow> 'f cache_config \<Rightarrow> 'b \<Rightarrow> ('f, 'b) cache_service" where
  "service_over fl config backend =
     (let max_size_bytes = backend_capacity_bytes (cc_backend config);
          (staging_capacity_bytes, restored_capacity_bytes) =
            split_cache_capacity fl max_size_bytes (cc_staging_capacity_ratio config) (cc_restored_capacity_ratio config)
      in \<lparr>cs_backend = backend, cs_max_size_bytes = max_size_bytes,
          cs_eviction_policy = eviction_policy_from_config (cc_eviction_policy config),
          cs_eviction_batch_size = max (cc_eviction_batch_size config) 1,
          cs_eviction_low_watermark = normalize_watermark fl (cc_eviction_low_watermark config),
          cs_staging_capacity_bytes = staging_capacity_bytes,
          cs_restored_capacity_bytes = restored_capacity_bytes, cs_index = cache_index_default\<rparr>)"

text \<open>The backend behind the trait object is one of the two.\<close>

datatype any_backend = AnyHdd hdd_backend | AnySpdk spdk_backend

definition dyn_call ::
  "(hdd_backend \<Rightarrow> 'r \<times> hdd_backend) \<Rightarrow> (spdk_backend \<Rightarrow> 'r \<times> spdk_backend) \<Rightarrow> any_backend \<Rightarrow> 'r \<times> any_backend" where
  "dyn_call f g b =
     (case b of AnyHdd h \<Rightarrow> (case f h of (r, h) \<Rightarrow> (r, AnyHdd h)) | AnySpdk p \<Rightarrow> (case g p of (r, p) \<Rightarrow> (r, AnySpdk p)))"

definition dyn_ops :: "json \<Rightarrow> any_backend cache_backend" where
  "dyn_ops j =
     \<lparr>cb_write = (\<lambda>k d x. dyn_call (cb_write (hdd_ops j) k d x) (cb_write (spdk_ops j) k d x)),
      cb_read = (\<lambda>i. dyn_call (cb_read (hdd_ops j) i) (cb_read (spdk_ops j) i)),
      cb_delete = (\<lambda>i. dyn_call (cb_delete (hdd_ops j) i) (cb_delete (spdk_ops j) i)),
      cb_read_xattrs = (\<lambda>i. dyn_call (cb_read_xattrs (hdd_ops j) i) (cb_read_xattrs (spdk_ops j) i)),
      cb_list_all = dyn_call (cb_list_all (hdd_ops j)) (cb_list_all (spdk_ops j)),
      cb_available_bytes = dyn_call (cb_available_bytes (hdd_ops j)) (cb_available_bytes (spdk_ops j))\<rparr>"

definition cache_service_new ::
  "'f f64_ops \<Rightarrow> json \<Rightarrow> 'f cache_config \<Rightarrow> file_system \<Rightarrow> string + ('f, any_backend) cache_service" where
  "cache_service_new fl j config fs =
     try_then
       (case cc_backend config of
          HddConfig path max_size_gb \<Rightarrow>
            (case hdd_new path max_size_gb fs of (Inl err, _) \<Rightarrow> Inl err | (Inr b, _) \<Rightarrow> Inr (AnyHdd b))
        | SpdkConfig config_file bdev_name max_size_gb _ \<Rightarrow>
            (case spdk_new config_file bdev_name max_size_gb fs of (Inl err, _) \<Rightarrow> Inl err | (Inr b, _) \<Rightarrow> Inr (AnySpdk b)))
       (\<lambda>backend.
          case rebuild_index (dyn_ops j) (service_over fl config backend) of
            (Inl err, _) \<Rightarrow> Inl err
          | (Inr _, svc) \<Rightarrow> Inr svc)"

subsection \<open>Capacity\<close>

definition effective_total_capacity ::
  "'b cache_backend \<Rightarrow> ('f, 'b) cache_service \<Rightarrow> (string + u64) \<times> ('f, 'b) cache_service" where
  "effective_total_capacity be s =
     (case cb_available_bytes be (cs_backend s) of
        (Inl err, b) \<Rightarrow> (Inl err, s\<lparr>cs_backend := b\<rparr>)
      | (Inr available_bytes, b) \<Rightarrow>
          (Inr (min (sat_add (ix_used_capacity (cs_index s)) available_bytes) (cs_max_size_bytes s)),
           s\<lparr>cs_backend := b\<rparr>))"

definition ensure_object_size_within_total_capacity ::
  "'b cache_backend \<Rightarrow> u64 \<Rightarrow> ('f, 'b) cache_service \<Rightarrow> (string + unit) \<times> ('f, 'b) cache_service" where
  "ensure_object_size_within_total_capacity be object_size s =
     try_st (effective_total_capacity be s) (\<lambda>total_capacity s.
       if total_capacity = 0 then (Inl (capacity_reject_error ZeroCapacity ''cache capacity is zero''), s)
       else if object_size > total_capacity
       then (Inl (capacity_reject_error IncomingLargerThanCapacity ''incoming object exceeds cache capacity''), s)
       else (Inr (), s))"

definition split_capacity_by_static_ratio :: "('f, 'b) cache_service \<Rightarrow> u64 \<Rightarrow> u64 \<times> u64" where
  "split_capacity_by_static_ratio s total_capacity =
     (let configured_budget_total = sat_add (cs_staging_capacity_bytes s) (cs_restored_capacity_bytes s)
      in if configured_budget_total = 0 then (0, total_capacity)
         else let staging_budget = sat_mul total_capacity (cs_staging_capacity_bytes s) div configured_budget_total
              in (staging_budget, sat_sub total_capacity staging_budget))"

definition effective_low_watermark_used :: "'f f64_ops \<Rightarrow> ('f, 'b) cache_service \<Rightarrow> u64 \<Rightarrow> u64 option" where
  "effective_low_watermark_used fl s total_bytes =
     (let watermark = f_clamp fl (cs_eviction_low_watermark s) (f_lit fl ''0.0'') (f_lit fl ''1.0'')
      in if \<not> f_is_finite fl watermark \<or> f_le fl watermark (f_lit fl ''0.0'') then None
         else Some (f_to_u64 fl (f_mul fl (f_of_u64 fl total_bytes) watermark)))"

definition over_watermark :: "capacity_pressure \<Rightarrow> bool" where
  "over_watermark p =
     (case cp_low_watermark_target p of Some target \<Rightarrow> cp_used_after p > target | None \<Rightarrow> False)"

definition should_evict :: "capacity_pressure \<Rightarrow> bool" where
  "should_evict p \<longleftrightarrow>
     cp_staging_after p > cp_staging_budget p \<or> cp_restored_after p > cp_restored_budget p \<or>
     over_watermark p \<or> cp_used_after p > cp_total_capacity p"

definition choose_victim_category :: "capacity_pressure \<Rightarrow> cache_index \<Rightarrow> cache_category option" where
  "choose_victim_category p ix =
     (if cp_staging_after p > cp_staging_budget p then None
      else if ix_restored ix \<noteq> [] \<and>
              (cp_restored_after p > cp_restored_budget p \<or> over_watermark p \<or>
               cp_used_after p > cp_total_capacity p)
      then Some Restored
      else None)"

definition select_eviction_candidate ::
  "eviction_policy \<Rightarrow> cache_index \<Rightarrow> cache_category \<Rightarrow> (cache_key \<times> stored_entry) option" where
  "select_eviction_candidate policy ix category =
     (case category of
        Staging \<Rightarrow> None
      | Restored \<Rightarrow>
          (case policy of
             Lfu \<Rightarrow> min_by_first (\<lambda>(key, entry).
                 (xa_access_count (se_xattrs entry), xa_last_access_at (se_xattrs entry),
                  xa_cached_at (se_xattrs entry), xa_size (se_xattrs entry), as_cursor key)) (ix_restored ix)
           | Lru \<Rightarrow> min_by_first (\<lambda>(key, entry).
                 (xa_last_access_at (se_xattrs entry), xa_cached_at (se_xattrs entry),
                  xa_size (se_xattrs entry), xa_access_count (se_xattrs entry), xa_key (se_xattrs entry)))
                (ix_restored ix)))"

text \<open>The pressure that the incoming bytes put on an index under given budgets.\<close>

definition pressure_of ::
  "u64 \<Rightarrow> cache_category \<Rightarrow> u64 \<Rightarrow> u64 \<Rightarrow> u64 option \<Rightarrow> u64 \<Rightarrow> cache_index \<Rightarrow> capacity_pressure" where
  "pressure_of incoming_size category staging_budget restored_budget target total_capacity ix =
     \<lparr>cp_staging_after = sat_add (staging_used ix) (if category = Staging then incoming_size else 0),
      cp_restored_after = sat_add (restored_used ix) (if category = Restored then incoming_size else 0),
      cp_used_after = sat_add (ix_used_capacity ix) incoming_size,
      cp_staging_budget = staging_budget, cp_restored_budget = restored_budget,
      cp_low_watermark_target = target, cp_total_capacity = total_capacity\<rparr>"

text \<open>
  One round of the eviction loop removes a victim from the index and from the backend, and
  puts it back when the backend fails. \<open>Inr True\<close> is the early return, \<open>Inr False\<close> the end
  of the loop.
\<close>

definition evict_victim ::
  "'b cache_backend \<Rightarrow> cache_category \<Rightarrow> cache_key \<times> stored_entry \<Rightarrow> ('f, 'b) cache_service \<Rightarrow>
   (string + unit) \<times> ('f, 'b) cache_service" where
  "evict_victim be category victim s =
     (case victim of (key, entry) \<Rightarrow>
        (let ix = cs_index s;
             there = (case hm_get (table category ix) key of
                None \<Rightarrow> False | Some e \<Rightarrow> se_storage_id e = se_storage_id entry)
         in if \<not> there then (Inr (), s)
            else
              let ix = map_table (hm_remove key) category ix;
                  ix = ix\<lparr>ix_evict_count := ix_evict_count ix + 1,
                          ix_evict_bytes := ix_evict_bytes ix + xa_size (se_xattrs entry)\<rparr>;
                  s = s\<lparr>cs_index := recompute_used_capacity ix\<rparr>
              in case cb_delete be (se_storage_id entry) (cs_backend s) of
                   (Inr _, b) \<Rightarrow> (Inr (), s\<lparr>cs_backend := b\<rparr>)
                 | (Inl err, b) \<Rightarrow>
                     (Inl err, s\<lparr>cs_backend := b, cs_index := recompute_used_capacity
                        (map_table (hm_insert key entry) category (cs_index s))\<rparr>)))"

fun evict_loop ::
  "'b cache_backend \<Rightarrow> (cache_index \<Rightarrow> capacity_pressure) \<Rightarrow> nat \<Rightarrow> ('f, 'b) cache_service \<Rightarrow>
   (string + bool) \<times> ('f, 'b) cache_service" where
  "evict_loop be pressure 0 s = (Inr False, s)"
| "evict_loop be pressure (Suc n) s =
     (if \<not> should_evict (pressure (cs_index s)) then (Inr True, s)
      else case choose_victim_category (pressure (cs_index s)) (cs_index s) of
             None \<Rightarrow> (Inr False, s)
           | Some category \<Rightarrow>
               (case select_eviction_candidate (cs_eviction_policy s) (cs_index s) category of
                  None \<Rightarrow> (Inl (capacity_reject_error NoEvictionCandidate
                            ''no restored cache victim is available for eviction''), s)
                | Some victim \<Rightarrow>
                    try_st (evict_victim be category victim s) (\<lambda>_ s. evict_loop be pressure n s)))"

definition evict_if_needed ::
  "'f f64_ops \<Rightarrow> 'b cache_backend \<Rightarrow> u64 \<Rightarrow> cache_category \<Rightarrow> ('f, 'b) cache_service \<Rightarrow>
   (string + unit) \<times> ('f, 'b) cache_service" where
  "evict_if_needed fl be incoming_size category s =
     (if incoming_size = 0 then (Inr (), s)
      else try_st (effective_total_capacity be s) (\<lambda>total_capacity s.
        if total_capacity = 0 then (Inl (capacity_reject_error ZeroCapacity ''cache capacity is zero''), s)
        else if incoming_size > total_capacity
        then (Inl (capacity_reject_error IncomingLargerThanCapacity ''incoming object exceeds cache capacity''), s)
        else
          let (staging_budget, restored_budget) = split_capacity_by_static_ratio s total_capacity;
              target = effective_low_watermark_used fl s total_capacity;
              pressure = pressure_of incoming_size category staging_budget restored_budget target total_capacity
          in try_st (evict_loop be pressure (max (cs_eviction_batch_size s) 1) s) (\<lambda>fits s.
               let p = pressure (cs_index s)
               in if fits \<or> \<not> should_evict p then (Inr (), s)
                  else if cp_staging_after p > staging_budget
                  then (Inl (capacity_reject_error StagingBudgetExceeded
                         ''not enough staging cache budget for write path; cannot fit after eviction''), s)
                  else if cp_restored_after p > restored_budget
                  then (Inl (capacity_reject_error RestoredBudgetExceeded
                         ''not enough restored cache budget for write path; cannot fit after eviction''), s)
                  else if cp_used_after p > total_capacity
                  then (Inl (capacity_reject_error GlobalCapacityExceeded ''not enough global cache capacity''), s)
                  else if over_watermark p
                  then (Inl (capacity_reject_error LowWatermarkExceeded
                         ''not enough cache capacity to satisfy low-watermark''), s)
                  else (Inr (), s))))"

subsection \<open>Writing\<close>

definition reclaim_expired_restored_except ::
  "'b cache_backend \<Rightarrow> i64 \<Rightarrow> cache_key option \<Rightarrow> ('f, 'b) cache_service \<Rightarrow>
   (string + unit) \<times> ('f, 'b) cache_service" where
  "reclaim_expired_restored_except be now skip s =
     (let expired = map fst (filter (\<lambda>(_, entry). is_expired_at (xa_expire_at (se_xattrs entry)) now)
                      (filter (\<lambda>(key, _). skip \<noteq> Some key) (ix_restored (cs_index s))))
      in (Inr (), foldl (\<lambda>s key. snd (delete_entry be key Restored s)) s expired))"

definition put_bytes ::
  "'f f64_ops \<Rightarrow> 'b cache_backend \<Rightarrow> i64 \<Rightarrow> cache_key \<Rightarrow> bytes \<Rightarrow> cache_xattrs \<Rightarrow> ('f, 'b) cache_service \<Rightarrow>
   (string + u64) \<times> ('f, 'b) cache_service" where
  "put_bytes fl be now key data xattrs s =
     try_st (ensure_object_size_within_total_capacity be (xa_size xattrs) s) (\<lambda>_ s.
       let existing = find_entry key (xa_category xattrs) s;
           capacity_delta = sat_sub (xa_size xattrs)
             (case existing of None \<Rightarrow> 0 | Some entry \<Rightarrow> xa_size (se_xattrs entry));
           reclaim_skip = (if xa_category xattrs = Restored then Some key else None)
       in try_st (reclaim_expired_restored_except be now reclaim_skip s) (\<lambda>_ s.
          try_st (evict_if_needed fl be capacity_delta (xa_category xattrs) s) (\<lambda>_ s.
            case cb_write be (as_cursor key) data xattrs (cs_backend s) of
              (Inl err, b) \<Rightarrow> (Inl err, s\<lparr>cs_backend := b\<rparr>)
            | (Inr storage_id, b) \<Rightarrow>
                (case insert_entry key \<lparr>se_storage_id = storage_id, se_xattrs = xattrs\<rparr> (s\<lparr>cs_backend := b\<rparr>) of
                   (None, s) \<Rightarrow> (Inr storage_id, s)
                 | (Some previous, s) \<Rightarrow>
                     if se_storage_id previous \<noteq> storage_id
                     then (Inr storage_id, s\<lparr>cs_backend := snd (cb_delete be (se_storage_id previous) (cs_backend s))\<rparr>)
                     else (Inr storage_id, s)))))"

subsection \<open>Reading\<close>

definition read_restored ::
  "'b cache_backend \<Rightarrow> i64 \<Rightarrow> i64 \<Rightarrow> cache_key \<Rightarrow> ('f, 'b) cache_service \<Rightarrow>
   stored_entry result \<times> ('f, 'b) cache_service" where
  "read_restored be now now_touch key s =
     (case find_entry key Restored s of
        None \<Rightarrow> (Inl (Status NotFound ''restored object not found in cache''), update_hit_state False s)
      | Some entry \<Rightarrow>
          if is_expired_at (xa_expire_at (se_xattrs entry)) now
          then (Inl (Status NotFound ''restored object has expired''),
                update_hit_state False (snd (delete_entry be key Restored s)))
          else (Inr entry, update_hit_state True (touch_entry now_touch key Restored s)))"

record cached_object_meta =
  co_size :: u64
  co_expire_at :: "timestamp option"
  co_content_type :: "string option"
  co_etag :: "string option"
  co_checksum :: "string option"

record staging_object_meta =
  so_bucket :: string
  so_key :: string
  so_version_id :: "string option"
  so_size :: u64
  so_checksum :: "string option"
  so_content_type :: "string option"
  so_etag :: "string option"
  so_staged_at :: "timestamp option"

datatype get_payload = GetMeta cached_object_meta | GetData bytes

datatype get_staging_payload = StagingMeta staging_object_meta | StagingData bytes

definition build_get_stream ::
  "'b cache_backend \<Rightarrow> stored_entry \<Rightarrow> ('f, 'b) cache_service \<Rightarrow>
   get_payload list result \<times> ('f, 'b) cache_service" where
  "build_get_stream be entry s =
     (case cb_read be (se_storage_id entry) (cs_backend s) of
        (Inl err, b) \<Rightarrow> (Inl (internal_status err), s\<lparr>cs_backend := b\<rparr>)
      | (Inr data, b) \<Rightarrow>
          (let x = se_xattrs entry
           in (Inr (GetMeta \<lparr>co_size = xa_size x, co_expire_at = Some (timestamp_from_unix (xa_expire_at x)),
                      co_content_type = xa_content_type x, co_etag = xa_etag x, co_checksum = xa_checksum x\<rparr> #
                    map GetData (slice_chunks STREAM_CHUNK_SIZE data)), s\<lparr>cs_backend := b\<rparr>)))"

definition build_staging_stream ::
  "'b cache_backend \<Rightarrow> stored_entry \<Rightarrow> ('f, 'b) cache_service \<Rightarrow>
   get_staging_payload list result \<times> ('f, 'b) cache_service" where
  "build_staging_stream be entry s =
     (case cb_read be (se_storage_id entry) (cs_backend s) of
        (Inl err, b) \<Rightarrow> (Inl (internal_status err), s\<lparr>cs_backend := b\<rparr>)
      | (Inr data, b) \<Rightarrow>
          (let x = se_xattrs entry
           in (Inr (StagingMeta \<lparr>so_bucket = xa_bucket x, so_key = xa_key x, so_version_id = xa_version_id x,
                      so_size = xa_size x, so_checksum = xa_checksum x, so_content_type = xa_content_type x,
                      so_etag = xa_etag x, so_staged_at = Some (timestamp_from_unix (xa_cached_at x))\<rparr> #
                    map StagingData (slice_chunks STREAM_CHUNK_SIZE data)), s\<lparr>cs_backend := b\<rparr>)))"

subsection \<open>The handlers\<close>

record put_staging_meta =
  ps_bucket :: string
  ps_key :: string
  ps_version_id :: "string option"
  ps_size :: u64
  ps_checksum :: "string option"
  ps_content_type :: "string option"
  ps_etag :: "string option"

record put_restored_meta =
  pr_bucket :: string
  pr_key :: string
  pr_version_id :: "string option"
  pr_size :: u64
  pr_checksum :: "string option"
  pr_content_type :: "string option"
  pr_etag :: "string option"
  pr_expire_at :: "timestamp option"

datatype 'm put_payload = PutMeta 'm | PutData bytes

text \<open>
  The messages of a put: the last metadata message counts, and the data messages are
  concatenated. A stream element is an error of the transport or a message with an optional
  payload.
\<close>

fun collect_put ::
  "string \<Rightarrow> 'm option \<Rightarrow> bytes \<Rightarrow> (status + 'm put_payload option) list \<Rightarrow> ('m option \<times> bytes) result" where
  "collect_put empty_chunk meta data [] = Inr (meta, data)"
| "collect_put empty_chunk meta data (Inl err # ms) = Inl err"
| "collect_put empty_chunk meta data (Inr (Some (PutMeta m)) # ms) = collect_put empty_chunk (Some m) data ms"
| "collect_put empty_chunk meta data (Inr (Some (PutData bytes)) # ms) = collect_put empty_chunk meta (data @ bytes) ms"
| "collect_put empty_chunk meta data (Inr None # ms) = Inl (Status InvalidArgument empty_chunk)"

definition cs_put_staging ::
  "'f f64_ops \<Rightarrow> 'b cache_backend \<Rightarrow> i64 \<Rightarrow> i64 \<Rightarrow> i64 \<Rightarrow> (status + put_staging_meta put_payload option) list \<Rightarrow>
   ('f, 'b) cache_service \<Rightarrow> string result \<times> ('f, 'b) cache_service" where
  "cs_put_staging fl be now_cached now_access now_reclaim stream s =
     (case collect_put ''empty put_staging chunk'' None [] stream of
        Inl err \<Rightarrow> (Inl err, s)
      | Inr (None, data) \<Rightarrow> (Inl (Status InvalidArgument ''missing staging metadata''), s)
      | Inr (Some m, data) \<Rightarrow>
          if ps_size m \<noteq> len_u64 data
          then (Inl (Status InvalidArgument ''staging object size does not match payload''), s)
          else
            let key = (ps_bucket m, ps_key m, ps_version_id m);
                xattrs = \<lparr>xa_bucket = ps_bucket m, xa_key = ps_key m, xa_version_id = ps_version_id m,
                  xa_size = ps_size m, xa_expire_at = 0, xa_cached_at = now_cached, xa_last_access_at = now_access,
                  xa_access_count = 0, xa_checksum = ps_checksum m, xa_content_type = ps_content_type m,
                  xa_etag = ps_etag m, xa_category = Staging\<rparr>
            in try_st (map_error map_capacity_error (put_bytes fl be now_reclaim key data xattrs s))
                 (\<lambda>storage_id s. (Inr (show_word storage_id), s)))"

definition cs_put_restored ::
  "'f f64_ops \<Rightarrow> 'b cache_backend \<Rightarrow> i64 \<Rightarrow> i64 \<Rightarrow> i64 \<Rightarrow> (status + put_restored_meta put_payload option) list \<Rightarrow>
   ('f, 'b) cache_service \<Rightarrow> unit result \<times> ('f, 'b) cache_service" where
  "cs_put_restored fl be now_cached now_access now_reclaim stream s =
     (case collect_put ''empty put_restored chunk'' None [] stream of
        Inl err \<Rightarrow> (Inl err, s)
      | Inr (None, data) \<Rightarrow> (Inl (Status InvalidArgument ''missing restored metadata''), s)
      | Inr (Some m, data) \<Rightarrow>
          if pr_size m \<noteq> len_u64 data
          then (Inl (Status InvalidArgument ''restored object size does not match payload''), s)
          else
            case pr_expire_at m of
              None \<Rightarrow> (Inl (Status InvalidArgument ''restored object missing expire_at''), s)
            | Some expire_at \<Rightarrow>
                let key = (pr_bucket m, pr_key m, pr_version_id m);
                    xattrs = \<lparr>xa_bucket = pr_bucket m, xa_key = pr_key m, xa_version_id = pr_version_id m,
                      xa_size = pr_size m, xa_expire_at = ts_seconds expire_at, xa_cached_at = now_cached,
                      xa_last_access_at = now_access, xa_access_count = 0, xa_checksum = pr_checksum m,
                      xa_content_type = pr_content_type m, xa_etag = pr_etag m, xa_category = Restored\<rparr>
                in try_st (map_error map_capacity_error (put_bytes fl be now_reclaim key data xattrs s))
                     (\<lambda>_ s. (Inr (), s)))"

definition cs_delete ::
  "'b cache_backend \<Rightarrow> cache_key \<Rightarrow> ('f, 'b) cache_service \<Rightarrow> unit result \<times> ('f, 'b) cache_service" where
  "cs_delete be key s =
     try_st (map_error internal_status (delete_entry be key Restored s)) (\<lambda>_ s. (Inr (), s))"

definition cs_get ::
  "'b cache_backend \<Rightarrow> i64 \<Rightarrow> i64 \<Rightarrow> cache_key \<Rightarrow> ('f, 'b) cache_service \<Rightarrow>
   get_payload list result \<times> ('f, 'b) cache_service" where
  "cs_get be now now_touch key s =
     try_st (read_restored be now now_touch key s) (\<lambda>entry s. build_get_stream be entry s)"

definition cs_contains ::
  "'b cache_backend \<Rightarrow> i64 \<Rightarrow> cache_key \<Rightarrow> ('f, 'b) cache_service \<Rightarrow>
   (bool \<times> timestamp option) result \<times> ('f, 'b) cache_service" where
  "cs_contains be now key s =
     (case find_entry key Restored s of
        Some entry \<Rightarrow>
          if is_expired_at (xa_expire_at (se_xattrs entry)) now
          then (Inr (False, None), update_hit_state False (snd (delete_entry be key Restored s)))
          else (Inr (True, Some (timestamp_from_unix (xa_expire_at (se_xattrs entry)))), update_hit_state True s)
      | None \<Rightarrow> (Inr (False, None), update_hit_state False s))"

definition cs_get_staging ::
  "'b cache_backend \<Rightarrow> cache_key \<Rightarrow> ('f, 'b) cache_service \<Rightarrow>
   get_staging_payload list result \<times> ('f, 'b) cache_service" where
  "cs_get_staging be key s =
     (case find_entry key Staging s of
        None \<Rightarrow> (Inl (Status NotFound ''staging object not found''), s)
      | Some entry \<Rightarrow> build_staging_stream be entry s)"

record staging_key_entry =
  sk_bucket :: string
  sk_key :: string
  sk_version_id :: "string option"
  sk_size :: u64
  sk_staged_at :: "timestamp option"

definition cs_list_staging_keys ::
  "u32 \<Rightarrow> string option \<Rightarrow> ('f, 'b) cache_service \<Rightarrow> (staging_key_entry list \<times> bool) result" where
  "cs_list_staging_keys limit after s =
     (let after = (case after of None \<Rightarrow> [] | Some a \<Rightarrow> a);
          limit = (if limit = 0 then usize_MAX else unat limit);
          entries = sort_key (\<lambda>(key, _). as_cursor key)
            (filter (\<lambda>(key, _). as_cursor key > after) (ix_staging (cs_index s)));
          has_more = length entries > limit
      in Inr (map (\<lambda>((bucket, key, version_id), entry).
             \<lparr>sk_bucket = bucket, sk_key = key, sk_version_id = version_id, sk_size = xa_size (se_xattrs entry),
              sk_staged_at = Some (timestamp_from_unix (xa_cached_at (se_xattrs entry)))\<rparr>) (take limit entries), has_more))"

definition cs_delete_staging ::
  "'b cache_backend \<Rightarrow> cache_key \<Rightarrow> ('f, 'b) cache_service \<Rightarrow> unit result \<times> ('f, 'b) cache_service" where
  "cs_delete_staging be key s =
     try_st (map_error internal_status (delete_entry be key Staging s)) (\<lambda>_ s. (Inr (), s))"

record cache_stats =
  st_total_capacity :: u64
  st_used_capacity :: u64
  st_object_count :: u64
  st_staging_count :: u64
  st_staging_bytes :: u64
  st_restored_count :: u64
  st_restored_bytes :: u64
  st_hit_count :: u64
  st_miss_count :: u64
  st_evict_count :: u64
  st_evict_bytes :: u64

definition cs_stats :: "'b cache_backend \<Rightarrow> ('f, 'b) cache_service \<Rightarrow> cache_stats result \<times> ('f, 'b) cache_service" where
  "cs_stats be s =
     (let ix = cs_index s; staging_bytes = sizes (ix_staging ix); restored_bytes = sizes (ix_restored ix);
          used_capacity = staging_bytes + restored_bytes
      in case cb_available_bytes be (cs_backend s) of
           (Inl err, b) \<Rightarrow> (Inl (internal_status err), s\<lparr>cs_backend := b\<rparr>)
         | (Inr available_capacity, b) \<Rightarrow>
             (Inr \<lparr>st_total_capacity = min (sat_add used_capacity available_capacity) (cs_max_size_bytes s),
                   st_used_capacity = used_capacity,
                   st_object_count = of_nat (length (ix_staging ix) + length (ix_restored ix)),
                   st_staging_count = len_u64 (ix_staging ix), st_staging_bytes = staging_bytes,
                   st_restored_count = len_u64 (ix_restored ix), st_restored_bytes = restored_bytes,
                   st_hit_count = ix_hit_count ix, st_miss_count = ix_miss_count ix,
                   st_evict_count = ix_evict_count ix, st_evict_bytes = ix_evict_bytes ix\<rparr>, s\<lparr>cs_backend := b\<rparr>))"

section \<open>The chosen backend keeps the contract\<close>

fun any_inner :: "any_backend \<Rightarrow> hdd_backend" where
  "any_inner (AnyHdd h) = h"
| "any_inner (AnySpdk p) = sp_inner p"

lemma dyn_ops_inner:
  "cb_write (dyn_ops j) k d x b = (written, b') \<Longrightarrow> cb_write (hdd_ops j) k d x (any_inner b) = (written, any_inner b')"
  "cb_read (dyn_ops j) i b = (got, b') \<Longrightarrow> cb_read (hdd_ops j) i (any_inner b) = (got, any_inner b')"
  "cb_delete (dyn_ops j) i b = (deleted, b') \<Longrightarrow> cb_delete (hdd_ops j) i (any_inner b) = (deleted, any_inner b')"
  "cb_available_bytes (dyn_ops j) b = (bytes, b') \<Longrightarrow> cb_available_bytes (hdd_ops j) (any_inner b) = (bytes, any_inner b')"
  by (cases b; auto simp: dyn_ops_def dyn_call_def dest!: spdk_ops_inner split: prod.splits)+

interpretation dyn: object_store "dyn_ops j" "\<lambda>b. hdd_inv j (any_inner b)" "\<lambda>b. hdd_room (any_inner b)"
  "\<lambda>b. hdd_store j (any_inner b)" for j
  by unfold_locales
    (fact hdd.write_law [OF _ _ dyn_ops_inner(1)] hdd.read_law [OF _ dyn_ops_inner(2)]
      hdd.delete_law [OF _ dyn_ops_inner(3)] hdd.available_law [OF _ dyn_ops_inner(4)])+

end
