(* ===== verification/Cache_Refinement.thy ===== *)
theory Cache_Refinement
  imports Cache_Service
begin

text \<open>
  What the cache service promises, on any backend that keeps the contract \<open>object_store\<close>.
  The abstract state of the service is a map from category and key to the cached bytes and
  their attributes. Staged objects behave like a plain map: only a put or a delete of a
  staged key changes it. Restored objects may disappear, by eviction and expiry, but what
  is returned is what was put.
\<close>

section \<open>The index as one map\<close>

definition look :: "cache_index \<Rightarrow> cache_category \<times> cache_key \<Rightarrow> stored_entry option" where
  "look ix p = hm_get (table (fst p) ix) (snd p)"

lemma table_map_table: "table c' (map_table f c ix) = (if c' = c then f (table c ix) else table c' ix)"
  by (cases c; cases c') auto

lemma look_map_table [simp]:
  "look (map_table (hm_insert k e) c ix) = (look ix)((c, k) \<mapsto> e)"
  "look (map_table (hm_remove k) c ix) = (look ix)((c, k) := None)"
  "look (map_table (hm_modify k g) c ix) = (\<lambda>p. if p = (c, k) then map_option g (look ix p) else look ix p)"
  by (auto simp: look_def table_map_table fun_eq_iff)

lemma look_cong: "ix_staging ix' = ix_staging ix \<Longrightarrow> ix_restored ix' = ix_restored ix \<Longrightarrow> look ix' = look ix"
  unfolding fun_eq_iff look_def by (metis (full_types) cache_category.exhaust table.simps)

lemma look_frame [simp]:
  "look (recompute_used_capacity ix) = look ix"
  "look (ix\<lparr>ix_hit_count := n\<rparr>) = look ix" "look (ix\<lparr>ix_miss_count := n\<rparr>) = look ix"
  "look (ix\<lparr>ix_evict_count := n\<rparr>) = look ix" "look (ix\<lparr>ix_evict_bytes := n\<rparr>) = look ix"
  by (rule look_cong; simp add: recompute_used_capacity_def)+

section \<open>The invariant of the index\<close>

definition entry_key :: "stored_entry \<Rightarrow> cache_key" where
  "entry_key e = (xa_bucket (se_xattrs e), xa_key (se_xattrs e), xa_version_id (se_xattrs e))"

text \<open>
  Every entry sits under its own key and in the table of its category, and the capacity in
  use is the sum of the sizes.
\<close>

definition wf_index :: "cache_index \<Rightarrow> bool" where
  "wf_index ix \<longleftrightarrow>
     keyed entry_key (ix_staging ix) \<and> keyed entry_key (ix_restored ix) \<and>
     (\<forall>e \<in> set (hm_values (ix_staging ix)). xa_category (se_xattrs e) = Staging) \<and>
     (\<forall>e \<in> set (hm_values (ix_restored ix)). xa_category (se_xattrs e) = Restored) \<and>
     ix_used_capacity ix = staging_used ix + restored_used ix"

definition wf_tables :: "cache_index \<Rightarrow> bool" where
  "wf_tables ix \<longleftrightarrow>
     (\<forall>c. keyed entry_key (table c ix)) \<and> (\<forall>c. \<forall>p \<in> set (table c ix). xa_category (se_xattrs (snd p)) = c)"

lemma wf_tablesD:
  assumes "wf_tables ix"
  shows "keyed entry_key (table c ix)" and "p \<in> set (table c ix) \<Longrightarrow> xa_category (se_xattrs (snd p)) = c"
  using assms unfolding wf_tables_def by blast+

lemma wf_index_tables: "wf_index ix \<longleftrightarrow> wf_tables ix \<and> ix_used_capacity ix = staging_used ix + restored_used ix"
proof -
  have "(\<forall>c. P c) \<longleftrightarrow> P Staging \<and> P Restored" for P using cache_category.exhaust by metis
  then show ?thesis by (auto simp: wf_index_def wf_tables_def)
qed

lemma wf_recompute [intro]: "wf_tables ix \<Longrightarrow> wf_index (recompute_used_capacity ix)"
proof -
  have "table c (recompute_used_capacity ix) = table c ix" for c
    by (cases c) (simp_all add: recompute_used_capacity_def)
  then show "wf_tables ix \<Longrightarrow> wf_index (recompute_used_capacity ix)"
    unfolding wf_index_tables wf_tables_def
    by (simp add: staging_used_def restored_used_def sizes_def) (simp add: recompute_used_capacity_def)
qed

lemma wf_tables_insert:
  assumes "wf_tables ix" and "entry_key e = k" and "xa_category (se_xattrs e) = c"
  shows "wf_tables (map_table (hm_insert k e) c ix)"
proof -
  have "keyed entry_key (table c' (map_table (hm_insert k e) c ix))" for c'
    using wf_tablesD(1) [OF assms(1)] assms(2) by (simp add: table_map_table keyed_insert)
  moreover have "xa_category (se_xattrs (snd p)) = c'" if "p \<in> set (table c' (map_table (hm_insert k e) c ix))" for c' p
  proof -
    have "p = (k, e) \<and> c' = c \<or> p \<in> set (table c' ix)"
      using that by (auto simp: table_map_table set_hm_insert [OF keyed_distinct [OF wf_tablesD(1) [OF assms(1)]]] split: if_splits)
    then show ?thesis using wf_tablesD(2) [OF assms(1), of p c'] assms(3) by fastforce
  qed
  ultimately show ?thesis unfolding wf_tables_def by blast
qed

lemma wf_tables_remove: "wf_tables ix \<Longrightarrow> wf_tables (map_table (hm_remove k) c ix)"
  unfolding wf_tables_def table_map_table by (simp add: keyed_remove set_hm_remove)

lemma wf_tables_modify:
  assumes "wf_tables ix" and "\<And>e. entry_key (g e) = entry_key e"
    and "\<And>e. xa_category (se_xattrs (g e)) = xa_category (se_xattrs e)"
  shows "wf_tables (map_table (hm_modify k g) c ix)"
proof -
  have "keyed entry_key (table c' (map_table (hm_modify k g) c ix))" for c'
    using wf_tablesD(1) [OF assms(1)] assms(2) by (simp add: table_map_table keyed_modify)
  moreover have "xa_category (se_xattrs (snd p)) = c'" if "p \<in> set (table c' (map_table (hm_modify k g) c ix))" for c' p
  proof (cases "c' = c")
    case True
    with that have "p \<in> (\<lambda>(k', v). if k' = k then (k', g v) else (k', v)) ` set (table c ix)"
      by (simp only: table_map_table set_hm_modify if_True simp_thms)
    then obtain q where q: "q \<in> set (table c ix)" "p = (case q of (k', v) \<Rightarrow> if k' = k then (k', g v) else (k', v))"
      by (rule imageE)
    from q(2) have "xa_category (se_xattrs (snd p)) = xa_category (se_xattrs (snd q))"
      using assms(3) by (auto split: prod.splits)
    with wf_tablesD(2) [OF assms(1) q(1)] True show ?thesis by simp
  next
    case False
    with that wf_tablesD(2) [OF assms(1), of p c'] show ?thesis by (simp only: table_map_table if_False)
  qed
  ultimately show ?thesis unfolding wf_tables_def by blast
qed

lemma sizes_modify_entry:
  assumes "\<And>e. xa_size (se_xattrs (g e)) = xa_size (se_xattrs e)"
  shows "sizes (hm_modify k g m) = sizes m"
  using assms by (induction m) (auto simp: sizes_def hm_modify_def)

lemma wf_index_counters [simp]:
  "wf_index (ix\<lparr>ix_hit_count := n\<rparr>) = wf_index ix" "wf_index (ix\<lparr>ix_miss_count := n\<rparr>) = wf_index ix"
  by (simp_all add: wf_index_def staging_used_def restored_used_def)

lemma wf_tables_counters [simp]:
  "wf_tables (ix\<lparr>ix_evict_count := n, ix_evict_bytes := m\<rparr>) = wf_tables ix"
proof -
  have "table c (ix\<lparr>ix_evict_count := n, ix_evict_bytes := m\<rparr>) = table c ix" for c by (cases c) auto
  then show ?thesis by (simp add: wf_tables_def)
qed

lemma look_entry:
  assumes "wf_tables ix" and "look ix (c, k) = Some e"
  shows "entry_key e = k" and "xa_category (se_xattrs e) = c"
proof -
  from assms(2) have "(k, e) \<in> set (table c ix)" by (auto simp: look_def dest: map_of_SomeD)
  with wf_tablesD(1) [OF assms(1), of c] wf_tablesD(2) [OF assms(1), of "(k, e)" c]
  show "entry_key e = k" "xa_category (se_xattrs e) = c" by (auto simp: keyed_def)
qed

section \<open>The service over a store\<close>

text \<open>The attributes that a read does not change.\<close>

definition core :: "cache_xattrs \<Rightarrow> cache_xattrs" where
  "core x = x\<lparr>xa_last_access_at := 0, xa_access_count := 0\<rparr>"

text \<open>
  The content of the cache, given what the backend stores; every entry owns one stored
  object. A step that \<open>loses_restored\<close> may only lose restored objects.
\<close>

type_synonym 'b object_view = "'b \<Rightarrow> u64 \<Rightarrow> (bytes \<times> cache_xattrs) option"

definition stored :: "(u64 \<Rightarrow> (bytes \<times> cache_xattrs) option) \<Rightarrow> stored_entry option \<Rightarrow> (bytes \<times> cache_xattrs) option" where
  "stored objects eo = (case eo of None \<Rightarrow> None
     | Some e \<Rightarrow> map_option (\<lambda>(d, _). (d, core (se_xattrs e))) (objects (se_storage_id e)))"

definition content ::
  "'b object_view \<Rightarrow> ('f, 'b) cache_service \<Rightarrow> cache_category \<times> cache_key \<Rightarrow> (bytes \<times> cache_xattrs) option" where
  "content store s p = stored (store (cs_backend s)) (look (cs_index s) p)"

definition owned :: "(u64 \<Rightarrow> (bytes \<times> cache_xattrs) option) \<Rightarrow> cache_index \<Rightarrow> bool" where
  "owned objects ix \<longleftrightarrow> (\<forall>p e. look ix p = Some e \<longrightarrow> objects (se_storage_id e) \<noteq> None) \<and>
     (\<forall>p q e e'. look ix p = Some e \<longrightarrow> look ix q = Some e' \<longrightarrow> se_storage_id e = se_storage_id e' \<longrightarrow> p = q)"

definition cache_ok :: "('b \<Rightarrow> bool) \<Rightarrow> 'b object_view \<Rightarrow> ('f, 'b) cache_service \<Rightarrow> bool" where
  "cache_ok good store s \<longleftrightarrow> good (cs_backend s) \<and> wf_index (cs_index s) \<and> owned (store (cs_backend s)) (cs_index s)"

definition loses_restored ::
  "('b \<Rightarrow> bool) \<Rightarrow> 'b object_view \<Rightarrow> ('f, 'b) cache_service \<Rightarrow> ('f, 'b) cache_service \<Rightarrow> bool" where
  "loses_restored good store s s' \<longleftrightarrow> cache_ok good store s' \<and> content store s' \<subseteq>\<^sub>m content store s \<and>
     (\<forall>k. content store s' (Staging, k) = content store s (Staging, k))"

lemma ownedD:
  assumes "owned objects ix"
  shows "look ix p = Some e \<Longrightarrow> objects (se_storage_id e) \<noteq> None"
    and "look ix p = Some e \<Longrightarrow> look ix q = Some e' \<Longrightarrow> se_storage_id e = se_storage_id e' \<Longrightarrow> p = q"
  using assms unfolding owned_def by blast+

lemma owned_insert:
  assumes "owned objects ix" and "objects (se_storage_id e) = None" and "look ix' = (look ix)(p \<mapsto> e)"
  shows "owned (objects(se_storage_id e \<mapsto> d)) ix'"
proof -
  have fresh: "se_storage_id e1 \<noteq> se_storage_id e" if "look ix p1 = Some e1" for p1 e1
    using ownedD(1) [OF assms(1) that] assms(2) by metis
  have old: "p1 \<noteq> p \<Longrightarrow> look ix p1 = Some e1" if "look ix' p1 = Some e1" for p1 e1
    using that assms(3) by simp
  have new: "e1 = e" if "look ix' p = Some e1" for e1 using that assms(3) by simp
  show ?thesis
    unfolding owned_def
  proof (intro conjI allI impI)
    fix p1 e1 assume 1: "look ix' p1 = Some e1"
    then show "(objects(se_storage_id e \<mapsto> d)) (se_storage_id e1) \<noteq> None"
      using old [OF 1] new ownedD(1) [OF assms(1), of p1 e1] by (cases "p1 = p") auto
    fix p2 e2 assume 2: "look ix' p2 = Some e2" and eq: "se_storage_id e1 = se_storage_id e2"
    show "p1 = p2"
      using old [OF 1] old [OF 2] 1 2 eq fresh new ownedD(2) [OF assms(1)] by metis
  qed
qed

context object_store
begin

lemma loses_restored_refl: "cache_ok inv store s \<Longrightarrow> loses_restored inv store s s"
  by (simp add: loses_restored_def)

lemma loses_restored_trans: "loses_restored inv store s t \<Longrightarrow> loses_restored inv store t u \<Longrightarrow> loses_restored inv store s u"
  unfolding loses_restored_def by (metis map_le_trans)

lemma owned_subset:
  assumes "owned (store b) ix" and "look ix' \<subseteq>\<^sub>m look ix" and "\<And>p e. look ix' p = Some e \<Longrightarrow> store b' (se_storage_id e) \<noteq> None"
  shows "owned (store b') ix'"
  using assms unfolding owned_def map_le_def by (metis domI)

text \<open>A change of the backend that keeps the owned objects keeps the content.\<close>

lemma backend_change:
  assumes "cache_ok inv store s" and "inv b'" and "store (cs_backend s) \<subseteq>\<^sub>m store b'"
  shows "cache_ok inv store (s\<lparr>cs_backend := b'\<rparr>)" and "content store (s\<lparr>cs_backend := b'\<rparr>) = content store s"
proof -
  have same: "store b' (se_storage_id e) = store (cs_backend s) (se_storage_id e)" if "look (cs_index s) p = Some e" for p e
    using assms(1,3) that unfolding cache_ok_def owned_def map_le_def by (metis domIff)
  show "cache_ok inv store (s\<lparr>cs_backend := b'\<rparr>)"
    using assms(1,2) same unfolding cache_ok_def owned_def by simp
  show "content store (s\<lparr>cs_backend := b'\<rparr>) = content store s"
    using same by (auto simp: content_def stored_def fun_eq_iff split: option.splits)
qed

lemma same_backend_change:
  assumes "cache_ok inv store s" and "inv b'" and "store b' = store (cs_backend s)"
  shows "cache_ok inv store (s\<lparr>cs_backend := b'\<rparr>)" and "content store (s\<lparr>cs_backend := b'\<rparr>) = content store s"
  using backend_change [OF assms(1,2)] assms(3) by simp_all

text \<open>Removing an entry from the index, and possibly its object from the backend.\<close>

lemma remove_entry:
  assumes "cache_ok inv store s" and "look (cs_index s) (c, k) = Some e" and "inv b'"
    and "store b' \<in> {store (cs_backend s), (store (cs_backend s))(se_storage_id e := None)}"
    and "look ix' = (look (cs_index s))((c, k) := None)" and "wf_index ix'"
  shows "cache_ok inv store (s\<lparr>cs_backend := b', cs_index := ix'\<rparr>)"
    and "content store (s\<lparr>cs_backend := b', cs_index := ix'\<rparr>) = (content store s)((c, k) := None)"
proof -
  have other: "store b' (se_storage_id e') = store (cs_backend s) (se_storage_id e')"
    if "look ix' p = Some e'" for p e'
  proof -
    from that assms(5) have "p \<noteq> (c, k)" "look (cs_index s) p = Some e'" by (auto split: if_splits)
    with assms(1,2) have "se_storage_id e' \<noteq> se_storage_id e" unfolding cache_ok_def owned_def by metis
    with assms(4) show ?thesis by auto
  qed
  have sub: "look ix' \<subseteq>\<^sub>m look (cs_index s)" using assms(5) by (auto simp: map_le_def)
  have "owned (store b') ix'"
  proof (rule owned_subset [OF _ sub])
    show "owned (store (cs_backend s)) (cs_index s)" using assms(1) by (simp add: cache_ok_def)
    show "store b' (se_storage_id e') \<noteq> None" if "look ix' p = Some e'" for p e'
      using assms(1) other [OF that] sub that unfolding cache_ok_def owned_def map_le_def by (metis domI)
  qed
  with assms(3,6) show "cache_ok inv store (s\<lparr>cs_backend := b', cs_index := ix'\<rparr>)" by (simp add: cache_ok_def)
  show "content store (s\<lparr>cs_backend := b', cs_index := ix'\<rparr>) = (content store s)((c, k) := None)"
  proof
    fix p
    show "content store (s\<lparr>cs_backend := b', cs_index := ix'\<rparr>) p = ((content store s)((c, k) := None)) p"
      using other [of p] assms(5) by (cases "look ix' p") (auto simp: content_def stored_def split: if_splits)
  qed
qed

lemma wf_index_remove: "wf_index ix \<Longrightarrow> wf_index (recompute_used_capacity (map_table (hm_remove k) c ix))"
  by (intro wf_recompute wf_tables_remove) (simp add: wf_index_tables)

lemma delete_entry_spec:
  assumes "cache_ok inv store s" and "delete_entry be k c s = (r, s')"
  shows "cache_ok inv store s' \<and> room (cs_backend s') = room (cs_backend s) \<and>
     (case r of Inl err \<Rightarrow> content store s' = content store s | Inr _ \<Rightarrow> content store s' = (content store s)((c, k) := None))"
proof (cases "look (cs_index s) (c, k)")
  case None
  then have "s' = s" "r = Inr False" "content store s (c, k) = None"
    using assms(2) by (auto simp: delete_entry_def look_def content_def stored_def)
  with assms(1) show ?thesis by (auto simp: fun_eq_iff)
next
  case (Some e)
  then have e: "hm_get (table c (cs_index s)) k = Some e" by (simp add: look_def)
  obtain q b' where d: "cb_delete be (se_storage_id e) (cs_backend s) = (q, b')" by fastforce
  have i: "inv (cs_backend s)" using assms(1) by (simp add: cache_ok_def)
  note law = delete_law [OF i d]
  show ?thesis
  proof (cases q)
    case (Inl err)
    with assms(2) e d have "r = Inl err" "s' = s\<lparr>cs_backend := b'\<rparr>" by (simp_all add: delete_entry_def)
    with law Inl same_backend_change [OF assms(1)] show ?thesis by simp
  next
    case (Inr u)
    let ?ix = "recompute_used_capacity (map_table (hm_remove k) c (cs_index s))"
    from Inr assms(2) e d have r: "r = Inr True" "s' = s\<lparr>cs_backend := b', cs_index := ?ix\<rparr>"
      by (simp_all add: delete_entry_def Let_def)
    have "wf_index ?ix" using assms(1) by (simp add: cache_ok_def wf_index_remove)
    from remove_entry [OF assms(1) Some _ _ _ this] law Inr r show ?thesis by simp
  qed
qed

lemma delete_restored_loses:
  assumes "cache_ok inv store s"
  shows "loses_restored inv store s (snd (delete_entry be k Restored s)) \<and>
    room (cs_backend (snd (delete_entry be k Restored s))) = room (cs_backend s)"
proof -
  obtain r s' where d: "delete_entry be k Restored s = (r, s')" by fastforce
  from delete_entry_spec [OF assms d] show ?thesis
    by (cases r) (auto simp: d loses_restored_def map_le_def)
qed

text \<open>A step that also leaves the free ids of the backend alone.\<close>

definition shrinks :: "('f, 'b) cache_service \<Rightarrow> ('f, 'b) cache_service \<Rightarrow> bool" where
  "shrinks s s' \<longleftrightarrow> loses_restored inv store s s' \<and> room (cs_backend s') = room (cs_backend s)"

lemma shrinks_refl: "cache_ok inv store s \<Longrightarrow> shrinks s s"
  by (simp add: shrinks_def loses_restored_refl)

lemma shrinks_trans: "shrinks s t \<Longrightarrow> shrinks t u \<Longrightarrow> shrinks s u"
  unfolding shrinks_def by (metis loses_restored_trans)

lemma shrinks_ok: "shrinks s s' \<Longrightarrow> cache_ok inv store s'"
  by (simp add: shrinks_def loses_restored_def)

lemma shrinks_same:
  "cache_ok inv store s' \<Longrightarrow> content store s' = content store s \<Longrightarrow> room (cs_backend s') = room (cs_backend s) \<Longrightarrow> shrinks s s'"
  by (simp add: shrinks_def loses_restored_def)

lemma shrinks_delete: "cache_ok inv store s \<Longrightarrow> shrinks s (snd (delete_entry be k Restored s))"
  using delete_restored_loses by (simp add: shrinks_def)

lemma shrinks_reclaim:
  assumes "cache_ok inv store s" and "reclaim_expired_restored_except be now skip s = (r, s')"
  shows "shrinks s s' \<and> r = Inr ()"
proof -
  have "shrinks t (foldl (\<lambda>s key. snd (delete_entry be key Restored s)) t keys)"
    if "cache_ok inv store t" for t and keys :: "cache_key list"
    using that
  proof (induction keys arbitrary: t)
    case (Cons k keys)
    have "shrinks t (snd (delete_entry be k Restored t))" by (rule shrinks_delete [OF Cons.prems])
    with Cons.IH [OF shrinks_ok [OF this]] show ?case by (auto intro: shrinks_trans)
  qed (simp add: shrinks_refl)
  with assms show ?thesis by (auto simp: reclaim_expired_restored_except_def Let_def)
qed

lemma effective_total_capacity_spec:
  assumes "cache_ok inv store s" and "effective_total_capacity be s = (r, s')"
  shows "shrinks s s'" and "cs_index s' = cs_index s"
proof -
  obtain q b' where a: "cb_available_bytes be (cs_backend s) = (q, b')" by fastforce
  have "inv (cs_backend s)" using assms(1) by (simp add: cache_ok_def)
  note law = available_law [OF this a]
  have s': "s' = s\<lparr>cs_backend := b'\<rparr>"
    using assms(2) a by (cases q) (simp_all add: effective_total_capacity_def)
  with law same_backend_change [OF assms(1), of b'] show "shrinks s s'" "cs_index s' = cs_index s"
    by (simp_all add: shrinks_same)
qed

lemma evict_victim_spec:
  assumes "cache_ok inv store s" and "look (cs_index s) (Restored, k) = Some e"
    and "evict_victim be Restored (k, e) s = (r, s')"
  shows "shrinks s s'"
proof -
  have e: "hm_get (ix_restored (cs_index s)) k = Some e" using assms(2) by (simp add: look_def)
  define ix where "ix = recompute_used_capacity ((map_table (hm_remove k) Restored (cs_index s))
    \<lparr>ix_evict_count := ix_evict_count (cs_index s) + 1, ix_evict_bytes := ix_evict_bytes (cs_index s) + xa_size (se_xattrs e)\<rparr>)"
  have wt: "wf_tables (cs_index s)" using assms(1) by (simp add: cache_ok_def wf_index_tables)
  have "wf_tables ((map_table (hm_remove k) Restored (cs_index s))
    \<lparr>ix_evict_count := ix_evict_count (cs_index s) + 1, ix_evict_bytes := ix_evict_bytes (cs_index s) + xa_size (se_xattrs e)\<rparr>)"
    using wf_tables_remove [OF wt, of k Restored] by (simp only: wf_tables_counters)
  then have wf: "wf_index ix" unfolding ix_def by (rule wf_recompute)
  have lk: "look ix = (look (cs_index s))((Restored, k) := None)"
    unfolding ix_def by (simp del: map_table.simps)
  obtain q b' where d: "cb_delete be (se_storage_id e) (cs_backend s) = (q, b')" by fastforce
  have i: "inv (cs_backend s)" using assms(1) by (simp add: cache_ok_def)
  note law = delete_law [OF i d]
  show ?thesis
  proof (cases q)
    case (Inr u)
    with assms(3) e d have s': "s' = s\<lparr>cs_backend := b', cs_index := ix\<rparr>"
      by (auto simp: evict_victim_def Let_def ix_def)
    from law Inr have st: "store b' \<in> {store (cs_backend s), (store (cs_backend s))(se_storage_id e := None)}" "inv b'" by auto
    note rm = remove_entry [OF assms(1,2) st(2,1) lk wf]
    with law Inr s' show ?thesis by (auto simp: shrinks_def loses_restored_def map_le_def)
  next
    case (Inl err)
    let ?ix = "recompute_used_capacity (map_table (hm_insert k e) Restored ix)"
    have s': "s' = s\<lparr>cs_backend := b', cs_index := ?ix\<rparr>"
      using Inl assms(3) e d by (auto simp: evict_victim_def Let_def ix_def)
    have "wf_index ?ix"
      using look_entry [OF wt assms(2)] wf by (intro wf_recompute wf_tables_insert) (simp_all add: wf_index_tables)
    moreover have look: "look ?ix = look (cs_index s)"
      using lk assms(2) by (auto simp: fun_eq_iff simp del: map_table.simps)
    moreover have st: "store b' = store (cs_backend s)" "inv b'" "room b' = room (cs_backend s)"
      using law Inl by auto
    ultimately have "cache_ok inv store s'" "content store s' = content store s"
      using assms(1) unfolding s' cache_ok_def owned_def content_def by (simp_all del: map_table.simps split_paired_All)
    with st s' show ?thesis by (simp add: shrinks_same)
  qed
qed

lemma select_candidate_look:
  assumes "wf_index ix" and "select_eviction_candidate policy ix category = Some (k, e)"
  shows "category = Restored \<and> look ix (Restored, k) = Some e"
proof -
  have c: "category = Restored" using assms(2) by (cases category) (simp_all add: select_eviction_candidate_def)
  have "(k, e) \<in> set (ix_restored ix)"
    using assms(2) c
    by (cases policy) (auto simp: select_eviction_candidate_def dest!: min_by_first_SomeD)
  moreover have "distinct (hm_keys (ix_restored ix))"
    using assms(1) by (simp add: wf_index_def keyed_def)
  ultimately show ?thesis using c by (simp add: look_def)
qed

lemma evict_loop_spec:
  assumes "cache_ok inv store s" and "evict_loop be pressure n s = (r, s')"
  shows "shrinks s s' \<and> (r = Inr True \<longrightarrow> \<not> should_evict (pressure (cs_index s')))"
  using assms
proof (induction n arbitrary: s)
  case 0
  then show ?case by (auto simp: shrinks_refl)
next
  case (Suc n)
  show ?case
  proof (cases "should_evict (pressure (cs_index s))")
    case False
    with Suc.prems show ?thesis by (auto simp: shrinks_refl)
  next
    case True
    show ?thesis
    proof (cases "choose_victim_category (pressure (cs_index s)) (cs_index s)")
      case None
      with True Suc.prems show ?thesis by (auto simp: shrinks_refl)
    next
      case (Some c)
      show ?thesis
      proof (cases "select_eviction_candidate (cs_eviction_policy s) (cs_index s) c")
        case None
        with Some True Suc.prems show ?thesis by (auto simp: shrinks_refl)
      next
        case (Some v)
        obtain k e where v: "v = (k, e)" by (cases v)
        have "wf_index (cs_index s)" using Suc.prems(1) by (simp add: cache_ok_def)
        from select_candidate_look [OF this Some [unfolded v]]
        have c: "c = Restored" "look (cs_index s) (Restored, k) = Some e" by auto
        have "try_st (evict_victim be Restored (k, e) s) (\<lambda>_ s. evict_loop be pressure n s) = (r, s')"
          using Suc.prems(2) True Some \<open>choose_victim_category _ _ = Some c\<close> v c(1) by simp
        then show ?thesis
        proof (cases rule: try_st_cases)
          case (1 err)
          with evict_victim_spec [OF Suc.prems(1) c(2) 1(1)] show ?thesis by simp
        next
          case (2 u s1)
          note v1 = evict_victim_spec [OF Suc.prems(1) c(2) 2(1)]
          from Suc.IH [OF shrinks_ok [OF v1] 2(2)] v1 show ?thesis by (auto intro: shrinks_trans)
        qed
      qed
    qed
  qed
qed

text \<open>What an eviction that returns leaves: room for the incoming bytes within every budget.\<close>

lemma evict_if_needed_spec:
  assumes "cache_ok inv store s" and "evict_if_needed fl be incoming c s = (r, s')"
  shows "shrinks s s'"
proof (cases "incoming = 0")
  case True
  with assms show ?thesis by (simp add: evict_if_needed_def shrinks_refl)
next
  case False
  obtain q s1 where t: "effective_total_capacity be s = (q, s1)" by fastforce
  note t1 = effective_total_capacity_spec [OF assms(1) t]
  show ?thesis
  proof (cases q)
    case (Inl err)
    with assms(2) False t t1 show ?thesis by (simp add: evict_if_needed_def)
  next
    case (Inr total)
    show ?thesis
    proof (cases "total = 0 \<or> incoming > total")
      case True
      with assms(2) False t t1 Inr show ?thesis by (auto simp: evict_if_needed_def split: if_splits)
    next
      case fits: False
      obtain sb rb where split: "split_capacity_by_static_ratio s1 total = (sb, rb)" by fastforce
      define pressure where
        "pressure = pressure_of incoming c sb rb (effective_low_watermark_used fl s1 total) total"
      obtain q2 s2 where l: "evict_loop be pressure (max (cs_eviction_batch_size s1) 1) s1 = (q2, s2)" by fastforce
      have "s' = s2"
        using assms(2) False t Inr fits split l
        by (cases q2) (simp_all add: evict_if_needed_def Let_def pressure_def [symmetric] split: if_splits)
      with evict_loop_spec [OF shrinks_ok [OF t1(1)] l] t1(1) show ?thesis by (auto intro: shrinks_trans)
    qed
  qed
qed

text \<open>Entering a written object into the index, and dropping an object that no entry owns.\<close>

lemma insert_written:
  assumes "cache_ok inv store s" and "inv b'" and "store (cs_backend s) i = None"
    and "store b' = (store (cs_backend s))(i \<mapsto> (data, x))" and "k = (xa_bucket x, xa_key x, xa_version_id x)"
    and "insert_entry k \<lparr>se_storage_id = i, se_xattrs = x\<rparr> (s\<lparr>cs_backend := b'\<rparr>) = (previous, s')"
  shows "previous = look (cs_index s) (xa_category x, k)"
    and "look (cs_index s') = (look (cs_index s))((xa_category x, k) \<mapsto> \<lparr>se_storage_id = i, se_xattrs = x\<rparr>)"
    and "cache_ok inv store s'" and "content store s' = (content store s)((xa_category x, k) \<mapsto> (data, core x))"
    and "cs_backend s' = b'"
proof -
  let ?e = "\<lparr>se_storage_id = i, se_xattrs = x\<rparr>" and ?p = "(xa_category x, k)"
  let ?ix = "recompute_used_capacity (map_table (hm_insert k ?e) (xa_category x) (cs_index s))"
  have s': "s' = s\<lparr>cs_backend := b', cs_index := ?ix\<rparr>" and prev: "previous = look (cs_index s) ?p"
    using assms(6) by (auto simp: insert_entry_def look_def Let_def)
  then show "previous = look (cs_index s) ?p" "cs_backend s' = b'" by simp_all
  show lk: "look (cs_index s') = (look (cs_index s))(?p \<mapsto> ?e)" by (simp add: s')
  from assms(1) have own: "owned (store (cs_backend s)) (cs_index s)" by (simp add: cache_ok_def)
  have "wf_tables (cs_index s)" using assms(1) by (simp add: cache_ok_def wf_index_tables)
  then have wf: "wf_index ?ix"
    using assms(5) by (intro wf_recompute wf_tables_insert) (simp_all add: entry_key_def)
  have "owned (store b') (cs_index s')"
    using owned_insert [OF own _ lk] assms(3,4) by simp
  with assms(2) wf s' show "cache_ok inv store s'" by (simp add: cache_ok_def)
  have keep: "store b' (se_storage_id e) = store (cs_backend s) (se_storage_id e)" if "look (cs_index s) p = Some e" for p e
    using ownedD(1) [OF own that] assms(3,4) by (metis fun_upd_other)
  show "content store s' = (content store s)(?p \<mapsto> (data, core x))"
  proof
    fix p
    have "stored (store b') (look (cs_index s) p) = stored (store (cs_backend s)) (look (cs_index s) p)"
      using keep [of p] by (simp add: stored_def split: option.splits)
    then show "content store s' p = ((content store s)(?p \<mapsto> (data, core x))) p"
      unfolding content_def lk using assms(4) \<open>cs_backend s' = b'\<close> by (simp add: stored_def)
  qed
qed

lemma drop_unowned:
  assumes "cache_ok inv store s" and "\<And>p e. look (cs_index s) p = Some e \<Longrightarrow> se_storage_id e \<noteq> j"
    and "cb_delete be j (cs_backend s) = (q, b')"
  shows "cache_ok inv store (s\<lparr>cs_backend := b'\<rparr>)" and "content store (s\<lparr>cs_backend := b'\<rparr>) = content store s"
    and "room b' = room (cs_backend s)"
proof -
  have i: "inv (cs_backend s)" using assms(1) by (simp add: cache_ok_def)
  note law = delete_law [OF i assms(3)]
  then show "room b' = room (cs_backend s)" by simp
  have same: "store b' (se_storage_id e) = store (cs_backend s) (se_storage_id e)" if "look (cs_index s) p = Some e" for p e
    using law assms(2) [OF that] by (auto split: sum.splits)
  have "owned (store b') (cs_index s)"
    by (rule owned_subset [where b = "cs_backend s" and ix = "cs_index s"])
      (use assms(1) same in \<open>auto simp: cache_ok_def owned_def simp del: split_paired_All\<close>)
  with assms(1) law show "cache_ok inv store (s\<lparr>cs_backend := b'\<rparr>)" by (simp add: cache_ok_def)
  show "content store (s\<lparr>cs_backend := b'\<rparr>) = content store s"
    using same by (auto simp: content_def stored_def fun_eq_iff split: option.splits)
qed

lemma put_bytes_spec:
  assumes "cache_ok inv store s" and "0 < room (cs_backend s)"
    and "put_bytes fl be now k data x s = (r, s')"
    and "k = (xa_bucket x, xa_key x, xa_version_id x)"
  shows "room (cs_backend s) \<le> room (cs_backend s') + 1 \<and> (case r of
      Inl err \<Rightarrow> loses_restored inv store s s'
    | Inr i \<Rightarrow> \<exists>s1. loses_restored inv store s s1 \<and> cache_ok inv store s' \<and>
        content store s' = (content store s1)((xa_category x, k) \<mapsto> (data, core x)))"
proof -
  let ?c = "xa_category x"
  obtain q s1 where e: "effective_total_capacity be s = (q, s1)" by fastforce
  note e1 = effective_total_capacity_spec(1) [OF assms(1) e]
  have snd1: "snd (ensure_object_size_within_total_capacity be (xa_size x) s) = s1"
    using e by (cases q) (simp_all add: ensure_object_size_within_total_capacity_def)
  obtain q1 where en: "ensure_object_size_within_total_capacity be (xa_size x) s = (q1, s1)"
    using snd1 by (metis prod.collapse)
  define skip where "skip = (if ?c = Restored then Some k else None)"
  define delta where "delta = sat_sub (xa_size x)
    (case find_entry k ?c s1 of None \<Rightarrow> 0 | Some entry \<Rightarrow> xa_size (se_xattrs entry))"
  obtain s2 where r2: "reclaim_expired_restored_except be now skip s1 = (Inr (), s2)" and e2: "shrinks s1 s2"
    using shrinks_reclaim [OF shrinks_ok [OF e1], of now skip] by (metis prod.exhaust)
  obtain q3 s3 where r3: "evict_if_needed fl be delta ?c s2 = (q3, s3)" by fastforce
  note e3 = evict_if_needed_spec [OF shrinks_ok [OF e2] r3]
  have s13: "shrinks s s3" by (rule shrinks_trans [OF e1 shrinks_trans [OF e2 e3]])
  have room: "0 < room (cs_backend s3)" using s13 assms(2) by (simp add: shrinks_def)
  have ok3: "cache_ok inv store s3" by (rule shrinks_ok [OF s13])
  obtain w b' where w: "cb_write be (as_cursor k) data x (cs_backend s3) = (w, b')" by fastforce
  have "inv (cs_backend s3)" using ok3 by (simp add: cache_ok_def)
  note law = write_law [OF this room w]
  consider (early) err where "r = Inl err" "s' \<in> {s1, s3}"
    | (failed) err where "w = Inl err" "r = Inl err" "s' = s3\<lparr>cs_backend := b'\<rparr>"
    | (written) i where "w = Inr i" "r = Inr i" "try_st (Inr () :: string + unit, s3) (\<lambda>_ s.
        case insert_entry k \<lparr>se_storage_id = i, se_xattrs = x\<rparr> (s\<lparr>cs_backend := b'\<rparr>) of
          (None, s) \<Rightarrow> (Inr i, s)
        | (Some previous, s) \<Rightarrow>
            if se_storage_id previous \<noteq> i
            then (Inr i, s\<lparr>cs_backend := snd (cb_delete be (se_storage_id previous) (cs_backend s))\<rparr>)
            else (Inr i, s)) = (r, s')"
    using assms(3) en r2 r3 w
    by (cases q1; cases q3; cases w)
      (auto simp: put_bytes_def Let_def skip_def [symmetric] delta_def [symmetric]
        insert_entry_def split: option.splits if_splits)
  then show ?thesis
  proof cases
    case early
    with e1 s13 show ?thesis by (auto simp: shrinks_def)
  next
    case failed
    with law backend_change [OF ok3, of b'] s13 show ?thesis
      by (auto simp: shrinks_def loses_restored_def)
  next
    case (written i)
    obtain previous s4 where ins: "insert_entry k \<lparr>se_storage_id = i, se_xattrs = x\<rparr> (s3\<lparr>cs_backend := b'\<rparr>) = (previous, s4)"
      by fastforce
    from law written(1) have st: "inv b'" "store (cs_backend s3) i = None"
      "store b' = (store (cs_backend s3))(i \<mapsto> (data, x))" by auto
    note new = insert_written [OF ok3 st assms(4) ins]
    have "cache_ok inv store s' \<and> content store s' = content store s4 \<and> room (cs_backend s') = room b'"
    proof (cases "previous = None \<or> se_storage_id (the previous) = i")
      case True
      with written(3) ins new(3,5) show ?thesis by (auto split: option.splits)
    next
      case False
      then obtain prev where prev: "previous = Some prev" "se_storage_id prev \<noteq> i" by auto
      obtain q4 b4 where d: "cb_delete be (se_storage_id prev) (cs_backend s4) = (q4, b4)" by fastforce
      have s': "s' = s4\<lparr>cs_backend := b4\<rparr>" using written(3) ins prev d by auto
      have "se_storage_id e \<noteq> se_storage_id prev" if "look (cs_index s4) p = Some e" for p e
        using that new(1,2) prev ok3 unfolding cache_ok_def owned_def by (metis (no_types, lifting) fun_upd_apply option.inject stored_entry.select_convs(1))
      from drop_unowned [OF new(3) this d] s' new(5) show ?thesis by simp
    qed
    with new(4) s13 written(2) law show ?thesis by (auto simp: shrinks_def)
  qed
qed

end

end
