(* ===== verification/Cache_Spec.thy ===== *)
theory Cache_Spec
  imports Cache_Refinement
begin

text \<open>
  The contract of the cache service (\<open>crates/cache/src/service.rs\<close>), request by request.
  \<open>cache_step\<close> dispatches a request to its handler, \<open>staging_spec\<close> says what the requests
  may do to the staged objects and what they may answer, and the handlers refine it for
  every backend that keeps the contract \<open>object_store\<close>, whatever calls to the file system
  fail.
\<close>

section \<open>Requests\<close>

text \<open>The clock readings of a handler are part of its request.\<close>

datatype cache_request =
    PutStaging i64 i64 i64 "(status + put_staging_meta put_payload option) list"
  | PutRestored i64 i64 i64 "(status + put_restored_meta put_payload option) list"
  | GetRestored i64 i64 cache_key
  | Contains i64 cache_key
  | DeleteRestored cache_key
  | GetStaging cache_key
  | DeleteStaging cache_key
  | ListStaging u32 "string option"
  | Stats

datatype cache_reply =
    IdReply "string result"
  | UnitReply "unit result"
  | GetReply "get_payload list result"
  | StagingReply "get_staging_payload list result"
  | ContainsReply "(bool \<times> timestamp option) result"
  | KeysReply "(staging_key_entry list \<times> bool) result"
  | StatsReply "cache_stats result"

fun cache_step ::
  "'f f64_ops \<Rightarrow> 'b cache_backend \<Rightarrow> cache_request \<Rightarrow> ('f, 'b) cache_service \<Rightarrow> cache_reply \<times> ('f, 'b) cache_service" where
  "cache_step fl be (PutStaging t1 t2 t3 stream) s = apfst IdReply (cs_put_staging fl be t1 t2 t3 stream s)"
| "cache_step fl be (PutRestored t1 t2 t3 stream) s = apfst UnitReply (cs_put_restored fl be t1 t2 t3 stream s)"
| "cache_step fl be (GetRestored t1 t2 k) s = apfst GetReply (cs_get be t1 t2 k s)"
| "cache_step fl be (Contains t k) s = apfst ContainsReply (cs_contains be t k s)"
| "cache_step fl be (DeleteRestored k) s = apfst UnitReply (cs_delete be k s)"
| "cache_step fl be (GetStaging k) s = apfst StagingReply (cs_get_staging be k s)"
| "cache_step fl be (DeleteStaging k) s = apfst UnitReply (cs_delete_staging be k s)"
| "cache_step fl be (ListStaging limit after) s = (KeysReply (cs_list_staging_keys limit after s), s)"
| "cache_step fl be Stats s = apfst StatsReply (cs_stats be s)"

fun cache_run ::
  "'f f64_ops \<Rightarrow> 'b cache_backend \<Rightarrow> cache_request list \<Rightarrow> ('f, 'b) cache_service \<Rightarrow> cache_reply list \<times> ('f, 'b) cache_service" where
  "cache_run fl be [] s = ([], s)"
| "cache_run fl be (r # rs) s =
     (case cache_step fl be r s of (reply, s) \<Rightarrow> apfst (Cons reply) (cache_run fl be rs s))"

section \<open>The specification\<close>

text \<open>The staged objects: a map from keys to bytes and attributes.\<close>

type_synonym staged_map = "cache_key \<rightharpoonup> bytes \<times> cache_xattrs"

definition staged :: "'b object_view \<Rightarrow> ('f, 'b) cache_service \<Rightarrow> staged_map" where
  "staged store s = (\<lambda>k. content store s (Staging, k))"

definition staged_attrs :: "put_staging_meta \<Rightarrow> i64 \<Rightarrow> cache_xattrs" where
  "staged_attrs m t = \<lparr>xa_bucket = ps_bucket m, xa_key = ps_key m, xa_version_id = ps_version_id m,
     xa_size = ps_size m, xa_expire_at = 0, xa_cached_at = t, xa_last_access_at = 0, xa_access_count = 0,
     xa_checksum = ps_checksum m, xa_content_type = ps_content_type m, xa_etag = ps_etag m, xa_category = Staging\<rparr>"

definition restored_attrs :: "put_restored_meta \<Rightarrow> i64 \<Rightarrow> i64 \<Rightarrow> cache_xattrs" where
  "restored_attrs m expire_at t = \<lparr>xa_bucket = pr_bucket m, xa_key = pr_key m, xa_version_id = pr_version_id m,
     xa_size = pr_size m, xa_expire_at = expire_at, xa_cached_at = t, xa_last_access_at = 0, xa_access_count = 0,
     xa_checksum = pr_checksum m, xa_content_type = pr_content_type m, xa_etag = pr_etag m, xa_category = Restored\<rparr>"

text \<open>The messages that answer a read of a restored and of a staged object.\<close>

definition restored_messages :: "bytes \<Rightarrow> cache_xattrs \<Rightarrow> get_payload list" where
  "restored_messages data x =
     GetMeta \<lparr>co_size = xa_size x, co_expire_at = Some (timestamp_from_unix (xa_expire_at x)),
       co_content_type = xa_content_type x, co_etag = xa_etag x, co_checksum = xa_checksum x\<rparr> #
     map GetData (slice_chunks STREAM_CHUNK_SIZE data)"

definition staged_messages :: "bytes \<Rightarrow> cache_xattrs \<Rightarrow> get_staging_payload list" where
  "staged_messages data x =
     StagingMeta \<lparr>so_bucket = xa_bucket x, so_key = xa_key x, so_version_id = xa_version_id x,
       so_size = xa_size x, so_checksum = xa_checksum x, so_content_type = xa_content_type x,
       so_etag = xa_etag x, so_staged_at = Some (timestamp_from_unix (xa_cached_at x))\<rparr> #
     map StagingData (slice_chunks STREAM_CHUNK_SIZE data)"

text \<open>
  A put that succeeds binds the key to the bytes of its stream, and one that fails changes
  nothing; a read answers the bytes bound to its key, or an internal error of the backend;
  a delete unbinds the key or fails; no other request changes a staged object.
\<close>

inductive staging_spec :: "staged_map \<Rightarrow> cache_request \<Rightarrow> cache_reply \<Rightarrow> staged_map \<Rightarrow> bool" where
  put_ok: "collect_put ''empty put_staging chunk'' None [] stream = Inr (Some m, data) \<Longrightarrow> ps_size m = len_u64 data \<Longrightarrow>
    staging_spec M (PutStaging t1 t2 t3 stream) (IdReply (Inr i))
      (M((ps_bucket m, ps_key m, ps_version_id m) \<mapsto> (data, staged_attrs m t1)))"
| put_failed: "staging_spec M (PutStaging t1 t2 t3 stream) (IdReply (Inl e)) M"
| get_ok: "M k = Some (data, x) \<Longrightarrow> staging_spec M (GetStaging k) (StagingReply (Inr (staged_messages data x))) M"
| get_missing: "M k = None \<Longrightarrow>
    staging_spec M (GetStaging k) (StagingReply (Inl (Status NotFound ''staging object not found''))) M"
| get_failed: "M k \<noteq> None \<Longrightarrow> staging_spec M (GetStaging k) (StagingReply (Inl (internal_status e))) M"
| delete_ok: "staging_spec M (DeleteStaging k) (UnitReply (Inr ())) (M(k := None))"
| delete_failed: "staging_spec M (DeleteStaging k) (UnitReply (Inl (internal_status e))) M"
| put_restored: "staging_spec M (PutRestored t1 t2 t3 restored) (UnitReply u) M"
| get_restored: "staging_spec M (GetRestored t1 t2 k) (GetReply g) M"
| contains: "staging_spec M (Contains t k) (ContainsReply c) M"
| delete_restored: "staging_spec M (DeleteRestored k) (UnitReply u) M"
| list_staging: "staging_spec M (ListStaging limit after) (KeysReply ks) M"
| stats: "staging_spec M Stats (StatsReply st) M"

text \<open>A sequence of requests and replies that the specification allows.\<close>

inductive staging_trace :: "staged_map \<Rightarrow> cache_request list \<Rightarrow> cache_reply list \<Rightarrow> staged_map \<Rightarrow> bool" where
  trace_nil: "staging_trace M [] [] M"
| trace_cons: "staging_spec M r a M' \<Longrightarrow> staging_trace M' rs as M'' \<Longrightarrow> staging_trace M (r # rs) (a # as) M''"

text \<open>A request that puts a restored object under the key \<open>k\<close>.\<close>

definition puts_restored :: "cache_key \<Rightarrow> cache_request \<Rightarrow> bool" where
  "puts_restored k req = (case req of
       PutRestored t1 t2 t3 stream \<Rightarrow>
         (case collect_put ''empty put_restored chunk'' None [] stream of
            Inr (Some m, data) \<Rightarrow> (pr_bucket m, pr_key m, pr_version_id m) = k
          | _ \<Rightarrow> False)
     | _ \<Rightarrow> False)"

section \<open>The handlers refine the specification\<close>

lemma apfst_pair: "apfst f p = (y, z) \<longleftrightarrow> (\<exists>x. p = (x, z) \<and> y = f x)"
  by (cases p) auto

lemma find_entry_look: "find_entry k c s = look (cs_index s) (c, k)"
  by (simp add: find_entry_def look_def)

lemma update_hit_state_frame [simp]:
  "cache_ok good store (update_hit_state hit s) = cache_ok good store s"
  "content store (update_hit_state hit s) = content store s"
  "cs_backend (update_hit_state hit s) = cs_backend s"
  by (simp_all add: update_hit_state_def Let_def cache_ok_def owned_def content_def fun_eq_iff)

lemma owned_ids:
  assumes "owned objects ix" and "\<And>p. map_option se_storage_id (look ix' p) = map_option se_storage_id (look ix p)"
  shows "owned objects ix'"
proof -
  have old: "\<exists>e. look ix p = Some e \<and> se_storage_id e = se_storage_id e'" if "look ix' p = Some e'" for p e'
    using assms(2) [of p] that by (cases "look ix p") auto
  show ?thesis
    unfolding owned_def
  proof (intro conjI allI impI)
    fix p e assume 1: "look ix' p = Some e"
    from old [OF 1] obtain d where d: "look ix p = Some d" "se_storage_id d = se_storage_id e" by blast
    with ownedD(1) [OF assms(1) d(1)] show "objects (se_storage_id e) \<noteq> None" by simp
    fix q e' assume 2: "look ix' q = Some e'" and eq: "se_storage_id e = se_storage_id e'"
    from old [OF 2] obtain d' where d': "look ix q = Some d'" "se_storage_id d' = se_storage_id e'" by blast
    show "p = q" by (rule ownedD(2) [OF assms(1) d(1) d'(1)]) (simp add: d d' eq)
  qed
qed

lemma touch_entry_frame:
  assumes "cache_ok good store s"
  shows "cache_ok good store (touch_entry now k c s)" and "content store (touch_entry now k c s) = content store s"
    and "cs_backend (touch_entry now k c s) = cs_backend s"
proof -
  let ?g = "\<lambda>entry. entry\<lparr>se_xattrs := (se_xattrs entry)
    \<lparr>xa_last_access_at := now, xa_access_count := xa_access_count (se_xattrs entry) + 1\<rparr>\<rparr>"
  let ?ix = "map_table (hm_modify k ?g) c (cs_index s)"
  show b: "cs_backend (touch_entry now k c s) = cs_backend s" by (simp add: touch_entry_def)
  have ix: "cs_index (touch_entry now k c s) = ?ix" by (simp add: touch_entry_def)
  have lk: "look ?ix p = map_option (\<lambda>e. if p = (c, k) then ?g e else e) (look (cs_index s) p)" for p
    by (cases "look (cs_index s) p") auto
  have "wf_tables ?ix"
    using assms by (intro wf_tables_modify) (auto simp: cache_ok_def wf_index_tables entry_key_def)
  moreover have "ix_used_capacity ?ix = staging_used ?ix + restored_used ?ix"
    using assms by (cases c) (simp_all add: cache_ok_def wf_index_def staging_used_def restored_used_def sizes_modify_entry)
  ultimately have "wf_index ?ix" by (simp add: wf_index_tables)
  moreover have "owned (store (cs_backend s)) ?ix"
  proof (rule owned_ids)
    show "owned (store (cs_backend s)) (cs_index s)" using assms by (simp add: cache_ok_def)
    show "map_option se_storage_id (look ?ix p) = map_option se_storage_id (look (cs_index s) p)" for p
      unfolding lk by (cases "look (cs_index s) p") auto
  qed
  ultimately show "cache_ok good store (touch_entry now k c s)"
    using assms b ix by (simp add: cache_ok_def)
  show "content store (touch_entry now k c s) = content store s"
    unfolding content_def fun_eq_iff b ix lk
    by (auto simp: stored_def core_def split: option.splits)
qed

lemma staged_messages_core [simp]: "staged_messages data (core x) = staged_messages data x"
  by (simp add: staged_messages_def core_def)

text \<open>A put is refused by its stream, or it is a put of the collected bytes.\<close>

lemma cs_put_staging_cases:
  assumes "cs_put_staging fl be t1 t2 t3 stream s = (r, s')"
  obtains (rejected) e where "r = Inl e" "s' = s"
    | (put) m data q where "collect_put ''empty put_staging chunk'' None [] stream = Inr (Some m, data)"
      "ps_size m = len_u64 data"
      "put_bytes fl be t3 (ps_bucket m, ps_key m, ps_version_id m) data ((staged_attrs m t1)\<lparr>xa_last_access_at := t2\<rparr>) s = (q, s')"
      "r = (case q of Inl e \<Rightarrow> Inl (map_capacity_error e) | Inr i \<Rightarrow> Inr (show_word i))"
proof (cases "collect_put ''empty put_staging chunk'' None [] stream")
  case (Inl e)
  with assms rejected show ?thesis by (auto simp: cs_put_staging_def)
next
  case (Inr md)
  obtain mo data where md: "md = (mo, data)" by fastforce
  show ?thesis
  proof (cases "mo = None \<or> ps_size (the mo) \<noteq> len_u64 data")
    case True
    with assms rejected Inr md show ?thesis by (cases mo) (auto simp: cs_put_staging_def)
  next
    case False
    then obtain m where m: "mo = Some m" "ps_size m = len_u64 data" by auto
    obtain q s2 where q: "put_bytes fl be t3 (ps_bucket m, ps_key m, ps_version_id m) data
        ((staged_attrs m t1)\<lparr>xa_last_access_at := t2\<rparr>) s = (q, s2)" by fastforce
    have "s2 = s'" "r = (case q of Inl e \<Rightarrow> Inl (map_capacity_error e) | Inr i \<Rightarrow> Inr (show_word i))"
      using assms Inr md m q by (cases q; simp add: cs_put_staging_def staged_attrs_def)+
    with put Inr md m q show ?thesis by simp
  qed
qed

lemma cs_put_restored_cases:
  assumes "cs_put_restored fl be t1 t2 t3 stream s = (r, s')"
  obtains (rejected) e where "r = Inl e" "s' = s"
    | (put) m data t q where "collect_put ''empty put_restored chunk'' None [] stream = Inr (Some m, data)"
      "pr_size m = len_u64 data" "pr_expire_at m = Some t"
      "put_bytes fl be t3 (pr_bucket m, pr_key m, pr_version_id m) data
        ((restored_attrs m (ts_seconds t) t1)\<lparr>xa_last_access_at := t2\<rparr>) s = (q, s')"
      "r = (case q of Inl e \<Rightarrow> Inl (map_capacity_error e) | Inr i \<Rightarrow> Inr ())"
proof (cases "collect_put ''empty put_restored chunk'' None [] stream")
  case (Inl e)
  with assms rejected show ?thesis by (auto simp: cs_put_restored_def)
next
  case (Inr md)
  obtain mo data where md: "md = (mo, data)" by fastforce
  show ?thesis
  proof (cases "mo = None \<or> pr_size (the mo) \<noteq> len_u64 data \<or> pr_expire_at (the mo) = None")
    case True
    with assms rejected Inr md show ?thesis
      by (cases mo) (auto simp: cs_put_restored_def split: if_splits)
  next
    case False
    then obtain m t where m: "mo = Some m" "pr_size m = len_u64 data" "pr_expire_at m = Some t" by auto
    obtain q s2 where q: "put_bytes fl be t3 (pr_bucket m, pr_key m, pr_version_id m) data
        ((restored_attrs m (ts_seconds t) t1)\<lparr>xa_last_access_at := t2\<rparr>) s = (q, s2)" by fastforce
    have "s2 = s'" "r = (case q of Inl e \<Rightarrow> Inl (map_capacity_error e) | Inr i \<Rightarrow> Inr ())"
      using assms Inr md m q by (cases q; simp add: cs_put_restored_def restored_attrs_def)+
    with put Inr md m q show ?thesis by simp
  qed
qed

context object_store
begin

text \<open>Reading an object of the index leaves the state as it is and answers the stored bytes.\<close>

lemma read_entry:
  assumes "cache_ok inv store s" and "look (cs_index s) p = Some e" and "cb_read be (se_storage_id e) (cs_backend s) = (got, b')"
  shows "shrinks s (s\<lparr>cs_backend := b'\<rparr>)" and "content store (s\<lparr>cs_backend := b'\<rparr>) = content store s"
    and "got = Inr d \<Longrightarrow> content store s p = Some (d, core (se_xattrs e))" and "content store s p \<noteq> None"
proof -
  have "inv (cs_backend s)" using assms(1) by (simp add: cache_ok_def)
  note law = read_law [OF this assms(3)]
  show c: "content store (s\<lparr>cs_backend := b'\<rparr>) = content store s"
    using same_backend_change(2) [OF assms(1)] law by blast
  show "shrinks s (s\<lparr>cs_backend := b'\<rparr>)"
    using same_backend_change(1) [OF assms(1)] law c by (auto intro: shrinks_same)
  show "got = Inr d \<Longrightarrow> content store s p = Some (d, core (se_xattrs e))"
    using law assms(2) by (auto simp: content_def stored_def)
  show "content store s p \<noteq> None"
    using ownedD(1) [of "store (cs_backend s)" "cs_index s" p e] assms(1,2)
    by (auto simp: content_def stored_def cache_ok_def)
qed

lemma loses_staged: "loses_restored inv store s s' \<Longrightarrow> staged store s' = staged store s"
  by (simp add: loses_restored_def staged_def fun_eq_iff)

lemma shrinks_staged: "shrinks s s' \<Longrightarrow> staged store s' = staged store s"
  by (simp add: shrinks_def loses_staged)

lemma loses_ok: "loses_restored inv store s s' \<Longrightarrow> cache_ok inv store s'"
  by (simp add: loses_restored_def)

lemma shrinks_step:
  assumes "shrinks s s'"
  shows "cache_ok inv store s' \<and> room (cs_backend s) \<le> room (cs_backend s') + 1"
  using assms by (simp add: shrinks_def loses_restored_def)

lemma shrinks_hit: "shrinks s s' \<Longrightarrow> shrinks s (update_hit_state hit s')"
  by (simp add: shrinks_def loses_restored_def)

lemma get_staging_spec:
  assumes "cache_ok inv store s" and "cs_get_staging be k s = (r, s')"
  shows "shrinks s s' \<and> staging_spec (staged store s) (GetStaging k) (StagingReply r) (staged store s')"
proof (cases "look (cs_index s) (Staging, k)")
  case None
  with assms have "r = Inl (Status NotFound ''staging object not found'')" "s' = s"
    by (auto simp: cs_get_staging_def find_entry_look)
  moreover have "staged store s k = None" using None by (simp add: staged_def content_def stored_def)
  ultimately show ?thesis using assms(1) by (auto intro: shrinks_refl staging_spec.get_missing)
next
  case (Some e)
  obtain got b' where g: "cb_read be (se_storage_id e) (cs_backend s) = (got, b')" by fastforce
  note rd = read_entry [OF assms(1) Some g]
  have s': "s' = s\<lparr>cs_backend := b'\<rparr>" and sh: "shrinks s s'"
    using assms(2) Some g rd(1)
    by (auto simp: cs_get_staging_def find_entry_look build_staging_stream_def Let_def split: sum.splits)
  have "staging_spec (staged store s) (GetStaging k) (StagingReply r) (staged store s)"
  proof (cases got)
    case (Inl err)
    with assms(2) Some g have "r = Inl (internal_status err)"
      by (simp add: cs_get_staging_def find_entry_look build_staging_stream_def)
    with rd(4) show ?thesis by (auto simp: staged_def intro: staging_spec.get_failed)
  next
    case (Inr d)
    with assms(2) Some g have "r = Inr (staged_messages d (core (se_xattrs e)))"
      by (simp add: cs_get_staging_def find_entry_look build_staging_stream_def Let_def staged_messages_def core_def)
    with rd(3) [OF Inr] show ?thesis
      using staging_spec.get_ok [of "staged store s" k d "core (se_xattrs e)"] by (simp add: staged_def)
  qed
  with sh shrinks_staged [OF sh] show ?thesis by simp
qed

lemma delete_staging_spec:
  assumes "cache_ok inv store s" and "cs_delete_staging be k s = (r, s')"
  shows "cache_ok inv store s' \<and> room (cs_backend s') = room (cs_backend s) \<and>
    staging_spec (staged store s) (DeleteStaging k) (UnitReply r) (staged store s')"
proof -
  obtain q where d: "delete_entry be k Staging s = (q, s')"
    and r: "r = (case q of Inl e \<Rightarrow> Inl (internal_status e) | Inr _ \<Rightarrow> Inr ())"
    using assms(2) by (cases "delete_entry be k Staging s"; cases "fst (delete_entry be k Staging s)")
      (auto simp: cs_delete_staging_def)
  note sp = delete_entry_spec [OF assms(1) d]
  have "staging_spec (staged store s) (DeleteStaging k) (UnitReply r) (staged store s')"
  proof (cases q)
    case (Inl e)
    with sp have "staged store s' = staged store s" by (simp add: staged_def)
    with Inl r show ?thesis by (auto intro: staging_spec.delete_failed)
  next
    case (Inr b)
    with sp have "staged store s' = (staged store s)(k := None)" by (auto simp: staged_def fun_eq_iff)
    with Inr r show ?thesis using staging_spec.delete_ok [of "staged store s" k] by simp
  qed
  with sp show ?thesis by simp
qed

lemma put_staging_spec:
  assumes "cache_ok inv store s" and "0 < room (cs_backend s)" and "cs_put_staging fl be t1 t2 t3 stream s = (r, s')"
  shows "cache_ok inv store s' \<and> room (cs_backend s) \<le> room (cs_backend s') + 1 \<and>
    staging_spec (staged store s) (PutStaging t1 t2 t3 stream) (IdReply r) (staged store s')"
proof -
  show ?thesis
    using assms(3)
  proof (cases rule: cs_put_staging_cases)
    case rejected
    with assms(1) show ?thesis by (auto intro: staging_spec.put_failed)
  next
    case (put m data q)
    let ?k = "(ps_bucket m, ps_key m, ps_version_id m)" and ?x = "(staged_attrs m t1)\<lparr>xa_last_access_at := t2\<rparr>"
    have x: "?k = (xa_bucket ?x, xa_key ?x, xa_version_id ?x)" "xa_category ?x = Staging" "core ?x = staged_attrs m t1"
      by (simp_all add: staged_attrs_def core_def)
    note sp = put_bytes_spec [OF assms(1,2) put(3) x(1), unfolded x(2,3)]
    show ?thesis
    proof (cases q)
      case (Inl e)
      with sp put(4) show ?thesis
        by (auto simp: loses_staged staging_spec.put_failed dest: loses_ok)
    next
      case (Inr i)
      with sp obtain s1 where s1: "loses_restored inv store s s1" "cache_ok inv store s'"
        "content store s' = (content store s1)((Staging, ?k) \<mapsto> (data, staged_attrs m t1))" by auto
      then have "staged store s' = (staged store s)(?k \<mapsto> (data, staged_attrs m t1))"
        by (simp add: loses_restored_def staged_def fun_eq_iff)
      moreover have "r = Inr (show_word i)" using put(4) Inr by simp
      ultimately show ?thesis using sp s1(2) staging_spec.put_ok [OF put(1,2)] by simp
    qed
  qed
qed

lemma put_restored_spec:
  assumes "cache_ok inv store s" and "0 < room (cs_backend s)" and "cs_put_restored fl be t1 t2 t3 stream s = (r, s')"
  shows "cache_ok inv store s' \<and> room (cs_backend s) \<le> room (cs_backend s') + 1 \<and> staged store s' = staged store s \<and>
    (r = Inr () \<longrightarrow> (\<exists>m data t. collect_put ''empty put_restored chunk'' None [] stream = Inr (Some m, data) \<and>
      pr_expire_at m = Some t \<and> content store s' (Restored, pr_bucket m, pr_key m, pr_version_id m) =
        Some (data, restored_attrs m (ts_seconds t) t1)))"
  using assms(3)
proof (cases rule: cs_put_restored_cases)
  case rejected
  with assms(1) show ?thesis by simp
next
  case (put m data t q)
  let ?k = "(pr_bucket m, pr_key m, pr_version_id m)"
    and ?x = "(restored_attrs m (ts_seconds t) t1)\<lparr>xa_last_access_at := t2\<rparr>"
  have x: "?k = (xa_bucket ?x, xa_key ?x, xa_version_id ?x)" "xa_category ?x = Restored"
    "core ?x = restored_attrs m (ts_seconds t) t1"
    by (simp_all add: restored_attrs_def core_def)
  note sp = put_bytes_spec [OF assms(1,2) put(4) x(1), unfolded x(2,3)]
  show ?thesis
  proof (cases q)
    case (Inl e)
    with sp put(5) show ?thesis by (auto simp: loses_staged dest: loses_ok)
  next
    case (Inr i)
    with sp obtain s1 where s1: "loses_restored inv store s s1" "cache_ok inv store s'"
      "content store s' = (content store s1)((Restored, ?k) \<mapsto> (data, restored_attrs m (ts_seconds t) t1))" by auto
    then have "staged store s' = staged store s" by (simp add: loses_restored_def staged_def fun_eq_iff)
    with sp s1(2,3) put(1,3) show ?thesis by simp
  qed
qed

text \<open>A read of a restored object answers the stored bytes, unless the object has expired.\<close>

lemma get_restored_spec:
  assumes "cache_ok inv store s" and "cs_get be t1 t2 k s = (r, s')"
  shows "shrinks s s' \<and> (case content store s (Restored, k) of
      None \<Rightarrow> r = Inl (Status NotFound ''restored object not found in cache'')
    | Some (data, x) \<Rightarrow>
        if is_expired_at (xa_expire_at x) t1 then r = Inl (Status NotFound ''restored object has expired'')
        else (\<exists>e. r = Inl (internal_status e)) \<or> r = Inr (restored_messages data x))"
proof (cases "look (cs_index s) (Restored, k)")
  case None
  then have "content store s (Restored, k) = None" by (simp add: content_def stored_def)
  with None assms show ?thesis
    by (auto simp: cs_get_def read_restored_def find_entry_look intro: shrinks_refl shrinks_hit)
next
  case (Some e)
  have own: "owned (store (cs_backend s)) (cs_index s)" using assms(1) by (simp add: cache_ok_def)
  from ownedD(1) [OF own Some] obtain data y where st: "store (cs_backend s) (se_storage_id e) = Some (data, y)" by auto
  have c: "content store s (Restored, k) = Some (data, core (se_xattrs e))"
    using Some st by (simp add: content_def stored_def)
  show ?thesis
  proof (cases "is_expired_at (xa_expire_at (se_xattrs e)) t1")
    case True
    with assms Some c shrinks_delete [OF assms(1), of k] show ?thesis
      by (auto simp: cs_get_def read_restored_def find_entry_look core_def intro: shrinks_hit)
  next
    case False
    let ?s = "update_hit_state True (touch_entry t2 k Restored s)"
    have ok: "cache_ok inv store ?s" and sh: "shrinks s ?s" and b: "cs_backend ?s = cs_backend s"
      using touch_entry_frame [OF assms(1), of t2 k Restored] by (auto intro: shrinks_same)
    have "inv (cs_backend ?s)" using ok by (simp add: cache_ok_def)
    obtain got b' where g: "cb_read be (se_storage_id e) (cs_backend ?s) = (got, b')" by fastforce
    have s': "s' = ?s\<lparr>cs_backend := b'\<rparr>"
      and r: "r = (case got of Inl err \<Rightarrow> Inl (internal_status err) | Inr d \<Rightarrow> Inr (restored_messages d (core (se_xattrs e))))"
      using assms(2) Some False g
      by (cases got; simp add: cs_get_def read_restored_def find_entry_look build_get_stream_def Let_def
          restored_messages_def core_def)+
    note law = read_law [OF \<open>inv (cs_backend ?s)\<close> g]
    have "shrinks ?s s'"
      unfolding s' using same_backend_change [OF ok] law by (intro shrinks_same) simp_all
    then have "shrinks s s'" by (rule shrinks_trans [OF sh])
    moreover have "(\<exists>e. r = Inl (internal_status e)) \<or> r = Inr (restored_messages data (core (se_xattrs e)))"
      using r law st b by (cases got) auto
    ultimately show ?thesis using c False by (simp add: core_def)
  qed
qed

lemmas get_shrinks = get_restored_spec [THEN conjunct1]

lemma contains_shrinks: "cache_ok inv store s \<Longrightarrow> cs_contains be t k s = (r, s') \<Longrightarrow> shrinks s s'"
  by (auto simp: cs_contains_def split: option.splits if_splits intro: shrinks_hit shrinks_refl shrinks_delete)

lemma delete_shrinks:
  assumes "cache_ok inv store s" and "cs_delete be k s = (r, s')"
  shows "shrinks s s'"
proof -
  have "s' = snd (delete_entry be k Restored s)"
    using assms(2) by (cases "delete_entry be k Restored s"; cases "fst (delete_entry be k Restored s)")
      (auto simp: cs_delete_def)
  with shrinks_delete [OF assms(1)] show ?thesis by simp
qed

lemma stats_shrinks:
  assumes "cache_ok inv store s" and "cs_stats be s = (r, s')"
  shows "shrinks s s'"
proof -
  obtain q b' where q: "cb_available_bytes be (cs_backend s) = (q, b')" by fastforce
  have "inv (cs_backend s)" using assms(1) by (simp add: cache_ok_def)
  note law = available_law [OF this q]
  have "s' = s\<lparr>cs_backend := b'\<rparr>"
    using assms(2) q by (cases q) (auto simp: cs_stats_def Let_def)
  with same_backend_change [OF assms(1)] law show ?thesis by (auto intro: shrinks_same)
qed

text \<open>Every request is a step of the specification.\<close>

lemma cache_step_spec:
  assumes "cache_ok inv store s" and "0 < room (cs_backend s)" and "cache_step fl be req s = (reply, s')"
  shows "cache_ok inv store s' \<and> room (cs_backend s) \<le> room (cs_backend s') + 1 \<and>
    staging_spec (staged store s) req reply (staged store s')"
proof (cases req)
  case (PutStaging t1 t2 t3 stream)
  with assms(3) obtain r where "cs_put_staging fl be t1 t2 t3 stream s = (r, s')" "reply = IdReply r" by (auto simp: apfst_pair)
  with put_staging_spec [OF assms(1,2)] PutStaging show ?thesis by simp
next
  case (PutRestored t1 t2 t3 stream)
  with assms(3) obtain r where "cs_put_restored fl be t1 t2 t3 stream s = (r, s')" "reply = UnitReply r" by (auto simp: apfst_pair)
  with put_restored_spec [OF assms(1,2)] PutRestored show ?thesis by (simp add: staging_spec.put_restored)
next
  case (GetRestored t1 t2 k)
  with assms(3) obtain r where r: "cs_get be t1 t2 k s = (r, s')" "reply = GetReply r" by (auto simp: apfst_pair)
  note sh = get_shrinks [OF assms(1) r(1)]
  show ?thesis unfolding GetRestored r(2) shrinks_staged [OF sh]
    using shrinks_step [OF sh] by (simp add: staging_spec.get_restored)
next
  case (Contains t k)
  with assms(3) obtain r where r: "cs_contains be t k s = (r, s')" "reply = ContainsReply r" by (auto simp: apfst_pair)
  note sh = contains_shrinks [OF assms(1) r(1)]
  show ?thesis unfolding Contains r(2) shrinks_staged [OF sh]
    using shrinks_step [OF sh] by (simp add: staging_spec.contains)
next
  case (DeleteRestored k)
  with assms(3) obtain r where r: "cs_delete be k s = (r, s')" "reply = UnitReply r" by (auto simp: apfst_pair)
  note sh = delete_shrinks [OF assms(1) r(1)]
  show ?thesis unfolding DeleteRestored r(2) shrinks_staged [OF sh]
    using shrinks_step [OF sh] by (simp add: staging_spec.delete_restored)
next
  case (GetStaging k)
  with assms(3) obtain r where r: "cs_get_staging be k s = (r, s')" "reply = StagingReply r" by (auto simp: apfst_pair)
  from get_staging_spec [OF assms(1) r(1)] shrinks_step [of s s'] show ?thesis by (simp add: GetStaging r(2))
next
  case (DeleteStaging k)
  with assms(3) obtain r where r: "cs_delete_staging be k s = (r, s')" "reply = UnitReply r" by (auto simp: apfst_pair)
  from delete_staging_spec [OF assms(1) r(1)] show ?thesis by (simp add: DeleteStaging r(2))
next
  case (ListStaging limit after)
  with assms show ?thesis by (auto intro: staging_spec.list_staging)
next
  case Stats
  with assms(3) obtain r where r: "cs_stats be s = (r, s')" "reply = StatsReply r" by (auto simp: apfst_pair)
  note sh = stats_shrinks [OF assms(1) r(1)]
  show ?thesis unfolding Stats r(2) shrinks_staged [OF sh]
    using shrinks_step [OF sh] by (simp add: staging_spec.stats)
qed

lemma cache_run_spec:
  assumes "cache_ok inv store s" and "length reqs \<le> room (cs_backend s)" and "cache_run fl be reqs s = (replies, s')"
  shows "cache_ok inv store s' \<and> staging_trace (staged store s) reqs replies (staged store s')"
  using assms
proof (induction reqs arbitrary: s replies)
  case Nil
  then show ?case by (simp add: staging_trace.trace_nil)
next
  case (Cons req reqs)
  obtain reply s1 where st: "cache_step fl be req s = (reply, s1)" by fastforce
  obtain rest where run: "cache_run fl be reqs s1 = (rest, s')" "replies = reply # rest"
    using Cons.prems(3) st by (auto simp: apfst_pair)
  have "0 < room (cs_backend s)" using Cons.prems(2) by simp
  note sp = cache_step_spec [OF Cons.prems(1) this st]
  have "cache_ok inv store s1" "length reqs \<le> room (cs_backend s1)" using sp Cons.prems(2) by auto
  from Cons.IH [OF this run(1)] sp show ?case by (auto simp: run(2) intro: staging_trace.trace_cons)
qed

text \<open>Without such a request a restored object is kept as it is or lost.\<close>

lemma loses_keeps:
  "loses_restored inv store s s' \<Longrightarrow> content store s' (Restored, k) \<in> {None, content store s (Restored, k)}"
  unfolding loses_restored_def map_le_def by (metis domIff insert_iff)

lemma shrinks_keeps: "shrinks s s' \<Longrightarrow> content store s' (Restored, k) \<in> {None, content store s (Restored, k)}"
  unfolding shrinks_def by (blast dest: loses_keeps)

lemma put_keeps:
  assumes "cache_ok inv store s" and "0 < room (cs_backend s)"
    and "put_bytes fl be now k' data x s = (r, s')" and "k' = (xa_bucket x, xa_key x, xa_version_id x)"
    and "(xa_category x, k') \<noteq> (Restored, k)"
  shows "content store s' (Restored, k) \<in> {None, content store s (Restored, k)}"
proof (cases r)
  case (Inl err)
  with put_bytes_spec [OF assms(1-4)] loses_keeps [of s s' k] show ?thesis by simp
next
  case (Inr i)
  with put_bytes_spec [OF assms(1-4)] obtain s1 where "loses_restored inv store s s1"
    "content store s' = (content store s1)((xa_category x, k') \<mapsto> (data, core x))" by auto
  with assms(5) loses_keeps [of s s1 k] show ?thesis by (auto simp: fun_upd_other)
qed

lemma cache_step_keeps:
  assumes "cache_ok inv store s" and "0 < room (cs_backend s)" and "cache_step fl be req s = (reply, s')"
    and "\<not> puts_restored k req"
  shows "content store s' (Restored, k) \<in> {None, content store s (Restored, k)}"
proof (cases req)
  case (PutStaging t1 t2 t3 stream)
  with assms(3) obtain r where "cs_put_staging fl be t1 t2 t3 stream s = (r, s')" by (auto simp: apfst_pair)
  then show ?thesis
  proof (cases rule: cs_put_staging_cases)
    case (put m data q)
    from put(3) show ?thesis by (rule put_keeps [OF assms(1,2)]) (simp_all add: staged_attrs_def)
  qed simp
next
  case (PutRestored t1 t2 t3 stream)
  with assms(3) obtain r where "cs_put_restored fl be t1 t2 t3 stream s = (r, s')" by (auto simp: apfst_pair)
  then show ?thesis
  proof (cases rule: cs_put_restored_cases)
    case (put m data t q)
    have "(pr_bucket m, pr_key m, pr_version_id m) \<noteq> k" using assms(4) put(1) by (simp add: PutRestored puts_restored_def)
    with put(4) show ?thesis by (intro put_keeps [OF assms(1,2) put(4)]) (simp_all add: restored_attrs_def)
  qed simp
next
  case (DeleteStaging k')
  then obtain q where "delete_entry be k' Staging s = (q, s')"
    using assms(3) by (cases "delete_entry be k' Staging s"; cases "fst (delete_entry be k' Staging s)")
      (auto simp: cs_delete_staging_def)
  from delete_entry_spec [OF assms(1) this] show ?thesis by (cases q) auto
next
  case (GetStaging k')
  then obtain r where "cs_get_staging be k' s = (r, s')" using assms(3) by (auto simp: apfst_pair)
  from get_staging_spec [OF assms(1) this] show ?thesis by (auto dest: shrinks_keeps)
qed (use assms(1,3) in \<open>auto simp: apfst_pair simp del: insert_iff intro!: shrinks_keeps
    dest: get_shrinks contains_shrinks delete_shrinks stats_shrinks intro: shrinks_refl\<close>)

lemma cache_run_keeps:
  assumes "cache_ok inv store s" and "length reqs \<le> room (cs_backend s)" and "cache_run fl be reqs s = (replies, s')"
    and "list_all (\<lambda>req. \<not> puts_restored k req) reqs"
  shows "content store s' (Restored, k) \<in> {None, content store s (Restored, k)}"
  using assms
proof (induction reqs arbitrary: s replies)
  case (Cons req reqs)
  obtain reply s1 where st: "cache_step fl be req s = (reply, s1)" by fastforce
  obtain rest where run: "cache_run fl be reqs s1 = (rest, s')" using Cons.prems(3) st by (auto simp: apfst_pair)
  have room: "0 < room (cs_backend s)" using Cons.prems(2) by simp
  note sp = cache_step_spec [OF Cons.prems(1) room st]
  have "cache_ok inv store s1" "length reqs \<le> room (cs_backend s1)" using sp Cons.prems(2) by auto
  with Cons.IH [OF _ _ run] Cons.prems(4) have "content store s' (Restored, k) \<in> {None, content store s1 (Restored, k)}" by simp
  moreover have "content store s1 (Restored, k) \<in> {None, content store s (Restored, k)}"
    using Cons.prems(4) by (intro cache_step_keeps [OF Cons.prems(1) room st]) simp
  ultimately show ?case by auto
qed simp

end

end
