(* ===== verification/Cache_Properties.thy ===== *)
theory Cache_Properties
  imports Cache_Spec "HOL-Library.Countable"
begin

text \<open>
  The properties of the cache service on the backends that the configuration can choose:
  the staged objects are a map, the restored objects expire, an admitted object fits into
  the capacity, and the index is rebuilt from the newest stored objects. Two properties
  record where the accounting of the capacity goes wrong.
\<close>

section \<open>Capacity\<close>

text \<open>The configured capacity is never changed.\<close>

lemma effective_total_capacity_max:
  "effective_total_capacity be s = (q, s') \<Longrightarrow> cs_max_size_bytes s' = cs_max_size_bytes s \<and> cs_index s' = cs_index s \<and>
    (\<forall>total. q = Inr total \<longrightarrow> total \<le> cs_max_size_bytes s)"
  by (auto simp: effective_total_capacity_def split: prod.splits sum.splits)

lemma delete_entry_max [simp]: "cs_max_size_bytes (snd (delete_entry be k c s)) = cs_max_size_bytes s"
  by (auto simp: delete_entry_def Let_def split: option.splits prod.splits sum.splits)

lemma reclaim_max: "reclaim_expired_restored_except be now skip s = (q, s') \<Longrightarrow> cs_max_size_bytes s' = cs_max_size_bytes s"
proof -
  have "cs_max_size_bytes (foldl (\<lambda>s k. snd (delete_entry be k Restored s)) s ks) = cs_max_size_bytes s" for ks
    by (induction ks arbitrary: s) simp_all
  then show "reclaim_expired_restored_except be now skip s = (q, s') \<Longrightarrow> cs_max_size_bytes s' = cs_max_size_bytes s"
    by (auto simp: reclaim_expired_restored_except_def Let_def)
qed

lemma evict_victim_max: "evict_victim be c v s = (q, s') \<Longrightarrow> cs_max_size_bytes s' = cs_max_size_bytes s"
  by (auto simp: evict_victim_def Let_def split: prod.splits sum.splits if_splits option.splits)

text \<open>The eviction loop reports \<open>True\<close> only when nothing is over its budget.\<close>

lemma evict_loop_fits:
  "evict_loop be pressure n s = (q, s') \<Longrightarrow> cs_max_size_bytes s' = cs_max_size_bytes s \<and>
    (q = Inr True \<longrightarrow> \<not> should_evict (pressure (cs_index s')))"
proof (induction n arbitrary: s)
  case (Suc n)
  consider (stop) "q = Inr False \<or> (\<exists>e. q = Inl e)" "s' = s" | (fits) "\<not> should_evict (pressure (cs_index s))" "s' = s"
    | (more) c v r s1 where "evict_victim be c v s = (r, s1)" "try_st (r, s1) (\<lambda>_. evict_loop be pressure n) = (q, s')"
    using Suc.prems
    by (auto simp: split: if_splits option.splits) (metis surj_pair)+
  then show ?case
  proof cases
    case more
    from more(2) show ?thesis
    proof (cases rule: try_st_cases)
      case (2 x t)
      with evict_victim_max [OF more(1)] Suc.IH [of t] show ?thesis by auto
    qed (use evict_victim_max [OF more(1)] in auto)
  qed auto
qed auto

lemma evict_if_needed_fits:
  assumes "evict_if_needed fl be n c s = (Inr (), s')" and "n \<noteq> 0"
  shows "cs_max_size_bytes s' = cs_max_size_bytes s"
    and "\<exists>sb rb target total. total \<le> cs_max_size_bytes s \<and> \<not> should_evict (pressure_of n c sb rb target total (cs_index s'))"
proof -
  from assms obtain total s1 where t: "effective_total_capacity be s = (Inr total, s1)"
    by (auto simp: evict_if_needed_def try_st_Inr)
  note m = effective_total_capacity_max [OF t]
  obtain sb rb where split: "split_capacity_by_static_ratio s1 total = (sb, rb)" by fastforce
  define pressure where "pressure = pressure_of n c sb rb (effective_low_watermark_used fl s1 total) total"
  have [simp]: "cp_staging_budget (pressure ix) = sb" "cp_restored_budget (pressure ix) = rb"
    "cp_total_capacity (pressure ix) = total" for ix
    by (simp_all add: pressure_def pressure_of_def)
  from assms t split obtain fits where
    l: "evict_loop be pressure (max (cs_eviction_batch_size s1) 1) s1 = (Inr fits, s')"
    and f: "fits \<or> \<not> should_evict (pressure (cs_index s'))"
    by (auto simp: evict_if_needed_def Let_def try_st_Inr pressure_def [symmetric] should_evict_def split: if_splits)
  from evict_loop_fits [OF l] m f have "\<not> should_evict (pressure (cs_index s'))" by auto
  then show "\<exists>sb rb target total. total \<le> cs_max_size_bytes s \<and> \<not> should_evict (pressure_of n c sb rb target total (cs_index s'))"
    using m unfolding pressure_def by blast
  show "cs_max_size_bytes s' = cs_max_size_bytes s" using evict_loop_fits [OF l] m by simp
qed

text \<open>What a put that succeeds has done.\<close>

lemma put_bytes_written:
  assumes "put_bytes fl be now k data x s = (Inr i, s')"
  obtains q s1 s2 s3 b' where "effective_total_capacity be s = (q, s1)"
    and "reclaim_expired_restored_except be now (if xa_category x = Restored then Some k else None) s1 = (Inr (), s2)"
    and "evict_if_needed fl be (sat_sub (xa_size x)
      (case find_entry k (xa_category x) s of None \<Rightarrow> 0 | Some e \<Rightarrow> xa_size (se_xattrs e))) (xa_category x) s2 = (Inr (), s3)"
    and "cb_write be (as_cursor k) data x (cs_backend s3) = (Inr i, b')"
    and "cs_index s' = recompute_used_capacity
      (map_table (hm_insert k \<lparr>se_storage_id = i, se_xattrs = x\<rparr>) (xa_category x) (cs_index s3))"
    and "cs_max_size_bytes s' = cs_max_size_bytes s3"
proof -
  let ?skip = "if xa_category x = Restored then Some k else None"
  from assms obtain s1 where en: "ensure_object_size_within_total_capacity be (xa_size x) s = (Inr (), s1)"
    by (auto simp: put_bytes_def try_st_Inr)
  then obtain q where e: "effective_total_capacity be s = (q, s1)"
    by (auto simp: ensure_object_size_within_total_capacity_def try_st_Inr split: if_splits)
  then have f: "find_entry k c s1 = find_entry k c s" for c
    by (simp add: effective_total_capacity_max find_entry_def)
  from assms en obtain s2 where r: "reclaim_expired_restored_except be now ?skip s1 = (Inr (), s2)"
    by (auto simp: put_bytes_def try_st_Inr Let_def)
  from assms en r obtain s3 where v: "evict_if_needed fl be (sat_sub (xa_size x)
      (case find_entry k (xa_category x) s of None \<Rightarrow> 0 | Some e \<Rightarrow> xa_size (se_xattrs e))) (xa_category x) s2 = (Inr (), s3)"
    by (auto simp: put_bytes_def try_st_Inr Let_def f)
  obtain w b' where w: "cb_write be (as_cursor k) data x (cs_backend s3) = (w, b')" by fastforce
  from assms en r v w have "w = Inr i" and
    ix: "cs_index s' = recompute_used_capacity (map_table (hm_insert k \<lparr>se_storage_id = i, se_xattrs = x\<rparr>) (xa_category x) (cs_index s3))"
    "cs_max_size_bytes s' = cs_max_size_bytes s3"
    by (auto simp: put_bytes_def Let_def f insert_entry_def split: option.splits sum.splits if_splits)
  from that [OF e r v _ ix] w \<open>w = Inr i\<close> show ?thesis by simp
qed

lemma sizes_insert_new:
  "hm_get m k = None \<Longrightarrow> sizes (hm_insert k e m) = sizes m + xa_size (se_xattrs e)"
  by (induction m) (auto simp: sizes_def add_ac split: if_splits)

lemma add_le_sat_add: "a + b \<le> sat_add a b" for a b :: u64
  by (simp add: sat_add_def)

lemma used_insert_new:
  assumes "wf_index ix" and "look ix (c, k) = None"
  shows "ix_used_capacity (recompute_used_capacity (map_table (hm_insert k e) c ix)) = ix_used_capacity ix + xa_size (se_xattrs e)"
  using assms sizes_insert_new [of "table c ix" k e]
  by (cases c) (simp_all add: recompute_used_capacity_def wf_index_def look_def staging_used_def restored_used_def sizes_def add_ac)

abbreviation backend_ok :: "json \<Rightarrow> any_backend \<Rightarrow> bool" where
  "backend_ok j b \<equiv> hdd_inv j (any_inner b)"

abbreviation objects_of :: "json \<Rightarrow> any_backend object_view" where
  "objects_of j b \<equiv> hdd_store j (any_inner b)"

abbreviation ids_left :: "('f, any_backend) cache_service \<Rightarrow> nat" where
  "ids_left s \<equiv> hdd_room (any_inner (cs_backend s))"

section \<open>A new service\<close>

text \<open>The directory of the configured backend.\<close>

definition cache_dir :: "'f cache_config \<Rightarrow> string" where
  "cache_dir config = (case cc_backend config of
       HddConfig path _ \<Rightarrow> path
     | SpdkConfig config_file bdev_name _ _ \<Rightarrow> path_join (path_join config_file ''spdk'') (sanitize_bdev_name bdev_name))"

lemma hdd_new_empty:
  assumes "hdd_new base gb fs = (Inr b, fs')" and "dir_names (path_join base ''meta'') fs = []"
  shows "hb_next_id b = 1" and "hb_base_path b = base" and "fs_files (hb_fs b) = fs_files fs"
proof -
  obtain fs1 where d: "discover_next_id base fs1 = (Inr (hb_next_id b), fs')"
    and b: "hb_base_path b = base" "fs_files fs1 = fs_files fs" "hb_fs b = fs'"
    using assms(1) by (auto simp: hdd_new_def try_st_Inr dest!: create_dir_all_files)
  then show "hb_base_path b = base" "fs_files (hb_fs b) = fs_files fs"
    using discover_next_id_Inr [OF d] by simp_all
  show "hb_next_id b = 1"
    using discover_next_id_Inr [OF d] dir_names_files [OF b(2)] assms(2) by simp
qed

lemma hdd_list_all_empty:
  assumes "hdd_list_all j b = (Inr out, b')" and "dir_names (path_join (hb_base_path b) ''meta'') (hb_fs b) = []"
  shows "out = []"
  using assms
  by (auto simp: hdd_list_all_def try_st_Inr with_fs_def read_dir_def dir_names_files [OF next_fault_frame]
      split: prod.splits option.splits)

lemma dyn_list_all_inner:
  "cb_list_all (dyn_ops j) b = (r, b') \<Longrightarrow> hdd_list_all j (any_inner b) = (r, any_inner b')"
  by (cases b) (auto simp: dyn_ops_def dyn_call_def hdd_ops_def spdk_ops_def dest!: on_inner_inner split: prod.splits)

lemma new_service_ok:
  assumes "cache_service_new fl j config fs = Inr s" and "json_laws j"
    and "dir_names (path_join (cache_dir config) ''meta'') fs = []"
  shows "cache_ok (backend_ok j) (objects_of j) s" and "ids_left s = 2 ^ 64 - 2"
    and "content (objects_of j) s = Map.empty"
proof -
  have "\<exists>b gb fs'. rebuild_index (dyn_ops j) (service_over fl config b) = (Inr (), s) \<and>
      hdd_new (cache_dir config) gb fs = (Inr (any_inner b), fs')"
  proof (cases "cc_backend config")
    case (HddConfig path gb)
    then obtain h fs' where "hdd_new path gb fs = (Inr h, fs')"
      "rebuild_index (dyn_ops j) (service_over fl config (AnyHdd h)) = (Inr (), s)"
      using assms(1) by (auto simp: cache_service_new_def try_then_def split: prod.splits sum.splits)
    with HddConfig show ?thesis by (intro exI [of _ "AnyHdd h"]) (auto simp: cache_dir_def)
  next
    case (SpdkConfig path bdev gb poll)
    then obtain p fs' where "spdk_new path bdev gb fs = (Inr p, fs')"
      "rebuild_index (dyn_ops j) (service_over fl config (AnySpdk p)) = (Inr (), s)"
      using assms(1) by (auto simp: cache_service_new_def try_then_def split: prod.splits sum.splits)
    with SpdkConfig show ?thesis
      by (intro exI [of _ "AnySpdk p"] exI [of _ gb] exI [of _ fs']) (auto simp: cache_dir_def spdk_new_def try_st_Inr)
  qed
  then obtain b gb fs' where b: "rebuild_index (dyn_ops j) (service_over fl config b) = (Inr (), s)"
    and n: "hdd_new (cache_dir config) gb fs = (Inr (any_inner b), fs')" by blast
  note e = hdd_new_empty [OF n assms(3)]
  have inv: "backend_ok j b" by (rule hdd_new_inv [OF n assms(2)]) (simp add: assms(3))
  obtain r b' where l: "cb_list_all (dyn_ops j) b = (r, b')" by fastforce
  then have "hdd_list_all j (any_inner b) = (r, any_inner b')" by (rule dyn_list_all_inner)
  note frame = same_files_store [OF hdd_list_all_frame [OF this]]
  have init: "cs_backend (service_over fl config b) = b" "cs_index (service_over fl config b) = cache_index_default"
    by (simp_all add: service_over_def Let_def split: prod.splits)
  obtain out where out: "r = Inr out" using b l init by (cases r) (auto simp: rebuild_index_def)
  have "out = []"
    using hdd_list_all_empty [OF dyn_list_all_inner [OF l [unfolded out]]] e(2,3) assms(3)
      dir_names_files [of "hb_fs (any_inner b)" fs] by simp
  with b l out init have s: "cs_backend s = b'" "cs_index s = recompute_used_capacity cache_index_default"
    by (auto simp: rebuild_index_def delete_stale_def)
  have none: "look (recompute_used_capacity cache_index_default) p = None" for p
    by (cases p; cases "fst p") (auto simp: look_def cache_index_default_def recompute_used_capacity_def)
  have "wf_index (recompute_used_capacity cache_index_default)"
    by (simp add: wf_index_def recompute_used_capacity_def cache_index_default_def keyed_def staging_used_def restored_used_def sizes_def)
  with s none inv frame show "cache_ok (backend_ok j) (objects_of j) s"
    by (simp add: cache_ok_def owned_def)
  have "hdd_room (any_inner b) = 2 ^ 64 - 2"
    using e(1) by (simp add: hdd_room_def)
  with s frame show "ids_left s = 2 ^ 64 - 2" by simp
  show "content (objects_of j) s = Map.empty" unfolding content_def s none stored_def by simp
qed

section \<open>A concrete service\<close>

text \<open>
  A serializer that writes an attribute record as its number, and arithmetic in whole
  percents, stand for the external serializer and for the machine's floating point.
\<close>

instance xattrs_json_ext :: (countable) countable
proof (rule countable_classI)
  fix x y :: "'a xattrs_json_scheme"
  let ?f = "\<lambda>x. (xj_bucket x, xj_key x, xj_version_id x, xj_size x, xj_expire_at x, xj_cached_at x,
    xj_last_access_at x, xj_access_count x, xj_checksum x, xj_content_type x, xj_etag x, xj_category x, xattrs_json.more x)"
  assume "to_nat (?f x) = to_nat (?f y)"
  then have "?f x = ?f y" by simp
  then show "x = y" by (intro xattrs_json.equality) simp_all
qed

definition demo_json :: json where
  "demo_json = \<lparr>to_vec = (\<lambda>x. Inr (replicate (to_nat x) 0)), from_slice = (\<lambda>raw. Inr (from_nat (length raw)))\<rparr>"

lemma demo_json_laws: "json_laws demo_json"
  by (simp add: json_laws_def demo_json_def)

definition percent_ops :: "nat f64_ops" where
  "percent_ops = \<lparr>f_lit = (\<lambda>l. if l = ''1.0'' then 100 else if l = ''0.8'' then 80 else 0),
     f_is_nan = (\<lambda>_. False), f_is_finite = (\<lambda>_. True), f_clamp = (\<lambda>x lo hi. min (max x lo) hi),
     f_add = (+), f_mul = (\<lambda>x y. x * y div 100), f_div = (\<lambda>x y. x * 100 div y), f_floor = (\<lambda>x. x),
     f_eq = (=), f_le = (\<le>), f_of_u64 = unat, f_to_u64 = of_nat\<rparr>"

definition demo_config :: "nat cache_config" where
  "demo_config = \<lparr>cc_listen = ''0.0.0.0:23001'', cc_metadata_addrs = [], cc_backend = HddConfig ''/cache'' 1,
     cc_default_ttl_secs = 86400, cc_eviction_policy = ''Lru'', cc_eviction_batch_size = 64,
     cc_eviction_low_watermark = 80, cc_staging_capacity_ratio = 35, cc_restored_capacity_ratio = 65\<rparr>"

definition demo_service :: "(nat, any_backend) cache_service" where
  "demo_service = \<lparr>cs_backend = AnyHdd \<lparr>hb_base_path = ''/cache'', hb_max_size_bytes = 1073741824, hb_next_id = 1,
       hb_fs = \<lparr>fs_files = [], fs_faults = []\<rparr>\<rparr>,
     cs_max_size_bytes = 1073741824, cs_eviction_policy = Lru, cs_eviction_batch_size = 64,
     cs_eviction_low_watermark = 80, cs_staging_capacity_bytes = 375809638, cs_restored_capacity_bytes = 697932186,
     cs_index = cache_index_default\<rparr>"

lemma demo_fs [simp]: "dir_names p \<lparr>fs_files = [], fs_faults = []\<rparr> = []"
  by (simp add: dir_names_def)

lemma demo_policy [simp]: "eviction_policy_from_config ''Lru'' = Lru"
  by code_simp

lemma demo_new: "cache_service_new percent_ops demo_json demo_config \<lparr>fs_files = [], fs_faults = []\<rparr> = Inr demo_service"
  by (simp add: cache_service_new_def demo_config_def hdd_new_def create_dir_all_def next_fault_def discover_next_id_def
      read_dir_def service_over_def backend_capacity_bytes_def split_cache_capacity_def normalize_cache_ratio_def
      normalize_watermark_def percent_ops_def Let_def sat_sub_def rebuild_index_def dyn_ops_def dyn_call_def hdd_ops_def
      hdd_list_all_def with_fs_def delete_stale_def recompute_used_capacity_def cache_index_default_def staging_used_def
      restored_used_def sizes_def demo_service_def try_then_def sat_mul_def)

lemma demo_service_ok:
  "cache_ok (backend_ok demo_json) (objects_of demo_json) demo_service" "ids_left demo_service = 2 ^ 64 - 2"
  using new_service_ok [OF demo_new demo_json_laws] by simp_all

section \<open>Staged and restored objects\<close>

text \<open>
  C30 (refinement). From a new service on an empty directory, every sequence of requests
  and its replies is a run of the specification of the staged objects, whatever calls to
  the file system fail: no eviction, expiry or failure loses or changes a staged object.
\<close>

theorem staging_refines_map:
  assumes "cache_service_new fl j config fs = Inr s" and "json_laws j"
    and "dir_names (path_join (cache_dir config) ''meta'') fs = []"
    and "length reqs < 2 ^ 64 - 1" and "cache_run fl (dyn_ops j) reqs s = (replies, s')"
  shows "staging_trace Map.empty reqs replies (staged (objects_of j) s')"
proof -
  note new = new_service_ok [OF assms(1-3)]
  have "length reqs \<le> ids_left s" using new(2) assms(4) by simp
  from dyn.cache_run_spec [OF new(1) this assms(5)] new(3) show ?thesis
    by (simp add: staged_def)
qed

definition demo_reqs :: "cache_request list" where
  "demo_reqs = [PutStaging 10 10 10
       [Inr (Some (PutMeta \<lparr>ps_bucket = ''b'', ps_key = ''k'', ps_version_id = None, ps_size = 2, ps_checksum = None,
          ps_content_type = None, ps_etag = None\<rparr>)), Inr (Some (PutData [7, 8]))],
     GetStaging (''b'', ''k'', None), DeleteStaging (''b'', ''k'', None)]"

theorem staging_refines_map_witness:
  "\<exists>replies s'. cache_run percent_ops (dyn_ops demo_json) demo_reqs demo_service = (replies, s') \<and>
    staging_trace Map.empty demo_reqs replies (staged (objects_of demo_json) s')"
proof -
  obtain replies s' where run: "cache_run percent_ops (dyn_ops demo_json) demo_reqs demo_service = (replies, s')" by fastforce
  have "staging_trace Map.empty demo_reqs replies (staged (objects_of demo_json) s')"
    by (rule staging_refines_map [OF demo_new demo_json_laws _ _ run]) (simp_all add: demo_reqs_def)
  with run show ?thesis by blast
qed

text \<open>
  C31 (roundtrip). A restored object that was put is what a later read answers, whatever
  requests came in between that do not put a restored object under its key: the read answers
  its bytes and attributes, or that it is no longer there, since it was evicted, reclaimed or
  deleted, or an internal error of the storage. Right after the put it is there. Once its time,
  if positive, has passed, no read answers it any more.
\<close>

theorem restored_object_read_back:
  assumes "cache_ok (backend_ok j) (objects_of j) s" and "Suc (length reqs) \<le> ids_left s"
    and "collect_put ''empty put_restored chunk'' None [] stream = Inr (Some m, data)" and "pr_expire_at m = Some t"
    and "cs_put_restored fl (dyn_ops j) t1 t2 t3 stream s = (Inr (), s1)"
    and "list_all (\<lambda>req. \<not> puts_restored (pr_bucket m, pr_key m, pr_version_id m) req) reqs"
    and "cache_run fl (dyn_ops j) reqs s1 = (replies, s2)"
    and "cs_get (dyn_ops j) now now' (pr_bucket m, pr_key m, pr_version_id m) s2 = (r, s3)"
  shows "(r = Inl (Status NotFound ''restored object not found in cache'') \<and> reqs \<noteq> []) \<or>
    (if 0 < ts_seconds t \<and> ts_seconds t \<le> now then r = Inl (Status NotFound ''restored object has expired'')
     else (\<exists>e. r = Inl (internal_status e)) \<or> r = Inr (restored_messages data (restored_attrs m (ts_seconds t) t1)))"
proof -
  let ?k = "(pr_bucket m, pr_key m, pr_version_id m)" and ?c = "content (objects_of j)"
  have "0 < ids_left s" using assms(2) by simp
  note put = dyn.put_restored_spec [OF assms(1) this assms(5)]
  then have ok: "cache_ok (backend_ok j) (objects_of j) s1" and room: "length reqs \<le> ids_left s1"
    and c1: "?c s1 (Restored, ?k) = Some (data, restored_attrs m (ts_seconds t) t1)"
    using assms(2-4) by auto
  have "?c s2 (Restored, ?k) \<in> {None, ?c s1 (Restored, ?k)}"
    by (rule dyn.cache_run_keeps [OF ok room assms(7,6)])
  moreover have "reqs = [] \<Longrightarrow> s2 = s1" using assms(7) by simp
  moreover have "cache_ok (backend_ok j) (objects_of j) s2"
    using dyn.cache_run_spec [OF ok room assms(7)] by simp
  note dyn.get_restored_spec [OF this assms(8)]
  ultimately show ?thesis using c1 by (auto simp: restored_attrs_def is_expired_at_def)
qed

definition demo_restored :: "put_restored_meta" where
  "demo_restored = \<lparr>pr_bucket = ''b'', pr_key = ''k'', pr_version_id = None, pr_size = 2, pr_checksum = None,
     pr_content_type = None, pr_etag = None, pr_expire_at = Some \<lparr>ts_seconds = 100, ts_nanos = 0\<rparr>\<rparr>"

lemma demo_total: "effective_total_capacity (dyn_ops demo_json) demo_service = (Inr 1073741824, demo_service)"
  by (simp add: effective_total_capacity_def demo_service_def dyn_ops_def dyn_call_def hdd_ops_def hdd_available_bytes_def
      hdd_list_all_def with_fs_def read_dir_def next_fault_def cache_index_default_def sat_sub_def sat_add_def)

lemma demo_div: "403522526182899712 div 1073741824 = (375809638 :: u64)"
proof -
  have "unat (403522526182899712 div 1073741824 :: u64) = unat (375809638 :: u64)" by (simp add: unat_div)
  then show ?thesis by (simp only: word_unat_eq_iff)
qed

lemma demo_fits: "evict_if_needed percent_ops (dyn_ops demo_json) 2 Restored demo_service = (Inr (), demo_service)"
proof -
  have split: "split_capacity_by_static_ratio demo_service 1073741824 = (375809638, 697932186)"
    by (simp add: split_capacity_by_static_ratio_def demo_service_def sat_add_def sat_mul_def sat_sub_def demo_div)
  have mark: "effective_low_watermark_used percent_ops demo_service 1073741824 = Some 858993459"
    by (simp add: effective_low_watermark_used_def demo_service_def percent_ops_def)
  have p: "\<not> should_evict (pressure_of 2 Restored 375809638 697932186 (Some 858993459) 1073741824 (cs_index demo_service))"
    by (simp add: should_evict_def pressure_of_def over_watermark_def demo_service_def cache_index_default_def
        staging_used_def restored_used_def sizes_def sat_add_def)
  have "evict_loop (dyn_ops demo_json) (pressure_of 2 Restored 375809638 697932186 (Some 858993459) 1073741824) (Suc 63) demo_service =
      (Inr True, demo_service)"
    unfolding evict_loop.simps using p by simp
  moreover have "max (cs_eviction_batch_size demo_service) 1 = Suc 63" by (simp add: demo_service_def)
  ultimately show ?thesis using demo_total split mark by (simp add: evict_if_needed_def Let_def)
qed
lemma demo_restored_fields [simp]:
  "pr_bucket demo_restored = ''b''" "pr_key demo_restored = ''k''" "pr_version_id demo_restored = None"
  "pr_size demo_restored = 2" "pr_expire_at demo_restored = Some \<lparr>ts_seconds = 100, ts_nanos = 0\<rparr>"
  by (simp_all add: demo_restored_def)

definition demo_attrs :: cache_xattrs where
  "demo_attrs = (restored_attrs demo_restored 100 10)\<lparr>xa_last_access_at := 10\<rparr>"

lemma demo_put_stored: "fst (put_bytes percent_ops (dyn_ops demo_json) 10 (''b'', ''k'', None) [7, 8] demo_attrs demo_service) = Inr 1"
proof -
  have x: "xa_size demo_attrs = 2" "xa_category demo_attrs = Restored"
    by (simp_all add: demo_attrs_def restored_attrs_def demo_restored_def)
  have none: "find_entry k c demo_service = None" for k c
    by (cases c) (simp_all add: find_entry_def demo_service_def cache_index_default_def)
  have en: "ensure_object_size_within_total_capacity (dyn_ops demo_json) 2 demo_service = (Inr (), demo_service)"
    using demo_total by (simp add: ensure_object_size_within_total_capacity_def)
  have r: "reclaim_expired_restored_except (dyn_ops demo_json) 10 skip demo_service = (Inr (), demo_service)" for skip
    by (simp add: reclaim_expired_restored_except_def demo_service_def cache_index_default_def)
  have w: "fst (cb_write (dyn_ops demo_json) (as_cursor (''b'', ''k'', None)) [7, 8] demo_attrs (cs_backend demo_service)) = Inr 1"
    by (simp add: dyn_ops_def dyn_call_def demo_service_def hdd_ops_def hdd_write_def with_fs_def file_write_def next_fault_def
        demo_json_def Let_def)
  obtain b where w': "cb_write (dyn_ops demo_json) (as_cursor (''b'', ''k'', None)) [7, 8] demo_attrs (cs_backend demo_service) = (Inr 1, b)"
    using w by (metis prod.collapse)
  show ?thesis
    using x none en r demo_fits w'
    by (auto simp: put_bytes_def insert_entry_def sat_sub_def Let_def split: option.splits)
qed

lemma demo_put_restored:
  "fst (cs_put_restored percent_ops (dyn_ops demo_json) 10 10 10 [Inr (Some (PutMeta demo_restored)), Inr (Some (PutData [7, 8]))]
     demo_service) = Inr ()"
proof -
  obtain s' where "put_bytes percent_ops (dyn_ops demo_json) 10 (''b'', ''k'', None) [7, 8] demo_attrs demo_service = (Inr 1, s')"
    using demo_put_stored by (metis prod.collapse)
  then show ?thesis
    by (simp add: cs_put_restored_def demo_attrs_def restored_attrs_def len_u64_def)
qed

theorem restored_object_read_back_witness:
  "\<exists>s1 s2 r s3. cs_put_restored percent_ops (dyn_ops demo_json) 10 10 10
      [Inr (Some (PutMeta demo_restored)), Inr (Some (PutData [7, 8]))] demo_service = (Inr (), s1) \<and>
    cache_run percent_ops (dyn_ops demo_json) [Contains 20 (''b'', ''k'', None)] s1 = s2 \<and>
    cs_get (dyn_ops demo_json) 50 50 (''b'', ''k'', None) (snd s2) = (r, s3) \<and>
    (r = Inl (Status NotFound ''restored object not found in cache'') \<or> (\<exists>e. r = Inl (internal_status e)) \<or>
      r = Inr (restored_messages [7, 8] (restored_attrs demo_restored 100 10)))"
proof -
  let ?stream = "[Inr (Some (PutMeta demo_restored)), Inr (Some (PutData [7, 8]))]"
  obtain s1 where p: "cs_put_restored percent_ops (dyn_ops demo_json) 10 10 10 ?stream demo_service = (Inr (), s1)"
    using demo_put_restored by (metis prod.collapse)
  obtain replies s2 where run: "cache_run percent_ops (dyn_ops demo_json) [Contains 20 (''b'', ''k'', None)] s1 = (replies, s2)"
    by fastforce
  obtain r s3 where g: "cs_get (dyn_ops demo_json) 50 50 (''b'', ''k'', None) s2 = (r, s3)" by fastforce
  have k: "(pr_bucket demo_restored, pr_key demo_restored, pr_version_id demo_restored) = (''b'', ''k'', None)" by simp
  have "r = Inl (Status NotFound ''restored object not found in cache'') \<or> (\<exists>e. r = Inl (internal_status e)) \<or>
      r = Inr (restored_messages [7, 8] (restored_attrs demo_restored 100 10))"
    using restored_object_read_back [OF demo_service_ok(1) _ _ _ p _ run, of demo_restored "[7, 8]" "\<lparr>ts_seconds = 100, ts_nanos = 0\<rparr>",
        unfolded k, OF _ _ _ _ g]
    by (auto simp: demo_service_ok(2) puts_restored_def)
  with p run g show ?thesis by force
qed

section \<open>Overwriting\<close>

definition demo_entry :: "string \<Rightarrow> u64 \<Rightarrow> i64 \<Rightarrow> u64 \<Rightarrow> stored_entry" where
  "demo_entry key i t n = \<lparr>se_storage_id = i, se_xattrs = demo_attrs\<lparr>xa_key := key, xa_size := n,
     xa_expire_at := 0, xa_last_access_at := t\<rparr>\<rparr>"

text \<open>The service of one GiB with two restored objects of 500 and 100 MB.\<close>

definition overwrite_service :: "'b \<Rightarrow> (nat, 'b) cache_service" where
  "overwrite_service b = \<lparr>cs_backend = b, cs_max_size_bytes = 1073741824, cs_eviction_policy = Lru, cs_eviction_batch_size = 64,
     cs_eviction_low_watermark = 80, cs_staging_capacity_bytes = 375809638, cs_restored_capacity_bytes = 697932186,
     cs_index = recompute_used_capacity (cache_index_default\<lparr>ix_restored :=
       [((''b'', ''k'', None), demo_entry ''k'' 1 10 500000000), ((''b'', ''m'', None), demo_entry ''m'' 2 20 100000000)]\<rparr>)\<rparr>"

definition overwrite_evicted :: "'b \<Rightarrow> (nat, 'b) cache_service" where
  "overwrite_evicted b = (overwrite_service b)\<lparr>cs_index := recompute_used_capacity (cache_index_default\<lparr>ix_restored :=
     [((''b'', ''m'', None), demo_entry ''m'' 2 20 100000000)], ix_evict_count := 1, ix_evict_bytes := 500000000\<rparr>)\<rparr>"

lemmas overwrite_defs = overwrite_service_def overwrite_evicted_def recompute_used_capacity_def cache_index_default_def
  staging_used_def restored_used_def sizes_def demo_entry_def

lemma overwrite_total:
  assumes "cb_available_bytes be b = (Inr 473741824, b)"
  shows "ix_used_capacity (cs_index (overwrite_service b)) = 600000000"
    and "effective_total_capacity be (overwrite_service b) = (Inr 1073741824, overwrite_service b)"
proof -
  let ?s = "overwrite_service b"
  show used: "ix_used_capacity (cs_index ?s) = 600000000" by (simp add: overwrite_defs)
  show "effective_total_capacity be ?s = (Inr 1073741824, ?s)"
    using assms used by (simp add: effective_total_capacity_def overwrite_service_def sat_add_def)
qed

lemma overwrite_evicts:
  assumes "\<And>i. cb_delete be i b = (Inr (), b)" and "cb_available_bytes be b = (Inr 473741824, b)"
  shows "evict_if_needed percent_ops be 573000000 Restored (overwrite_service b) = (Inr (), overwrite_evicted b)"
proof -
  let ?s = "overwrite_service b" and ?k = "((''b'', ''k'', None), demo_entry ''k'' 1 10 500000000)"
  note total = overwrite_total(2) [OF assms(2)]
  define pressure where "pressure = pressure_of 573000000 Restored 375809638 697932186 (Some 858993459) 1073741824"
  have split: "split_capacity_by_static_ratio ?s 1073741824 = (375809638, 697932186)"
    by (simp add: split_capacity_by_static_ratio_def overwrite_service_def sat_add_def sat_mul_def sat_sub_def demo_div)
  have mark: "effective_low_watermark_used percent_ops ?s 1073741824 = Some 858993459"
    by (simp add: effective_low_watermark_used_def overwrite_service_def percent_ops_def)
  have p0: "should_evict (pressure (cs_index ?s))" "choose_victim_category (pressure (cs_index ?s)) (cs_index ?s) = Some Restored"
    by (simp_all add: should_evict_def choose_victim_category_def pressure_def pressure_of_def overwrite_defs sat_add_def)
  have p1: "\<not> should_evict (pressure (cs_index (overwrite_evicted b)))"
    by (simp add: should_evict_def pressure_def pressure_of_def over_watermark_def overwrite_defs sat_add_def)
  have victim: "select_eviction_candidate (cs_eviction_policy ?s) (cs_index ?s) Restored = Some ?k"
    by (simp add: select_eviction_candidate_def min_by_first_def overwrite_defs)
  have out: "evict_victim be Restored ?k ?s = (Inr (), (overwrite_evicted b))"
    using assms(1) by (simp add: evict_victim_def Let_def overwrite_defs)
  have loop: "evict_loop be pressure (Suc (Suc 62)) ?s = (Inr True, (overwrite_evicted b))"
    unfolding evict_loop.simps using p0 p1 victim out by simp
  have "max (cs_eviction_batch_size ?s) 1 = Suc (Suc 62)" by (simp add: overwrite_service_def)
  then show ?thesis
    using total split mark loop by (simp add: evict_if_needed_def Let_def pressure_def [symmetric])
qed

text \<open>
  Overwriting a restored object asks for the growth only, but the eviction that
  makes room may evict the very object that is overwritten. On a backend whose calls all
  succeed, overwriting 500 MB by 1073 MB leaves 1173 MB in a cache of 1073.7 MB.
\<close>

theorem overwrite_exceeds_capacity:
  assumes "\<And>i. cb_delete be i b = (Inr (), b)" and "cb_available_bytes be b = (Inr 473741824, b)"
    and "\<And>k d x. cb_write be k d x b = (Inr 3, b)"
  shows "\<exists>s'. put_bytes percent_ops be 30 (''b'', ''k'', None) data (se_xattrs (demo_entry ''k'' 3 30 1073000000)) (overwrite_service b) =
      (Inr 3, s') \<and> cs_max_size_bytes s' < ix_used_capacity (cs_index s') \<and>
    ix_used_capacity (cs_index (overwrite_service b)) = 600000000"
proof -
  let ?s = "overwrite_service b" and ?x = "se_xattrs (demo_entry ''k'' 3 30 1073000000)"
  have x: "xa_size ?x = 1073000000" "xa_category ?x = Restored"
    by (simp_all add: demo_entry_def demo_attrs_def restored_attrs_def)
  have en: "ensure_object_size_within_total_capacity be 1073000000 ?s = (Inr (), ?s)"
    using overwrite_total(2) [OF assms(2)] by (simp add: ensure_object_size_within_total_capacity_def)
  have r: "reclaim_expired_restored_except be 30 skip ?s = (Inr (), ?s)" for skip
    by (simp add: reclaim_expired_restored_except_def overwrite_defs is_expired_at_def)
  have f: "find_entry (''b'', ''k'', None) Restored ?s = Some (demo_entry ''k'' 1 10 500000000)"
    "find_entry (''b'', ''k'', None) Restored (overwrite_evicted b) = None"
    by (simp_all add: find_entry_def overwrite_defs)
  have b: "cs_backend (overwrite_evicted b) = b" by (simp add: overwrite_defs)
  show ?thesis
    using x en r f overwrite_evicts [OF assms(1,2)] assms(3) overwrite_total(1) [OF assms(2)]
    by (simp add: put_bytes_def insert_entry_def find_entry_def sat_sub_def Let_def b demo_entry_def)
      (simp add: overwrite_defs)
qed

theorem overwrite_exceeds_capacity_witness:
  "\<exists>s'. put_bytes percent_ops \<lparr>cb_write = (\<lambda>k d x b. (Inr 3, b)), cb_read = (\<lambda>i b. (Inr [], b)), cb_delete = (\<lambda>i b. (Inr (), b)),
      cb_read_xattrs = (\<lambda>i b. (Inr demo_attrs, b)), cb_list_all = (\<lambda>b. (Inr [], b)), cb_available_bytes = (\<lambda>b. (Inr 473741824, b))\<rparr>
      30 (''b'', ''k'', None) [] (se_xattrs (demo_entry ''k'' 3 30 1073000000)) (overwrite_service ()) = (Inr 3, s') \<and>
    cs_max_size_bytes s' < ix_used_capacity (cs_index s') \<and> ix_used_capacity (cs_index (overwrite_service ())) = 600000000"
  by (rule overwrite_exceeds_capacity) simp_all

section \<open>Admission\<close>

text \<open>
  C32 (bounds). An object that is not empty and is admitted under a new key fits: the capacity
  in use after the put is at most the configured capacity. An empty object is admitted without
  a look at the capacity.
\<close>

theorem new_object_fits_capacity:
  assumes "cache_ok (backend_ok j) (objects_of j) s"
    and "put_bytes fl (dyn_ops j) now (xa_bucket x, xa_key x, xa_version_id x) data x s = (Inr i, s')"
    and "find_entry (xa_bucket x, xa_key x, xa_version_id x) (xa_category x) s = None" and "xa_size x \<noteq> 0"
  shows "ix_used_capacity (cs_index s') \<le> cs_max_size_bytes s' \<and> cs_max_size_bytes s' = cs_max_size_bytes s"
proof -
  let ?k = "(xa_bucket x, xa_key x, xa_version_id x)" and ?c = "xa_category x"
  from assms(2) obtain q s1 s2 s3 where e: "effective_total_capacity (dyn_ops j) s = (q, s1)"
    and r: "reclaim_expired_restored_except (dyn_ops j) now (if ?c = Restored then Some ?k else None) s1 = (Inr (), s2)"
    and v: "evict_if_needed fl (dyn_ops j) (xa_size x) ?c s2 = (Inr (), s3)"
    and ix: "cs_index s' = recompute_used_capacity (map_table (hm_insert ?k \<lparr>se_storage_id = i, se_xattrs = x\<rparr>) ?c (cs_index s3))"
    and mx: "cs_max_size_bytes s' = cs_max_size_bytes s3"
    by (rule put_bytes_written) (simp add: assms(3) sat_sub_def)
  note sh1 = dyn.effective_total_capacity_spec(1) [OF assms(1) e]
  have sh2: "dyn.shrinks j s1 s2"
    using dyn.shrinks_reclaim [OF dyn.shrinks_ok [OF sh1]] r by (metis snd_conv)
  note sh3 = dyn.evict_if_needed_spec [OF dyn.shrinks_ok [OF sh2] v]
  have sh: "dyn.shrinks j s s3" by (rule dyn.shrinks_trans [OF sh1 dyn.shrinks_trans [OF sh2 sh3]])
  have ok: "cache_ok (backend_ok j) (objects_of j) s3" by (rule dyn.shrinks_ok [OF sh])
  have "content (objects_of j) s (?c, ?k) = None"
    using assms(3) by (simp add: find_entry_look content_def stored_def)
  then have "content (objects_of j) s3 (?c, ?k) = None"
    using sh unfolding dyn.shrinks_def loses_restored_def map_le_def by (metis domIff)
  then have "look (cs_index s3) (?c, ?k) = None"
    using ok ownedD(1) [of "objects_of j (cs_backend s3)" "cs_index s3" "(?c, ?k)"]
    by (cases "look (cs_index s3) (?c, ?k)") (auto simp: cache_ok_def content_def stored_def)
  with ok ix have used: "ix_used_capacity (cs_index s') = ix_used_capacity (cs_index s3) + xa_size x"
    by (simp add: used_insert_new cache_ok_def)
  have m: "cs_max_size_bytes s2 = cs_max_size_bytes s"
    using effective_total_capacity_max [OF e] reclaim_max [OF r] by simp
  obtain total where t: "total \<le> cs_max_size_bytes s2" "sat_add (ix_used_capacity (cs_index s3)) (xa_size x) \<le> total"
    using evict_if_needed_fits(2) [OF v assms(4)] by (auto simp: should_evict_def pressure_of_def)
  have "ix_used_capacity (cs_index s') \<le> cs_max_size_bytes s"
    unfolding used m [symmetric] using add_le_sat_add t(2,1) by (rule order.trans [OF order.trans])
  with mx m evict_if_needed_fits(1) [OF v assms(4)] show ?thesis by simp
qed

theorem new_object_fits_capacity_witness:
  "\<exists>s'. put_bytes percent_ops (dyn_ops demo_json) 10 (''b'', ''k'', None) [7, 8] demo_attrs demo_service = (Inr 1, s') \<and>
    ix_used_capacity (cs_index s') \<le> cs_max_size_bytes s'"
proof -
  obtain s' where p: "put_bytes percent_ops (dyn_ops demo_json) 10 (''b'', ''k'', None) [7, 8] demo_attrs demo_service = (Inr 1, s')"
    using demo_put_stored by (metis prod.collapse)
  have "(xa_bucket demo_attrs, xa_key demo_attrs, xa_version_id demo_attrs) = (''b'', ''k'', None)"
    "find_entry (''b'', ''k'', None) (xa_category demo_attrs) demo_service = None" "xa_size demo_attrs \<noteq> 0"
    by (simp_all add: demo_attrs_def restored_attrs_def find_entry_def demo_service_def cache_index_default_def)
  with new_object_fits_capacity [OF demo_service_ok(1), of percent_ops 10 demo_attrs "[7, 8]" 1 s'] p show ?thesis by auto
qed

lemma max_div_100_GiB: "(- 1 :: u64) div 107374182400 = 171798691"
proof -
  have "unat ((- 1 :: u64) div 107374182400) = 171798691"
    by (simp add: unat_div unsigned_minus_1_eq_mask mask_eq_exp_minus_1)
  then have "unat ((- 1 :: u64) div 107374182400) = unat (171798691 :: u64)" by simp
  then show ?thesis by (simp only: word_unat_eq_iff)
qed
section \<open>The split of the capacity\<close>

text \<open>
  The budget of the staged objects is the product of the capacity and the
  configured share, divided by the sum of the shares, and the product saturates. With the
  default of 100 GiB and shares of 35 and 65 percent it leaves 171798691 bytes for the
  staged objects, and an empty cache refuses an object of 200 MiB.
\<close>

theorem default_split_refuses_staging:
  assumes "cs_staging_capacity_bytes s = 35 * 1024 ^ 3" and "cs_restored_capacity_bytes s = 65 * 1024 ^ 3"
    and "cs_max_size_bytes s = 100 * 1024 ^ 3" and "cs_index s = cache_index_default"
    and "cb_available_bytes be (cs_backend s) = (Inr (100 * 1024 ^ 3), b)"
  shows "split_capacity_by_static_ratio s (100 * 1024 ^ 3) = (171798691, 107202383709) \<and>
    fst (evict_if_needed fl be (200 * 1024 ^ 2) Staging s) = Inl (capacity_reject_error StagingBudgetExceeded
      ''not enough staging cache budget for write path; cannot fit after eviction'')"
proof
  have sum: "sat_add (37580963840 :: u64) 69793218560 = 107374182400" by (simp add: sat_add_def)
  have split: "split_capacity_by_static_ratio s' 107374182400 = (171798691, 107202383709)"
    if "cs_staging_capacity_bytes s' = 37580963840" "cs_restored_capacity_bytes s' = 69793218560" for s' :: "('a, 'b) cache_service"
    unfolding split_capacity_by_static_ratio_def that
    by (simp add: sum sat_sub_def sat_mul_def max_div_100_GiB)
  then show "split_capacity_by_static_ratio s (100 * 1024 ^ 3) = (171798691, 107202383709)"
    using assms(1,2) by simp
  let ?s = "s\<lparr>cs_backend := b\<rparr>"
  have total: "effective_total_capacity be s = (Inr 107374182400, ?s)"
    using assms(3,4,5) by (simp add: effective_total_capacity_def cache_index_default_def sat_add_def)
  define pressure where "pressure = pressure_of 209715200 Staging 171798691 107202383709
    (effective_low_watermark_used fl ?s 107374182400) (107374182400 :: u64)"
  have over: "cp_staging_after (pressure cache_index_default) = 209715200" "cp_staging_budget (pressure cache_index_default) = 171798691"
    by (simp_all add: pressure_def pressure_of_def cache_index_default_def staging_used_def sizes_def sat_add_def)
  have loop: "evict_loop be pressure (Suc n) ?s = (Inr False, ?s)" for n
    using assms(4) over by (simp add: should_evict_def choose_victim_category_def)
  have "max (cs_eviction_batch_size ?s) 1 = Suc (max (cs_eviction_batch_size ?s) 1 - 1)" by simp
  with loop have loop': "evict_loop be pressure (max (cs_eviction_batch_size ?s) 1) ?s = (Inr False, ?s)" by metis
  show "fst (evict_if_needed fl be (200 * 1024 ^ 2) Staging s) = Inl (capacity_reject_error StagingBudgetExceeded
      ''not enough staging cache budget for write path; cannot fit after eviction'')"
    using total loop' over split [of ?s] assms(1,2,4)
    by (simp add: evict_if_needed_def Let_def pressure_def [symmetric] should_evict_def)
qed

theorem default_split_refuses_staging_witness:
  "fst (evict_if_needed percent_ops \<lparr>cb_write = (\<lambda>k d x b. (Inr 3, b)), cb_read = (\<lambda>i b. (Inr [], b)), cb_delete = (\<lambda>i b. (Inr (), b)),
      cb_read_xattrs = (\<lambda>i b. (Inr demo_attrs, b)), cb_list_all = (\<lambda>b. (Inr [], b)), cb_available_bytes = (\<lambda>b. (Inr (100 * 1024 ^ 3), b))\<rparr>
      (200 * 1024 ^ 2) Staging ((overwrite_service ())\<lparr>cs_staging_capacity_bytes := 35 * 1024 ^ 3, cs_restored_capacity_bytes := 65 * 1024 ^ 3,
        cs_max_size_bytes := 100 * 1024 ^ 3, cs_index := cache_index_default\<rparr>)) =
    Inl (capacity_reject_error StagingBudgetExceeded
      ''not enough staging cache budget for write path; cannot fit after eviction'')"
  by (rule default_split_refuses_staging [THEN conjunct2]) simp_all

section \<open>Rebuilding the index\<close>

definition place :: "cache_xattrs \<Rightarrow> cache_category \<times> cache_key" where
  "place x = (xa_category x, xa_bucket x, xa_key x, xa_version_id x)"

text \<open>The kept objects are the newest of their keys, and all the others are stale.\<close>

definition rebuilt :: "(u64 \<times> cache_xattrs) list \<Rightarrow> cache_index \<Rightarrow> u64 list \<Rightarrow> bool" where
  "rebuilt objects ix stale \<longleftrightarrow>
     (\<forall>p. case look ix p of
            None \<Rightarrow> \<forall>i x. (i, x) \<in> set objects \<longrightarrow> place x \<noteq> p
          | Some e \<Rightarrow> (se_storage_id e, se_xattrs e) \<in> set objects \<and> place (se_xattrs e) = p \<and>
              (\<forall>i x. (i, x) \<in> set objects \<longrightarrow> place x = p \<longrightarrow>
                 (xa_cached_at x, i) \<le> (xa_cached_at (se_xattrs e), se_storage_id e))) \<and>
     (\<forall>i. i \<in> set stale \<longleftrightarrow>
        (\<exists>x. (i, x) \<in> set objects \<and> look ix (place x) \<noteq> Some \<lparr>se_storage_id = i, se_xattrs = x\<rparr>))"

lemma rebuiltD:
  assumes "rebuilt objects ix stale"
  shows "look ix p = None \<Longrightarrow> (i, x) \<in> set objects \<Longrightarrow> place x \<noteq> p"
    and "look ix p = Some e \<Longrightarrow> (se_storage_id e, se_xattrs e) \<in> set objects \<and> place (se_xattrs e) = p"
    and "look ix p = Some e \<Longrightarrow> (i, x) \<in> set objects \<Longrightarrow> place x = p \<Longrightarrow>
      (xa_cached_at x, i) \<le> (xa_cached_at (se_xattrs e), se_storage_id e)"
    and "i \<in> set stale \<longleftrightarrow> (\<exists>x. (i, x) \<in> set objects \<and> look ix (place x) \<noteq> Some \<lparr>se_storage_id = i, se_xattrs = x\<rparr>)"
  using assms unfolding rebuilt_def by (metis (mono_tags, lifting) option.simps(4,5))+

lemma rebuiltI:
  assumes "\<And>p i x. look ix p = None \<Longrightarrow> (i, x) \<in> set objects \<Longrightarrow> place x \<noteq> p"
    and "\<And>p e. look ix p = Some e \<Longrightarrow> (se_storage_id e, se_xattrs e) \<in> set objects \<and> place (se_xattrs e) = p"
    and "\<And>p e i x. look ix p = Some e \<Longrightarrow> (i, x) \<in> set objects \<Longrightarrow> place x = p \<Longrightarrow>
      (xa_cached_at x, i) \<le> (xa_cached_at (se_xattrs e), se_storage_id e)"
    and "\<And>i. i \<in> set stale \<longleftrightarrow> (\<exists>x. (i, x) \<in> set objects \<and> look ix (place x) \<noteq> Some \<lparr>se_storage_id = i, se_xattrs = x\<rparr>)"
  shows "rebuilt objects ix stale"
  unfolding rebuilt_def
proof (intro conjI allI)
  show "case look ix p of
      None \<Rightarrow> \<forall>i x. (i, x) \<in> set objects \<longrightarrow> place x \<noteq> p
    | Some e \<Rightarrow> (se_storage_id e, se_xattrs e) \<in> set objects \<and> place (se_xattrs e) = p \<and>
        (\<forall>i x. (i, x) \<in> set objects \<longrightarrow> place x = p \<longrightarrow>
           (xa_cached_at x, i) \<le> (xa_cached_at (se_xattrs e), se_storage_id e))" for p
    using assms(1-3) [of p] by (cases "look ix p") (simp_all del: less_eq_prod_simp)
qed (rule assms(4))

lemma rebuilt_keep:
  assumes "rebuilt objects ix stale" and "i \<notin> fst ` set objects" and kept: "look ix (place x) = Some cur"
    "\<not> rebuilt_entry_should_replace cur \<lparr>se_storage_id = i, se_xattrs = x\<rparr>"
  shows "rebuilt (objects @ [(i, x)]) ix (stale @ [i])"
proof -
  let ?p = "place x" and ?e = "\<lparr>se_storage_id = i, se_xattrs = x\<rparr>"
  note old = rebuiltD [OF assms(1)]
  have fresh: "i' \<noteq> i" if "(i', x') \<in> set objects" for i' x' using that assms(2) by force
  have set': "(i', x') \<in> set (objects @ [(i, x)]) \<longleftrightarrow> (i', x') \<in> set objects \<or> i' = i \<and> x' = x" for i' x' by auto
  show ?thesis
  proof (rule rebuiltI)
    show "place x' \<noteq> p" if "look ix p = None" "(i', x') \<in> set (objects @ [(i, x)])" for p i' x'
      using that old(1) [of p i' x'] kept(1) set' by auto
    show "(se_storage_id e, se_xattrs e) \<in> set (objects @ [(i, x)]) \<and> place (se_xattrs e) = p" if "look ix p = Some e" for p e
      using that old(2) by auto
    show "(xa_cached_at x', i') \<le> (xa_cached_at (se_xattrs e), se_storage_id e)"
      if "look ix p = Some e" "(i', x') \<in> set (objects @ [(i, x)])" "place x' = p" for p e i' x'
    proof (cases "(i', x') \<in> set objects")
      case True
      with old(3) that show ?thesis by blast
    next
      case False
      with that set' kept(1) have "i' = i" "x' = x" "e = cur" by auto
      with kept(2) show ?thesis unfolding rebuilt_entry_should_replace_def by (simp only: not_less stored_entry.simps)
    qed
    have "se_storage_id cur \<noteq> i" using old(2) [OF kept(1)] fresh by blast
    then have "look ix ?p \<noteq> Some ?e" using kept(1) by auto
    then show "i' \<in> set (stale @ [i]) \<longleftrightarrow>
        (\<exists>x'. (i', x') \<in> set (objects @ [(i, x)]) \<and> look ix (place x') \<noteq> Some \<lparr>se_storage_id = i', se_xattrs = x'\<rparr>)" for i'
      unfolding set' using old(4) [of i'] by auto
  qed
qed

lemma rebuilt_replace:
  assumes "rebuilt objects ix stale" and "i \<notin> fst ` set objects"
    and replaced: "look ix' = (look ix)(place x \<mapsto> \<lparr>se_storage_id = i, se_xattrs = x\<rparr>)"
      "\<And>cur. look ix (place x) = Some cur \<Longrightarrow> (xa_cached_at (se_xattrs cur), se_storage_id cur) < (xa_cached_at x, i)"
      "set stale' = set stale \<union> se_storage_id ` set_option (look ix (place x))"
  shows "rebuilt (objects @ [(i, x)]) ix' stale'"
proof -
  let ?p = "place x" and ?e = "\<lparr>se_storage_id = i, se_xattrs = x\<rparr>"
  note old = rebuiltD [OF assms(1)]
  have fresh: "i' \<noteq> i" if "(i', x') \<in> set objects" for i' x' using that assms(2) by force
  have set': "(i', x') \<in> set (objects @ [(i, x)]) \<longleftrightarrow> (i', x') \<in> set objects \<or> i' = i \<and> x' = x" for i' x' by auto
  have lk: "look ix' p = (if p = ?p then Some ?e else look ix p)" for p using replaced(1) by simp
  show ?thesis
  proof (rule rebuiltI)
    show "place x' \<noteq> p" if "look ix' p = None" "(i', x') \<in> set (objects @ [(i, x)])" for p i' x'
      using that old(1) [of p i' x'] set' lk [of p] by (auto split: if_splits)
    show "(se_storage_id e, se_xattrs e) \<in> set (objects @ [(i, x)]) \<and> place (se_xattrs e) = p" if "look ix' p = Some e" for p e
      using that old(2) [of p e] lk [of p] by (auto split: if_splits)
    show "(xa_cached_at x', i') \<le> (xa_cached_at (se_xattrs e), se_storage_id e)"
      if l: "look ix' p = Some e" and o: "(i', x') \<in> set (objects @ [(i, x)])" and p: "place x' = p" for p e i' x'
    proof (cases "(i', x') \<in> set objects")
      case True
      show ?thesis
      proof (cases "p = ?p")
        case at: True
        then have e: "e = ?e" using l lk by simp
        obtain cur where cur: "look ix ?p = Some cur" using old(1) [OF _ True] p at by fastforce
        have "(xa_cached_at x', i') \<le> (xa_cached_at (se_xattrs cur), se_storage_id cur)"
          using old(3) [OF cur True] p at by simp
        also have "\<dots> < (xa_cached_at x, i)" by (rule replaced(2) [OF cur])
        finally show ?thesis using e by auto
      qed (use old(3) [OF _ True p] l lk in simp)
    next
      case False
      with o set' have "i' = i" "x' = x" by auto
      with l lk p show ?thesis by auto
    qed
    fix i'
    have step: "(\<exists>x'. (i', x') \<in> set (objects @ [(i, x)]) \<and> look ix' (place x') \<noteq> Some \<lparr>se_storage_id = i', se_xattrs = x'\<rparr>)
        \<longleftrightarrow> (\<exists>x'. (i', x') \<in> set objects \<and> (place x' = ?p \<or> look ix (place x') \<noteq> Some \<lparr>se_storage_id = i', se_xattrs = x'\<rparr>))"
      unfolding set' lk using fresh by auto
    have cur: "(\<exists>x'. (i', x') \<in> set objects \<and> look ix (place x') = Some \<lparr>se_storage_id = i', se_xattrs = x'\<rparr> \<and> place x' = ?p)
        \<longleftrightarrow> i' \<in> se_storage_id ` set_option (look ix ?p)"
      using old(2) [of ?p] by (cases "look ix ?p") force+
    show "i' \<in> set stale' \<longleftrightarrow>
        (\<exists>x'. (i', x') \<in> set (objects @ [(i, x)]) \<and> look ix' (place x') \<noteq> Some \<lparr>se_storage_id = i', se_xattrs = x'\<rparr>)"
      unfolding step replaced(3) Un_iff cur [symmetric] old(4) by blast
  qed
qed

lemma rebuilt_step:
  assumes "rebuilt objects ix stale" and "rebuild_step (i, x) (ix, stale) = (ix', stale')" and "i \<notin> fst ` set objects"
  shows "rebuilt (objects @ [(i, x)]) ix' stale'"
proof -
  let ?e = "\<lparr>se_storage_id = i, se_xattrs = x\<rparr>"
  have get: "hm_get (table (xa_category x) ix) (xa_bucket x, xa_key x, xa_version_id x) = look ix (place x)"
    by (simp add: look_def place_def)
  have ins: "look (map_table (hm_insert (xa_bucket x, xa_key x, xa_version_id x) ?e) (xa_category x) ix) = (look ix)(place x \<mapsto> ?e)"
    by (simp add: place_def)
  consider (kept) cur where "look ix (place x) = Some cur" "\<not> rebuilt_entry_should_replace cur ?e" "ix' = ix" "stale' = stale @ [i]"
    | (replaced) "look ix' = (look ix)(place x \<mapsto> ?e)"
      "\<And>cur. look ix (place x) = Some cur \<Longrightarrow> (xa_cached_at (se_xattrs cur), se_storage_id cur) < (xa_cached_at x, i)"
      "set stale' = set stale \<union> se_storage_id ` set_option (look ix (place x))"
    using assms(2) get ins
    by (cases "look ix (place x)") (auto simp: rebuild_step_def Let_def rebuilt_entry_should_replace_def split: if_splits)
  then show ?thesis
    by cases (auto intro: rebuilt_keep [OF assms(1,3)] rebuilt_replace [OF assms(1,3)])
qed

lemma rebuilt_fold:
  assumes "distinct (map fst objects)" and "fold rebuild_step objects (cache_index_default, []) = (ix, stale)"
  shows "rebuilt objects ix stale"
  using assms
proof (induction objects arbitrary: ix stale rule: rev_induct)
  case Nil
  have "look cache_index_default p = None" for p
    by (cases p; cases "fst p") (auto simp: look_def cache_index_default_def)
  with Nil show ?case by (intro rebuiltI) auto
next
  case (snoc ob objects)
  obtain i x where ob: "ob = (i, x)" by fastforce
  obtain ix0 stale0 where f: "fold rebuild_step objects (cache_index_default, []) = (ix0, stale0)" by fastforce
  with snoc ob show ?case by (auto intro: rebuilt_step)
qed

text \<open>
  C33 (functional). After a restart the index has, under every key, the newest of the
  objects that the backend lists for it, and exactly the other listed objects are deleted.
\<close>

theorem rebuild_keeps_newest:
  assumes "cb_list_all be (cs_backend s) = (Inr objects, b)" and "distinct (map fst objects)"
    and "rebuild_index be s = (Inr (), s')"
  shows "(look (cs_index s') p = Some e \<longleftrightarrow> (se_storage_id e, se_xattrs e) \<in> set objects \<and> place (se_xattrs e) = p \<and>
      (\<forall>(i, x) \<in> set objects. place x = p \<longrightarrow> (xa_cached_at x, i) \<le> (xa_cached_at (se_xattrs e), se_storage_id e))) \<and>
    (\<exists>stale. cs_backend s' = delete_stale be stale b \<and> set stale =
      {i. \<exists>x. (i, x) \<in> set objects \<and> look (cs_index s') (place x) \<noteq> Some \<lparr>se_storage_id = i, se_xattrs = x\<rparr>})"
proof -
  obtain ix stale where f: "fold rebuild_step objects (cache_index_default, []) = (ix, stale)" by fastforce
  note r = rebuiltD [OF rebuilt_fold [OF assms(2) f]]
  have s': "look (cs_index s') = look ix" "cs_backend s' = delete_stale be stale b"
    using assms(1,3) f by (auto simp: rebuild_index_def)
  have top: "look ix p = Some e" if e: "(se_storage_id e, se_xattrs e) \<in> set objects" "place (se_xattrs e) = p"
    and le: "\<And>i x. (i, x) \<in> set objects \<Longrightarrow> place x = p \<Longrightarrow> (xa_cached_at x, i) \<le> (xa_cached_at (se_xattrs e), se_storage_id e)"
  proof -
    obtain d where d: "look ix p = Some d" using r(1) e by fastforce
    have "(xa_cached_at (se_xattrs d), se_storage_id d) = (xa_cached_at (se_xattrs e), se_storage_id e)"
      using r(3) [OF d e] le r(2) [OF d] by (metis order.antisym)
    with r(2) [OF d] e(1) assms(2) have "se_storage_id d = se_storage_id e" "se_xattrs d = se_xattrs e"
      by (auto intro: eq_key_imp_eq_value)
    with d show ?thesis by (simp add: stored_entry.equality)
  qed
  have "set stale = {i. \<exists>x. (i, x) \<in> set objects \<and> look ix (place x) \<noteq> Some \<lparr>se_storage_id = i, se_xattrs = x\<rparr>}"
    using r(4) by blast
  with s'(2) top r(2,3) show ?thesis unfolding s'(1) by blast
qed

definition demo_listed :: "(u64 \<times> cache_xattrs) list" where
  "demo_listed = [(1, demo_attrs), (2, demo_attrs\<lparr>xa_cached_at := 20\<rparr>), (3, demo_attrs\<lparr>xa_key := ''m''\<rparr>)]"

theorem rebuild_keeps_newest_witness:
  "look (cs_index (snd (rebuild_index ((hdd_ops demo_json)\<lparr>cb_list_all := (\<lambda>b. (Inr demo_listed, b))\<rparr>)
      (overwrite_service \<lparr>hb_base_path = ''/cache'', hb_max_size_bytes = 0, hb_next_id = 4, hb_fs = \<lparr>fs_files = [], fs_faults = []\<rparr>\<rparr>))))
     (Restored, ''b'', ''k'', None) = Some \<lparr>se_storage_id = 2, se_xattrs = demo_attrs\<lparr>xa_cached_at := 20\<rparr>\<rparr>"
proof -
  let ?b = "\<lparr>hb_base_path = ''/cache'', hb_max_size_bytes = 0, hb_next_id = 4, hb_fs = \<lparr>fs_files = [], fs_faults = []\<rparr>\<rparr>"
    and ?e = "\<lparr>se_storage_id = 2, se_xattrs = demo_attrs\<lparr>xa_cached_at := 20\<rparr>\<rparr>"
  let ?be = "(hdd_ops demo_json)\<lparr>cb_list_all := (\<lambda>b. (Inr demo_listed, b))\<rparr>"
  obtain s' where r: "rebuild_index ?be (overwrite_service ?b) = (Inr (), s')"
    by (cases "fold rebuild_step demo_listed (cache_index_default, [])") (auto simp: rebuild_index_def)
  have l: "cb_list_all ?be (cs_backend (overwrite_service ?b)) = (Inr demo_listed, ?b)" by (simp add: overwrite_service_def)
  have d: "distinct (map fst demo_listed)" by (simp add: demo_listed_def)
  have x: "place demo_attrs = (Restored, ''b'', ''k'', None)" "xa_cached_at demo_attrs = 10"
    by (simp_all add: place_def demo_attrs_def restored_attrs_def)
  then have y: "place (demo_attrs\<lparr>xa_cached_at := 20\<rparr>) = (Restored, ''b'', ''k'', None)"
    "place (demo_attrs\<lparr>xa_key := ''m''\<rparr>) \<noteq> (Restored, ''b'', ''k'', None)" by (auto simp: place_def)
  have "look (cs_index s') (Restored, ''b'', ''k'', None) = Some ?e"
    using rebuild_keeps_newest [OF l d r, of "(Restored, ''b'', ''k'', None)" ?e] x y by (simp add: demo_listed_def)
  with r show ?thesis by simp
qed

end
