(* ===== verification/Vtl_Model.thy ===== *)
theory Vtl_Model
  imports Rust_Strings
begin

text \<open>
  The value types of the virtual tape library (\<open>crates/vtl/src/model.rs\<close> and
  \<open>error.rs\<close>): element addresses, and one virtual tape, a list of records with a
  cursor. The operations of a tape are one definition each. The two loops, \<open>read\<close> and
  \<open>seek_filemark\<close>, are recursive functions with their termination proofs; a read whose
  bound computation overflows \<open>usize\<close> panics in the code (the addition in a debug
  build, the slice in a release build) and is \<open>None\<close> here.

  The lemmas show that every operation keeps the cursor on the tape, what the two loops
  compute on any tape, and that a tape written as a sequence of bundles, each closed by a
  filemark, gives back the \<open>n\<close>-th bundle after a rewind and a seek over \<open>n\<close> filemarks.
\<close>

section \<open>Addresses and errors\<close>

datatype tape_barcode = TapeBarcode (as_str: string)

datatype element_kind = Slot | Drive | ImportExport

record element_address =
  ea_kind :: element_kind
  ea_index :: u32

definition slot_address :: "u32 \<Rightarrow> element_address" where
  "slot_address i = \<lparr>ea_kind = Slot, ea_index = i\<rparr>"

definition drive_address :: "u32 \<Rightarrow> element_address" where
  "drive_address i = \<lparr>ea_kind = Drive, ea_index = i\<rparr>"

definition import_export_address :: "u32 \<Rightarrow> element_address" where
  "import_export_address i = \<lparr>ea_kind = ImportExport, ea_index = i\<rparr>"

definition mtx_address :: "element_address \<Rightarrow> u32" where
  "mtx_address a = ea_index a"

fun display_kind :: "element_kind \<Rightarrow> string" where
  "display_kind Slot = ''slot''"
| "display_kind Drive = ''drive''"
| "display_kind ImportExport = ''import-export''"

definition display_address :: "element_address \<Rightarrow> string" where
  "display_address a = display_kind (ea_kind a) @ '':'' @ show_word (ea_index a)"

datatype vtl_error =
    InvalidLsscsiLine string
  | InvalidElementAddress string
  | SlotOutOfRange u32
  | DriveOutOfRange u32
  | SlotEmpty u32
  | SlotOccupied u32
  | DriveEmpty u32
  | DriveOccupied u32
  | WrongElement string string
  | FilemarkNotFound
  | CommandFailed string i32 string
  | Io string

text \<open>The messages of \<open>VtlError\<close>, as \<open>thiserror\<close> renders them.\<close>

fun display_vtl_error :: "vtl_error \<Rightarrow> string" where
  "display_vtl_error (InvalidLsscsiLine l) = ''invalid SCSI/lsscsi line: '' @ l"
| "display_vtl_error (InvalidElementAddress a) = ''invalid element address: '' @ a"
| "display_vtl_error (SlotOutOfRange i) = ''slot '' @ show_word i @ '' does not exist''"
| "display_vtl_error (DriveOutOfRange i) = ''drive '' @ show_word i @ '' does not exist''"
| "display_vtl_error (SlotEmpty i) = ''slot '' @ show_word i @ '' is empty''"
| "display_vtl_error (SlotOccupied i) = ''slot '' @ show_word i @ '' is already occupied''"
| "display_vtl_error (DriveEmpty i) = ''drive '' @ show_word i @ '' is empty''"
| "display_vtl_error (DriveOccupied i) = ''drive '' @ show_word i @ '' is already occupied''"
| "display_vtl_error (WrongElement e a) = ''expected '' @ e @ '' element, got '' @ a"
| "display_vtl_error FilemarkNotFound = ''filemark not found before end of tape''"
| "display_vtl_error (CommandFailed c st e) =
     ''command failed: '' @ c @ ''; status='' @
     (if st < 0 then ''-'' @ nat_to_string (nat (- st)) else nat_to_string (nat st)) @
     ''; stderr='' @ e"
| "display_vtl_error (Io e) = ''I/O error: '' @ e"

section \<open>A virtual tape\<close>

datatype tape_record = Data bytes | Filemark

record tape_cursor =
  record_index :: usize
  byte_offset :: usize

definition cursor_default :: tape_cursor where
  "cursor_default = \<lparr>record_index = 0, byte_offset = 0\<rparr>"

record virtual_tape =
  vt_barcode :: tape_barcode
  vt_records :: "tape_record list"
  vt_cursor :: tape_cursor

definition virtual_tape_new :: "tape_barcode \<Rightarrow> virtual_tape" where
  "virtual_tape_new b = \<lparr>vt_barcode = b, vt_records = [], vt_cursor = cursor_default\<rparr>"

fun record_bytes :: "tape_record \<Rightarrow> u64" where
  "record_bytes (Data d) = len_u64 d"
| "record_bytes Filemark = 0"

definition used_bytes :: "virtual_tape \<Rightarrow> u64" where
  "used_bytes t = sum_list (map record_bytes (vt_records t))"

definition current_position :: "virtual_tape \<Rightarrow> u64" where
  "current_position t =
     sum_list (map record_bytes
       (take (min (record_index (vt_cursor t)) (length (vt_records t))) (vt_records t)))
     + of_nat (byte_offset (vt_cursor t))"

definition current_filemark :: "virtual_tape \<Rightarrow> u32" where
  "current_filemark t =
     of_nat (length (filter (\<lambda>r. r = Filemark)
       (take (min (record_index (vt_cursor t)) (length (vt_records t))) (vt_records t))))"

definition tape_rewind :: "virtual_tape \<Rightarrow> virtual_tape" where
  "tape_rewind t = t\<lparr>vt_cursor := cursor_default\<rparr>"

definition truncate_at_cursor :: "virtual_tape \<Rightarrow> tape_record list" where
  "truncate_at_cursor t =
     (if record_index (vt_cursor t) < length (vt_records t)
      then take (record_index (vt_cursor t)) (vt_records t) else vt_records t)"

definition append_data :: "virtual_tape \<Rightarrow> bytes \<Rightarrow> virtual_tape" where
  "append_data t d =
     (let rs = truncate_at_cursor t @ [Data d]
      in t\<lparr>vt_records := rs, vt_cursor := \<lparr>record_index = length rs, byte_offset = 0\<rparr>\<rparr>)"

definition append_filemark :: "virtual_tape \<Rightarrow> virtual_tape" where
  "append_filemark t =
     (let rs = truncate_at_cursor t @ [Filemark]
      in t\<lparr>vt_records := rs, vt_cursor := \<lparr>record_index = length rs, byte_offset = 0\<rparr>\<rparr>)"

function read_loop ::
  "tape_record list \<Rightarrow> usize \<Rightarrow> tape_cursor \<Rightarrow> bytes \<Rightarrow> (bytes \<times> tape_cursor) option" where
  "read_loop rs max_len c out =
     (if length out < max_len \<and> record_index c < length rs then
        (case rs ! record_index c of
           Filemark \<Rightarrow> Some (out, \<lparr>record_index = record_index c + 1, byte_offset = 0\<rparr>)
         | Data d \<Rightarrow>
             (let start = min (byte_offset c) (length d);
                  remaining = max_len - length out;
                  stop = min (start + remaining) (length d);
                  out' = out @ take (stop - start) (drop start d)
              in if start + remaining > usize_MAX then None
                 else if stop = length d
                 then read_loop rs max_len \<lparr>record_index = record_index c + 1, byte_offset = 0\<rparr> out'
                 else read_loop rs max_len (c\<lparr>byte_offset := stop\<rparr>) out'))
      else Some (out, c))"
  by pat_completeness auto
termination
  by (relation "measures [\<lambda>(rs, m, c, out). length rs - record_index c,
                          \<lambda>(rs, m, c, out). m - length out]")
    (auto simp: min_def split: if_splits)

declare read_loop.simps [simp del]

definition tape_read :: "virtual_tape \<Rightarrow> usize \<Rightarrow> (bytes \<times> virtual_tape) option" where
  "tape_read t max_len =
     (case read_loop (vt_records t) max_len (vt_cursor t) [] of
        None \<Rightarrow> None
      | Some (out, c) \<Rightarrow> Some (out, t\<lparr>vt_cursor := c\<rparr>))"

function seek_loop :: "tape_record list \<Rightarrow> u32 \<Rightarrow> tape_cursor \<Rightarrow> bool \<times> tape_cursor" where
  "seek_loop rs count c =
     (if 0 < count \<and> record_index c < length rs then
        (case rs ! record_index c of
           Filemark \<Rightarrow> seek_loop rs (count - 1) \<lparr>record_index = record_index c + 1, byte_offset = 0\<rparr>
         | Data d \<Rightarrow> seek_loop rs count \<lparr>record_index = record_index c + 1, byte_offset = 0\<rparr>)
      else (count = 0, c))"
  by pat_completeness auto
termination
  by (relation "measure (\<lambda>(rs, n, c). length rs - record_index c)") auto

declare seek_loop.simps [simp del]

definition tape_seek_filemark :: "virtual_tape \<Rightarrow> u32 \<Rightarrow> bool \<times> virtual_tape" where
  "tape_seek_filemark t count =
     (let (found, c) = seek_loop (vt_records t) count (vt_cursor t)
      in (found, t\<lparr>vt_cursor := c\<rparr>))"

section \<open>The cursor stays on the tape\<close>

definition wf_cursor :: "tape_record list \<Rightarrow> tape_cursor \<Rightarrow> bool" where
  "wf_cursor rs c \<longleftrightarrow>
     record_index c \<le> length rs \<and>
     (if record_index c < length rs
      then (case rs ! record_index c of Data d \<Rightarrow> byte_offset c \<le> length d | Filemark \<Rightarrow> byte_offset c = 0)
      else byte_offset c = 0)"

definition wf_tape :: "virtual_tape \<Rightarrow> bool" where
  "wf_tape t \<longleftrightarrow> wf_cursor (vt_records t) (vt_cursor t)"

lemma wf_cursor_start: "i \<le> length rs \<Longrightarrow> wf_cursor rs \<lparr>record_index = i, byte_offset = 0\<rparr>"
  by (auto simp: wf_cursor_def split: tape_record.splits)

lemma wf_tape_new [wf_intros]: "wf_tape (virtual_tape_new b)"
  by (simp add: wf_tape_def virtual_tape_new_def cursor_default_def wf_cursor_start)

lemma wf_tape_rewind [wf_intros]: "wf_tape (tape_rewind t)"
  by (simp add: wf_tape_def tape_rewind_def cursor_default_def wf_cursor_start)

lemma wf_append_data [wf_intros]: "wf_tape (append_data t d)"
  by (simp add: wf_tape_def append_data_def Let_def wf_cursor_start)

lemma wf_append_filemark [wf_intros]: "wf_tape (append_filemark t)"
  by (simp add: wf_tape_def append_filemark_def Let_def wf_cursor_start)

text \<open>One iteration of the read loop on a data record.\<close>

lemma read_loop_Data:
  assumes "length out < m \<and> record_index c < length rs" and "rs ! record_index c = Data d"
  shows "read_loop rs m c out =
     (let start = min (byte_offset c) (length d);
          remaining = m - length out;
          stop = min (start + remaining) (length d);
          out' = out @ take (stop - start) (drop start d)
      in if start + remaining > usize_MAX then None
         else if stop = length d
         then read_loop rs m \<lparr>record_index = record_index c + 1, byte_offset = 0\<rparr> out'
         else read_loop rs m (c\<lparr>byte_offset := stop\<rparr>) out')"
  using assms by (subst read_loop.simps) (simp only: if_True simp_thms tape_record.case)

lemma wf_read_loop:
  "wf_cursor rs c \<Longrightarrow> read_loop rs m c out = Some (out', c') \<Longrightarrow> wf_cursor rs c'"
proof (induction rs m c out rule: read_loop.induct)
  case (1 rs m c out)
  show ?case
  proof (cases "length out < m \<and> record_index c < length rs")
    case False
    with "1.prems" show ?thesis by (auto simp: read_loop.simps [of rs m c out])
  next
    case True
    show ?thesis
    proof (cases "rs ! record_index c")
      case Filemark
      with True "1.prems" show ?thesis
        by (auto simp: read_loop.simps [of rs m c out] wf_cursor_start)
    next
      case (Data d)
      let ?start = "min (byte_offset c) (length d)"
      let ?stop = "min (?start + (m - length out)) (length d)"
      let ?out = "out @ take (?stop - ?start) (drop ?start d)"
      from True Data "1.prems"(2) have no: "\<not> usize_MAX < ?start + (m - length out)"
        by (auto simp: read_loop.simps [of rs m c out] Let_def split: if_splits)
      show ?thesis
      proof (cases "?stop = length d")
        case stop: True
        have "read_loop rs m \<lparr>record_index = record_index c + 1, byte_offset = 0\<rparr> ?out = Some (out', c')"
          using "1.prems"(2) unfolding read_loop_Data [OF True Data] Let_def
          by (simp only: no stop if_False if_True refl)
        with "1.IH"(1) [OF True Data refl refl refl refl no stop] True show ?thesis
          by (simp add: wf_cursor_start)
      next
        case stop: False
        have "read_loop rs m (c\<lparr>byte_offset := ?stop\<rparr>) ?out = Some (out', c')"
          using "1.prems"(2) unfolding read_loop_Data [OF True Data] Let_def
          by (simp only: no stop if_False)
        moreover have "wf_cursor rs (c\<lparr>byte_offset := ?stop\<rparr>)"
          using True Data by (simp add: wf_cursor_def)
        ultimately show ?thesis
          using "1.IH"(2) [OF True Data refl refl refl refl no stop] by simp
      qed
    qed
  qed
qed

lemma wf_tape_read: "wf_tape t \<Longrightarrow> tape_read t m = Some (out, t') \<Longrightarrow> wf_tape t'"
  by (auto simp: wf_tape_def tape_read_def split: option.splits dest: wf_read_loop)

lemma wf_seek_loop: "wf_cursor rs c \<Longrightarrow> wf_cursor rs (snd (seek_loop rs n c))"
proof (induction rs n c rule: seek_loop.induct)
  case (1 rs n c)
  show ?case
  proof (cases "0 < n \<and> record_index c < length rs")
    case False
    with "1.prems" show ?thesis by (auto simp: seek_loop.simps [of rs n c])
  next
    case True
    with "1.IH" show ?thesis
      by (cases "rs ! record_index c") (simp_all add: seek_loop.simps [of rs n c] wf_cursor_start)
  qed
qed

lemma wf_tape_seek [wf_intros]: "wf_tape t \<Longrightarrow> wf_tape (snd (tape_seek_filemark t n))"
  using wf_seek_loop [of "vt_records t" "vt_cursor t" n]
  by (simp add: wf_tape_def tape_seek_filemark_def case_prod_beta)

text \<open>Reading and seeking move the cursor only; writing discards what lies beyond it.\<close>

lemma tape_read_frame:
  "tape_read t m = Some (out, t') \<Longrightarrow> vt_records t' = vt_records t \<and> vt_barcode t' = vt_barcode t"
  by (auto simp: tape_read_def split: option.splits)

lemma tape_seek_frame [simp]:
  "vt_records (snd (tape_seek_filemark t n)) = vt_records t"
  "vt_barcode (snd (tape_seek_filemark t n)) = vt_barcode t"
  by (simp_all add: tape_seek_filemark_def case_prod_beta)

lemma tape_rewind_frame [simp]:
  "vt_records (tape_rewind t) = vt_records t" "vt_barcode (tape_rewind t) = vt_barcode t"
  "vt_cursor (tape_rewind t) = cursor_default"
  by (simp_all add: tape_rewind_def)

lemma truncate_at_cursor_eq: "truncate_at_cursor t = take (record_index (vt_cursor t)) (vt_records t)"
  by (simp add: truncate_at_cursor_def)

lemma append_data_frame [simp]:
  "vt_barcode (append_data t d) = vt_barcode t"
  "vt_records (append_data t d) = take (record_index (vt_cursor t)) (vt_records t) @ [Data d]"
  "vt_cursor (append_data t d) =
     \<lparr>record_index = length (vt_records (append_data t d)), byte_offset = 0\<rparr>"
  by (simp_all add: append_data_def Let_def truncate_at_cursor_eq)

lemma append_filemark_frame [simp]:
  "vt_barcode (append_filemark t) = vt_barcode t"
  "vt_records (append_filemark t) = take (record_index (vt_cursor t)) (vt_records t) @ [Filemark]"
  "vt_cursor (append_filemark t) =
     \<lparr>record_index = length (vt_records (append_filemark t)), byte_offset = 0\<rparr>"
  by (simp_all add: append_filemark_def Let_def truncate_at_cursor_eq)

section \<open>What the loops compute\<close>

lemma read_loop_exhausted: "m \<le> length out \<Longrightarrow> read_loop rs m c out = Some (out, c)"
  by (simp add: read_loop.simps [of rs m c out])

lemma read_loop_end: "length rs \<le> record_index c \<Longrightarrow> read_loop rs m c out = Some (out, c)"
  by (simp add: read_loop.simps [of rs m c out])

lemma read_loop_Filemark:
  assumes "length out < m" and "record_index c < length rs" and "rs ! record_index c = Filemark"
  shows "read_loop rs m c out = Some (out, \<lparr>record_index = record_index c + 1, byte_offset = 0\<rparr>)"
  using assms by (simp add: read_loop.simps [of rs m c out])

text \<open>From the start of a data record that a filemark follows, a read returns the record's prefix.\<close>

lemma read_loop_record:
  assumes m: "m \<le> usize_MAX"
    and i: "i + 1 < length rs" and d: "rs ! i = Data d" and f: "rs ! (i + 1) = Filemark"
  shows "\<exists>c'. read_loop rs m \<lparr>record_index = i, byte_offset = 0\<rparr> [] = Some (take m d, c')"
proof (cases "m = 0")
  case True
  then show ?thesis by (simp add: read_loop_exhausted)
next
  case False
  let ?c = "\<lparr>record_index = i, byte_offset = 0\<rparr>"
  let ?n = "\<lparr>record_index = i + 1, byte_offset = 0\<rparr>"
  have pre: "length [] < m \<and> record_index ?c < length rs" and at: "rs ! record_index ?c = Data d"
    using False i d by simp_all
  have step: "read_loop rs m ?c [] =
      (if length d \<le> m then read_loop rs m ?n d else read_loop rs m (?c\<lparr>byte_offset := m\<rparr>) (take m d))"
    using m by (simp add: read_loop_Data [OF pre at] Let_def min_def)
  show ?thesis
  proof (cases "length d < m")
    case True
    then have "read_loop rs m ?n d = Some (d, \<lparr>record_index = i + 2, byte_offset = 0\<rparr>)"
      using i f by (simp add: read_loop_Filemark)
    with True step show ?thesis by simp
  next
    case False
    then show ?thesis
      using step by (cases "length d = m") (simp_all add: read_loop_exhausted)
  qed
qed

text \<open>When there is room for the whole record, the read goes past its filemark.\<close>

lemma read_loop_whole_record:
  assumes "m \<le> usize_MAX" and "i + 1 < length rs" and "rs ! i = Data d" and "rs ! (i + 1) = Filemark"
    and "length d < m"
  shows "read_loop rs m \<lparr>record_index = i, byte_offset = 0\<rparr> [] = Some (d, \<lparr>record_index = i + 2, byte_offset = 0\<rparr>)"
proof -
  let ?c = "\<lparr>record_index = i, byte_offset = 0\<rparr>"
  have pre: "length [] < m \<and> record_index ?c < length rs" and at: "rs ! record_index ?c = Data d"
    using assms by auto
  show ?thesis
    using assms by (simp add: read_loop_Data [OF pre at] Let_def read_loop_Filemark)
qed

text \<open>A read never panics when it starts at a record boundary.\<close>

lemma read_loop_total:
  assumes "m \<le> usize_MAX" and "byte_offset c = 0 \<or> m \<le> length out"
  shows "\<exists>r. read_loop rs m c out = Some r"
  using assms
proof (induction rs m c out rule: read_loop.induct)
  case (1 rs m c out)
  show ?case
  proof (cases "length out < m \<and> record_index c < length rs")
    case False
    then show ?thesis by (auto simp: read_loop.simps [of rs m c out])
  next
    case True
    show ?thesis
    proof (cases "rs ! record_index c")
      case Filemark
      with True show ?thesis by (simp add: read_loop_Filemark)
    next
      case (Data d)
      let ?start = "min (byte_offset c) (length d)"
      let ?stop = "min (?start + (m - length out)) (length d)"
      have no: "\<not> usize_MAX < ?start + (m - length out)"
        using True "1.prems" by simp
      show ?thesis
      proof (cases "?stop = length d")
        case stop: True
        show ?thesis
          unfolding read_loop_Data [OF True Data] Let_def
          using "1.IH"(1) [OF True Data refl refl refl refl no stop] "1.prems"(1)
          by (simp only: no stop if_False if_True refl) simp
      next
        case stop: False
        then have "m \<le> length (out @ take (?stop - ?start) (drop ?start d))"
          using True by (auto simp: min_def split: if_splits)
        then show ?thesis
          unfolding read_loop_Data [OF True Data] Let_def
          using "1.IH"(2) [OF True Data refl refl refl refl no stop] "1.prems"(1)
          by (simp only: no stop if_False) blast
      qed
    qed
  qed
qed

subsection \<open>Tapes written as bundles\<close>

definition bundle_records :: "bytes list \<Rightarrow> tape_record list" where
  "bundle_records ds = concat (map (\<lambda>d. [Data d, Filemark]) ds)"

lemma bundle_records_Nil [simp]: "bundle_records [] = []"
  by (simp add: bundle_records_def)

lemma bundle_records_snoc [simp]: "bundle_records (ds @ [d]) = bundle_records ds @ [Data d, Filemark]"
  by (simp add: bundle_records_def)

lemma length_bundle_records [simp]: "length (bundle_records ds) = 2 * length ds"
  by (induction ds) (simp_all add: bundle_records_def)

lemma nth_bundle_records:
  assumes "k < length ds"
  shows "bundle_records ds ! (2 * k) = Data (ds ! k)" "bundle_records ds ! (2 * k + 1) = Filemark"
  using assms
proof (induction ds arbitrary: k)
  case (Cons d ds)
  {
    case 1
    with Cons show ?case by (cases k) (simp_all add: bundle_records_def)
  next
    case 2
    with Cons show ?case by (cases k) (simp_all add: bundle_records_def)
  }
qed simp_all

lemma take_bundle_records: "k \<le> length ds \<Longrightarrow> take (2 * k) (bundle_records ds) = bundle_records (take k ds)"
proof (induction ds arbitrary: k)
  case Nil
  then show ?case by simp
next
  case (Cons d ds)
  then show ?case by (cases k) (simp_all add: bundle_records_def)
qed

lemma seek_loop_record:
  assumes "k < length ds" and "0 < n"
  shows "seek_loop (bundle_records ds) n \<lparr>record_index = 2 * k, byte_offset = b\<rparr> =
         seek_loop (bundle_records ds) (n - 1) \<lparr>record_index = 2 * (k + 1), byte_offset = 0\<rparr>"
proof -
  let ?rs = "bundle_records ds"
  have "seek_loop ?rs n \<lparr>record_index = 2 * k, byte_offset = b\<rparr> =
        seek_loop ?rs n \<lparr>record_index = 2 * k + 1, byte_offset = 0\<rparr>"
    using assms nth_bundle_records(1) [of k ds]
    by (subst seek_loop.simps) simp
  also have "\<dots> = seek_loop ?rs (n - 1) \<lparr>record_index = 2 * k + 2, byte_offset = 0\<rparr>"
    using assms nth_bundle_records(2) [of k ds]
    by (subst seek_loop.simps) simp
  finally show ?thesis by simp
qed

lemma unat_minus_one: "0 < n \<Longrightarrow> unat (n - 1) = unat n - 1" for n :: "'a::len word"
proof -
  assume "0 < n"
  then have "1 \<le> n"
    by (simp add: word_le_nat_alt unat_gt_0 Suc_le_eq word_gt_0)
  then show "unat (n - 1) = unat n - 1"
    by (simp add: unat_sub)
qed

lemma seek_loop_bundles:
  assumes "k + unat n \<le> length ds"
  shows "seek_loop (bundle_records ds) n \<lparr>record_index = 2 * k, byte_offset = 0\<rparr> =
         (True, \<lparr>record_index = 2 * (k + unat n), byte_offset = 0\<rparr>)"
  using assms
proof (induction "unat n" arbitrary: n k)
  case 0
  then have "n = 0" by (simp add: unat_0_iff)
  then show ?case by (subst seek_loop.simps) simp
next
  case (Suc m)
  then have n: "0 < n" and m: "m = unat (n - 1)"
    using unat_gt_0 [of n] by (simp_all add: word_gt_0 unat_minus_one)
  have "seek_loop (bundle_records ds) n \<lparr>record_index = 2 * k, byte_offset = 0\<rparr> =
        seek_loop (bundle_records ds) (n - 1) \<lparr>record_index = 2 * (k + 1), byte_offset = 0\<rparr>"
    using Suc n by (intro seek_loop_record) auto
  also have "\<dots> = (True, \<lparr>record_index = 2 * (k + 1 + unat (n - 1)), byte_offset = 0\<rparr>)"
    using Suc m by (intro Suc.hyps(1)) auto
  finally show ?case using Suc m by simp
qed

lemma seek_loop_past_end:
  assumes "length ds < k + unat n" and "k \<le> length ds"
  shows "\<not> fst (seek_loop (bundle_records ds) n \<lparr>record_index = 2 * k, byte_offset = 0\<rparr>)"
  using assms
proof (induction "length ds - k" arbitrary: n k)
  case 0
  then show ?case by (subst seek_loop.simps) (auto simp: unat_gt_0)
next
  case (Suc m)
  then have n: "0 < n" by (cases "n = 0") (auto simp: word_gt_0)
  from Suc n have "seek_loop (bundle_records ds) n \<lparr>record_index = 2 * k, byte_offset = 0\<rparr> =
        seek_loop (bundle_records ds) (n - 1) \<lparr>record_index = 2 * (k + 1), byte_offset = 0\<rparr>"
    by (intro seek_loop_record) auto
  moreover have "\<not> fst (seek_loop (bundle_records ds) (n - 1) \<lparr>record_index = 2 * (k + 1), byte_offset = 0\<rparr>)"
    using Suc n by (intro Suc.hyps(1)) (auto simp: unat_minus_one unat_gt_0)
  ultimately show ?case by simp
qed

lemma seek_filemark_zero [simp]: "tape_seek_filemark t 0 = (True, t)"
  by (simp add: tape_seek_filemark_def seek_loop.simps)

lemma seek_loop_offset: "byte_offset c = 0 \<Longrightarrow> byte_offset (snd (seek_loop rs n c)) = 0"
proof (induction rs n c rule: seek_loop.induct)
  case (1 rs n c)
  then show ?case
    by (cases "0 < n \<and> record_index c < length rs"; cases "rs ! record_index c")
      (simp_all add: seek_loop.simps [of rs n c])
qed

text \<open>After a rewind and a seek the cursor is at a record boundary, so a read cannot panic.\<close>

lemma seek_read_total:
  assumes "m \<le> usize_MAX"
  shows "\<exists>r. tape_read (snd (tape_seek_filemark (tape_rewind t) n)) m = Some r"
proof -
  let ?c = "vt_cursor (snd (tape_seek_filemark (tape_rewind t) n))"
  have "byte_offset ?c = 0"
    using seek_loop_offset [of cursor_default "vt_records t" n]
    by (simp add: tape_seek_filemark_def case_prod_beta cursor_default_def)
  with read_loop_total [OF assms, of ?c "[]" "vt_records t"] show ?thesis
    by (auto simp: tape_read_def)
qed

text \<open>A rewind, a seek and a read, on a tape of bundles.\<close>

lemma bundle_seek_read:
  assumes "vt_records t = bundle_records ds" and "unat n < length ds" and "m \<le> usize_MAX"
  shows "\<exists>t1 t2. tape_seek_filemark (tape_rewind t) n = (True, t1) \<and>
           tape_read t1 m = Some (take m (ds ! unat n), t2)"
proof -
  let ?k = "unat n"
  define t1 where "t1 = t\<lparr>vt_cursor := \<lparr>record_index = 2 * ?k, byte_offset = 0\<rparr>\<rparr>"
  have "seek_loop (bundle_records ds) n \<lparr>record_index = 2 * 0, byte_offset = 0\<rparr> =
      (True, \<lparr>record_index = 2 * (0 + ?k), byte_offset = 0\<rparr>)"
    by (rule seek_loop_bundles) (use assms in simp)
  then have seek: "tape_seek_filemark (tape_rewind t) n = (True, t1)"
    using assms(1) by (simp add: tape_seek_filemark_def cursor_default_def t1_def tape_rewind_def)
  obtain c' where "read_loop (bundle_records ds) m \<lparr>record_index = 2 * ?k, byte_offset = 0\<rparr> [] =
      Some (take m (ds ! ?k), c')"
    using read_loop_record [of m "2 * ?k" "bundle_records ds" "ds ! ?k"] assms nth_bundle_records [of ?k ds]
    by auto
  then have "tape_read t1 m = Some (take m (ds ! ?k), t1\<lparr>vt_cursor := c'\<rparr>)"
    using assms(1) by (simp add: tape_read_def t1_def)
  with seek show ?thesis by blast
qed

text \<open>A read of a whole bundle leaves the cursor behind that bundle's filemark.\<close>

lemma bundle_seek_read_whole:
  assumes "vt_records t = bundle_records ds" and "unat n < length ds" and "m \<le> usize_MAX"
    and "length (ds ! unat n) < m"
  shows "\<exists>t1 t2. tape_seek_filemark (tape_rewind t) n = (True, t1) \<and>
           tape_read t1 m = Some (ds ! unat n, t2) \<and> vt_records t2 = bundle_records ds \<and>
           record_index (vt_cursor t2) = 2 * (unat n + 1)"
proof -
  let ?k = "unat n"
  have "seek_loop (bundle_records ds) n \<lparr>record_index = 2 * 0, byte_offset = 0\<rparr> =
      (True, \<lparr>record_index = 2 * (0 + ?k), byte_offset = 0\<rparr>)"
    by (rule seek_loop_bundles) (use assms in simp)
  moreover have "read_loop (bundle_records ds) m \<lparr>record_index = 2 * ?k, byte_offset = 0\<rparr> [] =
      Some (ds ! ?k, \<lparr>record_index = 2 * ?k + 2, byte_offset = 0\<rparr>)"
    using read_loop_whole_record [of m "2 * ?k" "bundle_records ds" "ds ! ?k"] assms
      nth_bundle_records [of ?k ds] by auto
  ultimately show ?thesis
    using assms(1) by (simp add: tape_seek_filemark_def tape_read_def cursor_default_def)
qed

section \<open>Properties of a tape\<close>

text \<open>
  C7 (round trip). On a tape that holds the bundles \<open>ds\<close>, each closed by a filemark, a
  rewind, a seek over \<open>n\<close> filemarks and a read of at most \<open>m\<close> bytes return the first
  \<open>m\<close> bytes of the \<open>n\<close>-th bundle, whatever the cursor was before, and leave the records
  of the tape as they were.
\<close>

theorem bundle_read_back:
  assumes "vt_records t = bundle_records ds" and "unat n < length ds" and "m \<le> usize_MAX"
  shows "\<exists>t1 t2. tape_seek_filemark (tape_rewind t) n = (True, t1) \<and>
           tape_read t1 m = Some (take m (ds ! unat n), t2) \<and> vt_records t2 = bundle_records ds"
proof -
  obtain t1 t2 where t: "tape_seek_filemark (tape_rewind t) n = (True, t1)"
    "tape_read t1 m = Some (take m (ds ! unat n), t2)"
    using bundle_seek_read [OF assms] by blast
  have "vt_records t1 = vt_records t"
    using tape_seek_frame(1) [of "tape_rewind t" n] t(1) by simp
  with t assms(1) tape_read_frame [OF t(2)] show ?thesis by auto
qed

theorem bundle_read_back_witness:
  "vt_records (append_filemark (append_data (append_filemark (append_data
       (virtual_tape_new (TapeBarcode ''T'')) [1, 2])) [7])) = bundle_records [[1, 2], [7]] \<and>
   (\<exists>t1 t2. tape_seek_filemark (tape_rewind (append_filemark (append_data (append_filemark (append_data
       (virtual_tape_new (TapeBarcode ''T'')) [1, 2])) [7]))) 1 = (True, t1) \<and>
     tape_read t1 5 = Some ([7], t2) \<and> vt_records t2 = bundle_records [[1, 2], [7]])"
proof -
  let ?t = "append_filemark (append_data (append_filemark (append_data
       (virtual_tape_new (TapeBarcode ''T'')) [1, 2])) [7])"
  have r: "vt_records ?t = bundle_records [[1, 2], [7]]"
    by (simp add: virtual_tape_new_def cursor_default_def bundle_records_def)
  have "unat (1::u32) < length [[1, 2], [7::u8]]" and "5 \<le> usize_MAX"
    by (simp_all add: usize_MAX_def)
  from bundle_read_back [OF r this] r show ?thesis by simp
qed

text \<open>
  A seek over more filemarks than the tape holds is reported as not found:
  it never wraps to another bundle.
\<close>

theorem seek_beyond_last_bundle:
  assumes "vt_records t = bundle_records ds" and "length ds < unat n"
  shows "fst (tape_seek_filemark (tape_rewind t) n) = False"
  using seek_loop_past_end [of ds 0 n] assms
  by (simp add: tape_seek_filemark_def cursor_default_def case_prod_beta)

theorem seek_beyond_last_bundle_witness:
  "vt_records (append_filemark (append_data (virtual_tape_new (TapeBarcode ''T'')) [1])) = bundle_records [[1]] \<and>
   fst (tape_seek_filemark (tape_rewind (append_filemark (append_data (virtual_tape_new (TapeBarcode ''T'')) [1]))) 2) = False"
proof -
  have r: "vt_records (append_filemark (append_data (virtual_tape_new (TapeBarcode ''T'')) [1])) = bundle_records [[1]]"
    by (simp add: virtual_tape_new_def cursor_default_def bundle_records_def)
  have "length [[1::u8]] < unat (2::u32)" by simp
  from seek_beyond_last_bundle [OF r this] r show ?thesis by simp
qed

end
