(* ===== verification/Vtl_Simulator.thy ===== *)
theory Vtl_Simulator
  imports Vtl_Model "HOL-Library.Multiset"
begin

text \<open>
  The simulated tape library (\<open>crates/vtl/src/simulator.rs\<close>): numbered slots and drives,
  each empty or holding one virtual tape, a medium changer that moves tapes between them,
  and the drive commands. \<open>Slot\<close> and \<open>Drive\<close> are structs with the same two fields, so both
  are the record \<open>element\<close>; a \<open>&mut\<close> lookup is an update of the first element with the
  address. Operations return their result and the library as it is left, also on an error,
  since some of them fail after they have changed it.

  The lemmas give the invariant of the library and what each operation keeps of it, the
  conservation of cartridges by a move that succeeds, and the cartridge that a move loses
  when its destination is refused.
\<close>

section \<open>The library\<close>

record element =
  el_address :: element_address
  el_tape :: "virtual_tape option"

definition element_new :: "element_address \<Rightarrow> element" where
  "element_new a = \<lparr>el_address = a, el_tape = None\<rparr>"

definition element_barcode :: "element \<Rightarrow> tape_barcode option" where
  "element_barcode e = map_option vt_barcode (el_tape e)"

record vtl =
  vtl_slots :: "element list"
  vtl_drives :: "element list"

type_synonym 'a vtl_result = "(vtl_error + 'a) \<times> vtl"

definition vtl_new :: "u32 \<Rightarrow> u32 \<Rightarrow> vtl" where
  "vtl_new slot_count drive_count =
     \<lparr>vtl_slots = map (\<lambda>i. element_new (slot_address (of_nat i))) [1 ..< unat slot_count + 1],
      vtl_drives = map (\<lambda>i. element_new (drive_address (of_nat i))) [0 ..< unat drive_count]\<rparr>"

definition find_element :: "element_address \<Rightarrow> element list \<Rightarrow> element option" where
  "find_element a es = List.find (\<lambda>e. el_address e = a) es"

fun update_element :: "element_address \<Rightarrow> (element \<Rightarrow> element) \<Rightarrow> element list \<Rightarrow> element list" where
  "update_element a f [] = []"
| "update_element a f (e # es) = (if el_address e = a then f e # es else e # update_element a f es)"

definition ensure_slot :: "vtl \<Rightarrow> element_address \<Rightarrow> vtl_error + unit" where
  "ensure_slot lib a =
     (if ea_kind a \<noteq> Slot then Inl (WrongElement ''slot'' (display_address a))
      else if ea_index a = 0 \<or> unat (ea_index a) > length (vtl_slots lib)
      then Inl (SlotOutOfRange (ea_index a))
      else Inr ())"

definition ensure_drive :: "vtl \<Rightarrow> element_address \<Rightarrow> vtl_error + unit" where
  "ensure_drive lib a =
     (if ea_kind a \<noteq> Drive then Inl (WrongElement ''drive'' (display_address a))
      else if unat (ea_index a) \<ge> length (vtl_drives lib) then Inl (DriveOutOfRange (ea_index a))
      else Inr ())"

definition vtl_slot :: "vtl \<Rightarrow> element_address \<Rightarrow> vtl_error + element" where
  "vtl_slot lib a =
     (case ensure_slot lib a of
        Inl e \<Rightarrow> Inl e
      | Inr _ \<Rightarrow> (case find_element a (vtl_slots lib) of
                   None \<Rightarrow> Inl (SlotOutOfRange (ea_index a))
                 | Some s \<Rightarrow> Inr s))"

definition vtl_drive :: "vtl \<Rightarrow> element_address \<Rightarrow> vtl_error + element" where
  "vtl_drive lib a =
     (case ensure_drive lib a of
        Inl e \<Rightarrow> Inl e
      | Inr _ \<Rightarrow> (case find_element a (vtl_drives lib) of
                   None \<Rightarrow> Inl (DriveOutOfRange (ea_index a))
                 | Some d \<Rightarrow> Inr d))"

abbreviation update_slot :: "element_address \<Rightarrow> (element \<Rightarrow> element) \<Rightarrow> vtl \<Rightarrow> vtl" where
  "update_slot a f lib \<equiv> lib\<lparr>vtl_slots := update_element a f (vtl_slots lib)\<rparr>"

abbreviation update_drive :: "element_address \<Rightarrow> (element \<Rightarrow> element) \<Rightarrow> vtl \<Rightarrow> vtl" where
  "update_drive a f lib \<equiv> lib\<lparr>vtl_drives := update_element a f (vtl_drives lib)\<rparr>"

definition take_from_slot :: "element_address \<Rightarrow> vtl \<Rightarrow> virtual_tape vtl_result" where
  "take_from_slot a lib =
     (case vtl_slot lib a of
        Inl e \<Rightarrow> (Inl e, lib)
      | Inr s \<Rightarrow>
          (case el_tape s of None \<Rightarrow> Inl (SlotEmpty (ea_index a)) | Some t \<Rightarrow> Inr t,
           update_slot a (\<lambda>s. s\<lparr>el_tape := None\<rparr>) lib))"

definition put_into_slot :: "element_address \<Rightarrow> virtual_tape \<Rightarrow> vtl \<Rightarrow> unit vtl_result" where
  "put_into_slot a t lib =
     (case vtl_slot lib a of
        Inl e \<Rightarrow> (Inl e, lib)
      | Inr s \<Rightarrow>
          if el_tape s \<noteq> None then (Inl (SlotOccupied (ea_index a)), lib)
          else (Inr (), update_slot a (\<lambda>s. s\<lparr>el_tape := Some t\<rparr>) lib))"

definition take_from_drive :: "element_address \<Rightarrow> vtl \<Rightarrow> virtual_tape vtl_result" where
  "take_from_drive a lib =
     (case vtl_drive lib a of
        Inl e \<Rightarrow> (Inl e, lib)
      | Inr d \<Rightarrow>
          (case el_tape d of None \<Rightarrow> Inl (DriveEmpty (ea_index a)) | Some t \<Rightarrow> Inr t,
           update_drive a (\<lambda>d. d\<lparr>el_tape := None\<rparr>) lib))"

definition put_into_drive :: "element_address \<Rightarrow> virtual_tape \<Rightarrow> vtl \<Rightarrow> unit vtl_result" where
  "put_into_drive a t lib =
     (case vtl_drive lib a of
        Inl e \<Rightarrow> (Inl e, lib)
      | Inr d \<Rightarrow>
          if el_tape d \<noteq> None then (Inl (DriveOccupied (ea_index a)), lib)
          else (Inr (), update_drive a (\<lambda>d. d\<lparr>el_tape := Some t\<rparr>) lib))"

definition loaded_tape :: "vtl \<Rightarrow> element_address \<Rightarrow> vtl_error + virtual_tape" where
  "loaded_tape lib a =
     (case vtl_drive lib a of
        Inl e \<Rightarrow> Inl e
      | Inr d \<Rightarrow> (case el_tape d of None \<Rightarrow> Inl (DriveEmpty (ea_index a)) | Some t \<Rightarrow> Inr t))"

definition set_loaded_tape :: "element_address \<Rightarrow> virtual_tape \<Rightarrow> vtl \<Rightarrow> vtl" where
  "set_loaded_tape a t lib = update_drive a (\<lambda>d. d\<lparr>el_tape := Some t\<rparr>) lib"

section \<open>The medium changer and the drives\<close>

definition insert_tape :: "element_address \<Rightarrow> tape_barcode \<Rightarrow> vtl \<Rightarrow> unit vtl_result" where
  "insert_tape a b lib = put_into_slot a (virtual_tape_new b) lib"

definition move_medium :: "element_address \<Rightarrow> element_address \<Rightarrow> vtl \<Rightarrow> unit vtl_result" where
  "move_medium src dst lib =
     (case (ea_kind src, ea_kind dst) of
        (Slot, Slot) \<Rightarrow>
          (case take_from_slot src lib of
             (Inl e, lib1) \<Rightarrow> (Inl e, lib1)
           | (Inr t, lib1) \<Rightarrow> put_into_slot dst t lib1)
      | (Slot, Drive) \<Rightarrow>
          (case take_from_slot src lib of
             (Inl e, lib1) \<Rightarrow> (Inl e, lib1)
           | (Inr t, lib1) \<Rightarrow> put_into_drive dst t lib1)
      | (Drive, Slot) \<Rightarrow>
          (case take_from_drive src lib of
             (Inl e, lib1) \<Rightarrow> (Inl e, lib1)
           | (Inr t, lib1) \<Rightarrow> put_into_slot dst t lib1)
      | (Drive, Drive) \<Rightarrow>
          (case take_from_drive src lib of
             (Inl e, lib1) \<Rightarrow> (Inl e, lib1)
           | (Inr t, lib1) \<Rightarrow> put_into_drive dst t lib1)
      | _ \<Rightarrow>
          (Inl (InvalidElementAddress
             (''unsupported move from '' @ display_address src @ '' to '' @ display_address dst)), lib))"

definition vtl_load :: "element_address \<Rightarrow> element_address \<Rightarrow> vtl \<Rightarrow> unit vtl_result" where
  "vtl_load slot drive lib = move_medium slot drive lib"

definition vtl_unload :: "element_address \<Rightarrow> element_address \<Rightarrow> vtl \<Rightarrow> unit vtl_result" where
  "vtl_unload drive slot lib = move_medium drive slot lib"

definition vtl_rewind :: "element_address \<Rightarrow> vtl \<Rightarrow> unit vtl_result" where
  "vtl_rewind a lib =
     (case loaded_tape lib a of
        Inl e \<Rightarrow> (Inl e, lib)
      | Inr t \<Rightarrow> (Inr (), set_loaded_tape a (tape_rewind t) lib))"

definition vtl_seek_filemark :: "element_address \<Rightarrow> u32 \<Rightarrow> vtl \<Rightarrow> unit vtl_result" where
  "vtl_seek_filemark a n lib =
     (case loaded_tape lib a of
        Inl e \<Rightarrow> (Inl e, lib)
      | Inr t \<Rightarrow>
          (let (found, t') = tape_seek_filemark t n
           in (if found then Inr () else Inl FilemarkNotFound, set_loaded_tape a t' lib)))"

definition vtl_write_filemark :: "element_address \<Rightarrow> vtl \<Rightarrow> unit vtl_result" where
  "vtl_write_filemark a lib =
     (case loaded_tape lib a of
        Inl e \<Rightarrow> (Inl e, lib)
      | Inr t \<Rightarrow> (Inr (), set_loaded_tape a (append_filemark t) lib))"

definition vtl_write :: "element_address \<Rightarrow> bytes \<Rightarrow> vtl \<Rightarrow> unit vtl_result" where
  "vtl_write a data lib =
     (case loaded_tape lib a of
        Inl e \<Rightarrow> (Inl e, lib)
      | Inr t \<Rightarrow> (Inr (), set_loaded_tape a (append_data t data) lib))"

text \<open>\<open>None\<close> is the panic of a read whose bound overflows.\<close>

definition vtl_read :: "element_address \<Rightarrow> usize \<Rightarrow> vtl \<Rightarrow> bytes vtl_result option" where
  "vtl_read a max_len lib =
     (case loaded_tape lib a of
        Inl e \<Rightarrow> Some (Inl e, lib)
      | Inr t \<Rightarrow>
          (case tape_read t max_len of
             None \<Rightarrow> None
           | Some (out, t') \<Rightarrow> Some (Inr out, set_loaded_tape a t' lib)))"

section \<open>Elements\<close>

lemma find_element_simps [simp]:
  "find_element a [] = None"
  "find_element a (e # es) = (if el_address e = a then Some e else find_element a es)"
  by (simp_all add: find_element_def)

lemma find_element_SomeD: "find_element a es = Some e \<Longrightarrow> e \<in> set es \<and> el_address e = a"
  by (induction es) (auto split: if_splits)

lemma find_update_element [simp]:
  assumes "\<And>e. el_address (f e) = el_address e"
  shows "find_element b (update_element a f es) =
    (if b = a then map_option f (find_element b es) else find_element b es)"
  using assms by (induction es) auto

lemma update_element_addresses [simp]:
  assumes "\<And>e. el_address (f e) = el_address e"
  shows "map el_address (update_element a f es) = map el_address es"
  using assms by (induction es) auto

lemma length_update_element [simp]: "length (update_element a f es) = length es"
  by (induction es) auto

lemma set_update_element:
  assumes "find_element a es = Some e"
  shows "set (update_element a f es) \<subseteq> insert (f e) (set es)"
  using assms by (induction es) (auto split: if_splits)

lemma find_element_nth:
  assumes "distinct (map el_address es)" and "i < length es"
  shows "find_element (el_address (es ! i)) es = Some (es ! i)"
  using assms
proof (induction es arbitrary: i)
  case (Cons e es)
  then show ?case by (cases i) auto
qed simp

text \<open>The cartridges in a list of elements.\<close>

fun opt_mset :: "'a option \<Rightarrow> 'a multiset" where
  "opt_mset None = {#}"
| "opt_mset (Some x) = {#x#}"

primrec tapes_of :: "element list \<Rightarrow> virtual_tape multiset" where
  "tapes_of [] = {#}"
| "tapes_of (e # es) = opt_mset (el_tape e) + tapes_of es"

lemma tapes_of_update:
  assumes "find_element a es = Some e"
  shows "tapes_of (update_element a (\<lambda>e. e\<lparr>el_tape := t\<rparr>) es) + opt_mset (el_tape e) =
    tapes_of es + opt_mset t"
  using assms
proof (induction es)
  case (Cons x es)
  then show ?case by (cases "el_address x = a") (auto simp: ac_simps)
qed simp

definition cartridges :: "vtl \<Rightarrow> virtual_tape multiset" where
  "cartridges lib = tapes_of (vtl_slots lib) + tapes_of (vtl_drives lib)"

section \<open>The invariant of the library\<close>

definition wf_vtl :: "vtl \<Rightarrow> bool" where
  "wf_vtl lib \<longleftrightarrow>
     (\<forall>i < length (vtl_slots lib). el_address (vtl_slots lib ! i) = slot_address (of_nat (i + 1))) \<and>
     length (vtl_slots lib) < 2 ^ 32 \<and>
     (\<forall>i < length (vtl_drives lib). el_address (vtl_drives lib ! i) = drive_address (of_nat i)) \<and>
     length (vtl_drives lib) < 2 ^ 32 \<and>
     (\<forall>e \<in> set (vtl_slots lib) \<union> set (vtl_drives lib). \<forall>t. el_tape e = Some t \<longrightarrow> wf_tape t)"

lemma wf_vtl_new [wf_intros]: "wf_vtl (vtl_new n m)"
  unfolding wf_vtl_def vtl_new_def
  using unat_u32_less [of n] unat_u32_less [of m]
  by (auto simp: element_new_def nth_append simp del: upt_Suc)

lemma unat_of_nat_u32: "i < 2 ^ 32 \<Longrightarrow> unat (of_nat i :: u32) = i"
  by (simp add: unat_of_nat)

lemma of_nat_u32_inject: "i < 2 ^ 32 \<Longrightarrow> j < 2 ^ 32 \<Longrightarrow> (of_nat i :: u32) = of_nat j \<longleftrightarrow> i = j"
  by (metis unat_of_nat_u32)

lemma wf_vtl_distinct:
  assumes "wf_vtl lib"
  shows "distinct (map el_address (vtl_slots lib))" and "distinct (map el_address (vtl_drives lib))"
proof -
  have "i = j" if "slot_address (of_nat (i + 1)) = slot_address (of_nat (j + 1))"
    "i < length (vtl_slots lib)" "j < length (vtl_slots lib)" for i j
    using that assms of_nat_u32_inject [of "i + 1" "j + 1"] by (simp add: slot_address_def wf_vtl_def)
  then show "distinct (map el_address (vtl_slots lib))"
    using assms by (auto simp: distinct_conv_nth wf_vtl_def simp del: of_nat_add of_nat_Suc)
  have "i = j" if "drive_address (of_nat i) = drive_address (of_nat j)"
    "i < length (vtl_drives lib)" "j < length (vtl_drives lib)" for i j
    using that assms of_nat_u32_inject [of i j] by (simp add: drive_address_def wf_vtl_def)
  then show "distinct (map el_address (vtl_drives lib))"
    using assms by (auto simp: distinct_conv_nth wf_vtl_def)
qed

text \<open>In a library of that shape a lookup is an index: no address in range is ever missing.\<close>

lemma vtl_slot_wf:
  assumes "wf_vtl lib"
  shows "vtl_slot lib (slot_address i) =
    (if i = 0 \<or> unat i > length (vtl_slots lib) then Inl (SlotOutOfRange i)
     else Inr (vtl_slots lib ! (unat i - 1)))"
proof (cases "i = 0 \<or> unat i > length (vtl_slots lib)")
  case False
  then have "unat i - 1 < length (vtl_slots lib)" "of_nat (unat i - 1 + 1) = i"
    using unat_gt_0 [of i] by (linarith, simp)
  then have "find_element (slot_address i) (vtl_slots lib) = Some (vtl_slots lib ! (unat i - 1))"
    using find_element_nth [OF wf_vtl_distinct(1) [OF assms], of "unat i - 1"] assms
    by (simp add: wf_vtl_def)
  with False show ?thesis by (simp add: vtl_slot_def ensure_slot_def slot_address_def)
qed (auto simp: vtl_slot_def ensure_slot_def slot_address_def)

lemma vtl_drive_wf:
  assumes "wf_vtl lib"
  shows "vtl_drive lib (drive_address i) =
    (if unat i < length (vtl_drives lib) then Inr (vtl_drives lib ! unat i) else Inl (DriveOutOfRange i))"
proof (cases "unat i < length (vtl_drives lib)")
  case True
  then have "find_element (drive_address i) (vtl_drives lib) = Some (vtl_drives lib ! unat i)"
    using find_element_nth [OF wf_vtl_distinct(2) [OF assms] True] assms by (simp add: wf_vtl_def)
  with True show ?thesis by (simp add: vtl_drive_def ensure_drive_def drive_address_def)
qed (simp add: vtl_drive_def ensure_drive_def drive_address_def)

lemma vtl_slotD: "vtl_slot lib a = Inr e \<Longrightarrow> find_element a (vtl_slots lib) = Some e \<and> ea_kind a = Slot"
  by (auto simp: vtl_slot_def ensure_slot_def split: sum.splits option.splits if_splits)

lemma vtl_driveD: "vtl_drive lib a = Inr e \<Longrightarrow> find_element a (vtl_drives lib) = Some e \<and> ea_kind a = Drive"
  by (auto simp: vtl_drive_def ensure_drive_def split: sum.splits option.splits if_splits)

lemma nth_el_address_update:
  assumes "\<And>e. el_address (f e) = el_address e" and "i < length es"
  shows "el_address (update_element a f es ! i) = el_address (es ! i)"
  using update_element_addresses [of f a es] assms by (metis length_update_element nth_map)

lemma wf_update_slot:
  assumes "wf_vtl lib" and "find_element a (vtl_slots lib) = Some e"
    and "\<And>t. x = Some t \<Longrightarrow> wf_tape t"
  shows "wf_vtl (update_slot a (\<lambda>e. e\<lparr>el_tape := x\<rparr>) lib)"
  using assms(1,3) set_update_element [OF assms(2), of "\<lambda>e. e\<lparr>el_tape := x\<rparr>"]
  by (fastforce simp: wf_vtl_def nth_el_address_update)

lemma wf_update_drive:
  assumes "wf_vtl lib" and "find_element a (vtl_drives lib) = Some e"
    and "\<And>t. x = Some t \<Longrightarrow> wf_tape t"
  shows "wf_vtl (update_drive a (\<lambda>e. e\<lparr>el_tape := x\<rparr>) lib)"
  using assms(1,3) set_update_element [OF assms(2), of "\<lambda>e. e\<lparr>el_tape := x\<rparr>"]
  by (fastforce simp: wf_vtl_def nth_el_address_update)

lemma wf_vtl_slot_tape:
  "wf_vtl lib \<Longrightarrow> find_element a (vtl_slots lib) = Some e \<Longrightarrow> el_tape e = Some t \<Longrightarrow> wf_tape t"
  by (auto simp: wf_vtl_def dest: find_element_SomeD)

lemma wf_vtl_drive_tape:
  "wf_vtl lib \<Longrightarrow> find_element a (vtl_drives lib) = Some e \<Longrightarrow> el_tape e = Some t \<Longrightarrow> wf_tape t"
  by (auto simp: wf_vtl_def dest: find_element_SomeD)

lemma loaded_tapeD:
  "loaded_tape lib a = Inr t \<Longrightarrow>
     \<exists>e. find_element a (vtl_drives lib) = Some e \<and> el_tape e = Some t \<and> ea_kind a = Drive"
  by (auto simp: loaded_tape_def dest!: vtl_driveD split: sum.splits option.splits)

lemma wf_set_loaded_tape:
  assumes "wf_vtl lib" and "loaded_tape lib a = Inr t" and "wf_tape t'"
  shows "wf_vtl (set_loaded_tape a t' lib)"
  using wf_update_drive [of lib a _ "Some t'"] assms loaded_tapeD [OF assms(2)]
  by (auto simp: set_loaded_tape_def)

lemma wf_loaded_tape: "wf_vtl lib \<Longrightarrow> loaded_tape lib a = Inr t \<Longrightarrow> wf_tape t"
  using loaded_tapeD [of lib a t] wf_vtl_drive_tape by blast

text \<open>Reading a drive back after its tape was replaced.\<close>

lemma loaded_set_loaded_tape [simp]:
  assumes "loaded_tape lib a = Inr t"
  shows "loaded_tape (set_loaded_tape a t' lib) b = (if b = a then Inr t' else loaded_tape lib b)"
  using assms
  by (auto simp: loaded_tape_def set_loaded_tape_def vtl_drive_def ensure_drive_def
      split: sum.splits option.splits if_splits)

section \<open>Moving cartridges\<close>

text \<open>Taking and putting, against the cartridges of the library and its invariant.\<close>

lemma take_from_slot_cases:
  "take_from_slot a lib = (Inr t, lib') \<Longrightarrow> cartridges lib = add_mset t (cartridges lib')"
  "take_from_slot a lib = (Inl e, lib') \<Longrightarrow> cartridges lib' = cartridges lib"
  by (auto simp: take_from_slot_def cartridges_def split: sum.splits option.splits
      dest!: vtl_slotD dest: tapes_of_update [where t = None])

lemma take_from_drive_cases:
  "take_from_drive a lib = (Inr t, lib') \<Longrightarrow> cartridges lib = add_mset t (cartridges lib')"
  "take_from_drive a lib = (Inl e, lib') \<Longrightarrow> cartridges lib' = cartridges lib"
  by (auto simp: take_from_drive_def cartridges_def split: sum.splits option.splits
      dest!: vtl_driveD dest: tapes_of_update [where t = None])

lemma put_into_slot_cases:
  "put_into_slot a t lib = (Inr u, lib') \<Longrightarrow> cartridges lib' = add_mset t (cartridges lib)"
  "put_into_slot a t lib = (Inl e, lib') \<Longrightarrow> lib' = lib"
  by (auto simp: put_into_slot_def cartridges_def split: sum.splits if_splits
      dest!: vtl_slotD dest: tapes_of_update [where t = "Some t"])

lemma put_into_drive_cases:
  "put_into_drive a t lib = (Inr u, lib') \<Longrightarrow> cartridges lib' = add_mset t (cartridges lib)"
  "put_into_drive a t lib = (Inl e, lib') \<Longrightarrow> lib' = lib"
  by (auto simp: put_into_drive_def cartridges_def split: sum.splits if_splits
      dest!: vtl_driveD dest: tapes_of_update [where t = "Some t"])

lemmas move_cases = take_from_slot_cases take_from_drive_cases put_into_slot_cases put_into_drive_cases

lemma wf_take_from_slot:
  assumes "wf_vtl lib" and "take_from_slot a lib = (r, lib')"
  shows "wf_vtl lib' \<and> (\<forall>t. r = Inr t \<longrightarrow> wf_tape t)"
  using assms
  by (auto simp: take_from_slot_def split: sum.splits option.splits
      dest!: vtl_slotD intro: wf_update_slot [where x = None] wf_vtl_slot_tape)

lemma wf_take_from_drive:
  assumes "wf_vtl lib" and "take_from_drive a lib = (r, lib')"
  shows "wf_vtl lib' \<and> (\<forall>t. r = Inr t \<longrightarrow> wf_tape t)"
  using assms
  by (auto simp: take_from_drive_def split: sum.splits option.splits
      dest!: vtl_driveD intro: wf_update_drive [where x = None] wf_vtl_drive_tape)

lemma wf_put_into_slot [wf_intros]:
  "wf_vtl lib \<Longrightarrow> wf_tape t \<Longrightarrow> wf_vtl (snd (put_into_slot a t lib))"
  by (auto simp: put_into_slot_def split: sum.splits dest!: vtl_slotD
      intro: wf_update_slot [where x = "Some t"])

lemma wf_put_into_drive [wf_intros]:
  "wf_vtl lib \<Longrightarrow> wf_tape t \<Longrightarrow> wf_vtl (snd (put_into_drive a t lib))"
  by (auto simp: put_into_drive_def split: sum.splits dest!: vtl_driveD
      intro: wf_update_drive [where x = "Some t"])

lemma wf_insert_tape [wf_intros]: "wf_vtl lib \<Longrightarrow> wf_vtl (snd (insert_tape a b lib))"
  by (simp add: insert_tape_def wf_intros)

lemma wf_move_medium [wf_intros]: "wf_vtl lib \<Longrightarrow> wf_vtl (snd (move_medium src dst lib))"
  by (auto simp: move_medium_def split: element_kind.splits sum.splits prod.splits
      dest: wf_take_from_slot wf_take_from_drive intro!: wf_put_into_slot wf_put_into_drive)

lemma wf_vtl_rewind [wf_intros]: "wf_vtl lib \<Longrightarrow> wf_vtl (snd (vtl_rewind a lib))"
  by (auto simp: vtl_rewind_def split: sum.splits intro: wf_set_loaded_tape wf_tape_rewind)

lemma wf_vtl_seek_filemark [wf_intros]: "wf_vtl lib \<Longrightarrow> wf_vtl (snd (vtl_seek_filemark a n lib))"
  by (auto simp: vtl_seek_filemark_def case_prod_beta split: sum.splits
      intro: wf_set_loaded_tape wf_tape_seek wf_loaded_tape)

lemma wf_vtl_write_filemark [wf_intros]: "wf_vtl lib \<Longrightarrow> wf_vtl (snd (vtl_write_filemark a lib))"
  by (auto simp: vtl_write_filemark_def split: sum.splits intro: wf_set_loaded_tape wf_append_filemark)

lemma wf_vtl_write [wf_intros]: "wf_vtl lib \<Longrightarrow> wf_vtl (snd (vtl_write a d lib))"
  by (auto simp: vtl_write_def split: sum.splits intro: wf_set_loaded_tape wf_append_data)

lemma wf_vtl_read: "wf_vtl lib \<Longrightarrow> vtl_read a m lib = Some (r, lib') \<Longrightarrow> wf_vtl lib'"
  by (auto simp: vtl_read_def split: sum.splits option.splits
      intro!: wf_set_loaded_tape intro: wf_tape_read [OF wf_loaded_tape])

text \<open>The commands of the library as a step relation, and the libraries they reach.\<close>

inductive vtl_step :: "vtl \<Rightarrow> vtl \<Rightarrow> bool" where
  "vtl_step lib (snd (insert_tape a b lib))"
| "vtl_step lib (snd (move_medium a b lib))"
| "vtl_step lib (snd (vtl_rewind a lib))"
| "vtl_step lib (snd (vtl_seek_filemark a n lib))"
| "vtl_step lib (snd (vtl_write_filemark a lib))"
| "vtl_step lib (snd (vtl_write a d lib))"
| "vtl_read a m lib = Some (r, lib') \<Longrightarrow> vtl_step lib lib'"

lemma vtl_step_wf: "vtl_step lib lib' \<Longrightarrow> wf_vtl lib \<Longrightarrow> wf_vtl lib'"
  by (induction rule: vtl_step.induct) (auto intro: wf_intros wf_vtl_read)

section \<open>The drive commands act on the loaded tape\<close>

text \<open>
  What a client of the \<open>TapeDrive\<close> trait relies on: \<open>tape\<close> gives the cartridge loaded in
  a drive, and each command changes that cartridge as the tape operation does, and no other.
\<close>

locale tape_drive =
  fixes tape :: "'s \<Rightarrow> element_address \<Rightarrow> virtual_tape option"
    and rewind :: "element_address \<Rightarrow> 's \<Rightarrow> ('e + unit) \<times> 's"
    and seek :: "element_address \<Rightarrow> u32 \<Rightarrow> 's \<Rightarrow> ('e + unit) \<times> 's"
    and write_filemark :: "element_address \<Rightarrow> 's \<Rightarrow> ('e + unit) \<times> 's"
    and write_data :: "element_address \<Rightarrow> bytes \<Rightarrow> 's \<Rightarrow> ('e + unit) \<times> 's"
    and read :: "element_address \<Rightarrow> usize \<Rightarrow> 's \<Rightarrow> (('e + bytes) \<times> 's) option"
  assumes rewind_law: "tape s a = Some t \<Longrightarrow>
      \<exists>s'. rewind a s = (Inr (), s') \<and> tape s' = (tape s)(a \<mapsto> tape_rewind t)"
    and seek_law: "tape s a = Some t \<Longrightarrow> tape_seek_filemark t n = (True, t') \<Longrightarrow>
      \<exists>s'. seek a n s = (Inr (), s') \<and> tape s' = (tape s)(a \<mapsto> t')"
    and write_filemark_law: "tape s a = Some t \<Longrightarrow>
      \<exists>s'. write_filemark a s = (Inr (), s') \<and> tape s' = (tape s)(a \<mapsto> append_filemark t)"
    and write_data_law: "tape s a = Some t \<Longrightarrow>
      \<exists>s'. write_data a d s = (Inr (), s') \<and> tape s' = (tape s)(a \<mapsto> append_data t d)"
    and read_law: "tape s a = Some t \<Longrightarrow> tape_read t m = Some (out, t') \<Longrightarrow>
      \<exists>s'. read a m s = Some (Inr out, s') \<and> tape s' = (tape s)(a \<mapsto> t')"
begin

text \<open>Writing a bundle and its filemark behind the bundles of a tape whose cursor is at the end.\<close>

lemma write_bundle_appends:
  assumes "tape s a = Some t" and "vt_records t = bundle_records ds"
    and "record_index (vt_cursor t) = length (vt_records t)"
  shows "\<exists>s1 s2 t'. write_data a d s = (Inr (), s1) \<and> write_filemark a s1 = (Inr (), s2) \<and>
     tape s2 = (tape s)(a \<mapsto> t') \<and> vt_barcode t' = vt_barcode t \<and>
     vt_records t' = bundle_records (ds @ [d]) \<and> record_index (vt_cursor t') = length (vt_records t')"
proof -
  obtain s1 where s1: "write_data a d s = (Inr (), s1)" "tape s1 = (tape s)(a \<mapsto> append_data t d)"
    using write_data_law [OF assms(1)] by blast
  obtain s2 where s2: "write_filemark a s1 = (Inr (), s2)"
    "tape s2 = (tape s1)(a \<mapsto> append_filemark (append_data t d))"
    using write_filemark_law [of s1 a "append_data t d"] s1(2) by auto
  show ?thesis
    using s1 s2 assms by (intro exI [of _ s1] exI [of _ s2]
        exI [of _ "append_filemark (append_data t d)"]) simp
qed

text \<open>Rewinding, seeking and reading return a bundle and keep the records of every tape.\<close>

lemma read_bundle_at:
  assumes "tape s a = Some t" and "vt_records t = bundle_records ds"
    and "unat n < length ds" and "m \<le> usize_MAX"
  shows "\<exists>s1 s2 s3 t'. rewind a s = (Inr (), s1) \<and>
     (if 0 < n then seek a n s1 = (Inr (), s2) else s2 = s1) \<and>
     read a m s2 = Some (Inr (take m (ds ! unat n)), s3) \<and>
     tape s3 = (tape s)(a \<mapsto> t') \<and> vt_barcode t' = vt_barcode t \<and> vt_records t' = vt_records t"
proof -
  obtain t1 t2 where t: "tape_seek_filemark (tape_rewind t) n = (True, t1)"
    "tape_read t1 m = Some (take m (ds ! unat n), t2)"
    using bundle_seek_read [OF assms(2-4)] by blast
  have fr: "vt_records t1 = vt_records t" "vt_barcode t1 = vt_barcode t"
    using tape_seek_frame [of "tape_rewind t" n] t(1) by simp_all
  obtain s1 where s1: "rewind a s = (Inr (), s1)" "tape s1 = (tape s)(a \<mapsto> tape_rewind t)"
    using rewind_law [OF assms(1)] by blast
  have at1: "tape s1 a = Some (tape_rewind t)" using s1(2) by simp
  obtain s2 where s2: "if 0 < n then seek a n s1 = (Inr (), s2) else s2 = s1"
    and t2: "tape s2 = (tape s)(a \<mapsto> t1)"
  proof (cases "0 < n")
    case True
    then show ?thesis using seek_law [OF at1 t(1)] s1(2) that by auto
  next
    case False
    then have "t1 = tape_rewind t"
      using t(1) seek_filemark_zero [of "tape_rewind t"] by (simp add: word_gt_0)
    with False show ?thesis using s1(2) that [of s1] by simp
  qed
  obtain s3 where "read a m s2 = Some (Inr (take m (ds ! unat n)), s3)" "tape s3 = (tape s2)(a \<mapsto> t2)"
    using read_law [OF _ t(2), of s2 a] t2 by auto
  then show ?thesis
    using s1 s2 t2 fr tape_read_frame [OF t(2)]
    by (intro exI [of _ s1] exI [of _ s2] exI [of _ s3] exI [of _ t2]) auto
qed

end

definition tape_in :: "vtl \<Rightarrow> element_address \<Rightarrow> virtual_tape option" where
  "tape_in lib a = (case loaded_tape lib a of Inl e \<Rightarrow> None | Inr t \<Rightarrow> Some t)"

lemma tape_in_Some: "tape_in lib a = Some t \<longleftrightarrow> loaded_tape lib a = Inr t"
  by (auto simp: tape_in_def split: sum.splits)

lemma tape_in_set [simp]:
  "loaded_tape lib a = Inr t \<Longrightarrow> tape_in (set_loaded_tape a t' lib) = (tape_in lib)(a \<mapsto> t')"
  by (auto simp: tape_in_def fun_eq_iff)

interpretation simulated_drive: tape_drive tape_in vtl_rewind vtl_seek_filemark vtl_write_filemark vtl_write vtl_read
  by unfold_locales
    (auto simp: tape_in_Some vtl_rewind_def vtl_seek_filemark_def vtl_write_filemark_def vtl_write_def vtl_read_def)

section \<open>Properties of the library\<close>

text \<open>
  However the commands of a new library are interleaved, every slot
  and drive keeps its address, the number of elements fits the 32-bit index, and the cursor
  of every cartridge stays on its tape.
\<close>

theorem vtl_reachable_wf:
  assumes "vtl_step\<^sup>*\<^sup>* (vtl_new slot_count drive_count) lib"
  shows "wf_vtl lib"
  using assms by (induction rule: rtranclp_induct) (auto intro: wf_vtl_new vtl_step_wf)

theorem vtl_reachable_wf_witness:
  "vtl_step\<^sup>*\<^sup>* (vtl_new 2 1) (snd (insert_tape (slot_address 1) (TapeBarcode ''A'') (vtl_new 2 1))) \<and>
   wf_vtl (snd (insert_tape (slot_address 1) (TapeBarcode ''A'') (vtl_new 2 1)))"
  using vtl_reachable_wf [of 2 1] by (auto intro: vtl_step.intros)

text \<open>
  C11 (safety). A move of the medium changer that succeeds neither loses nor duplicates
  a cartridge: the library holds the same tapes before and after, contents included.
\<close>

theorem move_medium_conserves:
  assumes "move_medium src dst lib = (Inr (), lib')"
  shows "cartridges lib' = cartridges lib"
  using assms
  by (auto simp: move_medium_def split: element_kind.splits sum.splits prod.splits dest!: move_cases)

definition demo_library :: vtl where
  "demo_library =
     snd (insert_tape (slot_address 2) (TapeBarcode ''B'')
       (snd (vtl_load (slot_address 1) (drive_address 0)
         (snd (insert_tape (slot_address 1) (TapeBarcode ''A'') (vtl_new 2 1))))))"

lemma demo_library_eq:
  "demo_library =
     \<lparr>vtl_slots = [\<lparr>el_address = slot_address 1, el_tape = None\<rparr>,
                   \<lparr>el_address = slot_address 2, el_tape = Some (virtual_tape_new (TapeBarcode ''B''))\<rparr>],
      vtl_drives = [\<lparr>el_address = drive_address 0, el_tape = Some (virtual_tape_new (TapeBarcode ''A''))\<rparr>]\<rparr>"
  by (simp add: demo_library_def vtl_new_def element_new_def insert_tape_def vtl_load_def move_medium_def
      take_from_slot_def put_into_slot_def put_into_drive_def vtl_slot_def vtl_drive_def ensure_slot_def
      ensure_drive_def slot_address_def drive_address_def upt_rec)

theorem move_medium_conserves_witness:
  "fst (move_medium (slot_address 2) (slot_address 1) demo_library) = Inr () \<and>
   cartridges (snd (move_medium (slot_address 2) (slot_address 1) demo_library)) = cartridges demo_library"
proof -
  have "fst (move_medium (slot_address 2) (slot_address 1) demo_library) = Inr ()"
    by (simp add: demo_library_eq move_medium_def take_from_slot_def put_into_slot_def vtl_slot_def
        ensure_slot_def slot_address_def)
  then show ?thesis
    using move_medium_conserves [of "slot_address 2" "slot_address 1" demo_library]
    by (metis prod.collapse)
qed

text \<open>
  Loading a cartridge into a drive that is occupied reports the drive as
  occupied, but the cartridge has already been taken out of its slot: the slot is left empty
  and the cartridge is in no element of the library any more.
\<close>

theorem load_into_occupied_drive_loses_tape:
  assumes "vtl_slot lib slot = Inr s" and "el_tape s = Some t"
    and "vtl_drive lib drive = Inr d" and "el_tape d \<noteq> None"
  shows "fst (vtl_load slot drive lib) = Inl (DriveOccupied (ea_index drive)) \<and>
     cartridges lib = add_mset t (cartridges (snd (vtl_load slot drive lib)))"
proof -
  define lib1 where "lib1 = update_slot slot (\<lambda>s. s\<lparr>el_tape := None\<rparr>) lib"
  have take: "take_from_slot slot lib = (Inr t, lib1)"
    using assms(1,2) by (simp add: take_from_slot_def lib1_def)
  have "vtl_drive lib1 drive = Inr d"
    using assms(3) by (auto simp: lib1_def vtl_drive_def ensure_drive_def split: if_splits)
  with assms(4) have "put_into_drive drive t lib1 = (Inl (DriveOccupied (ea_index drive)), lib1)"
    by (simp add: put_into_drive_def)
  moreover have "ea_kind slot = Slot" "ea_kind drive = Drive"
    using vtl_slotD [OF assms(1)] vtl_driveD [OF assms(3)] by simp_all
  ultimately show ?thesis
    using take take_from_slot_cases(1) [OF take] by (simp add: vtl_load_def move_medium_def)
qed

theorem load_into_occupied_drive_loses_tape_witness:
  "fst (vtl_load (slot_address 2) (drive_address 0) demo_library) = Inl (DriveOccupied 0) \<and>
   cartridges demo_library =
     add_mset (virtual_tape_new (TapeBarcode ''B''))
       (cartridges (snd (vtl_load (slot_address 2) (drive_address 0) demo_library)))"
  using load_into_occupied_drive_loses_tape [of demo_library "slot_address 2"
      "\<lparr>el_address = slot_address 2, el_tape = Some (virtual_tape_new (TapeBarcode ''B''))\<rparr>"
      "virtual_tape_new (TapeBarcode ''B'')" "drive_address 0"
      "\<lparr>el_address = drive_address 0, el_tape = Some (virtual_tape_new (TapeBarcode ''A''))\<rparr>"]
  by (simp add: demo_library_eq vtl_slot_def vtl_drive_def ensure_slot_def ensure_drive_def
      slot_address_def drive_address_def)

end
