(* ===== verification/Tape_Service.thy ===== *)
theory Tape_Service
  imports Vtl_Simulator Common_Proto Config
begin

text \<open>
  The tape worker (\<open>crates/tape/src/service.rs\<close>): the simulator backend behind its mutex,
  every operation of the \<open>TapeBackend\<close> trait, and the gRPC handlers on top of the trait.

  A backend call returns \<open>None\<close> when it panics, with the mutex poisoned, and otherwise
  \<open>Some\<close> of its result; \<open>with_lock\<close> is the lock. The trait object is the record
  \<open>tape_backend\<close> of its functions over any backend type, and the handlers take it as an
  argument, as \<open>Arc<dyn TapeBackend>\<close>; \<open>simulator_backend\<close> is the one the program has. The
  filemark counters are 32 bits wide and wrap.

  The lemmas show that no call of a well-formed backend panics, that drives are held
  exclusively, what each operation does on every branch, and that a bundle written to the
  end of a tape is read back, byte for byte, by its filemark.
\<close>

section \<open>Identifiers and errors\<close>

definition parse_slot_id :: "string \<Rightarrow> element_address result" where
  "parse_slot_id slot_id =
     (let raw = (case strip_prefix ''slot-'' slot_id of None \<Rightarrow> slot_id | Some r \<Rightarrow> r)
      in case parse_u32 raw of
           None \<Rightarrow> Inl (Status InvalidArgument (''invalid slot id: '' @ slot_id))
         | Some i \<Rightarrow>
             if i = 0 then Inl (Status InvalidArgument ''slot ids are 1-based'')
             else Inr (slot_address i))"

definition parse_drive_id :: "string \<Rightarrow> element_address result" where
  "parse_drive_id drive_id =
     (let raw = (case strip_prefix ''drive-'' drive_id of None \<Rightarrow> drive_id | Some r \<Rightarrow> r)
      in case parse_u32 raw of
           None \<Rightarrow> Inl (Status InvalidArgument (''invalid drive id: '' @ drive_id))
         | Some i \<Rightarrow> Inr (drive_address i))"

definition slot_id_string :: "u32 \<Rightarrow> string" where
  "slot_id_string i = ''slot-'' @ show_word i"

definition drive_id_string :: "u32 \<Rightarrow> string" where
  "drive_id_string i = ''drive-'' @ show_word i"

definition vtl_status :: "vtl_error \<Rightarrow> status" where
  "vtl_status e =
     (case e of
        SlotEmpty _ \<Rightarrow> Status FailedPrecondition (display_vtl_error e)
      | SlotOccupied _ \<Rightarrow> Status FailedPrecondition (display_vtl_error e)
      | DriveEmpty _ \<Rightarrow> Status FailedPrecondition (display_vtl_error e)
      | DriveOccupied _ \<Rightarrow> Status FailedPrecondition (display_vtl_error e)
      | FilemarkNotFound \<Rightarrow> Status FailedPrecondition (display_vtl_error e)
      | SlotOutOfRange _ \<Rightarrow> Status InvalidArgument (display_vtl_error e)
      | DriveOutOfRange _ \<Rightarrow> Status InvalidArgument (display_vtl_error e)
      | WrongElement _ _ \<Rightarrow> Status InvalidArgument (display_vtl_error e)
      | InvalidLsscsiLine _ \<Rightarrow> Status InvalidArgument (display_vtl_error e)
      | InvalidElementAddress _ \<Rightarrow> Status InvalidArgument (display_vtl_error e)
      | CommandFailed _ _ _ \<Rightarrow> Status Unavailable (display_vtl_error e)
      | Io _ \<Rightarrow> Status Unavailable (display_vtl_error e))"

definition vtl_map_err :: "vtl_error + 'a \<Rightarrow> 'a result" where
  "vtl_map_err r = (case r of Inl e \<Rightarrow> Inl (vtl_status e) | Inr x \<Rightarrow> Inr x)"

definition element_tape_id :: "element \<Rightarrow> string option" where
  "element_tape_id e = map_option as_str (element_barcode e)"

section \<open>The simulator state\<close>

record simulator_state =
  ss_library :: vtl
  ss_acquired :: "bool list"
  ss_next_filemark :: "u32 list"

definition simulator_state_new :: "u32 \<Rightarrow> u32 \<Rightarrow> simulator_state" where
  "simulator_state_new slot_count drive_count =
     \<lparr>ss_library = vtl_new slot_count drive_count,
      ss_acquired = replicate (unat drive_count) False,
      ss_next_filemark = replicate (unat drive_count) 0\<rparr>"

definition drive_endpoint_of :: "simulator_state \<Rightarrow> u32 \<Rightarrow> drive_endpoint result" where
  "drive_endpoint_of st i =
     (case vtl_map_err (vtl_drive (ss_library st) (drive_address i)) of
        Inl e \<Rightarrow> Inl e
      | Inr drive \<Rightarrow>
          (let acquired = (if unat i < length (ss_acquired st) then ss_acquired st ! unat i else False)
           in Inr \<lparr>de_drive_id = drive_id_string i,
                   de_device_path = ''vtl://drive/'' @ show_word i,
                   de_drive_type = ''virtual-lto'',
                   de_status = drive_status_i32 (if acquired then DriveInUse else DriveIdle),
                   de_current_tape = element_tape_id drive\<rparr>))"

definition drive_index :: "simulator_state \<Rightarrow> string \<Rightarrow> u32 result" where
  "drive_index st drive_id =
     (case parse_drive_id drive_id of
        Inl e \<Rightarrow> Inl e
      | Inr a \<Rightarrow>
          (case vtl_map_err (vtl_drive (ss_library st) a) of Inl e \<Rightarrow> Inl e | Inr _ \<Rightarrow> Inr (ea_index a)))"

definition find_slot_with_tape :: "simulator_state \<Rightarrow> string \<Rightarrow> element_address result" where
  "find_slot_with_tape st tape_id =
     (case List.find (\<lambda>s. element_tape_id s = Some tape_id) (vtl_slots (ss_library st)) of
        None \<Rightarrow> Inl (Status NotFound (''tape '' @ tape_id @ '' not found in simulator slots''))
      | Some s \<Rightarrow> Inr (el_address s))"

definition find_empty_slot :: "simulator_state \<Rightarrow> element_address result" where
  "find_empty_slot st =
     (case List.find (\<lambda>s. el_tape s = None) (vtl_slots (ss_library st)) of
        None \<Rightarrow> Inl (Status FailedPrecondition ''no empty simulator slot is available'')
      | Some s \<Rightarrow> Inr (el_address s))"

section \<open>The backend behind its mutex\<close>

record simulator_tape_backend =
  sb_state :: simulator_state
  sb_poisoned :: bool

type_synonym ('b, 'a) call = "'a result option \<times> 'b"

definition with_lock ::
  "(simulator_state \<Rightarrow> ('a result \<times> simulator_state) option) \<Rightarrow>
   simulator_tape_backend \<Rightarrow> (simulator_tape_backend, 'a) call" where
  "with_lock body b =
     (if sb_poisoned b then (Some (Inl (Status Internal ''simulator tape backend mutex poisoned'')), b)
      else case body (sb_state b) of
             None \<Rightarrow> (None, b\<lparr>sb_poisoned := True\<rparr>)
           | Some (r, st) \<Rightarrow> (Some r, b\<lparr>sb_state := st\<rparr>))"

definition backend_new :: "u32 \<Rightarrow> u32 \<Rightarrow> simulator_tape_backend" where
  "backend_new slot_count drive_count =
     \<lparr>sb_state = simulator_state_new slot_count drive_count, sb_poisoned = False\<rparr>"

text \<open>A command of the library, run on the state's library.\<close>

definition on_library :: "(vtl \<Rightarrow> 'a vtl_result) \<Rightarrow> simulator_state \<Rightarrow> 'a result \<times> simulator_state" where
  "on_library f st = (let (r, lib) = f (ss_library st) in (vtl_map_err r, st\<lparr>ss_library := lib\<rparr>))"

definition backend_insert_tape ::
  "string \<Rightarrow> string \<Rightarrow> simulator_tape_backend \<Rightarrow> (simulator_tape_backend, unit) call" where
  "backend_insert_tape slot_id tape_id b =
     (case parse_slot_id slot_id of
        Inl e \<Rightarrow> (Some (Inl e), b)
      | Inr slot \<Rightarrow> with_lock (\<lambda>st. Some (on_library (insert_tape slot (TapeBarcode tape_id)) st)) b)"

fun endpoints :: "simulator_state \<Rightarrow> u32 list \<Rightarrow> drive_endpoint list result" where
  "endpoints st [] = Inr []"
| "endpoints st (i # is) =
     (case drive_endpoint_of st i of
        Inl e \<Rightarrow> Inl e
      | Inr d \<Rightarrow> (case endpoints st is of Inl e \<Rightarrow> Inl e | Inr ds \<Rightarrow> Inr (d # ds)))"

definition sim_list_drives ::
  "simulator_tape_backend \<Rightarrow> (simulator_tape_backend, drive_endpoint list) call" where
  "sim_list_drives =
     with_lock (\<lambda>st. Some (endpoints st
       (map of_nat [0 ..< unat (of_nat (length (vtl_drives (ss_library st))) :: u32)]), st))"

definition sim_get_drive_status ::
  "string \<Rightarrow> simulator_tape_backend \<Rightarrow> (simulator_tape_backend, drive_endpoint) call" where
  "sim_get_drive_status drive_id =
     with_lock (\<lambda>st. Some
       (case drive_index st drive_id of Inl e \<Rightarrow> Inl e | Inr i \<Rightarrow> drive_endpoint_of st i, st))"

subsection \<open>Holding drives\<close>

record acquire_drive_response =
  ad_drive_id :: string
  ad_current_tape :: "string option"

text \<open>
  The search for a free drive; the outer \<open>None\<close> is the panic of an index out of the
  \<open>acquired\<close> vector.
\<close>

fun find_free_drive :: "bool list \<Rightarrow> string option \<Rightarrow> element list \<Rightarrow> element option option" where
  "find_free_drive acquired required [] = Some None"
| "find_free_drive acquired required (d # ds) =
     (let i = unat (ea_index (el_address d))
      in if i \<ge> length acquired then None
         else if \<not> acquired ! i \<and> (case required of None \<Rightarrow> True | Some t \<Rightarrow> element_tape_id d = Some t)
         then Some (Some d)
         else find_free_drive acquired required ds)"

definition choose_drive :: "simulator_state \<Rightarrow> string option \<Rightarrow> string option \<Rightarrow> u32 result option" where
  "choose_drive st preferred required =
     (case preferred of
        Some p \<Rightarrow> Some (drive_index st p)
      | None \<Rightarrow>
          (case find_free_drive (ss_acquired st) required (vtl_drives (ss_library st)) of
             None \<Rightarrow> None
           | Some None \<Rightarrow> Some (Inl (Status ResourceExhausted ''no matching simulator drive is free''))
           | Some (Some d) \<Rightarrow> Some (Inr (ea_index (el_address d)))))"

definition check_required_tape :: "simulator_state \<Rightarrow> u32 \<Rightarrow> string option \<Rightarrow> unit result" where
  "check_required_tape st i required =
     (case required of
        None \<Rightarrow> Inr ()
      | Some t \<Rightarrow>
          (case vtl_map_err (vtl_drive (ss_library st) (drive_address i)) of
             Inl e \<Rightarrow> Inl e
           | Inr d \<Rightarrow>
               if element_tape_id d \<noteq> Some t
               then Inl (Status FailedPrecondition
                      (''drive '' @ drive_id_string i @ '' does not contain required tape '' @ t))
               else Inr ()))"

definition acquire_locked ::
  "string option \<Rightarrow> string option \<Rightarrow> simulator_state \<Rightarrow>
   (acquire_drive_response result \<times> simulator_state) option" where
  "acquire_locked preferred required st =
     (case choose_drive st preferred required of
        None \<Rightarrow> None
      | Some (Inl e) \<Rightarrow> Some (Inl e, st)
      | Some (Inr i) \<Rightarrow>
          if unat i \<ge> length (ss_acquired st) then None
          else if ss_acquired st ! unat i
          then Some (Inl (Status FailedPrecondition
                 (''drive '' @ drive_id_string i @ '' is already acquired'')), st)
          else (case check_required_tape st i required of
                  Inl e \<Rightarrow> Some (Inl e, st)
                | Inr _ \<Rightarrow>
                    (let st' = st\<lparr>ss_acquired := (ss_acquired st)[unat i := True]\<rparr>
                     in Some (case vtl_map_err (vtl_drive (ss_library st') (drive_address i)) of
                                Inl e \<Rightarrow> Inl e
                              | Inr d \<Rightarrow> Inr \<lparr>ad_drive_id = drive_id_string i,
                                             ad_current_tape = element_tape_id d\<rparr>, st'))))"

definition sim_acquire_drive ::
  "string option \<Rightarrow> string option \<Rightarrow> simulator_tape_backend \<Rightarrow>
   (simulator_tape_backend, acquire_drive_response) call" where
  "sim_acquire_drive preferred required = with_lock (acquire_locked preferred required)"

definition sim_release_drive ::
  "string \<Rightarrow> simulator_tape_backend \<Rightarrow> (simulator_tape_backend, unit) call" where
  "sim_release_drive drive_id =
     with_lock (\<lambda>st.
       case drive_index st drive_id of
         Inl e \<Rightarrow> Some (Inl e, st)
       | Inr i \<Rightarrow>
           if unat i \<ge> length (ss_acquired st) then None
           else Some (Inr (), st\<lparr>ss_acquired := (ss_acquired st)[unat i := False]\<rparr>))"

subsection \<open>Moving and positioning tapes\<close>

definition load_locked ::
  "string \<Rightarrow> element_address \<Rightarrow> string option \<Rightarrow> simulator_state \<Rightarrow> unit result \<times> simulator_state" where
  "load_locked tape_id drive slot_id st =
     (case vtl_map_err (vtl_drive (ss_library st) drive) of
        Inl e \<Rightarrow> (Inl e, st)
      | Inr _ \<Rightarrow>
          (case (case slot_id of Some s \<Rightarrow> parse_slot_id s | None \<Rightarrow> find_slot_with_tape st tape_id) of
             Inl e \<Rightarrow> (Inl e, st)
           | Inr slot \<Rightarrow>
               (case vtl_map_err (vtl_slot (ss_library st) slot) of
                  Inl e \<Rightarrow> (Inl e, st)
                | Inr s \<Rightarrow>
                    if element_tape_id s \<noteq> Some tape_id
                    then (Inl (Status FailedPrecondition
                            (''slot '' @ display_address slot @ '' does not contain tape '' @ tape_id)), st)
                    else on_library (vtl_load slot drive) st)))"

definition sim_load_tape ::
  "string \<Rightarrow> string \<Rightarrow> string option \<Rightarrow> simulator_tape_backend \<Rightarrow> (simulator_tape_backend, unit) call" where
  "sim_load_tape tape_id drive_id slot_id b =
     (case parse_drive_id drive_id of
        Inl e \<Rightarrow> (Some (Inl e), b)
      | Inr drive \<Rightarrow> with_lock (\<lambda>st. Some (load_locked tape_id drive slot_id st)) b)"

definition unload_locked ::
  "element_address \<Rightarrow> string option \<Rightarrow> simulator_state \<Rightarrow> unit result \<times> simulator_state" where
  "unload_locked drive target st =
     (case vtl_map_err (vtl_drive (ss_library st) drive) of
        Inl e \<Rightarrow> (Inl e, st)
      | Inr _ \<Rightarrow>
          (case (case target of Some s \<Rightarrow> parse_slot_id s | None \<Rightarrow> find_empty_slot st) of
             Inl e \<Rightarrow> (Inl e, st)
           | Inr slot \<Rightarrow> on_library (vtl_unload drive slot) st))"

definition sim_unload_tape ::
  "string \<Rightarrow> string option \<Rightarrow> simulator_tape_backend \<Rightarrow> (simulator_tape_backend, unit) call" where
  "sim_unload_tape drive_id target b =
     (case parse_drive_id drive_id of
        Inl e \<Rightarrow> (Some (Inl e), b)
      | Inr drive \<Rightarrow> with_lock (\<lambda>st. Some (unload_locked drive target st)) b)"

definition sim_rewind :: "string \<Rightarrow> simulator_tape_backend \<Rightarrow> (simulator_tape_backend, unit) call" where
  "sim_rewind drive_id b =
     (case parse_drive_id drive_id of
        Inl e \<Rightarrow> (Some (Inl e), b)
      | Inr drive \<Rightarrow> with_lock (\<lambda>st. Some (on_library (vtl_rewind drive) st)) b)"

definition seek_locked :: "element_address \<Rightarrow> u32 \<Rightarrow> simulator_state \<Rightarrow> unit result \<times> simulator_state" where
  "seek_locked drive filemark st =
     (case on_library (vtl_rewind drive) st of
        (Inl e, st1) \<Rightarrow> (Inl e, st1)
      | (Inr _, st1) \<Rightarrow>
          if filemark > 0 then on_library (vtl_seek_filemark drive filemark) st1 else (Inr (), st1))"

definition sim_seek_to_filemark ::
  "string \<Rightarrow> u32 \<Rightarrow> simulator_tape_backend \<Rightarrow> (simulator_tape_backend, unit) call" where
  "sim_seek_to_filemark drive_id filemark b =
     (case parse_drive_id drive_id of
        Inl e \<Rightarrow> (Some (Inl e), b)
      | Inr drive \<Rightarrow> with_lock (\<lambda>st. Some (seek_locked drive filemark st)) b)"

subsection \<open>Status and inventory\<close>

definition SIMULATED_TAPE_CAPACITY_BYTES :: u64 where
  "SIMULATED_TAPE_CAPACITY_BYTES = 12 * 1024 * 1024 * 1024 * 1024"

record tape_media_status =
  tm_drive_id :: string
  tm_tape_id :: "string option"
  tm_tape_status :: i32
  tm_capacity_bytes :: u64
  tm_used_bytes :: u64
  tm_remaining_bytes :: u64
  tm_current_position :: u64
  tm_current_filemark :: u32
  tm_is_write_protected :: bool

definition media_status_of :: "u32 \<Rightarrow> virtual_tape option \<Rightarrow> tape_media_status" where
  "media_status_of i tape =
     (case tape of
        None \<Rightarrow>
          \<lparr>tm_drive_id = drive_id_string i, tm_tape_id = None,
           tm_tape_status = tape_status_i32 TapeOffline,
           tm_capacity_bytes = SIMULATED_TAPE_CAPACITY_BYTES, tm_used_bytes = 0,
           tm_remaining_bytes = SIMULATED_TAPE_CAPACITY_BYTES, tm_current_position = 0,
           tm_current_filemark = 0, tm_is_write_protected = False\<rparr>
      | Some t \<Rightarrow>
          \<lparr>tm_drive_id = drive_id_string i, tm_tape_id = Some (as_str (vt_barcode t)),
           tm_tape_status = tape_status_i32 TapeOnline,
           tm_capacity_bytes = SIMULATED_TAPE_CAPACITY_BYTES, tm_used_bytes = used_bytes t,
           tm_remaining_bytes = sat_sub SIMULATED_TAPE_CAPACITY_BYTES (used_bytes t),
           tm_current_position = current_position t,
           tm_current_filemark = current_filemark t, tm_is_write_protected = False\<rparr>)"

definition sim_get_tape_media_status ::
  "string \<Rightarrow> simulator_tape_backend \<Rightarrow> (simulator_tape_backend, tape_media_status) call" where
  "sim_get_tape_media_status drive_id =
     with_lock (\<lambda>st. Some
       (case drive_index st drive_id of
          Inl e \<Rightarrow> Inl e
        | Inr i \<Rightarrow>
            (case vtl_map_err (vtl_drive (ss_library st) (drive_address i)) of
               Inl e \<Rightarrow> Inl e
             | Inr d \<Rightarrow> Inr (media_status_of i (el_tape d))), st))"

record slot_info =
  si_slot_id :: string
  si_tape_id :: "string option"
  si_is_drive :: bool
  si_drive_id :: "string option"
  si_is_import_export :: bool

definition slot_info_of_slot :: "element \<Rightarrow> slot_info" where
  "slot_info_of_slot s =
     \<lparr>si_slot_id = slot_id_string (ea_index (el_address s)), si_tape_id = element_tape_id s,
      si_is_drive = False, si_drive_id = None, si_is_import_export = False\<rparr>"

definition slot_info_of_drive :: "element \<Rightarrow> slot_info" where
  "slot_info_of_drive d =
     \<lparr>si_slot_id = drive_id_string (ea_index (el_address d)), si_tape_id = element_tape_id d,
      si_is_drive = True, si_drive_id = Some (drive_id_string (ea_index (el_address d))),
      si_is_import_export = False\<rparr>"

definition sim_inventory ::
  "simulator_tape_backend \<Rightarrow> (simulator_tape_backend, slot_info list) call" where
  "sim_inventory =
     with_lock (\<lambda>st. Some (Inr (map slot_info_of_slot (vtl_slots (ss_library st)) @
       map slot_info_of_drive (vtl_drives (ss_library st))), st))"

subsection \<open>Bundles\<close>

definition write_bundle_locked ::
  "element_address \<Rightarrow> bytes \<Rightarrow> simulator_state \<Rightarrow> ((u32 \<times> u32) result \<times> simulator_state) option" where
  "write_bundle_locked drive data st =
     (case vtl_map_err (vtl_drive (ss_library st) drive) of
        Inl e \<Rightarrow> Some (Inl e, st)
      | Inr _ \<Rightarrow>
          (let i = unat (ea_index drive)
           in if i \<ge> length (ss_next_filemark st) then None
              else let filemark_start = ss_next_filemark st ! i
                   in case on_library (vtl_write drive data) st of
                        (Inl e, st1) \<Rightarrow> Some (Inl e, st1)
                      | (Inr _, st1) \<Rightarrow>
                          (case on_library (vtl_write_filemark drive) st1 of
                             (Inl e, st2) \<Rightarrow> Some (Inl e, st2)
                           | (Inr _, st2) \<Rightarrow>
                               let next = ss_next_filemark st2 ! i + 1
                               in Some (Inr (filemark_start, next),
                                    st2\<lparr>ss_next_filemark := (ss_next_filemark st2)[i := next]\<rparr>))))"

definition sim_write_bundle ::
  "string \<Rightarrow> bytes \<Rightarrow> simulator_tape_backend \<Rightarrow> (simulator_tape_backend, u32 \<times> u32) call" where
  "sim_write_bundle drive_id data b =
     (case parse_drive_id drive_id of
        Inl e \<Rightarrow> (Some (Inl e), b)
      | Inr drive \<Rightarrow> with_lock (write_bundle_locked drive data) b)"

definition read_max_len :: "u64 \<Rightarrow> usize" where
  "read_max_len n = (if n = 0 then usize_MAX else min (unat n) usize_MAX)"

definition read_bundle_locked ::
  "element_address \<Rightarrow> u32 \<Rightarrow> u64 \<Rightarrow> simulator_state \<Rightarrow> (bytes result \<times> simulator_state) option" where
  "read_bundle_locked drive filemark len st =
     (case seek_locked drive filemark st of
        (Inl e, st1) \<Rightarrow> Some (Inl e, st1)
      | (Inr _, st1) \<Rightarrow>
          (case vtl_read drive (read_max_len len) (ss_library st1) of
             None \<Rightarrow> None
           | Some (r, lib) \<Rightarrow> Some (vtl_map_err r, st1\<lparr>ss_library := lib\<rparr>)))"

definition sim_read_bundle ::
  "string \<Rightarrow> u32 \<Rightarrow> u64 \<Rightarrow> simulator_tape_backend \<Rightarrow> (simulator_tape_backend, bytes) call" where
  "sim_read_bundle drive_id filemark len b =
     (case parse_drive_id drive_id of
        Inl e \<Rightarrow> (Some (Inl e), b)
      | Inr drive \<Rightarrow> with_lock (read_bundle_locked drive filemark len) b)"

section \<open>Start-up\<close>

text \<open>
  \<open>from_config\<close>: the configured tapes go to the slots from 1 on, and the autoload tape to
  drive 0. The first refusal aborts with its message; \<open>None\<close> is a panic.
\<close>

fun insert_tapes :: "nat \<Rightarrow> string list \<Rightarrow> simulator_tape_backend \<Rightarrow> (string + simulator_tape_backend) option" where
  "insert_tapes index [] b = Some (Inr b)"
| "insert_tapes index (t # ts) b =
     (case backend_insert_tape (''slot-'' @ nat_to_string (index + 1)) t b of
        (None, _) \<Rightarrow> None
      | (Some (Inl e), _) \<Rightarrow> Some (Inl (status_message e))
      | (Some (Inr _), b') \<Rightarrow> insert_tapes (index + 1) ts b')"

definition from_config :: "tape_config \<Rightarrow> (string + simulator_tape_backend) option" where
  "from_config config =
     (let drive_count = of_nat (max (length (sic_devices (tc_scsi config))) 1) :: u32;
          backend = backend_new (max (tsc_slot_count (tc_simulator config)) 1) drive_count
      in case insert_tapes 0 (tsc_tape_ids (tc_simulator config)) backend of
           Some (Inr b) \<Rightarrow>
             (case tsc_autoload_tape_id (tc_simulator config) of
                None \<Rightarrow> Some (Inr b)
              | Some t \<Rightarrow>
                  (case sim_load_tape t ''drive-0'' None b of
                     (None, _) \<Rightarrow> None
                   | (Some (Inl e), _) \<Rightarrow> Some (Inl (status_message e))
                   | (Some (Inr _), b') \<Rightarrow> Some (Inr b')))
         | r \<Rightarrow> r)"

section \<open>The gRPC service\<close>

record 'b tape_backend =
  tb_list_drives :: "'b \<Rightarrow> ('b, drive_endpoint list) call"
  tb_get_drive_status :: "string \<Rightarrow> 'b \<Rightarrow> ('b, drive_endpoint) call"
  tb_acquire_drive :: "string option \<Rightarrow> string option \<Rightarrow> 'b \<Rightarrow> ('b, acquire_drive_response) call"
  tb_release_drive :: "string \<Rightarrow> 'b \<Rightarrow> ('b, unit) call"
  tb_load_tape :: "string \<Rightarrow> string \<Rightarrow> string option \<Rightarrow> 'b \<Rightarrow> ('b, unit) call"
  tb_unload_tape :: "string \<Rightarrow> string option \<Rightarrow> 'b \<Rightarrow> ('b, unit) call"
  tb_rewind :: "string \<Rightarrow> 'b \<Rightarrow> ('b, unit) call"
  tb_seek_to_filemark :: "string \<Rightarrow> u32 \<Rightarrow> 'b \<Rightarrow> ('b, unit) call"
  tb_get_tape_media_status :: "string \<Rightarrow> 'b \<Rightarrow> ('b, tape_media_status) call"
  tb_inventory :: "'b \<Rightarrow> ('b, slot_info list) call"
  tb_write_bundle :: "string \<Rightarrow> bytes \<Rightarrow> 'b \<Rightarrow> ('b, u32 \<times> u32) call"
  tb_read_bundle :: "string \<Rightarrow> u32 \<Rightarrow> u64 \<Rightarrow> 'b \<Rightarrow> ('b, bytes) call"

definition simulator_backend :: "simulator_tape_backend tape_backend" where
  "simulator_backend =
     \<lparr>tb_list_drives = sim_list_drives, tb_get_drive_status = sim_get_drive_status,
      tb_acquire_drive = sim_acquire_drive, tb_release_drive = sim_release_drive,
      tb_load_tape = sim_load_tape, tb_unload_tape = sim_unload_tape, tb_rewind = sim_rewind,
      tb_seek_to_filemark = sim_seek_to_filemark,
      tb_get_tape_media_status = sim_get_tape_media_status, tb_inventory = sim_inventory,
      tb_write_bundle = sim_write_bundle, tb_read_bundle = sim_read_bundle\<rparr>"

record write_bundle_meta =
  wm_drive_id :: string
  wm_bundle_id :: string
  wm_total_size :: u64
  wm_object_count :: u32
  wm_block_size :: u32

datatype write_payload = WriteMeta write_bundle_meta | WriteData bytes

record write_bundle_response =
  wr_drive_id :: string
  wr_bundle_id :: string
  wr_bytes_written :: u64
  wr_filemark_start :: u32
  wr_filemark_end :: u32
  wr_checksum :: "string option"
  wr_success :: bool
  wr_error :: "string option"

text \<open>A stream of requests is the list of its items, each a transport error or a message.\<close>

type_synonym write_stream = "(status + write_payload option) list"

fun collect_data :: "bytes \<Rightarrow> write_stream \<Rightarrow> bytes result" where
  "collect_data data [] = Inr data"
| "collect_data data (Inl e # ms) = Inl e"
| "collect_data data (Inr (Some (WriteData chunk)) # ms) = collect_data (data @ chunk) ms"
| "collect_data data (Inr (Some (WriteMeta m)) # ms) =
     Inl (Status InvalidArgument ''write_bundle metadata must appear only once as the first message'')"
| "collect_data data (Inr None # ms) =
     Inl (Status InvalidArgument ''write_bundle message has no payload'')"

fun write_bundle_meta_of :: "write_stream \<Rightarrow> (write_bundle_meta \<times> write_stream) result" where
  "write_bundle_meta_of [] = Inl (Status InvalidArgument ''write_bundle stream is empty'')"
| "write_bundle_meta_of (Inl e # ms) = Inl e"
| "write_bundle_meta_of (Inr (Some (WriteMeta m)) # ms) = Inr (m, ms)"
| "write_bundle_meta_of (Inr (Some (WriteData d)) # ms) =
     Inl (Status InvalidArgument ''first write_bundle message must carry metadata'')"
| "write_bundle_meta_of (Inr None # ms) =
     Inl (Status InvalidArgument ''write_bundle message has no payload'')"

definition write_bundle_from_messages ::
  "'b tape_backend \<Rightarrow> write_stream \<Rightarrow> 'b \<Rightarrow> ('b, write_bundle_response) call" where
  "write_bundle_from_messages backend messages b =
     (case write_bundle_meta_of messages of
        Inl e \<Rightarrow> (Some (Inl e), b)
      | Inr (meta, rest) \<Rightarrow>
          (case collect_data [] rest of
             Inl e \<Rightarrow> (Some (Inl e), b)
           | Inr data \<Rightarrow>
               if wm_total_size meta \<noteq> len_u64 data
               then (Some (Inl (Status InvalidArgument
                       (''write_bundle total_size='' @ show_word (wm_total_size meta) @
                        '' does not match received bytes='' @ nat_to_string (length data)))), b)
               else (case tb_write_bundle backend (wm_drive_id meta) data b of
                       (None, b') \<Rightarrow> (None, b')
                     | (Some (Inl e), b') \<Rightarrow> (Some (Inl e), b')
                     | (Some (Inr (fs, fe)), b') \<Rightarrow>
                         (Some (Inr \<lparr>wr_drive_id = wm_drive_id meta, wr_bundle_id = wm_bundle_id meta,
                            wr_bytes_written = len_u64 data, wr_filemark_start = fs,
                            wr_filemark_end = fe, wr_checksum = None, wr_success = True,
                            wr_error = None\<rparr>), b'))))"

datatype read_location = Location_Filemark u32 | Location_BlockOffset u64

record read_bundle_request =
  rb_drive_id :: string
  rb_location :: "read_location option"
  rb_length :: u64

datatype read_payload = ReadMeta u64 "string option" | ReadData bytes

text \<open>
  The stream of a read: its meta message, and the data in one message when there is any.
  The channel has room for both, and its receiver is the response, so no send fails.
\<close>

definition read_bundle ::
  "'b tape_backend \<Rightarrow> read_bundle_request \<Rightarrow> 'b \<Rightarrow> ('b, read_payload list) call" where
  "read_bundle backend req b =
     (case rb_location req of
        None \<Rightarrow> (Some (Inl (Status InvalidArgument ''read_bundle location is required'')), b)
      | Some (Location_BlockOffset _) \<Rightarrow>
          (Some (Inl (Status Unimplemented
             ''phase-1 simulator supports filemark-based reads; block offset reads require live SCSI/tape integration'')), b)
      | Some (Location_Filemark filemark) \<Rightarrow>
          (case tb_read_bundle backend (rb_drive_id req) filemark (rb_length req) b of
             (None, b') \<Rightarrow> (None, b')
           | (Some (Inl e), b') \<Rightarrow> (Some (Inl e), b')
           | (Some (Inr data), b') \<Rightarrow>
               (Some (Inr (ReadMeta (len_u64 data) None #
                  (if data = [] then [] else [ReadData data]))), b')))"

text \<open>The handlers that hand the request's fields to the backend.\<close>

record acquire_drive_request =
  aq_preferred_drive_id :: "string option"
  aq_required_tape_id :: "string option"
  aq_priority :: u32
  aq_timeout_secs :: u32

definition list_drives :: "'b tape_backend \<Rightarrow> 'b \<Rightarrow> ('b, drive_endpoint list) call" where
  "list_drives backend b = tb_list_drives backend b"

definition get_drive_status :: "'b tape_backend \<Rightarrow> string \<Rightarrow> 'b \<Rightarrow> ('b, drive_endpoint) call" where
  "get_drive_status backend drive_id b = tb_get_drive_status backend drive_id b"

definition acquire_drive ::
  "'b tape_backend \<Rightarrow> acquire_drive_request \<Rightarrow> 'b \<Rightarrow> ('b, acquire_drive_response) call" where
  "acquire_drive backend req b =
     tb_acquire_drive backend (aq_preferred_drive_id req) (aq_required_tape_id req) b"

definition release_drive :: "'b tape_backend \<Rightarrow> string \<Rightarrow> 'b \<Rightarrow> ('b, unit) call" where
  "release_drive backend drive_id b = tb_release_drive backend drive_id b"

definition load_tape ::
  "'b tape_backend \<Rightarrow> string \<Rightarrow> string \<Rightarrow> string option \<Rightarrow> 'b \<Rightarrow> ('b, unit) call" where
  "load_tape backend tape_id drive_id slot_id b = tb_load_tape backend tape_id drive_id slot_id b"

definition unload_tape :: "'b tape_backend \<Rightarrow> string \<Rightarrow> string option \<Rightarrow> 'b \<Rightarrow> ('b, unit) call" where
  "unload_tape backend drive_id target b = tb_unload_tape backend drive_id target b"

definition rewind_tape :: "'b tape_backend \<Rightarrow> string \<Rightarrow> 'b \<Rightarrow> ('b, unit) call" where
  "rewind_tape backend drive_id b = tb_rewind backend drive_id b"

definition seek_to_filemark :: "'b tape_backend \<Rightarrow> string \<Rightarrow> u32 \<Rightarrow> 'b \<Rightarrow> ('b, unit) call" where
  "seek_to_filemark backend drive_id filemark b = tb_seek_to_filemark backend drive_id filemark b"

definition get_tape_media_status :: "'b tape_backend \<Rightarrow> string \<Rightarrow> 'b \<Rightarrow> ('b, tape_media_status) call" where
  "get_tape_media_status backend drive_id b = tb_get_tape_media_status backend drive_id b"

definition inventory :: "'b tape_backend \<Rightarrow> 'b \<Rightarrow> ('b, slot_info list) call" where
  "inventory backend b = tb_inventory backend b"

section \<open>The invariant of the backend\<close>

definition wf_sim :: "simulator_state \<Rightarrow> bool" where
  "wf_sim st \<longleftrightarrow> wf_vtl (ss_library st) \<and>
     length (ss_acquired st) = length (vtl_drives (ss_library st)) \<and>
     length (ss_next_filemark st) = length (vtl_drives (ss_library st))"

definition wf_backend :: "simulator_tape_backend \<Rightarrow> bool" where
  "wf_backend b \<longleftrightarrow> \<not> sb_poisoned b \<and> wf_sim (sb_state b)"

text \<open>A call that returned, with the backend well-formed behind it.\<close>

definition returns_wf :: "(simulator_tape_backend, 'a) call \<Rightarrow> bool" where
  "returns_wf c \<longleftrightarrow> fst c \<noteq> None \<and> wf_backend (snd c)"

lemma with_lock_wf:
  assumes "wf_backend b" and "\<And>st. wf_sim st \<Longrightarrow> \<exists>r st'. body st = Some (r, st') \<and> wf_sim st'"
  shows "returns_wf (with_lock body b)"
  using assms(1) assms(2) [of "sb_state b"] by (auto simp: with_lock_def wf_backend_def returns_wf_def)

lemma wf_backend_new [wf_intros]: "wf_backend (backend_new n m)"
  by (simp add: wf_backend_def backend_new_def wf_sim_def simulator_state_new_def wf_intros)
    (simp add: vtl_new_def)

text \<open>The commands of the library keep its number of drives.\<close>

lemma length_drives_put [simp]:
  "length (vtl_drives (snd (put_into_slot a t lib))) = length (vtl_drives lib)"
  "length (vtl_drives (snd (put_into_drive a t lib))) = length (vtl_drives lib)"
  by (auto simp: put_into_slot_def put_into_drive_def split: sum.splits)

lemma length_drives_take:
  "take_from_slot a lib = (r, lib') \<Longrightarrow> length (vtl_drives lib') = length (vtl_drives lib)"
  "take_from_drive a lib = (r, lib') \<Longrightarrow> length (vtl_drives lib') = length (vtl_drives lib)"
  by (auto simp: take_from_slot_def take_from_drive_def split: sum.splits)

lemma length_drives_vtl [simp]:
  "length (vtl_drives (snd (insert_tape a c lib))) = length (vtl_drives lib)"
  "length (vtl_drives (snd (move_medium a d lib))) = length (vtl_drives lib)"
  "length (vtl_drives (snd (vtl_rewind a lib))) = length (vtl_drives lib)"
  "length (vtl_drives (snd (vtl_seek_filemark a n lib))) = length (vtl_drives lib)"
  "length (vtl_drives (snd (vtl_write a x lib))) = length (vtl_drives lib)"
  "length (vtl_drives (snd (vtl_write_filemark a lib))) = length (vtl_drives lib)"
  by (auto simp: insert_tape_def vtl_rewind_def vtl_seek_filemark_def vtl_write_def
      vtl_write_filemark_def set_loaded_tape_def case_prod_beta split: sum.splits)
    (auto simp: move_medium_def split: element_kind.splits sum.splits prod.splits dest: length_drives_take)

lemma length_drives_read:
  "vtl_read a m lib = Some (r, lib') \<Longrightarrow> length (vtl_drives lib') = length (vtl_drives lib)"
  by (auto simp: vtl_read_def set_loaded_tape_def split: sum.splits option.splits)

lemma wf_on_library:
  assumes "wf_sim st" and "\<And>lib. wf_vtl lib \<Longrightarrow> wf_vtl (snd (f lib))"
    and "\<And>lib. length (vtl_drives (snd (f lib))) = length (vtl_drives lib)"
  shows "wf_sim (snd (on_library f st))"
  using assms by (auto simp: wf_sim_def on_library_def case_prod_beta)

lemma wf_on_library_vtl [wf_intros]:
  assumes "wf_sim st"
  shows "wf_sim (snd (on_library (insert_tape a c) st))"
    and "wf_sim (snd (on_library (vtl_load a d) st))"
    and "wf_sim (snd (on_library (vtl_unload a d) st))"
    and "wf_sim (snd (on_library (vtl_rewind a) st))"
    and "wf_sim (snd (on_library (vtl_seek_filemark a n) st))"
    and "wf_sim (snd (on_library (vtl_write a x) st))"
    and "wf_sim (snd (on_library (vtl_write_filemark a) st))"
  using assms by (auto intro!: wf_on_library wf_intros simp: vtl_load_def vtl_unload_def)

lemma drive_index_bound: "drive_index st d = Inr i \<Longrightarrow> unat i < length (vtl_drives (ss_library st))"
  by (auto simp: drive_index_def vtl_map_err_def vtl_drive_def ensure_drive_def
      split: sum.splits if_splits)

lemma find_free_drive_total:
  assumes "\<forall>d \<in> set ds. unat (ea_index (el_address d)) < length acquired"
  shows "\<exists>r. find_free_drive acquired required ds = Some r \<and> (\<forall>d. r = Some d \<longrightarrow> d \<in> set ds)"
  using assms by (induction ds) (auto simp: Let_def)

lemma wf_drive_addresses:
  assumes "wf_vtl lib" and "d \<in> set (vtl_drives lib)"
  shows "unat (ea_index (el_address d)) < length (vtl_drives lib)"
    and "el_address d = drive_address (ea_index (el_address d))"
proof -
  from assms(2) obtain i where i: "i < length (vtl_drives lib)" "d = vtl_drives lib ! i"
    by (auto simp: in_set_conv_nth)
  then have "el_address d = drive_address (of_nat i)" "i < 2 ^ 32"
    using assms(1) by (auto simp: wf_vtl_def)
  then show "unat (ea_index (el_address d)) < length (vtl_drives lib)"
    and "el_address d = drive_address (ea_index (el_address d))"
    using i(1) by (simp_all add: drive_address_def unat_of_nat_u32)
qed

lemma choose_drive_wf:
  assumes "wf_sim st"
  shows "\<exists>r. choose_drive st preferred required = Some r \<and>
    (\<forall>i. r = Inr i \<longrightarrow> unat i < length (vtl_drives (ss_library st)))"
proof (cases preferred)
  case None
  have "\<forall>d \<in> set (vtl_drives (ss_library st)). unat (ea_index (el_address d)) < length (ss_acquired st)"
    using assms wf_drive_addresses(1) by (auto simp: wf_sim_def)
  from find_free_drive_total [OF this, of required] None assms show ?thesis
    by (auto simp: choose_drive_def wf_sim_def wf_drive_addresses(1) split: option.splits)
next
  case (Some p)
  then show ?thesis by (simp add: choose_drive_def drive_index_bound)
qed

lemma wf_acquire_locked:
  assumes "wf_sim st"
  shows "\<exists>r st'. acquire_locked preferred required st = Some (r, st') \<and> wf_sim st'"
  using choose_drive_wf [OF assms, of preferred required] assms
  by (auto simp: acquire_locked_def wf_sim_def Let_def split: sum.splits)

lemma wf_seek_locked:
  assumes "wf_sim st"
  shows "wf_sim (snd (seek_locked drive n st))"
proof -
  obtain r st1 where st1: "on_library (vtl_rewind drive) st = (r, st1)" by force
  then have "wf_sim st1" using wf_on_library_vtl(4) [OF assms, of drive] by simp
  with st1 show ?thesis by (auto simp: seek_locked_def intro: wf_intros split: sum.splits)
qed

lemma wf_load_locked: "wf_sim st \<Longrightarrow> wf_sim (snd (load_locked tape_id drive slot_id st))"
  by (auto simp: load_locked_def intro: wf_intros split: sum.splits)

lemma wf_unload_locked: "wf_sim st \<Longrightarrow> wf_sim (snd (unload_locked drive target st))"
  by (auto simp: unload_locked_def intro: wf_intros split: sum.splits)

text \<open>The bundle operations, branch by branch, by what the drive holds.\<close>

lemma update_element_twice [simp]:
  assumes "\<And>e. el_address (g e) = el_address e"
  shows "update_element a f (update_element a g es) = update_element a (\<lambda>e. f (g e)) es"
  using assms by (induction es) auto

lemma set_loaded_tape_twice [simp]:
  "set_loaded_tape a t' (set_loaded_tape a t lib) = set_loaded_tape a t' lib"
  by (simp add: set_loaded_tape_def)

lemma seek_locked_loaded:
  assumes "loaded_tape (ss_library st) drive = Inr t"
  shows "seek_locked drive n st =
    (if fst (tape_seek_filemark (tape_rewind t) n) then Inr () else Inl (vtl_status FilemarkNotFound),
     st\<lparr>ss_library := set_loaded_tape drive (snd (tape_seek_filemark (tape_rewind t) n)) (ss_library st)\<rparr>)"
proof (cases "n = 0")
  case True
  then show ?thesis
    using assms by (simp add: seek_locked_def on_library_def vtl_rewind_def vtl_map_err_def)
next
  case False
  then show ?thesis
    using assms by (simp add: seek_locked_def on_library_def vtl_rewind_def vtl_seek_filemark_def
        vtl_map_err_def case_prod_beta word_gt_0)
qed

lemma seek_locked_unloaded:
  "loaded_tape (ss_library st) drive = Inl e \<Longrightarrow> seek_locked drive n st = (Inl (vtl_status e), st)"
  by (simp add: seek_locked_def on_library_def vtl_rewind_def vtl_map_err_def)

lemma read_bundle_locked_loaded:
  assumes "loaded_tape (ss_library st) drive = Inr t"
    and "tape_seek_filemark (tape_rewind t) n = (True, t1)" and "tape_read t1 (read_max_len len) = Some (out, t2)"
  shows "read_bundle_locked drive n len st =
    Some (Inr out, st\<lparr>ss_library := set_loaded_tape drive t2 (ss_library st)\<rparr>)"
  using assms by (simp add: read_bundle_locked_def seek_locked_loaded vtl_read_def vtl_map_err_def)

lemma read_bundle_locked_not_found:
  assumes "loaded_tape (ss_library st) drive = Inr t"
    and "\<not> fst (tape_seek_filemark (tape_rewind t) n)"
  shows "\<exists>st'. read_bundle_locked drive n len st = Some (Inl (vtl_status FilemarkNotFound), st')"
  using assms by (simp add: read_bundle_locked_def seek_locked_loaded)

lemma read_bundle_locked_unloaded:
  "loaded_tape (ss_library st) drive = Inl e \<Longrightarrow>
     read_bundle_locked drive n len st = Some (Inl (vtl_status e), st)"
  by (simp add: read_bundle_locked_def seek_locked_unloaded)

lemma loaded_tape_driveD:
  "loaded_tape lib drive = Inr t \<Longrightarrow> \<exists>d. vtl_drive lib drive = Inr d \<and> unat (ea_index drive) < length (vtl_drives lib)"
  by (auto simp: loaded_tape_def vtl_drive_def ensure_drive_def split: sum.splits if_splits)

lemma write_bundle_locked_loaded:
  assumes "wf_sim st" and "loaded_tape (ss_library st) drive = Inr t"
  shows "write_bundle_locked drive data st =
    (let i = unat (ea_index drive); fs = ss_next_filemark st ! i
     in Some (Inr (fs, fs + 1),
          st\<lparr>ss_library := set_loaded_tape drive (append_filemark (append_data t data)) (ss_library st),
             ss_next_filemark := (ss_next_filemark st)[i := fs + 1]\<rparr>))"
  using assms loaded_tape_driveD [OF assms(2)]
  by (auto simp: write_bundle_locked_def on_library_def vtl_write_def vtl_write_filemark_def
      vtl_map_err_def wf_sim_def Let_def)

lemma write_bundle_locked_unloaded:
  assumes "wf_sim st" and "loaded_tape (ss_library st) drive = Inl e"
  shows "write_bundle_locked drive data st = Some (Inl (vtl_status e), st)"
proof (cases "vtl_drive (ss_library st) drive")
  case (Inl e')
  with assms(2) show ?thesis by (simp add: write_bundle_locked_def loaded_tape_def vtl_map_err_def)
next
  case (Inr d)
  then have "unat (ea_index drive) < length (ss_next_filemark st)"
    using assms(1) by (auto simp: wf_sim_def vtl_drive_def ensure_drive_def split: sum.splits if_splits)
  with Inr assms(2) show ?thesis
    by (simp add: write_bundle_locked_def on_library_def vtl_write_def vtl_map_err_def Let_def)
qed

lemma read_max_len_bound: "read_max_len n \<le> usize_MAX"
  by (simp add: read_max_len_def)

lemma wf_write_bundle_locked:
  assumes "wf_sim st"
  shows "\<exists>r st'. write_bundle_locked drive data st = Some (r, st') \<and> wf_sim st'"
proof (cases "loaded_tape (ss_library st) drive")
  case (Inl e)
  with assms show ?thesis by (simp add: write_bundle_locked_unloaded)
next
  case (Inr t)
  then have "wf_vtl (set_loaded_tape drive (append_filemark (append_data t data)) (ss_library st))"
    using assms by (auto simp: wf_sim_def intro: wf_set_loaded_tape wf_append_filemark)
  with assms Inr show ?thesis
    by (simp add: write_bundle_locked_loaded Let_def wf_sim_def set_loaded_tape_def)
qed

lemma wf_read_bundle_locked:
  assumes "wf_sim st"
  shows "\<exists>r st'. read_bundle_locked drive n len st = Some (r, st') \<and> wf_sim st'"
proof -
  obtain r st1 where st1: "seek_locked drive n st = (r, st1)" by force
  then have wf: "wf_sim st1" using wf_seek_locked [OF assms, of drive n] by simp
  show ?thesis
  proof (cases r)
    case (Inl e)
    with st1 wf show ?thesis by (simp add: read_bundle_locked_def)
  next
    case (Inr u)
    then obtain t where t: "loaded_tape (ss_library st) drive = Inr t"
      using st1 seek_locked_unloaded [of st drive] by (cases "loaded_tape (ss_library st) drive") auto
    obtain out t2 where rd: "tape_read (snd (tape_seek_filemark (tape_rewind t) n)) (read_max_len len) = Some (out, t2)"
      using seek_read_total [OF read_max_len_bound, of t n] by force
    then obtain lib where lib: "vtl_read drive (read_max_len len) (ss_library st1) = Some (Inr out, lib)"
      using st1 t by (auto simp: seek_locked_loaded vtl_read_def)
    then have "wf_sim (st1\<lparr>ss_library := lib\<rparr>)"
      using wf wf_vtl_read length_drives_read by (fastforce simp: wf_sim_def)
    with st1 Inr lib show ?thesis by (simp add: read_bundle_locked_def)
  qed
qed

lemma returns_wf_error [simp]: "returns_wf (Some (Inl e), b) \<longleftrightarrow> wf_backend b"
  by (simp add: returns_wf_def)

text \<open>No call of a well-formed backend panics, and every call keeps it well-formed.\<close>

lemma sim_calls_return:
  assumes "wf_backend b"
  shows "returns_wf (sim_list_drives b)" and "returns_wf (sim_get_drive_status d b)"
    and "returns_wf (sim_acquire_drive p q b)" and "returns_wf (sim_release_drive d b)"
    and "returns_wf (sim_load_tape t d s b)" and "returns_wf (sim_unload_tape d s b)"
    and "returns_wf (sim_rewind d b)" and "returns_wf (sim_seek_to_filemark d n b)"
    and "returns_wf (sim_get_tape_media_status d b)" and "returns_wf (sim_inventory b)"
    and "returns_wf (sim_write_bundle d x b)" and "returns_wf (sim_read_bundle d n l b)"
    and "returns_wf (backend_insert_tape u t b)"
proof -
  have some: "\<exists>r st'. Some c = Some (r, st') \<and> wf_sim st'" if "wf_sim (snd c)" for c :: "'x \<times> simulator_state"
    using that by (cases c) simp
  note locked = with_lock_wf [OF assms]
  show "returns_wf (sim_list_drives b)" "returns_wf (sim_get_drive_status d b)"
    "returns_wf (sim_get_tape_media_status d b)" "returns_wf (sim_inventory b)"
    unfolding sim_list_drives_def sim_get_drive_status_def sim_get_tape_media_status_def sim_inventory_def
    by (rule locked; simp)+
  show "returns_wf (sim_acquire_drive p q b)"
    unfolding sim_acquire_drive_def by (rule locked) (rule wf_acquire_locked)
  show "returns_wf (sim_release_drive d b)"
    unfolding sim_release_drive_def
    by (rule locked) (auto simp: wf_sim_def dest: drive_index_bound split: sum.splits)
  show "returns_wf (sim_load_tape t d s b)" "returns_wf (sim_unload_tape d s b)"
    "returns_wf (sim_rewind d b)" "returns_wf (sim_seek_to_filemark d n b)"
    "returns_wf (backend_insert_tape u t b)"
    using assms unfolding sim_load_tape_def sim_unload_tape_def sim_rewind_def sim_seek_to_filemark_def
      backend_insert_tape_def
    by (auto split: sum.splits intro!: locked some wf_load_locked wf_unload_locked wf_seek_locked wf_on_library_vtl)
  show "returns_wf (sim_write_bundle d x b)" "returns_wf (sim_read_bundle d n l b)"
    using assms unfolding sim_write_bundle_def sim_read_bundle_def
    by (auto split: sum.splits intro!: locked wf_write_bundle_locked wf_read_bundle_locked)
qed

section \<open>Bundles written are bundles read\<close>

text \<open>
  What the service relies on of a \<open>TapeBackend\<close>: \<open>bundles\<close> are the bundles on the tape
  in a drive, and \<open>at_end\<close> says that the tape is positioned behind them, with the
  drive's filemark counter in step.
\<close>

locale bundle_backend =
  fixes backend :: "'b tape_backend"
    and ok :: "'b \<Rightarrow> bool"
    and bundles :: "'b \<Rightarrow> string \<Rightarrow> bytes list option"
    and at_end :: "'b \<Rightarrow> string \<Rightarrow> bool"
  assumes write_law: "ok b \<Longrightarrow> bundles b d = Some ds \<Longrightarrow> at_end b d \<Longrightarrow>
      \<exists>b'. tb_write_bundle backend d x b = (Some (Inr (of_nat (length ds), of_nat (length ds) + 1)), b') \<and>
        ok b' \<and> bundles b' d = Some (ds @ [x]) \<and> at_end b' d"
    and read_law: "ok b \<Longrightarrow> bundles b d = Some ds \<Longrightarrow> unat n < length ds \<Longrightarrow>
      \<exists>b'. tb_read_bundle backend d n len b = (Some (Inr (take (read_max_len len) (ds ! unat n))), b') \<and>
        ok b' \<and> bundles b' d = Some ds"
begin

lemma write_then_read:
  assumes "ok b" and "bundles b d = Some ds" and "at_end b d" and "length ds < 2 ^ 32"
    and "write_bundle_meta_of ms = Inr (m, rest)" and "wm_drive_id m = d"
    and "collect_data [] rest = Inr x" and "wm_total_size m = len_u64 x" and "length x \<le> usize_MAX"
  shows "\<exists>resp b1 b2. write_bundle_from_messages backend ms b = (Some (Inr resp), b1) \<and>
     wr_bundle_id resp = wm_bundle_id m \<and> wr_bytes_written resp = len_u64 x \<and>
     bundles b1 d = Some (ds @ [x]) \<and> at_end b1 d \<and>
     read_bundle backend \<lparr>rb_drive_id = d, rb_location = Some (Location_Filemark (wr_filemark_start resp)),
       rb_length = 0\<rparr> b1 =
       (Some (Inr (ReadMeta (len_u64 x) None # (if x = [] then [] else [ReadData x]))), b2)"
proof -
  obtain b1 where w: "tb_write_bundle backend d x b =
      (Some (Inr (of_nat (length ds), of_nat (length ds) + 1)), b1)" "ok b1"
    "bundles b1 d = Some (ds @ [x])" "at_end b1 d"
    using write_law [OF assms(1-3)] by blast
  have n: "unat (of_nat (length ds) :: u32) = length ds"
    using assms(4) by (rule unat_of_nat_u32)
  obtain b2 where r: "tb_read_bundle backend d (of_nat (length ds)) 0 b1 =
      (Some (Inr (take (read_max_len 0) x)), b2)"
    using read_law [OF w(2,3), of "of_nat (length ds)" 0] n by auto
  show ?thesis
    using assms w r by (simp add: write_bundle_from_messages_def read_bundle_def read_max_len_def)
qed

end

fun bundles_of_records :: "tape_record list \<Rightarrow> bytes list option" where
  "bundles_of_records [] = Some []"
| "bundles_of_records (Data d # Filemark # rs) = map_option ((#) d) (bundles_of_records rs)"
| "bundles_of_records rs = None"

lemma bundles_of_bundle_records: "bundles_of_records (bundle_records ds) = Some ds"
  by (induction ds) (simp_all add: bundle_records_def)

lemma bundles_of_records_SomeD: "bundles_of_records rs = Some ds \<Longrightarrow> rs = bundle_records ds"
  by (induction rs arbitrary: ds rule: bundles_of_records.induct) (auto simp: bundle_records_def)

definition drive_tape :: "simulator_tape_backend \<Rightarrow> string \<Rightarrow> (element_address \<times> virtual_tape) option" where
  "drive_tape b d =
     (case parse_drive_id d of
        Inl e \<Rightarrow> None
      | Inr a \<Rightarrow> map_option (Pair a) (tape_in (ss_library (sb_state b)) a))"

definition drive_bundles :: "simulator_tape_backend \<Rightarrow> string \<Rightarrow> bytes list option" where
  "drive_bundles b d = (case drive_tape b d of None \<Rightarrow> None | Some (a, t) \<Rightarrow> bundles_of_records (vt_records t))"

definition drive_at_end :: "simulator_tape_backend \<Rightarrow> string \<Rightarrow> bool" where
  "drive_at_end b d =
     (case drive_tape b d of
        None \<Rightarrow> False
      | Some (a, t) \<Rightarrow>
          record_index (vt_cursor t) = length (vt_records t) \<and>
          ss_next_filemark (sb_state b) ! unat (ea_index a) = of_nat (length (vt_records t) div 2))"

lemma drive_bundlesD:
  assumes "drive_bundles b d = Some ds"
  obtains a t where "parse_drive_id d = Inr a" and "loaded_tape (ss_library (sb_state b)) a = Inr t"
    and "vt_records t = bundle_records ds"
  using assms
  by (auto simp: drive_bundles_def drive_tape_def tape_in_Some dest: bundles_of_records_SomeD
      split: option.splits sum.splits)

lemma sim_write_law:
  assumes "wf_backend b" and "drive_bundles b d = Some ds" and "drive_at_end b d"
  shows "\<exists>b'. sim_write_bundle d x b = (Some (Inr (of_nat (length ds), of_nat (length ds) + 1)), b') \<and>
     wf_backend b' \<and> drive_bundles b' d = Some (ds @ [x]) \<and> drive_at_end b' d"
proof -
  obtain a t where at: "parse_drive_id d = Inr a" "loaded_tape (ss_library (sb_state b)) a = Inr t"
    "vt_records t = bundle_records ds"
    using assms(2) by (rule drive_bundlesD)
  have wf: "wf_sim (sb_state b)" "\<not> sb_poisoned b" using assms(1) by (simp_all add: wf_backend_def)
  have pos: "record_index (vt_cursor t) = length (vt_records t)"
    "ss_next_filemark (sb_state b) ! unat (ea_index a) = of_nat (length ds)"
    using assms(3) at by (simp_all add: drive_at_end_def drive_tape_def tape_in_def)
  have bound: "unat (ea_index a) < length (ss_next_filemark (sb_state b))"
    using wf(1) loaded_tape_driveD [OF at(2)] by (simp add: wf_sim_def)
  have "returns_wf (sim_write_bundle d x b)" using assms(1) by (rule sim_calls_return)
  with wf at pos bound show ?thesis
    by (simp add: sim_write_bundle_def with_lock_def write_bundle_locked_loaded Let_def returns_wf_def
        drive_bundles_def drive_at_end_def drive_tape_def tape_in_def bundles_of_bundle_records
        flip: bundle_records_snoc)
qed

lemma sim_read_law:
  assumes "wf_backend b" and "drive_bundles b d = Some ds" and "unat n < length ds"
  shows "\<exists>b'. sim_read_bundle d n len b = (Some (Inr (take (read_max_len len) (ds ! unat n))), b') \<and>
     wf_backend b' \<and> drive_bundles b' d = Some ds"
proof -
  obtain a t where at: "parse_drive_id d = Inr a" "loaded_tape (ss_library (sb_state b)) a = Inr t"
    "vt_records t = bundle_records ds"
    using assms(2) by (rule drive_bundlesD)
  obtain t1 t2 where t: "tape_seek_filemark (tape_rewind t) n = (True, t1)"
    "tape_read t1 (read_max_len len) = Some (take (read_max_len len) (ds ! unat n), t2)"
    using bundle_seek_read [OF at(3) assms(3) read_max_len_bound] by blast
  have "vt_records t2 = bundle_records ds"
    using tape_seek_frame(1) [of "tape_rewind t" n] t(1) tape_read_frame [OF t(2)] at(3) by simp
  moreover have "\<not> sb_poisoned b" using assms(1) by (simp add: wf_backend_def)
  moreover have "returns_wf (sim_read_bundle d n len b)" using assms(1) by (rule sim_calls_return)
  ultimately show ?thesis
    using at t by (simp add: sim_read_bundle_def with_lock_def read_bundle_locked_loaded returns_wf_def
        drive_bundles_def drive_tape_def tape_in_def bundles_of_bundle_records)
qed

interpretation simulator: bundle_backend simulator_backend wf_backend drive_bundles drive_at_end
  by unfold_locales (simp_all add: simulator_backend_def sim_write_law sim_read_law)

section \<open>The default worker\<close>

lemma parse_drive_id_string [simp]: "parse_drive_id (drive_id_string i) = Inr (drive_address i)"
  by (simp add: parse_drive_id_def drive_id_string_def strip_prefix_def starts_with_def)

lemma parse_slot_id_string [simp]: "i \<noteq> 0 \<Longrightarrow> parse_slot_id (slot_id_string i) = Inr (slot_address i)"
  by (simp add: parse_slot_id_def slot_id_string_def strip_prefix_def starts_with_def)

lemma nat_to_string_digit: "n < 10 \<Longrightarrow> nat_to_string n = [digit_char n]"
  by (simp add: nat_to_string.simps)

lemma digit_char_0: "digit_char 0 = CHR ''0''"
  by code_simp

lemma drive_0: "''drive-0'' = drive_id_string 0"
  by (simp add: drive_id_string_def nat_to_string_digit digit_char_0)

definition default_backend :: simulator_tape_backend where
  "default_backend =
     \<lparr>sb_state =
        \<lparr>ss_library =
           \<lparr>vtl_slots = map (\<lambda>i. element_new (slot_address i)) [1, 2, 3, 4, 5, 6, 7, 8],
            vtl_drives = [\<lparr>el_address = drive_address 0,
                           el_tape = Some (virtual_tape_new (TapeBarcode default_scheduler_tape_id))\<rparr>]\<rparr>,
         ss_acquired = [False], ss_next_filemark = [0]\<rparr>,
      sb_poisoned = False\<rparr>"

lemma from_config_default: "from_config tape_config_default = Some (Inr default_backend)"
proof -
  let ?t = default_scheduler_tape_id
  define b1 where "b1 = default_backend\<lparr>sb_state := (sb_state default_backend)\<lparr>ss_library :=
     \<lparr>vtl_slots = \<lparr>el_address = slot_address 1, el_tape = Some (virtual_tape_new (TapeBarcode ?t))\<rparr> #
        map (\<lambda>i. element_new (slot_address i)) [2, 3, 4, 5, 6, 7, 8],
      vtl_drives = [element_new (drive_address 0)]\<rparr>\<rparr>\<rparr>"
  have m: "max (8 :: u32) 1 = 8" by (simp add: max_def word_le_nat_alt)
  have new: "backend_new 8 1 = \<lparr>sb_state = \<lparr>ss_library =
       \<lparr>vtl_slots = map (\<lambda>i. element_new (slot_address i)) [1, 2, 3, 4, 5, 6, 7, 8],
        vtl_drives = [element_new (drive_address 0)]\<rparr>,
       ss_acquired = [False], ss_next_filemark = [0]\<rparr>, sb_poisoned = False\<rparr>"
    by (simp add: backend_new_def simulator_state_new_def vtl_new_def upt_rec)
  have s1: "''slot-'' @ nat_to_string (0 + 1) = slot_id_string 1"
    by (simp add: slot_id_string_def)
  have ins: "backend_insert_tape (''slot-'' @ nat_to_string (0 + 1)) ?t (backend_new 8 1) = (Some (Inr ()), b1)"
    unfolding s1 new
    by (simp add: backend_insert_tape_def with_lock_def on_library_def b1_def default_backend_def vtl_map_err_def
        insert_tape_def put_into_slot_def vtl_slot_def ensure_slot_def slot_address_def element_new_def)
  have load: "sim_load_tape ?t ''drive-0'' None b1 = (Some (Inr ()), default_backend)"
    unfolding drive_0
    by (simp add: sim_load_tape_def with_lock_def load_locked_def b1_def default_backend_def vtl_map_err_def
        vtl_drive_def ensure_drive_def drive_address_def find_slot_with_tape_def element_tape_id_def
        element_barcode_def virtual_tape_new_def vtl_slot_def ensure_slot_def slot_address_def on_library_def
        vtl_load_def move_medium_def take_from_slot_def put_into_drive_def element_new_def)
  show ?thesis
    using ins load by (simp add: from_config_def tape_config_default_def tape_simulator_config_default_def m)
qed

lemma wf_insert_tapes:
  "wf_backend b \<Longrightarrow>
     insert_tapes n ts b \<noteq> None \<and> (\<forall>b'. insert_tapes n ts b = Some (Inr b') \<longrightarrow> wf_backend b')"
proof (induction ts arbitrary: n b)
  case (Cons t ts)
  obtain c b2 where c: "backend_insert_tape (''slot-'' @ nat_to_string (n + 1)) t b = (c, b2)" by force
  then have "c \<noteq> None" "wf_backend b2"
    using sim_calls_return(13) [OF Cons.prems, of "''slot-'' @ nat_to_string (n + 1)" t]
    by (simp_all add: returns_wf_def)
  with Cons.IH [of b2 "n + 1"] c show ?case
    by (cases c; cases "the c") (simp_all del: append_Cons append_Nil)
qed simp

lemma wf_from_config:
  "from_config config \<noteq> None \<and> (from_config config = Some (Inr b) \<longrightarrow> wf_backend b)"
proof -
  define r where "r = insert_tapes 0 (tsc_tape_ids (tc_simulator config))
      (backend_new (max (tsc_slot_count (tc_simulator config)) 1)
        (of_nat (max (length (sic_devices (tc_scsi config))) 1)))"
  have ins: "r \<noteq> None" "\<And>b'. r = Some (Inr b') \<Longrightarrow> wf_backend b'"
    using wf_insert_tapes [OF wf_backend_new] by (auto simp: r_def)
  have fc: "from_config config =
      (case r of
         Some (Inr b) \<Rightarrow>
           (case tsc_autoload_tape_id (tc_simulator config) of
              None \<Rightarrow> Some (Inr b)
            | Some t \<Rightarrow>
                (case sim_load_tape t ''drive-0'' None b of
                   (None, _) \<Rightarrow> None
                 | (Some (Inl e), _) \<Rightarrow> Some (Inl (status_message e))
                 | (Some (Inr _), b') \<Rightarrow> Some (Inr b')))
       | r \<Rightarrow> r)"
    unfolding from_config_def Let_def r_def ..
  show ?thesis
  proof (cases "\<exists>b'. r = Some (Inr b')")
    case False
    with ins(1) obtain e where "r = Some (Inl e)"
      by (metis not_None_eq old.sum.exhaust)
    then show ?thesis by (simp add: fc)
  next
    case True
    then obtain b' where b': "r = Some (Inr b')" by blast
    with ins(2) have wf: "wf_backend b'" by blast
    show ?thesis
    proof (cases "tsc_autoload_tape_id (tc_simulator config)")
      case None
      with b' wf show ?thesis by (auto simp: fc)
    next
      case (Some t)
      obtain c b2 where c: "sim_load_tape t ''drive-0'' None b' = (c, b2)" by force
      then have "c \<noteq> None" "wf_backend b2"
        using sim_calls_return(5) [OF wf, of t "''drive-0''" None] by (simp_all add: returns_wf_def)
      with b' Some c show ?thesis by (auto simp: fc split: sum.splits)
    qed
  qed
qed

text \<open>The backend calls as a step relation.\<close>

inductive sim_step :: "simulator_tape_backend \<Rightarrow> simulator_tape_backend \<Rightarrow> bool" where
  "sim_step b (snd (sim_list_drives b))"
| "sim_step b (snd (sim_get_drive_status d b))"
| "sim_step b (snd (sim_acquire_drive p q b))"
| "sim_step b (snd (sim_release_drive d b))"
| "sim_step b (snd (sim_load_tape t d s b))"
| "sim_step b (snd (sim_unload_tape d s b))"
| "sim_step b (snd (sim_rewind d b))"
| "sim_step b (snd (sim_seek_to_filemark d n b))"
| "sim_step b (snd (sim_get_tape_media_status d b))"
| "sim_step b (snd (sim_inventory b))"
| "sim_step b (snd (sim_write_bundle d x b))"
| "sim_step b (snd (sim_read_bundle d n l b))"

lemma wf_sim_step: "sim_step b b' \<Longrightarrow> wf_backend b \<Longrightarrow> wf_backend b'"
  by (induction rule: sim_step.induct) (use sim_calls_return in \<open>auto simp: returns_wf_def\<close>)

text \<open>What a successful acquisition has checked and changed.\<close>

lemma acquire_locked_Inr:
  assumes "acquire_locked preferred required st = Some (Inr resp, st')"
  shows "\<exists>i. unat i < length (ss_acquired st) \<and> \<not> ss_acquired st ! unat i \<and>
     check_required_tape st i required = Inr () \<and>
     st' = st\<lparr>ss_acquired := (ss_acquired st)[unat i := True]\<rparr> \<and> ad_drive_id resp = drive_id_string i \<and>
     (\<exists>d. vtl_drive (ss_library st) (drive_address i) = Inr d \<and> ad_current_tape resp = element_tape_id d)"
proof -
  obtain i where i: "choose_drive st preferred required = Some (Inr i)"
    using assms by (auto simp: acquire_locked_def split: option.splits sum.splits)
  have "unat i < length (ss_acquired st)" "\<not> ss_acquired st ! unat i"
    "check_required_tape st i required = Inr ()"
    using assms i by (auto simp: acquire_locked_def split: sum.splits if_splits)
  moreover obtain d where "vtl_drive (ss_library st) (drive_address i) = Inr d"
    using assms i calculation by (auto simp: acquire_locked_def vtl_map_err_def Let_def split: sum.splits)
  ultimately show ?thesis
    using assms i by (intro exI [of _ i]) (auto simp: acquire_locked_def vtl_map_err_def Let_def)
qed

text \<open>
  A call of the backend by anyone, except for a release of one drive, under whatever spelling of
  its id.
\<close>

inductive step_without_release :: "string \<Rightarrow> simulator_tape_backend \<Rightarrow> simulator_tape_backend \<Rightarrow> bool" for held_id where
  "step_without_release held_id b (snd (sim_list_drives b))"
| "step_without_release held_id b (snd (sim_get_drive_status d b))"
| "step_without_release held_id b (snd (sim_acquire_drive p q b))"
| "parse_drive_id d \<noteq> parse_drive_id held_id \<Longrightarrow> step_without_release held_id b (snd (sim_release_drive d b))"
| "step_without_release held_id b (snd (sim_load_tape t d s b))"
| "step_without_release held_id b (snd (sim_unload_tape d s b))"
| "step_without_release held_id b (snd (sim_rewind d b))"
| "step_without_release held_id b (snd (sim_seek_to_filemark d n b))"
| "step_without_release held_id b (snd (sim_get_tape_media_status d b))"
| "step_without_release held_id b (snd (sim_inventory b))"
| "step_without_release held_id b (snd (sim_write_bundle d x b))"
| "step_without_release held_id b (snd (sim_read_bundle d n l b))"

definition held :: "u32 \<Rightarrow> simulator_tape_backend \<Rightarrow> bool" where
  "held i b \<longleftrightarrow> wf_backend b \<and> unat i < length (ss_acquired (sb_state b)) \<and> ss_acquired (sb_state b) ! unat i"

lemma step_without_release_sim_step: "step_without_release d b b' \<Longrightarrow> sim_step b b'"
  by (induction rule: step_without_release.induct) (auto intro: sim_step.intros)

lemma with_lock_acquired:
  assumes "\<And>st r st'. body st = Some (r, st') \<Longrightarrow> ss_acquired st' = ss_acquired st"
  shows "ss_acquired (sb_state (snd (with_lock body b))) = ss_acquired (sb_state b)"
  using assms by (auto simp: with_lock_def split: option.splits prod.splits)

lemma on_library_acquired: "ss_acquired (snd (on_library f st)) = ss_acquired st"
  by (simp add: on_library_def split: prod.splits)

lemma on_library_acquiredD: "on_library f st = (r, st') \<Longrightarrow> ss_acquired st' = ss_acquired st"
  using on_library_acquired [of f st] by simp

lemma seek_locked_acquired: "seek_locked a n st = (r, st') \<Longrightarrow> ss_acquired st' = ss_acquired st"
  by (auto simp: seek_locked_def split: prod.splits sum.splits if_splits dest!: on_library_acquiredD)

lemma library_calls_acquired:
  "ss_acquired (sb_state (snd (sim_load_tape t d s b))) = ss_acquired (sb_state b)"
  "ss_acquired (sb_state (snd (sim_unload_tape d s b))) = ss_acquired (sb_state b)"
  "ss_acquired (sb_state (snd (sim_rewind d b))) = ss_acquired (sb_state b)"
  "ss_acquired (sb_state (snd (sim_seek_to_filemark d n b))) = ss_acquired (sb_state b)"
  "ss_acquired (sb_state (snd (sim_write_bundle d x b))) = ss_acquired (sb_state b)"
  "ss_acquired (sb_state (snd (sim_read_bundle d n l b))) = ss_acquired (sb_state b)"
  unfolding sim_load_tape_def sim_unload_tape_def sim_rewind_def sim_seek_to_filemark_def sim_write_bundle_def
    sim_read_bundle_def
  by (auto simp: load_locked_def unload_locked_def write_bundle_locked_def read_bundle_locked_def Let_def
      intro!: with_lock_acquired split: sum.splits option.splits if_splits prod.splits
      dest!: on_library_acquiredD seek_locked_acquired)

lemma status_calls_acquired:
  "ss_acquired (sb_state (snd (sim_list_drives b))) = ss_acquired (sb_state b)"
  "ss_acquired (sb_state (snd (sim_get_drive_status d b))) = ss_acquired (sb_state b)"
  "ss_acquired (sb_state (snd (sim_get_tape_media_status d b))) = ss_acquired (sb_state b)"
  "ss_acquired (sb_state (snd (sim_inventory b))) = ss_acquired (sb_state b)"
  unfolding sim_list_drives_def sim_get_drive_status_def sim_get_tape_media_status_def sim_inventory_def
  by (rule with_lock_acquired; simp)+

lemma acquire_locked_acquired:
  "acquire_locked p q st = Some (r, st') \<Longrightarrow> ss_acquired st' = ss_acquired st \<or> (\<exists>j. ss_acquired st' = (ss_acquired st)[j := True])"
  by (auto simp: acquire_locked_def Let_def split: option.splits sum.splits if_splits)

lemma list_update_True: "xs ! i \<Longrightarrow> xs[j := True] ! i"
  by (cases "j < length xs") (auto simp: nth_list_update list_update_beyond)

lemma acquire_held: "held i b \<Longrightarrow> ss_acquired (sb_state (snd (sim_acquire_drive p q b))) ! unat i"
  by (auto simp: held_def sim_acquire_drive_def with_lock_def list_update_True split: option.splits
      dest!: acquire_locked_acquired)

lemma drive_index_parse: "drive_index st d = Inr j \<Longrightarrow> parse_drive_id d = Inr (drive_address j)"
  by (auto simp: drive_index_def parse_drive_id_def drive_address_def Let_def split: sum.splits option.splits)

lemma release_held:
  assumes "held i b" and "parse_drive_id d \<noteq> Inr (drive_address i)"
  shows "ss_acquired (sb_state (snd (sim_release_drive d b))) ! unat i"
  using assms by (auto simp: held_def sim_release_drive_def with_lock_def nth_list_update word_unat_eq_iff [symmetric]
      split: sum.splits dest: drive_index_parse)

lemma held_step:
  assumes "step_without_release (drive_id_string i) b b'" and "held i b"
  shows "held i b'"
proof -
  have wf: "wf_backend b'" using wf_sim_step [OF step_without_release_sim_step [OF assms(1)]] assms(2) by (simp add: held_def)
  have "ss_acquired (sb_state b') ! unat i"
    using assms by cases (simp_all add: library_calls_acquired status_calls_acquired acquire_held release_held,
      simp_all add: held_def)
  moreover have "length (ss_acquired (sb_state b')) = length (ss_acquired (sb_state b))"
    using assms(1) by cases (auto simp: library_calls_acquired status_calls_acquired sim_acquire_drive_def
      sim_release_drive_def with_lock_def split: option.splits sum.splits if_splits dest!: acquire_locked_acquired)
  ultimately show ?thesis using wf assms(2) by (simp add: held_def)
qed

lemma held_drive_index:
  assumes "held i b" and "parse_drive_id d = Inr (drive_address i)"
  shows "drive_index (sb_state b) d = Inr i"
  using assms by (simp add: held_def wf_backend_def wf_sim_def drive_index_def vtl_map_err_def vtl_drive_wf)
    (simp add: drive_address_def)

lemma held_history: "(step_without_release (drive_id_string i))\<^sup>*\<^sup>* b b' \<Longrightarrow> held i b \<Longrightarrow> held i b'"
  by (induction rule: rtranclp_induct) (auto intro: held_step)

lemma held_refused:
  assumes "held i b" and "parse_drive_id d = Inr (drive_address i)"
  shows "sim_acquire_drive (Some d) q b =
    (Some (Inl (Status FailedPrecondition (''drive '' @ drive_id_string i @ '' is already acquired''))), b)"
  using assms held_drive_index [OF assms]
  by (simp add: held_def wf_backend_def sim_acquire_drive_def with_lock_def acquire_locked_def choose_drive_def)

lemma held_not_granted:
  assumes "held i b" and "fst (sim_acquire_drive p q b) = Some (Inr resp)"
  shows "ad_drive_id resp \<noteq> drive_id_string i"
proof -
  obtain st' where "acquire_locked p q (sb_state b) = Some (Inr resp, st')"
    using assms by (auto simp: held_def wf_backend_def sim_acquire_drive_def with_lock_def split: option.splits)
  from acquire_locked_Inr [OF this] obtain j where j: "\<not> ss_acquired (sb_state b) ! unat j" "ad_drive_id resp = drive_id_string j"
    by blast
  show ?thesis
  proof
    assume "ad_drive_id resp = drive_id_string i"
    then have "parse_drive_id (drive_id_string j) = parse_drive_id (drive_id_string i)" using j(2) by simp
    then have "j = i" by (simp add: drive_address_def)
    with j(1) assms(1) show False by (simp add: held_def)
  qed
qed

lemma held_released:
  assumes "held i b"
  shows "\<exists>b' resp. sim_release_drive (drive_id_string i) b = (Some (Inr ()), b') \<and>
    fst (sim_acquire_drive (Some (drive_id_string i)) None b') = Some (Inr resp) \<and> ad_drive_id resp = drive_id_string i"
  using assms held_drive_index [OF assms parse_drive_id_string]
  by (simp add: held_def wf_backend_def wf_sim_def sim_release_drive_def sim_acquire_drive_def with_lock_def
      acquire_locked_def choose_drive_def drive_index_def check_required_tape_def vtl_map_err_def vtl_drive_wf)

lemma acquire_holds:
  assumes "wf_backend b" and "sim_acquire_drive preferred required b = (Some (Inr resp), b')"
  shows "\<exists>i. ad_drive_id resp = drive_id_string i \<and> held i b' \<and> sim_release_drive (drive_id_string i) b' = (Some (Inr ()), b) \<and>
    (\<forall>t. required = Some t \<longrightarrow> ad_current_tape resp = Some t)"
proof -
  have wf: "wf_sim (sb_state b)" "\<not> sb_poisoned b" using assms(1) by (simp_all add: wf_backend_def)
  obtain i d where i: "unat i < length (ss_acquired (sb_state b))" "\<not> ss_acquired (sb_state b) ! unat i"
    "check_required_tape (sb_state b) i required = Inr ()"
    "b' = b\<lparr>sb_state := (sb_state b)\<lparr>ss_acquired := (ss_acquired (sb_state b))[unat i := True]\<rparr>\<rparr>"
    "ad_drive_id resp = drive_id_string i"
    and d: "vtl_drive (ss_library (sb_state b)) (drive_address i) = Inr d" "ad_current_tape resp = element_tape_id d"
    using acquire_locked_Inr [of preferred required "sb_state b"] assms(2) wf
    by (auto simp: sim_acquire_drive_def with_lock_def split: option.splits)
  have "wf_backend b'" using sim_calls_return(3) [OF assms(1)] assms(2) by (metis returns_wf_def snd_conv)
  then have h: "held i b'" using i(1,4) by (simp add: held_def)
  have "(ss_acquired (sb_state b))[unat i := False] = ss_acquired (sb_state b)" using i(2) by (metis list_update_id)
  with h i(1,4) wf(2) held_drive_index [OF h parse_drive_id_string]
  have "sim_release_drive (drive_id_string i) b' = (Some (Inr ()), b)"
    by (simp add: sim_release_drive_def with_lock_def)
  moreover have "\<forall>t. required = Some t \<longrightarrow> ad_current_tape resp = Some t"
    using i(3) d by (auto simp: check_required_tape_def vtl_map_err_def split: if_splits)
  ultimately show ?thesis using i(5) h by blast
qed

lemma collect_data_chunks:
  "collect_data x (map (\<lambda>c. Inr (Some (WriteData c))) chunks) = Inr (x @ concat chunks)"
  by (induction chunks arbitrary: x) auto

section \<open>Properties of the tape worker\<close>

lemma default_backend_facts:
  "wf_backend default_backend" "drive_bundles default_backend (drive_id_string 0) = Some []"
  "drive_at_end default_backend (drive_id_string 0)"
proof -
  show "wf_backend default_backend"
    using wf_from_config [of tape_config_default default_backend] from_config_default by simp
  have "drive_tape default_backend (drive_id_string 0) =
      Some (drive_address 0, virtual_tape_new (TapeBarcode default_scheduler_tape_id))"
    by (simp add: drive_tape_def tape_in_def loaded_tape_def default_backend_def vtl_drive_def
        ensure_drive_def drive_address_def)
  then show "drive_bundles default_backend (drive_id_string 0) = Some []"
    "drive_at_end default_backend (drive_id_string 0)"
    by (simp_all add: drive_bundles_def drive_at_end_def virtual_tape_new_def cursor_default_def
        default_backend_def drive_address_def)
qed



text \<open>
  A bundle written right after another bundle of the same tape was read
  overwrites everything behind the bundle read: the later bundles are gone from the tape,
  and the filemark that is returned, the drive's counter, is not where the new bundle lies.
\<close>

theorem write_after_read_truncates:
  assumes "wf_backend b" and "drive_bundles b d = Some ds" and "drive_at_end b d"
    and "unat n < length ds" and "length (ds ! unat n) < usize_MAX"
  shows "\<exists>b1 b2. sim_read_bundle d n 0 b = (Some (Inr (ds ! unat n)), b1) \<and>
     sim_write_bundle d x b1 = (Some (Inr (of_nat (length ds), of_nat (length ds) + 1)), b2) \<and>
     drive_bundles b2 d = Some (take (unat n + 1) ds @ [x])"
proof -
  obtain a t where at: "parse_drive_id d = Inr a" "loaded_tape (ss_library (sb_state b)) a = Inr t"
    "vt_records t = bundle_records ds"
    using assms(2) by (rule drive_bundlesD)
  have "length (ds ! unat n) < read_max_len 0" using assms(5) by (simp add: read_max_len_def)
  then obtain t1 t2 where t: "tape_seek_filemark (tape_rewind t) n = (True, t1)"
    "tape_read t1 (read_max_len 0) = Some (ds ! unat n, t2)" "vt_records t2 = bundle_records ds"
    "record_index (vt_cursor t2) = 2 * (unat n + 1)"
    using bundle_seek_read_whole [OF at(3) assms(4) read_max_len_bound] by blast
  have wf: "\<not> sb_poisoned b" "wf_sim (sb_state b)" using assms(1) by (simp_all add: wf_backend_def)
  define b1 where "b1 = b\<lparr>sb_state := (sb_state b)\<lparr>ss_library := set_loaded_tape a t2 (ss_library (sb_state b))\<rparr>\<rparr>"
  have rd: "sim_read_bundle d n 0 b = (Some (Inr (ds ! unat n)), b1)"
    using at wf t by (simp add: sim_read_bundle_def with_lock_def read_bundle_locked_loaded b1_def)
  have "wf_backend b1" using sim_calls_return(12) [OF assms(1), of d n 0] rd by (simp add: returns_wf_def)
  then have wf1: "\<not> sb_poisoned b1" "wf_sim (sb_state b1)" by (simp_all add: wf_backend_def)
  have ld: "loaded_tape (ss_library (sb_state b1)) a = Inr t2" using at(2) by (simp add: b1_def)
  have next1: "ss_next_filemark (sb_state b1) ! unat (ea_index a) = of_nat (length ds)"
    using assms(3) at by (simp add: b1_def drive_at_end_def drive_tape_def tape_in_def)
  have "take (2 * (unat n + 1)) (bundle_records ds) = bundle_records (take (unat n + 1) ds)"
    using take_bundle_records [of "unat n + 1" ds] assms(4) by simp
  with at wf1 ld next1 t(3,4) rd show ?thesis
    by (simp add: sim_write_bundle_def with_lock_def write_bundle_locked_loaded Let_def drive_bundles_def
        drive_tape_def tape_in_def bundles_of_bundle_records flip: bundle_records_snoc)
qed

theorem write_after_read_truncates_witness:
  "\<exists>b. wf_backend b \<and> drive_bundles b (drive_id_string 0) = Some [[1], [2], [3]] \<and>
     (\<exists>b1 b2. sim_read_bundle (drive_id_string 0) 0 0 b = (Some (Inr [1]), b1) \<and>
        sim_write_bundle (drive_id_string 0) [9] b1 = (Some (Inr (3, 4)), b2) \<and>
        drive_bundles b2 (drive_id_string 0) = Some [[1], [9]])"
proof -
  let ?d = "drive_id_string 0"
  obtain b1 where b1: "wf_backend b1" "drive_bundles b1 ?d = Some [[1]]" "drive_at_end b1 ?d"
    using sim_write_law [OF default_backend_facts, of "[1]"] by auto
  obtain b2 where b2: "wf_backend b2" "drive_bundles b2 ?d = Some [[1], [2]]" "drive_at_end b2 ?d"
    using sim_write_law [OF b1, of "[2]"] by auto
  obtain b3 where b3: "wf_backend b3" "drive_bundles b3 ?d = Some [[1], [2], [3]]" "drive_at_end b3 ?d"
    using sim_write_law [OF b2, of "[3]"] by auto
  show ?thesis
    using write_after_read_truncates [OF b3, of 0 "[9]"] b3 by (auto simp: usize_MAX_def)
qed

text \<open>
  C9 (safety). A tape worker built from any configuration, after any sequence of backend
  calls, has an unpoisoned mutex, and its next call returns instead of panicking: every
  index into the vectors of the drives is in range, and no read overflows.
\<close>

theorem simulator_never_panics:
  assumes "from_config config = Some (Inr b0)" and "sim_step\<^sup>*\<^sup>* b0 b"
  shows "\<not> sb_poisoned b \<and> fst (sim_write_bundle d x b) \<noteq> None \<and> fst (sim_read_bundle d n len b) \<noteq> None \<and>
     fst (sim_acquire_drive p q b) \<noteq> None \<and> fst (sim_release_drive d b) \<noteq> None"
proof -
  have "wf_backend b"
    using assms(2) wf_from_config [of config b0] assms(1)
    by (induction rule: rtranclp_induct) (auto intro: wf_sim_step)
  then show ?thesis
    using sim_calls_return(3,4,11,12) [of b] by (auto simp: returns_wf_def wf_backend_def)
qed

theorem simulator_never_panics_witness:
  "from_config tape_config_default = Some (Inr default_backend) \<and>
   sim_step\<^sup>*\<^sup>* default_backend (snd (sim_acquire_drive None None default_backend)) \<and>
   \<not> sb_poisoned (snd (sim_acquire_drive None None default_backend))"
proof -
  have "sim_step\<^sup>*\<^sup>* default_backend (snd (sim_acquire_drive None None default_backend))"
    by (blast intro: sim_step.intros)
  with simulator_never_panics [OF from_config_default this] show ?thesis
    by (simp add: from_config_default)
qed

text \<open>
  C10 (safety). A drive that was acquired is held exclusively. It holds the required tape when one
  was asked for, and a release gives the backend back as it was. Whatever calls follow that are
  not a release of this drive, no acquisition, with or without a preferred drive or a required
  tape, is granted it; one that names the drive is refused and changes nothing; and once it is
  released the drive can be acquired again.
\<close>

theorem acquired_drive_is_exclusive:
  assumes "wf_backend b" and "sim_acquire_drive preferred required b = (Some (Inr resp), b0)"
    and "(step_without_release (ad_drive_id resp))\<^sup>*\<^sup>* b0 b1"
  shows "(\<forall>t. required = Some t \<longrightarrow> ad_current_tape resp = Some t) \<and>
     sim_release_drive (ad_drive_id resp) b0 = (Some (Inr ()), b) \<and>
     (\<forall>p q resp'. fst (sim_acquire_drive p q b1) = Some (Inr resp') \<longrightarrow> ad_drive_id resp' \<noteq> ad_drive_id resp) \<and>
     (\<forall>d q. parse_drive_id d = parse_drive_id (ad_drive_id resp) \<longrightarrow> sim_acquire_drive (Some d) q b1 =
       (Some (Inl (Status FailedPrecondition (''drive '' @ ad_drive_id resp @ '' is already acquired''))), b1)) \<and>
     (\<exists>b2 resp2. sim_release_drive (ad_drive_id resp) b1 = (Some (Inr ()), b2) \<and>
       fst (sim_acquire_drive (Some (ad_drive_id resp)) None b2) = Some (Inr resp2) \<and>
       ad_drive_id resp2 = ad_drive_id resp)"
proof -
  obtain i where i: "ad_drive_id resp = drive_id_string i" "held i b0"
    "sim_release_drive (drive_id_string i) b0 = (Some (Inr ()), b)"
    "\<forall>t. required = Some t \<longrightarrow> ad_current_tape resp = Some t"
    using acquire_holds [OF assms(1,2)] by blast
  have "held i b1" using held_history [OF assms(3) [unfolded i(1)] i(2)] .
  with i show ?thesis
    using held_not_granted held_refused held_released by simp
qed

lemma zero_drive: "parse_drive_id ''0'' = Inr (drive_address 0)"
  by (simp add: parse_drive_id_def strip_prefix_def starts_with_def parse_u32_def parse_unsigned_def is_ascii_digit_def
      digits_val_def digit_val_def)

theorem acquired_drive_is_exclusive_witness:
  "\<exists>resp b0 b1. sim_acquire_drive None (Some default_scheduler_tape_id) default_backend = (Some (Inr resp), b0) \<and>
     ad_drive_id resp = drive_id_string 0 \<and> b1 = snd (sim_write_bundle (drive_id_string 0) [1] b0) \<and>
     fst (sim_acquire_drive (Some ''0'') None b1) =
       Some (Inl (Status FailedPrecondition (''drive '' @ drive_id_string 0 @ '' is already acquired'')))"
proof -
  let ?resp = "\<lparr>ad_drive_id = drive_id_string 0, ad_current_tape = Some default_scheduler_tape_id\<rparr>"
    and ?b0 = "default_backend\<lparr>sb_state := (sb_state default_backend)\<lparr>ss_acquired := [True]\<rparr>\<rparr>"
  have acq: "sim_acquire_drive None (Some default_scheduler_tape_id) default_backend = (Some (Inr ?resp), ?b0)"
    by (simp add: sim_acquire_drive_def with_lock_def acquire_locked_def choose_drive_def default_backend_def
        check_required_tape_def vtl_map_err_def vtl_drive_def ensure_drive_def drive_address_def
        element_tape_id_def element_barcode_def virtual_tape_new_def)
  have "(step_without_release (ad_drive_id ?resp))\<^sup>*\<^sup>* ?b0 (snd (sim_write_bundle (drive_id_string 0) [1] ?b0))"
    by (rule r_into_rtranclp) (rule step_without_release.intros)
  from acquired_drive_is_exclusive [OF default_backend_facts(1) acq this] acq show ?thesis
    by (auto simp: zero_drive)
qed

text \<open>
  C12 (functional). How a bundle is cut into data messages does not matter: two streams
  with the same metadata and the same bytes have the same response and the same effect.
\<close>

theorem write_stream_chunking_irrelevant:
  assumes "concat chunks = concat chunks'"
  shows "write_bundle_from_messages backend (Inr (Some (WriteMeta m)) # map (\<lambda>c. Inr (Some (WriteData c))) chunks) b =
     write_bundle_from_messages backend (Inr (Some (WriteMeta m)) # map (\<lambda>c. Inr (Some (WriteData c))) chunks') b"
  using assms by (simp add: write_bundle_from_messages_def collect_data_chunks)

theorem write_stream_chunking_irrelevant_witness:
  "concat [[1, 2], [], [3 :: u8]] = concat [[1], [2, 3]] \<and>
   write_bundle_from_messages simulator_backend
     (Inr (Some (WriteMeta \<lparr>wm_drive_id = ''drive-0'', wm_bundle_id = ''b'', wm_total_size = 3,
        wm_object_count = 1, wm_block_size = 4096\<rparr>)) # map (\<lambda>c. Inr (Some (WriteData c))) [[1, 2], [], [3]]) default_backend =
   write_bundle_from_messages simulator_backend
     (Inr (Some (WriteMeta \<lparr>wm_drive_id = ''drive-0'', wm_bundle_id = ''b'', wm_total_size = 3,
        wm_object_count = 1, wm_block_size = 4096\<rparr>)) # map (\<lambda>c. Inr (Some (WriteData c))) [[1], [2, 3]]) default_backend"
  using write_stream_chunking_irrelevant [of "[[1, 2], [], [3]]" "[[1], [2, 3]]"] by simp

text \<open>
  A stream that is empty, breaks off with a transport error, lacks or
  repeats its metadata, has an empty message, or whose bytes do not add up to the announced
  size is refused with that error, and no byte of it reaches the tape.
\<close>

theorem refused_stream_writes_nothing:
  "(case write_bundle_meta_of ms of
      Inl e \<Rightarrow> write_bundle_from_messages backend ms b = (Some (Inl e), b)
    | Inr (m, rest) \<Rightarrow>
        (case collect_data [] rest of
           Inl e \<Rightarrow> write_bundle_from_messages backend ms b = (Some (Inl e), b)
         | Inr x \<Rightarrow>
             (wm_total_size m = len_u64 x) \<or>
             (\<exists>msg. write_bundle_from_messages backend ms b = (Some (Inl (Status InvalidArgument msg)), b))))"
  by (auto simp: write_bundle_from_messages_def split: sum.splits)

end
