(* ===== verification/Metadata_State.thy ===== *)
theory Metadata_State
  imports Common_Proto
begin

text \<open>
  The replicated state machine of the metadata service
  (\<open>crates/metadata/src/command.rs\<close> and the command half of \<open>state_machine.rs\<close>): nine tables
  and the twenty-four commands that change them. Each arm of \<open>apply_command\<close> is a
  definition of its own; it takes the reading of the clock, \<open>now\<close>, which the code reads at
  most once per command, and returns the result together with the state it leaves, so that
  what a refused command has already changed would show.

  The lemmas give the invariant of the tables and that every command keeps it, that a
  refused command changes nothing, the transitions the status fields can take, and the
  effect of the commands that the scheduler relies on.
\<close>

section \<open>Requests and commands\<close>

record delete_object_request =
  dor_bucket :: string
  dor_key :: string

record update_storage_class_request =
  usc_bucket :: string
  usc_key :: string
  usc_storage_class :: i32

record update_archive_location_request =
  ual_bucket :: string
  ual_key :: string
  ual_archive_id :: string
  ual_tape_id :: string
  ual_tape_set :: "string list"
  ual_tape_block_offset :: u64

record complete_archive_object_request =
  cao_bucket :: string
  cao_key :: string
  cao_version_id :: "string option"
  cao_expected_size :: "u64 option"
  cao_expected_checksum :: "string option"
  cao_expected_storage_class :: "i32 option"
  cao_expected_updated_at :: "timestamp option"
  cao_bundle :: "archive_bundle option"
  cao_tape_block_offset :: u64
  cao_storage_class :: i32

record update_restore_status_request =
  urs_bucket :: string
  urs_key :: string
  urs_status :: i32
  urs_expire_at :: "timestamp option"

record update_archive_bundle_status_request =
  ubs_id :: string
  ubs_status :: i32

record update_worker_status_request =
  uws_worker_type :: i32
  uws_node_id :: u64
  uws_status :: i32

datatype heartbeat_payload =
    SchedulerHeartbeat (hb_pending_archive_tasks: u64) (hb_pending_recall_tasks: u64) (hb_active_jobs: u64)
  | CacheHeartbeat (hb_used_capacity: u64) (hb_blob_count: u64)
  | TapeHeartbeat (hb_drives: "drive_endpoint list")

record heartbeat_request =
  hb_worker_type :: i32
  hb_node_id :: u64
  hb_payload :: "heartbeat_payload option"

text \<open>Requests with one field, such as \<open>DeleteBucketRequest\<close>, are that field.\<close>

datatype metadata_command =
    PutObject object_metadata
  | DeleteObject delete_object_request
  | UpdateStorageClass update_storage_class_request
  | UpdateArchiveLocation update_archive_location_request
  | CompleteArchiveObject complete_archive_object_request
  | UpdateRestoreStatus update_restore_status_request
  | CreateBucket bucket_info
  | DeleteBucket string
  | PutArchiveBundle archive_bundle
  | UpdateArchiveBundleStatus update_archive_bundle_status_request
  | PutArchiveTask archive_task
  | UpdateArchiveTask archive_task
  | PutRecallTask recall_task
  | UpdateRecallTask recall_task
  | PutTape tape_info
  | UpdateTape tape_info
  | RegisterSchedulerWorker scheduler_worker_info
  | DeregisterSchedulerWorker u64
  | RegisterCacheWorker cache_worker_info
  | DeregisterCacheWorker u64
  | RegisterTapeWorker tape_worker_info
  | DeregisterTapeWorker u64
  | UpdateWorkerStatus update_worker_status_request
  | Heartbeat heartbeat_request

section \<open>The state\<close>

type_synonym object_key = "string \<times> string \<times> string option"

definition key_of_object :: "object_metadata \<Rightarrow> object_key" where
  "key_of_object ob = (om_bucket ob, om_key ob, om_version_id ob)"

record metadata_state =
  ms_objects :: "(object_key, object_metadata) hashmap"
  ms_buckets :: "(string, bucket_info) hashmap"
  ms_archive_bundles :: "(string, archive_bundle) hashmap"
  ms_archive_tasks :: "(string, archive_task) hashmap"
  ms_recall_tasks :: "(string, recall_task) hashmap"
  ms_tapes :: "(string, tape_info) hashmap"
  ms_scheduler_workers :: "(u64, scheduler_worker_info) hashmap"
  ms_cache_workers :: "(u64, cache_worker_info) hashmap"
  ms_tape_workers :: "(u64, tape_worker_info) hashmap"

definition metadata_state_default :: metadata_state where
  "metadata_state_default =
     \<lparr>ms_objects = [], ms_buckets = [], ms_archive_bundles = [], ms_archive_tasks = [],
      ms_recall_tasks = [], ms_tapes = [], ms_scheduler_workers = [], ms_cache_workers = [],
      ms_tape_workers = []\<rparr>"

definition metadata_is_empty :: "metadata_state \<Rightarrow> bool" where
  "metadata_is_empty st \<longleftrightarrow>
     ms_objects st = [] \<and> ms_buckets st = [] \<and> ms_archive_bundles st = [] \<and>
     ms_archive_tasks st = [] \<and> ms_recall_tasks st = [] \<and> ms_tapes st = [] \<and>
     ms_scheduler_workers st = [] \<and> ms_cache_workers st = [] \<and> ms_tape_workers st = []"

type_synonym applied = "unit result \<times> metadata_state"

section \<open>Looking objects up\<close>

definition timestamp_sort_key :: "timestamp option \<Rightarrow> i64 \<times> i32" where
  "timestamp_sort_key t = (case t of None \<Rightarrow> (0, 0) | Some t \<Rightarrow> (ts_seconds t, ts_nanos t))"

definition find_object :: "metadata_state \<Rightarrow> string \<Rightarrow> string \<Rightarrow> string option \<Rightarrow> object_metadata result" where
  "find_object st bucket key version_id =
     (case version_id of
        Some v \<Rightarrow>
          (case hm_get (ms_objects st) (bucket, key, Some v) of
             None \<Rightarrow> Inl (Status NotFound ''object version not found'')
           | Some ob \<Rightarrow> Inr ob)
      | None \<Rightarrow>
          (case max_by_last (\<lambda>(k, ob). timestamp_sort_key (om_updated_at ob))
                  (filter (\<lambda>((b, k, v), ob). b = bucket \<and> k = key) (ms_objects st)) of
             None \<Rightarrow> Inl (Status NotFound ''object not found'')
           | Some (k, ob) \<Rightarrow> Inr ob))"

text \<open>\<open>find_object_mut\<close>: the key of the entry that the returned reference points to.\<close>

definition find_object_mut :: "metadata_state \<Rightarrow> string \<Rightarrow> string \<Rightarrow> string option \<Rightarrow> object_key result" where
  "find_object_mut st bucket key version_id =
     (case version_id of
        Some v \<Rightarrow>
          if hm_contains_key (ms_objects st) (bucket, key, Some v) then Inr (bucket, key, Some v)
          else Inl (Status NotFound ''object version not found'')
      | None \<Rightarrow>
          (case max_by_last
                  (\<lambda>k. case hm_get (ms_objects st) k of
                         None \<Rightarrow> (0, 0) | Some ob \<Rightarrow> timestamp_sort_key (om_updated_at ob))
                  (filter (\<lambda>(b, k, v). b = bucket \<and> k = key) (hm_keys (ms_objects st))) of
             None \<Rightarrow> Inl (Status NotFound ''object not found'')
           | Some selected \<Rightarrow>
               if hm_contains_key (ms_objects st) selected then Inr selected
               else Inl (Status NotFound ''object not found'')))"

definition modify_object :: "object_key \<Rightarrow> (object_metadata \<Rightarrow> object_metadata) \<Rightarrow> metadata_state \<Rightarrow> metadata_state" where
  "modify_object k f st = st\<lparr>ms_objects := hm_modify k f (ms_objects st)\<rparr>"

definition bucket_objects :: "metadata_state \<Rightarrow> string \<Rightarrow> object_metadata list" where
  "bucket_objects st name = filter (\<lambda>ob. om_bucket ob = name) (hm_values (ms_objects st))"

definition refresh_bucket_stats :: "string \<Rightarrow> metadata_state \<Rightarrow> metadata_state" where
  "refresh_bucket_stats name st =
     (let (n, total) = foldl (\<lambda>(n, total) ob. (n + 1, total + om_size ob)) (0, 0) (bucket_objects st name)
      in st\<lparr>ms_buckets :=
           hm_modify name (\<lambda>b. b\<lparr>bi_object_count := n, bi_total_size := total\<rparr>) (ms_buckets st)\<rparr>)"

section \<open>Status transitions\<close>

definition validate_complete_archive_preconditions ::
  "object_metadata \<Rightarrow> complete_archive_object_request \<Rightarrow> unit result" where
  "validate_complete_archive_preconditions ob req =
     (if om_version_id ob \<noteq> cao_version_id req
      then Inl (Status FailedPrecondition ''object version changed before archive completion'')
      else case cao_expected_size req of
        None \<Rightarrow> Inl (Status FailedPrecondition ''archive completion requires expected_size precondition'')
      | Some sz \<Rightarrow>
          if om_size ob \<noteq> sz
          then Inl (Status FailedPrecondition ''object size changed before archive completion'')
          else case cao_expected_checksum req of
            None \<Rightarrow> Inl (Status FailedPrecondition ''archive completion requires expected_checksum precondition'')
          | Some checksum \<Rightarrow>
              if om_checksum ob \<noteq> checksum
              then Inl (Status FailedPrecondition ''object checksum changed before archive completion'')
              else case cao_expected_storage_class req of
                None \<Rightarrow> Inl (Status FailedPrecondition
                  ''archive completion requires expected_storage_class precondition'')
              | Some sc \<Rightarrow>
                  if om_storage_class ob \<noteq> sc
                  then Inl (Status FailedPrecondition ''object storage class changed before archive completion'')
                  else if cao_expected_updated_at req = None
                  then Inl (Status FailedPrecondition
                    ''archive completion requires expected_updated_at precondition'')
                  else if om_updated_at ob \<noteq> cao_expected_updated_at req
                  then Inl (Status FailedPrecondition ''object generation changed before archive completion'')
                  else Inr ())"

fun restore_transition_ok :: "restore_status option \<Rightarrow> restore_status \<Rightarrow> bool" where
  "restore_transition_ok None t = True"
| "restore_transition_ok (Some RestorePending) t = (t \<in> {RestoreInProgress, RestoreWaitingForMedia, RestoreFailed})"
| "restore_transition_ok (Some RestoreWaitingForMedia) t = (t \<in> {RestoreInProgress, RestorePending, RestoreFailed})"
| "restore_transition_ok (Some RestoreInProgress) t = (t \<in> {RestoreCompleted, RestoreFailed})"
| "restore_transition_ok (Some RestoreCompleted) t = (t = RestoreExpired)"
| "restore_transition_ok (Some RestoreExpired) t = False"
| "restore_transition_ok (Some RestoreFailed) t = False"
| "restore_transition_ok (Some RestoreUnspecified) t = True"

definition validate_restore_transition :: "i32 option \<Rightarrow> i32 \<Rightarrow> unit result" where
  "validate_restore_transition current next =
     (let current' = (case current of None \<Rightarrow> None | Some v \<Rightarrow> restore_status_try_from v)
      in case restore_status_try_from next of
           None \<Rightarrow> Inl (Status InvalidArgument ''invalid restore status'')
         | Some t \<Rightarrow>
             if restore_transition_ok current' t then Inr ()
             else Inl (Status FailedPrecondition ''invalid restore state transition''))"

fun bundle_transition_ok :: "archive_bundle_status \<Rightarrow> archive_bundle_status \<Rightarrow> bool" where
  "bundle_transition_ok BundlePending t = (t = BundleWriting)"
| "bundle_transition_ok BundleWriting t = (t \<in> {BundleCompleted, BundleFailed})"
| "bundle_transition_ok BundleFailed t = (t = BundlePending)"
| "bundle_transition_ok BundleCompleted t = False"
| "bundle_transition_ok BundleUnspecified t = True"

definition validate_archive_bundle_transition :: "i32 \<Rightarrow> i32 \<Rightarrow> unit result" where
  "validate_archive_bundle_transition current next =
     (case archive_bundle_status_try_from current of
        None \<Rightarrow> Inl (Status InvalidArgument ''invalid archive bundle status'')
      | Some s \<Rightarrow>
          (case archive_bundle_status_try_from next of
             None \<Rightarrow> Inl (Status InvalidArgument ''invalid archive bundle status'')
           | Some t \<Rightarrow>
               if bundle_transition_ok s t then Inr ()
               else Inl (Status FailedPrecondition ''invalid archive bundle state transition'')))"

fun task_transition_ok :: "archive_task_status \<Rightarrow> archive_task_status \<Rightarrow> bool" where
  "task_transition_ok ArchiveTaskPending t = (t = ArchiveTaskInProgress)"
| "task_transition_ok ArchiveTaskInProgress t = (t \<in> {ArchiveTaskCompleted, ArchiveTaskFailed})"
| "task_transition_ok ArchiveTaskFailed t = (t = ArchiveTaskPending)"
| "task_transition_ok ArchiveTaskCompleted t = False"
| "task_transition_ok ArchiveTaskUnspecified t = True"

definition validate_archive_task_transition :: "i32 \<Rightarrow> i32 \<Rightarrow> unit result" where
  "validate_archive_task_transition current next =
     (case archive_task_status_try_from current of
        None \<Rightarrow> Inl (Status InvalidArgument ''invalid archive task status'')
      | Some s \<Rightarrow>
          (case archive_task_status_try_from next of
             None \<Rightarrow> Inl (Status InvalidArgument ''invalid archive task status'')
           | Some t \<Rightarrow>
               if task_transition_ok s t then Inr ()
               else Inl (Status FailedPrecondition ''invalid archive task state transition'')))"

definition is_pending_restore_status :: "i32 \<Rightarrow> bool" where
  "is_pending_restore_status status \<longleftrightarrow>
     restore_status_try_from status \<in> {Some RestorePending, Some RestoreWaitingForMedia}"

definition is_active_restore_status :: "i32 \<Rightarrow> bool" where
  "is_active_restore_status status \<longleftrightarrow>
     restore_status_try_from status \<in>
       {Some RestorePending, Some RestoreWaitingForMedia, Some RestoreInProgress, Some RestoreCompleted}"

definition is_same_archive_task :: "archive_task \<Rightarrow> archive_task \<Rightarrow> bool" where
  "is_same_archive_task existing incoming \<longleftrightarrow>
     at_id existing = at_id incoming \<and> at_bundle_id existing = at_bundle_id incoming \<and>
     at_tape_id existing = at_tape_id incoming \<and> at_drive_id existing = at_drive_id incoming \<and>
     at_object_count existing = at_object_count incoming \<and> at_total_size existing = at_total_size incoming \<and>
     at_bytes_written existing = at_bytes_written incoming \<and> at_status existing = at_status incoming \<and>
     at_retry_count existing = at_retry_count incoming \<and> at_error existing = at_error incoming"

definition is_same_recall_task :: "recall_task \<Rightarrow> recall_task \<Rightarrow> bool" where
  "is_same_recall_task existing incoming \<longleftrightarrow>
     rt_id existing = rt_id incoming \<and> rt_bucket existing = rt_bucket incoming \<and>
     rt_key existing = rt_key incoming \<and> rt_version_id existing = rt_version_id incoming \<and>
     rt_archive_id existing = rt_archive_id incoming \<and> rt_tape_id existing = rt_tape_id incoming \<and>
     rt_tape_set existing = rt_tape_set incoming \<and>
     rt_tape_block_offset existing = rt_tape_block_offset incoming \<and>
     rt_object_size existing = rt_object_size incoming \<and> rt_checksum existing = rt_checksum incoming \<and>
     rt_tier existing = rt_tier incoming \<and> rt_days existing = rt_days incoming \<and>
     rt_status existing = rt_status incoming \<and> rt_drive_id existing = rt_drive_id incoming \<and>
     rt_retry_count existing = rt_retry_count incoming"

section \<open>The commands\<close>

definition stamp_object :: "timestamp \<Rightarrow> object_metadata \<Rightarrow> object_metadata" where
  "stamp_object now ob =
     (if om_created_at ob = None then ob\<lparr>om_created_at := Some now\<rparr> else ob)\<lparr>om_updated_at := Some now\<rparr>"

definition apply_put_object :: "timestamp \<Rightarrow> object_metadata \<Rightarrow> metadata_state \<Rightarrow> applied" where
  "apply_put_object now ob st =
     (if \<not> hm_contains_key (ms_buckets st) (om_bucket ob)
      then (Inl (Status NotFound (''bucket not found: '' @ om_bucket ob)), st)
      else let ob1 = stamp_object now ob
           in (Inr (), refresh_bucket_stats (om_bucket ob1)
                 (st\<lparr>ms_objects := hm_insert (key_of_object ob1) ob1 (ms_objects st)\<rparr>)))"

definition apply_delete_object :: "delete_object_request \<Rightarrow> metadata_state \<Rightarrow> applied" where
  "apply_delete_object req st =
     (let k = (dor_bucket req, dor_key req, None)
      in if hm_get (ms_objects st) k = None then (Inl (Status NotFound ''object not found''), st)
         else (Inr (), refresh_bucket_stats (dor_bucket req)
                (st\<lparr>ms_objects := hm_remove k (ms_objects st)\<rparr>)))"

definition apply_update_storage_class ::
  "timestamp \<Rightarrow> update_storage_class_request \<Rightarrow> metadata_state \<Rightarrow> applied" where
  "apply_update_storage_class now req st =
     (case find_object_mut st (usc_bucket req) (usc_key req) None of
        Inl e \<Rightarrow> (Inl e, st)
      | Inr k \<Rightarrow>
          (Inr (), modify_object k
             (\<lambda>ob. ob\<lparr>om_storage_class := usc_storage_class req, om_updated_at := Some now\<rparr>) st))"

definition apply_update_archive_location ::
  "timestamp \<Rightarrow> update_archive_location_request \<Rightarrow> metadata_state \<Rightarrow> applied" where
  "apply_update_archive_location now req st =
     (case find_object_mut st (ual_bucket req) (ual_key req) None of
        Inl e \<Rightarrow> (Inl e, st)
      | Inr k \<Rightarrow>
          (Inr (), modify_object k
             (\<lambda>ob. ob\<lparr>om_archive_id := Some (ual_archive_id req), om_tape_id := Some (ual_tape_id req),
                      om_tape_set := ual_tape_set req,
                      om_tape_block_offset := Some (ual_tape_block_offset req),
                      om_updated_at := Some now\<rparr>) st))"

definition apply_complete_archive_object ::
  "timestamp \<Rightarrow> complete_archive_object_request \<Rightarrow> metadata_state \<Rightarrow> applied" where
  "apply_complete_archive_object now req st =
     (case cao_bundle req of
        None \<Rightarrow> (Inl (Status InvalidArgument ''missing archive bundle''), st)
      | Some bundle \<Rightarrow>
          if ab_id bundle = [] then (Inl (Status InvalidArgument ''archive bundle id is empty''), st)
          else (case find_object st (cao_bucket req) (cao_key req) (cao_version_id req) of
             Inl e \<Rightarrow> (Inl e, st)
           | Inr ob \<Rightarrow>
               (case validate_complete_archive_preconditions ob req of
                  Inl e \<Rightarrow> (Inl e, st)
                | Inr _ \<Rightarrow>
                    (case (case hm_get (ms_archive_bundles st) (ab_id bundle) of
                             Some existing \<Rightarrow>
                               if existing \<noteq> bundle
                               then Inl (Status AlreadyExists
                                      ''archive bundle already exists with different payload'')
                               else Inr st
                           | None \<Rightarrow>
                               Inr (st\<lparr>ms_archive_bundles :=
                                 hm_insert (ab_id bundle) bundle (ms_archive_bundles st)\<rparr>)) of
                       Inl e \<Rightarrow> (Inl e, st)
                     | Inr st1 \<Rightarrow>
                         (case find_object_mut st1 (cao_bucket req) (cao_key req) (cao_version_id req) of
                            Inl e \<Rightarrow> (Inl e, st1)
                          | Inr k \<Rightarrow>
                              (Inr (), modify_object k
                                 (\<lambda>ob. ob\<lparr>om_archive_id := Some (ab_id bundle),
                                    om_tape_id := Some (ab_tape_id bundle),
                                    om_tape_set := ab_tape_set bundle,
                                    om_tape_block_offset := Some (cao_tape_block_offset req),
                                    om_storage_class := cao_storage_class req,
                                    om_updated_at := Some now\<rparr>) st1))))))"

definition apply_update_restore_status ::
  "timestamp \<Rightarrow> update_restore_status_request \<Rightarrow> metadata_state \<Rightarrow> applied" where
  "apply_update_restore_status now req st =
     (case find_object_mut st (urs_bucket req) (urs_key req) None of
        Inl e \<Rightarrow> (Inl e, st)
      | Inr k \<Rightarrow>
          (case hm_get (ms_objects st) k of
             None \<Rightarrow> (Inl (Status NotFound ''object not found''), st)
           | Some ob \<Rightarrow>
               (case validate_restore_transition (om_restore_status ob) (urs_status req) of
                  Inl e \<Rightarrow> (Inl e, st)
                | Inr _ \<Rightarrow>
                    (Inr (), modify_object k
                       (\<lambda>ob. ob\<lparr>om_restore_status := Some (urs_status req),
                                om_restore_expire_at := urs_expire_at req,
                                om_updated_at := Some now\<rparr>) st))))"

definition apply_create_bucket :: "timestamp \<Rightarrow> bucket_info \<Rightarrow> metadata_state \<Rightarrow> applied" where
  "apply_create_bucket now b st =
     (if hm_contains_key (ms_buckets st) (bi_name b)
      then (Inl (Status AlreadyExists (''bucket already exists: '' @ bi_name b)), st)
      else let b1 = (if bi_created_at b = None then b\<lparr>bi_created_at := Some now\<rparr> else b)
           in (Inr (), st\<lparr>ms_buckets := hm_insert (bi_name b1) b1 (ms_buckets st)\<rparr>))"

definition apply_delete_bucket :: "string \<Rightarrow> metadata_state \<Rightarrow> applied" where
  "apply_delete_bucket name st =
     (if list_ex (\<lambda>ob. om_bucket ob = name) (hm_values (ms_objects st))
      then (Inl (Status FailedPrecondition ''bucket is not empty''), st)
      else if hm_get (ms_buckets st) name = None
      then (Inl (Status NotFound (''bucket not found: '' @ name)), st)
      else (Inr (), st\<lparr>ms_buckets := hm_remove name (ms_buckets st)\<rparr>))"

definition apply_put_archive_bundle :: "timestamp \<Rightarrow> archive_bundle \<Rightarrow> metadata_state \<Rightarrow> applied" where
  "apply_put_archive_bundle now b st =
     (let b1 = (if ab_created_at b = None then b\<lparr>ab_created_at := Some now\<rparr> else b)
      in (Inr (), st\<lparr>ms_archive_bundles := hm_insert (ab_id b1) b1 (ms_archive_bundles st)\<rparr>))"

definition apply_update_archive_bundle_status ::
  "timestamp \<Rightarrow> update_archive_bundle_status_request \<Rightarrow> metadata_state \<Rightarrow> applied" where
  "apply_update_archive_bundle_status now req st =
     (case hm_get (ms_archive_bundles st) (ubs_id req) of
        None \<Rightarrow> (Inl (Status NotFound ''archive bundle not found''), st)
      | Some b \<Rightarrow>
          (case validate_archive_bundle_transition (ab_status b) (ubs_status req) of
             Inl e \<Rightarrow> (Inl e, st)
           | Inr _ \<Rightarrow>
               (Inr (), st\<lparr>ms_archive_bundles := hm_modify (ubs_id req)
                  (\<lambda>b. if ubs_status req = archive_bundle_status_i32 BundleCompleted
                       then b\<lparr>ab_status := ubs_status req, ab_completed_at := Some now\<rparr>
                       else b\<lparr>ab_status := ubs_status req\<rparr>) (ms_archive_bundles st)\<rparr>)))"

definition apply_put_archive_task :: "timestamp \<Rightarrow> archive_task \<Rightarrow> metadata_state \<Rightarrow> applied" where
  "apply_put_archive_task now t st =
     (let t1 = (if at_created_at t = None then t\<lparr>at_created_at := Some now\<rparr> else t)
      in case hm_get (ms_archive_tasks st) (at_id t1) of
           Some existing \<Rightarrow>
             if is_same_archive_task existing t1 then (Inr (), st)
             else (Inl (Status AlreadyExists ''archive task already exists with different payload''), st)
         | None \<Rightarrow> (Inr (), st\<lparr>ms_archive_tasks := hm_insert (at_id t1) t1 (ms_archive_tasks st)\<rparr>))"

definition apply_update_archive_task :: "archive_task \<Rightarrow> metadata_state \<Rightarrow> applied" where
  "apply_update_archive_task t st =
     (case hm_get (ms_archive_tasks st) (at_id t) of
        None \<Rightarrow> (Inl (Status NotFound ''archive task not found''), st)
      | Some current \<Rightarrow>
          (case validate_archive_task_transition (at_status current) (at_status t) of
             Inl e \<Rightarrow> (Inl e, st)
           | Inr _ \<Rightarrow> (Inr (), st\<lparr>ms_archive_tasks := hm_insert (at_id t) t (ms_archive_tasks st)\<rparr>)))"

definition apply_put_recall_task :: "timestamp \<Rightarrow> recall_task \<Rightarrow> metadata_state \<Rightarrow> applied" where
  "apply_put_recall_task now t st =
     (let t1 = (if rt_created_at t = None then t\<lparr>rt_created_at := Some now\<rparr> else t)
      in case hm_get (ms_recall_tasks st) (rt_id t1) of
           Some existing \<Rightarrow>
             if is_same_recall_task existing t1 then (Inr (), st)
             else (Inl (Status AlreadyExists ''recall task already exists with different payload''), st)
         | None \<Rightarrow> (Inr (), st\<lparr>ms_recall_tasks := hm_insert (rt_id t1) t1 (ms_recall_tasks st)\<rparr>))"

definition apply_update_recall_task :: "recall_task \<Rightarrow> metadata_state \<Rightarrow> applied" where
  "apply_update_recall_task t st =
     (case hm_get (ms_recall_tasks st) (rt_id t) of
        None \<Rightarrow> (Inl (Status NotFound ''recall task not found''), st)
      | Some current \<Rightarrow>
          (case validate_restore_transition (Some (rt_status current)) (rt_status t) of
             Inl e \<Rightarrow> (Inl e, st)
           | Inr _ \<Rightarrow> (Inr (), st\<lparr>ms_recall_tasks := hm_insert (rt_id t) t (ms_recall_tasks st)\<rparr>)))"

definition apply_put_tape :: "timestamp \<Rightarrow> tape_info \<Rightarrow> metadata_state \<Rightarrow> applied" where
  "apply_put_tape now t st =
     (let t1 = (if ti_registered_at t = None then t\<lparr>ti_registered_at := Some now\<rparr> else t)
      in (Inr (), st\<lparr>ms_tapes := hm_insert (ti_id t1) t1 (ms_tapes st)\<rparr>))"

definition apply_update_tape :: "tape_info \<Rightarrow> metadata_state \<Rightarrow> applied" where
  "apply_update_tape t st = (Inr (), st\<lparr>ms_tapes := hm_insert (ti_id t) t (ms_tapes st)\<rparr>)"

definition apply_register_scheduler_worker ::
  "timestamp \<Rightarrow> scheduler_worker_info \<Rightarrow> metadata_state \<Rightarrow> applied" where
  "apply_register_scheduler_worker now w st =
     (Inr (), st\<lparr>ms_scheduler_workers :=
        hm_insert (sw_node_id w) (w\<lparr>sw_last_heartbeat := Some now\<rparr>) (ms_scheduler_workers st)\<rparr>)"

definition apply_register_cache_worker :: "timestamp \<Rightarrow> cache_worker_info \<Rightarrow> metadata_state \<Rightarrow> applied" where
  "apply_register_cache_worker now w st =
     (Inr (), st\<lparr>ms_cache_workers :=
        hm_insert (cw_node_id w) (w\<lparr>cw_last_heartbeat := Some now\<rparr>) (ms_cache_workers st)\<rparr>)"

definition apply_register_tape_worker :: "timestamp \<Rightarrow> tape_worker_info \<Rightarrow> metadata_state \<Rightarrow> applied" where
  "apply_register_tape_worker now w st =
     (Inr (), st\<lparr>ms_tape_workers :=
        hm_insert (tw_node_id w) (w\<lparr>tw_last_heartbeat := Some now\<rparr>) (ms_tape_workers st)\<rparr>)"

definition apply_update_worker_status :: "update_worker_status_request \<Rightarrow> metadata_state \<Rightarrow> applied" where
  "apply_update_worker_status req st =
     (let n = uws_node_id req; s = uws_status req; missing = (Inl (Status NotFound ''worker not found''), st)
      in case worker_type_try_from (uws_worker_type req) of
           Some WorkerScheduler \<Rightarrow>
             if hm_contains_key (ms_scheduler_workers st) n
             then (Inr (), st\<lparr>ms_scheduler_workers :=
                     hm_modify n (\<lambda>w. w\<lparr>sw_status := s\<rparr>) (ms_scheduler_workers st)\<rparr>)
             else missing
         | Some WorkerCache \<Rightarrow>
             if hm_contains_key (ms_cache_workers st) n
             then (Inr (), st\<lparr>ms_cache_workers := hm_modify n (\<lambda>w. w\<lparr>cw_status := s\<rparr>) (ms_cache_workers st)\<rparr>)
             else missing
         | Some WorkerTape \<Rightarrow>
             if hm_contains_key (ms_tape_workers st) n
             then (Inr (), st\<lparr>ms_tape_workers := hm_modify n (\<lambda>w. w\<lparr>tw_status := s\<rparr>) (ms_tape_workers st)\<rparr>)
             else missing
         | _ \<Rightarrow> missing)"

definition apply_heartbeat :: "timestamp \<Rightarrow> heartbeat_request \<Rightarrow> metadata_state \<Rightarrow> applied" where
  "apply_heartbeat now req st =
     (let n = hb_node_id req
      in case worker_type_try_from (hb_worker_type req) of
           Some WorkerScheduler \<Rightarrow>
             if \<not> hm_contains_key (ms_scheduler_workers st) n
             then (Inl (Status NotFound ''scheduler worker not found''), st)
             else (Inr (), st\<lparr>ms_scheduler_workers := hm_modify n
                    (\<lambda>w. case hb_payload req of
                           Some (SchedulerHeartbeat pa pr aj) \<Rightarrow>
                             w\<lparr>sw_last_heartbeat := Some now, sw_pending_archive_tasks := pa,
                               sw_pending_recall_tasks := pr, sw_active_jobs := aj\<rparr>
                         | _ \<Rightarrow> w\<lparr>sw_last_heartbeat := Some now\<rparr>) (ms_scheduler_workers st)\<rparr>)
         | Some WorkerCache \<Rightarrow>
             if \<not> hm_contains_key (ms_cache_workers st) n
             then (Inl (Status NotFound ''cache worker not found''), st)
             else (Inr (), st\<lparr>ms_cache_workers := hm_modify n
                    (\<lambda>w. case hb_payload req of
                           Some (CacheHeartbeat used blobs) \<Rightarrow>
                             w\<lparr>cw_last_heartbeat := Some now, cw_used_capacity := used, cw_blob_count := blobs\<rparr>
                         | _ \<Rightarrow> w\<lparr>cw_last_heartbeat := Some now\<rparr>) (ms_cache_workers st)\<rparr>)
         | Some WorkerTape \<Rightarrow>
             if \<not> hm_contains_key (ms_tape_workers st) n
             then (Inl (Status NotFound ''tape worker not found''), st)
             else (Inr (), st\<lparr>ms_tape_workers := hm_modify n
                    (\<lambda>w. case hb_payload req of
                           Some (TapeHeartbeat drives) \<Rightarrow>
                             w\<lparr>tw_last_heartbeat := Some now, tw_drives := drives\<rparr>
                         | _ \<Rightarrow> w\<lparr>tw_last_heartbeat := Some now\<rparr>) (ms_tape_workers st)\<rparr>)
         | _ \<Rightarrow> (Inl (Status InvalidArgument ''unknown worker type''), st))"

fun apply_command :: "timestamp \<Rightarrow> metadata_command \<Rightarrow> metadata_state \<Rightarrow> applied" where
  "apply_command now (PutObject ob) st = apply_put_object now ob st"
| "apply_command now (DeleteObject req) st = apply_delete_object req st"
| "apply_command now (UpdateStorageClass req) st = apply_update_storage_class now req st"
| "apply_command now (UpdateArchiveLocation req) st = apply_update_archive_location now req st"
| "apply_command now (CompleteArchiveObject req) st = apply_complete_archive_object now req st"
| "apply_command now (UpdateRestoreStatus req) st = apply_update_restore_status now req st"
| "apply_command now (CreateBucket b) st = apply_create_bucket now b st"
| "apply_command now (DeleteBucket name) st = apply_delete_bucket name st"
| "apply_command now (PutArchiveBundle b) st = apply_put_archive_bundle now b st"
| "apply_command now (UpdateArchiveBundleStatus req) st = apply_update_archive_bundle_status now req st"
| "apply_command now (PutArchiveTask t) st = apply_put_archive_task now t st"
| "apply_command now (UpdateArchiveTask t) st = apply_update_archive_task t st"
| "apply_command now (PutRecallTask t) st = apply_put_recall_task now t st"
| "apply_command now (UpdateRecallTask t) st = apply_update_recall_task t st"
| "apply_command now (PutTape t) st = apply_put_tape now t st"
| "apply_command now (UpdateTape t) st = apply_update_tape t st"
| "apply_command now (RegisterSchedulerWorker w) st = apply_register_scheduler_worker now w st"
| "apply_command now (DeregisterSchedulerWorker n) st =
     (Inr (), st\<lparr>ms_scheduler_workers := hm_remove n (ms_scheduler_workers st)\<rparr>)"
| "apply_command now (RegisterCacheWorker w) st = apply_register_cache_worker now w st"
| "apply_command now (DeregisterCacheWorker n) st =
     (Inr (), st\<lparr>ms_cache_workers := hm_remove n (ms_cache_workers st)\<rparr>)"
| "apply_command now (RegisterTapeWorker w) st = apply_register_tape_worker now w st"
| "apply_command now (DeregisterTapeWorker n) st =
     (Inr (), st\<lparr>ms_tape_workers := hm_remove n (ms_tape_workers st)\<rparr>)"
| "apply_command now (UpdateWorkerStatus req) st = apply_update_worker_status req st"
| "apply_command now (Heartbeat req) st = apply_heartbeat now req st"

section \<open>The invariant of the tables\<close>

definition wf_meta :: "metadata_state \<Rightarrow> bool" where
  "wf_meta st \<longleftrightarrow>
     keyed key_of_object (ms_objects st) \<and> keyed bi_name (ms_buckets st) \<and>
     keyed ab_id (ms_archive_bundles st) \<and> keyed at_id (ms_archive_tasks st) \<and>
     keyed rt_id (ms_recall_tasks st) \<and> keyed ti_id (ms_tapes st) \<and>
     keyed sw_node_id (ms_scheduler_workers st) \<and> keyed cw_node_id (ms_cache_workers st) \<and>
     keyed tw_node_id (ms_tape_workers st) \<and>
     (\<forall>ob \<in> set (hm_values (ms_objects st)). hm_contains_key (ms_buckets st) (om_bucket ob))"

lemma wf_meta_default [wf_intros]: "wf_meta metadata_state_default"
  by (simp add: wf_meta_def metadata_state_default_def)

lemma key_of_object_update [simp]:
  "key_of_object (ob\<lparr>om_created_at := x\<rparr>) = key_of_object ob"
  "key_of_object (ob\<lparr>om_updated_at := x\<rparr>) = key_of_object ob"
  "key_of_object (ob\<lparr>om_storage_class := c\<rparr>) = key_of_object ob"
  "key_of_object (ob\<lparr>om_archive_id := a\<rparr>) = key_of_object ob"
  "key_of_object (ob\<lparr>om_tape_id := b\<rparr>) = key_of_object ob"
  "key_of_object (ob\<lparr>om_tape_set := s\<rparr>) = key_of_object ob"
  "key_of_object (ob\<lparr>om_tape_block_offset := d\<rparr>) = key_of_object ob"
  "key_of_object (ob\<lparr>om_restore_status := r\<rparr>) = key_of_object ob"
  "key_of_object (ob\<lparr>om_restore_expire_at := x\<rparr>) = key_of_object ob"
  by (simp_all add: key_of_object_def)

text \<open>An object update that keeps the identity of objects.\<close>

lemma wf_modify_object [wf_intros]:
  assumes "wf_meta st" and "\<And>ob. key_of_object (f ob) = key_of_object ob"
  shows "wf_meta (modify_object k f st)"
proof -
  have "om_bucket (f ob) = om_bucket ob" for ob
    using assms(2) [of ob] by (simp add: key_of_object_def)
  then show ?thesis
    using assms by (fastforce simp: wf_meta_def modify_object_def set_hm_modify intro: wf_intros split: if_splits)
qed

text \<open>The updates of one table, against the invariant.\<close>

lemma wf_refresh_bucket_stats [wf_intros]: "wf_meta st \<Longrightarrow> wf_meta (refresh_bucket_stats name st)"
  by (auto simp: wf_meta_def refresh_bucket_stats_def case_prod_beta intro: keyed_modify)

lemma wf_update_tables:
  assumes "wf_meta st"
  shows "keyed ab_id bs \<Longrightarrow> wf_meta (st\<lparr>ms_archive_bundles := bs\<rparr>)"
    and "keyed at_id ats \<Longrightarrow> wf_meta (st\<lparr>ms_archive_tasks := ats\<rparr>)"
    and "keyed rt_id rts \<Longrightarrow> wf_meta (st\<lparr>ms_recall_tasks := rts\<rparr>)"
    and "keyed ti_id ts \<Longrightarrow> wf_meta (st\<lparr>ms_tapes := ts\<rparr>)"
    and "keyed sw_node_id sw \<Longrightarrow> wf_meta (st\<lparr>ms_scheduler_workers := sw\<rparr>)"
    and "keyed cw_node_id cw \<Longrightarrow> wf_meta (st\<lparr>ms_cache_workers := cw\<rparr>)"
    and "keyed tw_node_id tw \<Longrightarrow> wf_meta (st\<lparr>ms_tape_workers := tw\<rparr>)"
  using assms by (simp_all add: wf_meta_def)

lemma wf_meta_tables:
  assumes "wf_meta st"
  shows "keyed key_of_object (ms_objects st)" and "keyed bi_name (ms_buckets st)"
    and "keyed ab_id (ms_archive_bundles st)" and "keyed at_id (ms_archive_tasks st)"
    and "keyed rt_id (ms_recall_tasks st)" and "keyed ti_id (ms_tapes st)"
    and "keyed sw_node_id (ms_scheduler_workers st)" and "keyed cw_node_id (ms_cache_workers st)"
    and "keyed tw_node_id (ms_tape_workers st)"
  using assms by (simp_all add: wf_meta_def)

lemma hm_values_insert_subset: "set (hm_values (hm_insert k v m)) \<subseteq> insert v (set (hm_values m))"
  by (induction m) auto

lemma hm_values_remove_subset: "set (hm_values (hm_remove k m)) \<subseteq> set (hm_values m)"
  by (auto simp: set_hm_remove)

lemma stamp_object_simps [simp]:
  "key_of_object (stamp_object now ob) = key_of_object ob" "om_bucket (stamp_object now ob) = om_bucket ob"
  "om_key (stamp_object now ob) = om_key ob" "om_version_id (stamp_object now ob) = om_version_id ob"
  "om_updated_at (stamp_object now ob) = Some now" "om_size (stamp_object now ob) = om_size ob"
  by (simp_all add: stamp_object_def)

lemma wf_apply_put_object:
  assumes wf: "wf_meta st"
  shows "wf_meta (snd (apply_put_object now ob st))"
proof (cases "hm_contains_key (ms_buckets st) (om_bucket ob)")
  case True
  have "wf_meta (st\<lparr>ms_objects := hm_insert (key_of_object ob) (stamp_object now ob) (ms_objects st)\<rparr>)"
    using wf True hm_values_insert_subset [of "key_of_object ob" "stamp_object now ob" "ms_objects st"]
    by (fastforce simp: wf_meta_def intro: keyed_insert)
  with True show ?thesis
    by (simp add: apply_put_object_def Let_def wf_refresh_bucket_stats)
qed (simp add: apply_put_object_def wf)

lemma wf_apply_delete_object: "wf_meta st \<Longrightarrow> wf_meta (snd (apply_delete_object req st))"
proof -
  assume wf: "wf_meta st"
  have "wf_meta (st\<lparr>ms_objects := hm_remove k (ms_objects st)\<rparr>)" for k
    using wf hm_values_remove_subset [of k "ms_objects st"]
    by (fastforce simp: wf_meta_def intro: keyed_remove)
  with wf show ?thesis
    by (simp add: apply_delete_object_def Let_def wf_refresh_bucket_stats)
qed

lemma wf_apply_create_bucket: "wf_meta st \<Longrightarrow> wf_meta (snd (apply_create_bucket now b st))"
  by (auto simp: wf_meta_def apply_create_bucket_def Let_def intro: keyed_insert)

lemma wf_apply_delete_bucket: "wf_meta st \<Longrightarrow> wf_meta (snd (apply_delete_bucket name st))"
  by (auto simp: wf_meta_def apply_delete_bucket_def list_ex_iff intro: keyed_remove)

lemma wf_apply_complete_archive_object:
  assumes "wf_meta st"
  shows "wf_meta (snd (apply_complete_archive_object now req st))"
proof -
  have ins: "wf_meta (st\<lparr>ms_archive_bundles := hm_insert (ab_id b) b (ms_archive_bundles st)\<rparr>)" for b
    using assms by (intro wf_update_tables keyed_insert wf_meta_tables) simp_all
  show ?thesis
    using assms ins
    by (auto simp: apply_complete_archive_object_def split: option.splits sum.splits intro!: wf_modify_object)
qed

lemma wf_apply_update_worker_status: "wf_meta st \<Longrightarrow> wf_meta (snd (apply_update_worker_status req st))"
  by (auto simp: apply_update_worker_status_def Let_def split: option.splits worker_type.splits
      intro!: wf_update_tables keyed_modify dest: wf_meta_tables)

lemma wf_apply_heartbeat: "wf_meta st \<Longrightarrow> wf_meta (snd (apply_heartbeat now req st))"
  by (auto simp: apply_heartbeat_def Let_def split: option.splits worker_type.splits heartbeat_payload.splits
      intro!: wf_update_tables keyed_modify dest: wf_meta_tables)

lemma wf_apply_command: "wf_meta st \<Longrightarrow> wf_meta (snd (apply_command now cmd st))"
proof (cases cmd)
  case (UpdateStorageClass req)
  moreover assume "wf_meta st"
  ultimately show ?thesis
    by (auto simp: apply_update_storage_class_def split: sum.splits intro!: wf_modify_object)
next
  case (UpdateArchiveLocation req)
  moreover assume "wf_meta st"
  ultimately show ?thesis
    by (auto simp: apply_update_archive_location_def split: sum.splits intro!: wf_modify_object)
next
  case (UpdateRestoreStatus req)
  moreover assume "wf_meta st"
  ultimately show ?thesis
    by (auto simp: apply_update_restore_status_def split: sum.splits option.splits intro!: wf_modify_object)
qed (auto simp: apply_put_archive_bundle_def apply_update_archive_bundle_status_def apply_put_archive_task_def
    apply_update_archive_task_def apply_put_recall_task_def apply_update_recall_task_def apply_put_tape_def
    apply_update_tape_def apply_register_scheduler_worker_def apply_register_cache_worker_def
    apply_register_tape_worker_def Let_def
    split: option.splits sum.splits
    intro!: wf_apply_put_object wf_apply_delete_object wf_apply_create_bucket wf_apply_delete_bucket
      wf_apply_complete_archive_object wf_apply_update_worker_status wf_apply_heartbeat
      wf_update_tables keyed_insert keyed_remove keyed_modify dest: wf_meta_tables)

section \<open>Looking up, updating, refusing\<close>

text \<open>
  Both searches without a version select an entry with the latest update time among the
  versions of the key, and they select the same one.
\<close>

lemma find_object_latest:
  assumes "distinct (hm_keys (ms_objects st))" and "find_object st bucket key None = Inr ob"
  shows "\<exists>v. hm_get (ms_objects st) (bucket, key, v) = Some ob \<and>
    (\<forall>v' ob'. hm_get (ms_objects st) (bucket, key, v') = Some ob' \<longrightarrow>
       timestamp_sort_key (om_updated_at ob') \<le> timestamp_sort_key (om_updated_at ob))"
proof -
  obtain k where k: "max_by_last (\<lambda>(k, ob). timestamp_sort_key (om_updated_at ob))
      (filter (\<lambda>((b, k, v), ob). b = bucket \<and> k = key) (ms_objects st)) = Some (k, ob)"
    using assms(2) by (auto simp: find_object_def split: option.splits)
  note d = max_by_last_SomeD [OF k]
  from d obtain v where kv: "k = (bucket, key, v)" "(k, ob) \<in> set (ms_objects st)" by auto
  have "timestamp_sort_key (om_updated_at ob') \<le> timestamp_sort_key (om_updated_at ob)"
    if "hm_get (ms_objects st) (bucket, key, v') = Some ob'" for v' ob'
    using d map_of_SomeD [OF that] by auto
  with kv assms(1) show ?thesis by (auto intro!: exI [of _ v])
qed

lemma find_object_mut_None_eq:
  assumes "distinct (hm_keys (ms_objects st))"
  shows "find_object_mut st bucket key None =
    (case max_by_last (\<lambda>(k, ob). timestamp_sort_key (om_updated_at ob))
            (filter (\<lambda>((b, k, v), ob). b = bucket \<and> k = key) (ms_objects st)) of
       None \<Rightarrow> Inl (Status NotFound ''object not found'') | Some (k, ob) \<Rightarrow> Inr k)"
proof -
  let ?es = "filter (\<lambda>((b, k, v), ob). b = bucket \<and> k = key) (ms_objects st)"
  let ?ts = "\<lambda>k. case hm_get (ms_objects st) k of None \<Rightarrow> (0, 0) | Some ob \<Rightarrow> timestamp_sort_key (om_updated_at ob)"
  have keys: "filter (\<lambda>(b, k, v). b = bucket \<and> k = key) (hm_keys (ms_objects st)) = map fst ?es"
    unfolding filter_map comp_def by (intro arg_cong [where f = "map fst"] filter_cong) auto
  have get: "hm_get (ms_objects st) k = Some ob" if "(k, ob) \<in> set ?es" for k ob
    using that assms by auto
  have max: "max_by_last ?ts (map fst ?es) =
      map_option fst (max_by_last (\<lambda>(k, ob). timestamp_sort_key (om_updated_at ob)) ?es)"
    unfolding max_by_last_map using get by (intro arg_cong [where f = "map_option fst"] max_by_last_cong) force
  show ?thesis
  proof (cases "max_by_last (\<lambda>(k, ob). timestamp_sort_key (om_updated_at ob)) ?es")
    case None
    then show ?thesis unfolding find_object_mut_def option.case keys max by simp
  next
    case (Some p)
    then have "hm_get (ms_objects st) (fst p) = Some (snd p)"
      using get [of "fst p" "snd p"] max_by_last_SomeD [OF Some] by (metis prod.collapse)
    with Some show ?thesis unfolding find_object_mut_def option.case keys max by (cases p) simp
  qed
qed

lemma find_object_mut_selects:
  assumes "distinct (hm_keys (ms_objects st))" and "find_object_mut st bucket key v = Inr k"
  shows "\<exists>ob. find_object st bucket key v = Inr ob \<and> hm_get (ms_objects st) k = Some ob"
proof (cases v)
  case (Some w)
  with assms(2) show ?thesis by (auto simp: find_object_mut_def find_object_def split: if_splits)
next
  case None
  with assms show ?thesis
    by (auto simp: find_object_mut_None_eq find_object_def split: option.splits dest!: max_by_last_SomeD)
qed

lemma find_object_mut_of_find_object:
  assumes "find_object st bucket key v = Inr ob" and "ms_objects st' = ms_objects st"
  shows "\<exists>k. find_object_mut st' bucket key v = Inr k"
proof (cases v)
  case (Some w)
  with assms show ?thesis by (auto simp: find_object_mut_def find_object_def split: option.splits)
next
  case None
  then obtain k where "(k, ob) \<in> set (filter (\<lambda>((b, k, v), ob). b = bucket \<and> k = key) (ms_objects st))"
    using assms(1) by (auto simp: find_object_def split: option.splits dest!: max_by_last_SomeD)
  then have "filter (\<lambda>(b, k, v). b = bucket \<and> k = key) (hm_keys (ms_objects st)) \<noteq> []"
    by (force simp: filter_empty_conv)
  then obtain k' where k': "max_by_last (\<lambda>k. case hm_get (ms_objects st) k of None \<Rightarrow> (0, 0)
        | Some ob \<Rightarrow> timestamp_sort_key (om_updated_at ob))
      (filter (\<lambda>(b, k, v). b = bucket \<and> k = key) (hm_keys (ms_objects st))) = Some k'"
    using max_by_last_None by blast
  then have "hm_get (ms_objects st) k' \<noteq> None"
    by (auto dest!: max_by_last_SomeD simp: map_of_eq_None_iff)
  with k' None assms(2) show ?thesis by (cases k') (auto simp: find_object_mut_def)
qed

lemma find_object_mut_not_refused:
  "find_object st bucket key v = Inr ob \<Longrightarrow>
     find_object_mut (st\<lparr>ms_archive_bundles := bs\<rparr>) bucket key v \<noteq> Inl e"
  "find_object st bucket key v = Inr ob \<Longrightarrow> find_object_mut st bucket key v \<noteq> Inl e"
  using find_object_mut_of_find_object [of st bucket key v ob "st\<lparr>ms_archive_bundles := bs\<rparr>"]
    find_object_mut_of_find_object [of st bucket key v ob st] by auto

text \<open>A command that is refused leaves the state as it was.\<close>

lemma apply_complete_archive_object_refused:
  assumes "apply_complete_archive_object now req st = (Inl e, st')"
  shows "st' = st"
  using assms find_object_mut_not_refused
  by (fastforce simp: apply_complete_archive_object_def split: option.splits sum.splits if_splits)

lemma apply_command_refused:
  assumes "apply_command now cmd st = (Inl e, st')"
  shows "st' = st"
  using assms
  by (cases cmd)
    (auto simp: apply_put_object_def apply_delete_object_def apply_update_storage_class_def
      apply_update_archive_location_def apply_update_restore_status_def apply_create_bucket_def
      apply_delete_bucket_def apply_put_archive_bundle_def apply_update_archive_bundle_status_def
      apply_put_archive_task_def apply_update_archive_task_def apply_put_recall_task_def
      apply_update_recall_task_def apply_put_tape_def apply_update_tape_def
      apply_register_scheduler_worker_def apply_register_cache_worker_def apply_register_tape_worker_def
      apply_update_worker_status_def apply_heartbeat_def Let_def
      dest: apply_complete_archive_object_refused
      split: option.splits sum.splits if_splits worker_type.splits)

section \<open>Bucket statistics\<close>

definition stats_ok :: "metadata_state \<Rightarrow> bool" where
  "stats_ok st \<longleftrightarrow>
     (\<forall>name b. hm_get (ms_buckets st) name = Some b \<longrightarrow>
        bi_object_count b = of_nat (length (bucket_objects st name)) \<and>
        bi_total_size b = sum_list (map om_size (bucket_objects st name)))"

lemma bucket_objects_frame [simp]:
  "bucket_objects (st\<lparr>ms_buckets := bs\<rparr>) name = bucket_objects st name"
  by (simp add: bucket_objects_def)

lemma stats_ok_frame [simp]:
  "stats_ok (st\<lparr>ms_archive_bundles := ab_s\<rparr>) \<longleftrightarrow> stats_ok st"
  "stats_ok (st\<lparr>ms_archive_tasks := ats\<rparr>) \<longleftrightarrow> stats_ok st"
  "stats_ok (st\<lparr>ms_recall_tasks := rts\<rparr>) \<longleftrightarrow> stats_ok st"
  "stats_ok (st\<lparr>ms_tapes := ts\<rparr>) \<longleftrightarrow> stats_ok st"
  "stats_ok (st\<lparr>ms_scheduler_workers := sws\<rparr>) \<longleftrightarrow> stats_ok st"
  "stats_ok (st\<lparr>ms_cache_workers := cws\<rparr>) \<longleftrightarrow> stats_ok st"
  "stats_ok (st\<lparr>ms_tape_workers := tws\<rparr>) \<longleftrightarrow> stats_ok st"
  by (simp_all add: stats_ok_def bucket_objects_def)

lemma stats_foldl:
  "foldl (\<lambda>(n, total) ob. (n + 1, total + om_size ob)) (n0, t0) obs =
     (n0 + of_nat (length obs), t0 + sum_list (map om_size obs))"
  by (induction obs arbitrary: n0 t0) (auto simp: algebra_simps)

lemma refresh_bucket_stats_eq:
  "refresh_bucket_stats name st =
     st\<lparr>ms_buckets := hm_modify name
       (\<lambda>b. b\<lparr>bi_object_count := of_nat (length (bucket_objects st name)),
               bi_total_size := sum_list (map om_size (bucket_objects st name))\<rparr>) (ms_buckets st)\<rparr>"
  by (simp add: refresh_bucket_stats_def stats_foldl)

lemma refresh_bucket_stats_objects [simp]: "ms_objects (refresh_bucket_stats name st) = ms_objects st"
  by (simp add: refresh_bucket_stats_eq)

text \<open>After a change to the objects of one bucket, recounting that bucket restores the statistics.\<close>

lemma stats_ok_refresh:
  assumes "stats_ok st" and "ms_buckets st' = ms_buckets st"
    and "\<And>name'. name' \<noteq> name \<Longrightarrow> bucket_objects st' name' = bucket_objects st name'"
  shows "stats_ok (refresh_bucket_stats name st')"
  using assms by (auto simp: stats_ok_def refresh_bucket_stats_eq)

lemma filter_values_insert_other:
  assumes "\<forall>(k', v') \<in> set m. key_of_object v' = k'" and "key_of_object v = k" and "om_bucket v \<noteq> name"
  shows "filter (\<lambda>ob. om_bucket ob = name) (hm_values (hm_insert k v m)) =
    filter (\<lambda>ob. om_bucket ob = name) (hm_values m)"
  using assms by (induction m) (auto simp: key_of_object_def)

lemma filter_values_remove_other:
  assumes "\<forall>(k', v') \<in> set m. key_of_object v' = k'" and "fst k \<noteq> name"
  shows "filter (\<lambda>ob. om_bucket ob = name) (hm_values (hm_remove k m)) =
    filter (\<lambda>ob. om_bucket ob = name) (hm_values m)"
  using assms by (induction m) (auto simp: key_of_object_def)

lemma sizes_modify:
  assumes "\<And>ob. om_bucket (f ob) = om_bucket ob \<and> om_size (f ob) = om_size ob"
  shows "map om_size (filter (\<lambda>ob. om_bucket ob = name) (hm_values (hm_modify k f m))) =
    map om_size (filter (\<lambda>ob. om_bucket ob = name) (hm_values m))"
proof -
  have eqs: "om_bucket (f ob) = om_bucket ob" "om_size (f ob) = om_size ob" for ob
    using assms by blast+
  show ?thesis
  proof (induction m)
    case (Cons p m)
    then show ?case by (cases p) (simp add: hm_modify_def eqs)
  qed (simp add: hm_modify_def)
qed

lemma stats_ok_modify_object:
  assumes "stats_ok st" and "\<And>ob. om_bucket (f ob) = om_bucket ob \<and> om_size (f ob) = om_size ob"
  shows "stats_ok (modify_object k f st)"
proof -
  have sizes: "map om_size (bucket_objects (modify_object k f st) name) = map om_size (bucket_objects st name)" for name
    using sizes_modify [OF assms(2)] by (simp add: bucket_objects_def modify_object_def)
  then have "length (bucket_objects (modify_object k f st) name) = length (bucket_objects st name)" for name
    by (metis length_map)
  with assms(1) sizes show ?thesis by (simp add: stats_ok_def modify_object_def)
qed

lemma stats_ok_complete_archive:
  "stats_ok st \<Longrightarrow> stats_ok (snd (apply_complete_archive_object now req st))"
  by (auto simp: apply_complete_archive_object_def split: option.splits sum.splits
      intro!: stats_ok_modify_object)

text \<open>A bucket is created empty; the other commands have no condition.\<close>

fun creates_empty_bucket :: "metadata_command \<Rightarrow> bool" where
  "creates_empty_bucket (CreateBucket b) = (bi_object_count b = 0 \<and> bi_total_size b = 0)"
| "creates_empty_bucket _ = True"

lemma stats_ok_put_object:
  assumes "wf_meta st" and "stats_ok st"
  shows "stats_ok (snd (apply_put_object now ob st))"
proof (cases "hm_contains_key (ms_buckets st) (om_bucket ob)")
  case True
  let ?st = "st\<lparr>ms_objects := hm_insert (key_of_object ob) (stamp_object now ob) (ms_objects st)\<rparr>"
  have "\<forall>(k', v') \<in> set (ms_objects st). key_of_object v' = k'"
    using assms(1) by (simp add: wf_meta_def keyed_def)
  then have "bucket_objects ?st name = bucket_objects st name" if "name \<noteq> om_bucket ob" for name
    unfolding bucket_objects_def using that by (simp add: filter_values_insert_other del: filter_map)
  then have "stats_ok (refresh_bucket_stats (om_bucket ob) ?st)"
    using assms(2) by (intro stats_ok_refresh [of st]) simp_all
  with True show ?thesis by (simp add: apply_put_object_def Let_def)
qed (simp add: apply_put_object_def assms)

lemma stats_ok_delete_object:
  assumes "wf_meta st" and "stats_ok st"
  shows "stats_ok (snd (apply_delete_object req st))"
proof -
  let ?st = "st\<lparr>ms_objects := hm_remove (dor_bucket req, dor_key req, None) (ms_objects st)\<rparr>"
  have "\<forall>(k', v') \<in> set (ms_objects st). key_of_object v' = k'"
    using assms(1) by (simp add: wf_meta_def keyed_def)
  then have "bucket_objects ?st name = bucket_objects st name" if "name \<noteq> dor_bucket req" for name
    unfolding bucket_objects_def using that by (simp add: filter_values_remove_other del: filter_map)
  then have "stats_ok (refresh_bucket_stats (dor_bucket req) ?st)"
    using assms(2) by (intro stats_ok_refresh [of st]) simp_all
  with assms(2) show ?thesis by (simp add: apply_delete_object_def Let_def)
qed

lemma stats_ok_create_bucket:
  assumes "wf_meta st" and "stats_ok st" and "bi_object_count b = 0" and "bi_total_size b = 0"
  shows "stats_ok (snd (apply_create_bucket now b st))"
proof (cases "hm_contains_key (ms_buckets st) (bi_name b)")
  case False
  then have "bucket_objects st (bi_name b) = []"
    using assms(1) by (auto simp: wf_meta_def bucket_objects_def filter_empty_conv)
  with assms False show ?thesis
    by (auto simp: stats_ok_def apply_create_bucket_def Let_def)
qed (simp add: apply_create_bucket_def assms)

lemma stats_ok_apply:
  assumes "wf_meta st" and "stats_ok st" and "creates_empty_bucket cmd"
  shows "stats_ok (snd (apply_command now cmd st))"
proof (cases cmd)
  case (UpdateStorageClass req)
  then show ?thesis
    using assms by (auto simp: apply_update_storage_class_def split: sum.splits intro!: stats_ok_modify_object)
next
  case (UpdateArchiveLocation req)
  then show ?thesis
    using assms by (auto simp: apply_update_archive_location_def split: sum.splits intro!: stats_ok_modify_object)
next
  case (UpdateRestoreStatus req)
  then show ?thesis
    using assms by (auto simp: apply_update_restore_status_def split: sum.splits option.splits
        intro!: stats_ok_modify_object)
next
  case (DeleteBucket name)
  then show ?thesis
    using assms by (auto simp: stats_ok_def apply_delete_bucket_def)
qed (use assms in \<open>auto simp: apply_put_archive_bundle_def apply_update_archive_bundle_status_def apply_put_archive_task_def
    apply_update_archive_task_def apply_put_recall_task_def apply_update_recall_task_def apply_put_tape_def
    apply_update_tape_def apply_register_scheduler_worker_def apply_register_cache_worker_def
    apply_register_tape_worker_def apply_update_worker_status_def apply_heartbeat_def Let_def
    split: option.splits sum.splits worker_type.splits
    intro!: stats_ok_put_object stats_ok_delete_object stats_ok_create_bucket stats_ok_complete_archive\<close>)

section \<open>Runs of commands\<close>

text \<open>
  A table of a system whose entries, once they satisfy \<open>final\<close>, no step may change: what
  a client of the state machine relies on when it reads a finished task.
\<close>

locale final_entries =
  fixes get :: "'s \<Rightarrow> 'k \<Rightarrow> 'v option"
    and step :: "'c \<Rightarrow> 's \<Rightarrow> 's"
    and final :: "'v \<Rightarrow> bool"
  assumes step_keeps: "get s k = Some v \<Longrightarrow> final v \<Longrightarrow> get (step c s) k = Some v"
begin

lemma run_keeps: "get s k = Some v \<Longrightarrow> final v \<Longrightarrow> get (fold step cs s) k = Some v"
  by (induction cs arbitrary: s) (auto simp: step_keeps)

lemma final_seen_later:
  assumes "get (fold step cs s) k = Some v" and "final v"
  shows "get (fold step (cs @ cs') s) k = Some v"
  using run_keeps [OF assms, of cs'] by simp

end

text \<open>One command with the clock reading it is applied at, as a step of the state.\<close>

definition apply_step :: "timestamp \<times> metadata_command \<Rightarrow> metadata_state \<Rightarrow> metadata_state" where
  "apply_step c st = snd (apply_command (fst c) (snd c) st)"

lemma wf_apply_steps: "wf_meta st \<Longrightarrow> wf_meta (fold apply_step cs st)"
  by (induction cs arbitrary: st) (simp_all add: apply_step_def wf_apply_command)

lemma stats_ok_apply_steps:
  "wf_meta st \<Longrightarrow> stats_ok st \<Longrightarrow> list_all (\<lambda>c. creates_empty_bucket (snd c)) cs \<Longrightarrow>
     stats_ok (fold apply_step cs st)"
  by (induction cs arbitrary: st) (simp_all add: apply_step_def wf_apply_command stats_ok_apply)

text \<open>The object commands do not touch the task tables, and the others do not touch the objects.\<close>

lemma tasks_frame [simp]:
  "ms_archive_tasks (refresh_bucket_stats name st) = ms_archive_tasks st"
  "ms_recall_tasks (refresh_bucket_stats name st) = ms_recall_tasks st"
  "ms_archive_tasks (modify_object k f st) = ms_archive_tasks st"
  "ms_recall_tasks (modify_object k f st) = ms_recall_tasks st"
  "ms_archive_bundles (modify_object k f st) = ms_archive_bundles st"
  by (simp_all add: refresh_bucket_stats_eq modify_object_def)

lemma apply_complete_archive_object_tasks [simp]:
  "ms_archive_tasks (snd (apply_complete_archive_object now req st)) = ms_archive_tasks st"
  "ms_recall_tasks (snd (apply_complete_archive_object now req st)) = ms_recall_tasks st"
  by (auto simp: apply_complete_archive_object_def split: option.splits sum.splits)

lemmas apply_defs = apply_put_object_def apply_delete_object_def apply_update_storage_class_def
  apply_update_archive_location_def apply_update_restore_status_def apply_create_bucket_def
  apply_delete_bucket_def apply_put_archive_bundle_def apply_update_archive_bundle_status_def
  apply_put_archive_task_def apply_update_archive_task_def apply_put_recall_task_def
  apply_update_recall_task_def apply_put_tape_def apply_update_tape_def
  apply_register_scheduler_worker_def apply_register_cache_worker_def apply_register_tape_worker_def
  apply_update_worker_status_def apply_heartbeat_def

definition archive_task_final :: "archive_task \<Rightarrow> bool" where
  "archive_task_final t \<longleftrightarrow> at_status t = archive_task_status_i32 ArchiveTaskCompleted"

definition recall_task_final :: "recall_task \<Rightarrow> bool" where
  "recall_task_final t \<longleftrightarrow>
     rt_status t \<in> {restore_status_i32 RestoreExpired, restore_status_i32 RestoreFailed}"

lemma completed_archive_task_stuck:
  "validate_archive_task_transition (archive_task_status_i32 ArchiveTaskCompleted) n = Inl (
     if archive_task_status_try_from n = None then Status InvalidArgument ''invalid archive task status''
     else Status FailedPrecondition ''invalid archive task state transition'')"
  by (auto simp: validate_archive_task_transition_def split: option.splits
      simp del: archive_task_status_i32.simps)

lemma final_recall_task_stuck:
  assumes "recall_task_final t"
  shows "validate_restore_transition (Some (rt_status t)) n \<noteq> Inr u"
  using assms by (auto simp: recall_task_final_def validate_restore_transition_def split: option.splits
      simp del: restore_status_i32.simps)

lemma archive_task_step_keeps:
  assumes "hm_get (ms_archive_tasks st) k = Some t" and "archive_task_final t"
  shows "hm_get (ms_archive_tasks (apply_step c st)) k = Some t"
  using assms completed_archive_task_stuck
  by (cases "snd c") (auto simp: apply_step_def archive_task_final_def apply_defs Let_def
      simp del: archive_task_status_i32.simps split: option.splits sum.splits worker_type.splits)

lemma recall_task_step_keeps:
  assumes "hm_get (ms_recall_tasks st) k = Some t" and "recall_task_final t"
  shows "hm_get (ms_recall_tasks (apply_step c st)) k = Some t"
  using assms final_recall_task_stuck [OF assms(2)]
  by (cases "snd c") (auto simp: apply_step_def apply_defs Let_def
      split: option.splits sum.splits worker_type.splits)

interpretation archive_tasks: final_entries "\<lambda>st. hm_get (ms_archive_tasks st)" apply_step archive_task_final
  by unfold_locales (rule archive_task_step_keeps)

interpretation recall_tasks: final_entries "\<lambda>st. hm_get (ms_recall_tasks st)" apply_step recall_task_final
  by unfold_locales (rule recall_task_step_keeps)

text \<open>What the preconditions of an archive completion check.\<close>

lemma validate_complete_archive_Inr:
  "validate_complete_archive_preconditions ob req = Inr () \<longleftrightarrow>
     om_version_id ob = cao_version_id req \<and> cao_expected_size req = Some (om_size ob) \<and>
     cao_expected_checksum req = Some (om_checksum ob) \<and>
     cao_expected_storage_class req = Some (om_storage_class ob) \<and>
     cao_expected_updated_at req \<noteq> None \<and> om_updated_at ob = cao_expected_updated_at req"
  by (auto simp: validate_complete_archive_preconditions_def split: option.splits)

definition archived_object :: "timestamp \<Rightarrow> complete_archive_object_request \<Rightarrow> archive_bundle \<Rightarrow> object_metadata \<Rightarrow> object_metadata" where
  "archived_object now req bundle ob =
     ob\<lparr>om_archive_id := Some (ab_id bundle), om_tape_id := Some (ab_tape_id bundle),
        om_tape_set := ab_tape_set bundle, om_tape_block_offset := Some (cao_tape_block_offset req),
        om_storage_class := cao_storage_class req, om_updated_at := Some now\<rparr>"

lemma find_object_key:
  assumes "keyed key_of_object (ms_objects st)" and "find_object st b k v = Inr ob"
  shows "om_bucket ob = b \<and> om_key ob = k \<and> hm_get (ms_objects st) (b, k, om_version_id ob) = Some ob"
proof (cases v)
  case (Some w)
  with assms(2) have "hm_get (ms_objects st) (b, k, Some w) = Some ob"
    by (auto simp: find_object_def split: option.splits)
  with keyedD [OF assms(1) this] show ?thesis by (simp add: key_of_object_def)
next
  case None
  then obtain w where w: "hm_get (ms_objects st) (b, k, w) = Some ob"
    using find_object_latest [OF keyed_distinct [OF assms(1)], of b k ob] assms(2) by blast
  with keyedD [OF assms(1) this] show ?thesis by (simp add: key_of_object_def)
qed

lemma find_object_cong: "ms_objects st' = ms_objects st \<Longrightarrow> find_object st' b k v = find_object st b k v"
  by (cases v) (simp_all add: find_object_def)

lemma complete_archive_object_Inr:
  assumes "wf_meta st" and "apply_complete_archive_object now req st = (Inr (), st')"
  shows "\<exists>bu ob. cao_bundle req = Some bu \<and>
     hm_get (ms_objects st) (cao_bucket req, cao_key req, cao_version_id req) = Some ob \<and>
     validate_complete_archive_preconditions ob req = Inr () \<and>
     hm_get (ms_archive_bundles st') = (hm_get (ms_archive_bundles st))(ab_id bu \<mapsto> bu) \<and>
     hm_get (ms_objects st') = (hm_get (ms_objects st))
       ((cao_bucket req, cao_key req, cao_version_id req) \<mapsto> archived_object now req bu ob)"
proof -
  obtain bu where b: "cao_bundle req = Some bu"
    using assms(2) by (auto simp: apply_complete_archive_object_def split: option.splits)
  obtain ob where ob: "find_object st (cao_bucket req) (cao_key req) (cao_version_id req) = Inr ob"
    "validate_complete_archive_preconditions ob req = Inr ()"
    using assms(2) b by (auto simp: apply_complete_archive_object_def split: sum.splits if_splits)
  define st1 where "st1 = (case hm_get (ms_archive_bundles st) (ab_id bu) of None \<Rightarrow>
      st\<lparr>ms_archive_bundles := hm_insert (ab_id bu) bu (ms_archive_bundles st)\<rparr> | Some x \<Rightarrow> st)"
  have st1: "ms_objects st1 = ms_objects st" "wf_meta st1"
    "hm_get (ms_archive_bundles st1) = (hm_get (ms_archive_bundles st))(ab_id bu \<mapsto> bu)"
    using assms b ob
    by (auto simp: st1_def fun_eq_iff apply_complete_archive_object_def split: option.splits if_splits
        intro!: wf_update_tables keyed_insert dest: wf_meta_tables)
  have d: "distinct (hm_keys (ms_objects st1))"
    using keyed_distinct [OF wf_meta_tables(1) [OF assms(1)]] st1(1) by simp
  obtain k where k: "find_object_mut st1 (cao_bucket req) (cao_key req) (cao_version_id req) = Inr k"
    using find_object_mut_of_find_object [OF ob(1) st1(1)] by blast
  have get: "hm_get (ms_objects st) k = Some ob"
    using find_object_mut_selects [OF d k] ob(1) st1(1) find_object_cong [OF st1(1)] by auto
  have key: "k = (cao_bucket req, cao_key req, cao_version_id req)"
    using keyedD [OF wf_meta_tables(1) [OF assms(1)] get] find_object_key [OF wf_meta_tables(1) [OF assms(1)] ob(1)] ob(2)
    by (auto simp: key_of_object_def validate_complete_archive_Inr)
  have "st' = modify_object k (archived_object now req bu) st1"
    using assms(2) b ob k unfolding archived_object_def
    by (auto simp: apply_complete_archive_object_def st1_def split: option.splits if_splits)
  with b ob st1 get key show ?thesis
    by (auto simp: modify_object_def fun_eq_iff)
qed

text \<open>The restore status of an object under one command.\<close>

lemma put_object_status:
  assumes "hm_get (ms_objects st) k = Some ob" and "hm_get (ms_objects (snd (apply_put_object now x st))) k = Some ob'"
  shows "om_restore_status ob' = om_restore_status ob \<or> key_of_object x = k \<and> om_restore_status ob' = om_restore_status x"
  using assms by (auto simp: apply_put_object_def Let_def hm_get_insert stamp_object_def key_of_object_def split: if_splits)

lemma restore_status_step:
  assumes "hm_get (ms_objects st) k = Some ob"
    and "hm_get (ms_objects (apply_step c st)) k = Some ob'" and "\<And>x. snd c \<noteq> PutObject x"
  shows "om_restore_status ob' = om_restore_status ob \<or>
    (\<exists>t. om_restore_status ob' = Some (restore_status_i32 t) \<and>
       restore_transition_ok (Option.bind (om_restore_status ob) restore_status_try_from) t)"
proof (cases "snd c")
  case (UpdateRestoreStatus req)
  show ?thesis
  proof (cases "\<exists>k'. find_object_mut st (urs_bucket req) (urs_key req) None = Inr k'")
    case False
    then obtain e where "find_object_mut st (urs_bucket req) (urs_key req) None = Inl e"
      by (cases "find_object_mut st (urs_bucket req) (urs_key req) None") auto
    with UpdateRestoreStatus assms show ?thesis
      by (simp add: apply_step_def apply_update_restore_status_def)
  next
    case True
    with UpdateRestoreStatus assms show ?thesis
      by (auto simp: apply_step_def apply_update_restore_status_def validate_restore_transition_def
          modify_object_def Let_def bind_eq_Some_conv split: option.splits sum.splits if_splits
          dest!: restore_status_try_from_SomeD)
  qed
qed (use assms in \<open>auto simp: apply_step_def apply_defs apply_complete_archive_object_def modify_object_def Let_def
    split: option.splits sum.splits worker_type.splits if_splits\<close>)

section \<open>Properties of the state machine\<close>

text \<open>
  C16 (invariant). Whatever commands are applied to an empty state, at whatever times,
  every table has distinct keys, every entry is stored under its own identity, and every
  object lies in a bucket that exists.
\<close>

theorem metadata_tables_consistent:
  "wf_meta (fold apply_step cs metadata_state_default)"
  by (simp add: wf_apply_steps wf_meta_default)

text \<open>
  C17 (safety). A command is atomic: when it is refused, for whatever reason, the state is
  exactly the state before it.
\<close>

theorem refused_command_changes_nothing:
  assumes "fst (apply_command now cmd st) = Inl e"
  shows "snd (apply_command now cmd st) = st"
  using assms by (cases "apply_command now cmd st") (auto dest: apply_command_refused)

theorem refused_command_changes_nothing_witness:
  "fst (apply_command \<lparr>ts_seconds = 1, ts_nanos = 0\<rparr> (DeleteBucket ''b'') metadata_state_default) =
     Inl (Status NotFound ''bucket not found: b'') \<and>
   snd (apply_command \<lparr>ts_seconds = 1, ts_nanos = 0\<rparr> (DeleteBucket ''b'') metadata_state_default) =
     metadata_state_default"
proof -
  have "fst (apply_command \<lparr>ts_seconds = 1, ts_nanos = 0\<rparr> (DeleteBucket ''b'') metadata_state_default) =
     Inl (Status NotFound ''bucket not found: b'')"
    by (simp add: apply_delete_bucket_def metadata_state_default_def)
  with refused_command_changes_nothing [OF this] show ?thesis by blast
qed

text \<open>
  C18 (invariant). In every run in which the commands that create a bucket carry zero counts,
  the object count and the total size of every bucket are those of the objects it holds, modulo
  the width of the counters. The scheduler creates buckets so; the state machine itself stores
  the counts that the command carries, until the next put or delete in the bucket.
\<close>

theorem bucket_statistics_accurate:
  assumes "list_all (\<lambda>c. creates_empty_bucket (snd c)) cs"
    and "hm_get (ms_buckets (fold apply_step cs metadata_state_default)) name = Some b"
  shows "bi_object_count b =
      of_nat (length (bucket_objects (fold apply_step cs metadata_state_default) name)) \<and>
    bi_total_size b = sum_list (map om_size (bucket_objects (fold apply_step cs metadata_state_default) name))"
proof -
  have "stats_ok (fold apply_step cs metadata_state_default)"
    using assms(1) by (intro stats_ok_apply_steps wf_meta_default)
      (simp_all add: stats_ok_def metadata_state_default_def)
  with assms(2) show ?thesis by (simp add: stats_ok_def)
qed

definition demo_bucket :: bucket_info where
  "demo_bucket =
     \<lparr>bi_name = ''photos'', bi_created_at = None, bi_owner = None, bi_versioning_enabled = False,
      bi_object_count = 0, bi_total_size = 0\<rparr>"

definition demo_object :: object_metadata where
  "demo_object =
     \<lparr>om_bucket = ''photos'', om_key = ''a.jpg'', om_version_id = None, om_size = 5, om_checksum = ''c5'',
      om_content_type = None, om_etag = None, om_storage_class = storage_class_i32 ColdPending,
      om_archive_id = None, om_tape_id = None, om_tape_set = [], om_tape_block_offset = None,
      om_restore_status = None, om_restore_expire_at = None, om_created_at = None, om_updated_at = None\<rparr>"

definition demo_time :: timestamp where
  "demo_time = \<lparr>ts_seconds = 100, ts_nanos = 0\<rparr>"

definition demo_state :: metadata_state where
  "demo_state = fold apply_step [(demo_time, CreateBucket demo_bucket), (demo_time, PutObject demo_object)]
     metadata_state_default"

lemma demo_state_eq:
  "demo_state = metadata_state_default
     \<lparr>ms_objects := [((''photos'', ''a.jpg'', None), stamp_object demo_time demo_object)],
      ms_buckets := [(''photos'', demo_bucket
        \<lparr>bi_created_at := Some demo_time, bi_object_count := 1, bi_total_size := 5\<rparr>)]\<rparr>"
  by (simp add: demo_state_def apply_step_def apply_create_bucket_def apply_put_object_def
      metadata_state_default_def demo_bucket_def demo_object_def key_of_object_def refresh_bucket_stats_eq
      bucket_objects_def hm_modify_def stamp_object_def)

theorem bucket_statistics_accurate_witness:
  "\<exists>b. hm_get (ms_buckets demo_state) ''photos'' = Some b \<and> bi_object_count b = 1 \<and>
     bi_total_size b = sum_list (map om_size (bucket_objects demo_state ''photos''))"
proof -
  let ?cs = "[(demo_time, CreateBucket demo_bucket), (demo_time, PutObject demo_object)]"
  let ?b = "demo_bucket\<lparr>bi_created_at := Some demo_time, bi_object_count := 1, bi_total_size := 5\<rparr>"
  have ok: "list_all (\<lambda>c. creates_empty_bucket (snd c)) ?cs" by (simp add: demo_bucket_def)
  have get: "hm_get (ms_buckets (fold apply_step ?cs metadata_state_default)) ''photos'' = Some ?b"
    unfolding demo_state_def [symmetric] by (simp add: demo_state_eq)
  show ?thesis
    using bucket_statistics_accurate [OF ok get] get unfolding demo_state_def [symmetric] by auto
qed

text \<open>
  C19 (safety). A completed archive task is immutable: once it is in the table, every
  later command, an update or a second put of the same id included, leaves it as it is.
\<close>

theorem completed_archive_task_immutable:
  assumes "hm_get (ms_archive_tasks (fold apply_step cs st)) k = Some t"
    and "at_status t = archive_task_status_i32 ArchiveTaskCompleted"
  shows "hm_get (ms_archive_tasks (fold apply_step (cs @ cs') st)) k = Some t"
  using assms by (intro archive_tasks.final_seen_later) (simp_all add: archive_task_final_def)

definition demo_task :: archive_task where
  "demo_task =
     \<lparr>at_id = ''t1'', at_bundle_id = ''b1'', at_tape_id = ''TAPE0001'', at_drive_id = None,
      at_object_count = 1, at_total_size = 5, at_bytes_written = 5,
      at_status = archive_task_status_i32 ArchiveTaskCompleted, at_retry_count = 0,
      at_created_at = Some demo_time, at_started_at = None, at_completed_at = None, at_error = None\<rparr>"

theorem completed_archive_task_immutable_witness:
  "hm_get (ms_archive_tasks (fold apply_step [(demo_time, PutArchiveTask demo_task)] demo_state)) ''t1'' = Some demo_task \<and>
   hm_get (ms_archive_tasks (fold apply_step ([(demo_time, PutArchiveTask demo_task)] @
     [(demo_time, UpdateArchiveTask (demo_task\<lparr>at_bytes_written := 0\<rparr>))]) demo_state)) ''t1'' = Some demo_task"
proof -
  have put: "hm_get (ms_archive_tasks (fold apply_step [(demo_time, PutArchiveTask demo_task)] demo_state)) ''t1'' =
      Some demo_task"
    by (simp add: demo_state_eq apply_step_def apply_put_archive_task_def metadata_state_default_def demo_task_def)
  have "at_status demo_task = archive_task_status_i32 ArchiveTaskCompleted"
    by (simp add: demo_task_def)
  from completed_archive_task_immutable [OF put this] put show ?thesis by blast
qed

text \<open>
  A recall task that failed or expired is immutable in the same sense.
\<close>

theorem finished_recall_task_immutable:
  assumes "hm_get (ms_recall_tasks (fold apply_step cs st)) k = Some t"
    and "rt_status t \<in> {restore_status_i32 RestoreExpired, restore_status_i32 RestoreFailed}"
  shows "hm_get (ms_recall_tasks (fold apply_step (cs @ cs') st)) k = Some t"
  using assms by (intro recall_tasks.final_seen_later) (simp_all add: recall_task_final_def)

definition demo_recall :: recall_task where
  "demo_recall =
     \<lparr>rt_id = ''r1'', rt_bucket = ''photos'', rt_key = ''a.jpg'', rt_version_id = None, rt_archive_id = ''b1'',
      rt_tape_id = ''TAPE0001'', rt_tape_set = [], rt_tape_block_offset = 0, rt_object_size = 5,
      rt_checksum = ''c5'', rt_tier = restore_tier_i32 Standard, rt_days = 1, rt_expire_at = None,
      rt_status = restore_status_i32 RestoreFailed, rt_drive_id = None, rt_retry_count = 0,
      rt_created_at = Some demo_time, rt_started_at = None, rt_completed_at = None, rt_error = None\<rparr>"

theorem finished_recall_task_immutable_witness:
  "hm_get (ms_recall_tasks (fold apply_step [(demo_time, PutRecallTask demo_recall)] demo_state)) ''r1'' = Some demo_recall \<and>
   hm_get (ms_recall_tasks (fold apply_step ([(demo_time, PutRecallTask demo_recall)] @
     [(demo_time, UpdateRecallTask (demo_recall\<lparr>rt_status := restore_status_i32 RestorePending\<rparr>))]) demo_state)) ''r1'' =
     Some demo_recall"
proof -
  have put: "hm_get (ms_recall_tasks (fold apply_step [(demo_time, PutRecallTask demo_recall)] demo_state)) ''r1'' =
      Some demo_recall"
    by (simp add: demo_state_eq apply_step_def apply_put_recall_task_def metadata_state_default_def demo_recall_def)
  have "rt_status demo_recall \<in> {restore_status_i32 RestoreExpired, restore_status_i32 RestoreFailed}"
    by (simp add: demo_recall_def)
  from finished_recall_task_immutable [OF put this] put show ?thesis by blast
qed

text \<open>
  C20 (functional). An archive completion succeeds only for the very object generation
  that was archived: version, size, checksum, storage class and update time are all as the
  request says. Its effect is exactly that the bundle is recorded and that this object,
  and no other, points to it, with the storage class that the request asks for.
\<close>

theorem archive_completion_effect:
  assumes "wf_meta st" and "apply_command now (CompleteArchiveObject req) st = (Inr (), st')"
  shows "\<exists>bu ob. cao_bundle req = Some bu \<and>
     hm_get (ms_objects st) (cao_bucket req, cao_key req, cao_version_id req) = Some ob \<and>
     cao_expected_size req = Some (om_size ob) \<and> cao_expected_checksum req = Some (om_checksum ob) \<and>
     cao_expected_storage_class req = Some (om_storage_class ob) \<and>
     cao_expected_updated_at req = om_updated_at ob \<and> om_updated_at ob \<noteq> None \<and>
     hm_get (ms_archive_bundles st') = (hm_get (ms_archive_bundles st))(ab_id bu \<mapsto> bu) \<and>
     hm_get (ms_objects st') = (hm_get (ms_objects st))
       ((cao_bucket req, cao_key req, cao_version_id req) \<mapsto> archived_object now req bu ob)"
  using complete_archive_object_Inr [OF assms(1), of now req st'] assms(2)
  by (auto simp: validate_complete_archive_Inr)

definition demo_bundle :: archive_bundle where
  "demo_bundle =
     \<lparr>ab_id = ''b1'', ab_tape_id = ''TAPE0001'', ab_tape_set = [''TAPE0001''], ab_entries = [],
      ab_total_size = 5, ab_filemark_start = 0, ab_filemark_end = 1, ab_checksum = None,
      ab_status = archive_bundle_status_i32 BundleCompleted, ab_created_at = None, ab_completed_at = None\<rparr>"

definition demo_completion :: complete_archive_object_request where
  "demo_completion =
     \<lparr>cao_bucket = ''photos'', cao_key = ''a.jpg'', cao_version_id = None, cao_expected_size = Some 5,
      cao_expected_checksum = Some ''c5'', cao_expected_storage_class = Some (storage_class_i32 ColdPending),
      cao_expected_updated_at = Some demo_time, cao_bundle = Some demo_bundle, cao_tape_block_offset = 0,
      cao_storage_class = storage_class_i32 Cold\<rparr>"

lemma wf_demo_state: "wf_meta demo_state"
  unfolding demo_state_def by (intro wf_apply_steps wf_meta_default)

theorem archive_completion_effect_witness:
  "fst (apply_command demo_time (CompleteArchiveObject demo_completion) demo_state) = Inr () \<and>
   (\<exists>bu ob. hm_get (ms_archive_bundles (snd (apply_command demo_time (CompleteArchiveObject demo_completion) demo_state)))
      ''b1'' = Some bu \<and>
    hm_get (ms_objects (snd (apply_command demo_time (CompleteArchiveObject demo_completion) demo_state)))
      (''photos'', ''a.jpg'', None) = Some ob \<and> om_archive_id ob = Some ''b1'')"
proof -
  have ok: "fst (apply_command demo_time (CompleteArchiveObject demo_completion) demo_state) = Inr ()"
    by (simp add: demo_state_eq apply_complete_archive_object_def demo_completion_def demo_bundle_def
        find_object_def find_object_mut_def max_by_last_def validate_complete_archive_preconditions_def
        metadata_state_default_def demo_object_def stamp_object_def)
  then obtain st' where st': "apply_command demo_time (CompleteArchiveObject demo_completion) demo_state = (Inr (), st')"
    by (metis prod.collapse)
  from archive_completion_effect [OF wf_demo_state st'] ok st' show ?thesis
    by (auto simp: demo_completion_def archived_object_def demo_bundle_def)
qed

text \<open>
  C21 (invariant). A command leaves the restore status of an object that is there before and
  after as it is, or moves it along one transition of the restore state machine. The one
  exception is a put of the same object, which replaces the status by that of the object put,
  without a check.
\<close>

theorem restore_status_follows_machine:
  assumes "hm_get (ms_objects st) k = Some ob"
    and "hm_get (ms_objects (snd (apply_command now cmd st))) k = Some ob'"
  shows "om_restore_status ob' = om_restore_status ob \<or>
    (\<exists>t. om_restore_status ob' = Some (restore_status_i32 t) \<and>
       restore_transition_ok (Option.bind (om_restore_status ob) restore_status_try_from) t) \<or>
    (\<exists>x. cmd = PutObject x \<and> key_of_object x = k \<and> om_restore_status ob' = om_restore_status x)"
proof (cases "\<exists>x. cmd = PutObject x")
  case True
  then obtain x where "cmd = PutObject x" ..
  with put_object_status [OF assms(1), of now x ob'] assms(2) show ?thesis by auto
next
  case False
  with restore_status_step [of st k ob "(now, cmd)" ob'] assms show ?thesis by (simp add: apply_step_def)
qed

theorem restore_status_follows_machine_witness:
  "\<exists>ob'. hm_get (ms_objects (snd (apply_command demo_time (UpdateRestoreStatus
       \<lparr>urs_bucket = ''photos'', urs_key = ''a.jpg'', urs_status = 1, urs_expire_at = None\<rparr>) demo_state)))
       (''photos'', ''a.jpg'', None) = Some ob' \<and>
     (om_restore_status ob' = None \<or>
      (\<exists>t. om_restore_status ob' = Some (restore_status_i32 t) \<and> restore_transition_ok None t))"
proof -
  let ?cmd = "UpdateRestoreStatus \<lparr>urs_bucket = ''photos'', urs_key = ''a.jpg'', urs_status = 1, urs_expire_at = None\<rparr>"
  have before: "hm_get (ms_objects demo_state) (''photos'', ''a.jpg'', None) = Some (stamp_object demo_time demo_object)"
    by (simp add: demo_state_eq)
  have none: "om_restore_status (stamp_object demo_time demo_object) = None"
    by (simp add: stamp_object_def demo_object_def)
  have "hm_get (ms_objects (snd (apply_command demo_time ?cmd demo_state))) (''photos'', ''a.jpg'', None) \<noteq> None"
    by (simp add: demo_state_eq apply_update_restore_status_def find_object_mut_def max_by_last_def
        modify_object_def hm_modify_def metadata_state_default_def split: sum.splits option.splits)
  then obtain ob' where ob': "hm_get (ms_objects (snd (apply_command demo_time ?cmd demo_state)))
      (''photos'', ''a.jpg'', None) = Some ob'"
    by blast
  from restore_status_follows_machine [OF before ob'] none ob' show ?thesis by auto
qed

text \<open>
  A put is read back: when no version of the key has been updated at or
  after the time of the put, the latest version of the key is the object put, stamped with
  that time, and a versioned put is found under its version.
\<close>

theorem put_object_then_find:
  assumes "wf_meta st" and "apply_command now (PutObject ob) st = (Inr (), st')"
    and "\<forall>v ob'. hm_get (ms_objects st) (om_bucket ob, om_key ob, v) = Some ob' \<longrightarrow>
           timestamp_sort_key (om_updated_at ob') < (ts_seconds now, ts_nanos now)"
  shows "find_object st' (om_bucket ob) (om_key ob) None = Inr (stamp_object now ob) \<and>
    (\<forall>v. om_version_id ob = Some v \<longrightarrow>
       find_object st' (om_bucket ob) (om_key ob) (Some v) = Inr (stamp_object now ob))"
proof -
  let ?k = "key_of_object ob" and ?new = "stamp_object now ob"
  have get: "hm_get (ms_objects st') = (hm_get (ms_objects st))(?k \<mapsto> ?new)"
    using assms(2) by (auto simp: apply_put_object_def Let_def split: if_splits)
  have wf: "keyed key_of_object (ms_objects st')"
    using wf_apply_command [OF assms(1), of now "PutObject ob"] assms(2) by (auto dest: wf_meta_tables)
  have "find_object st' (om_bucket ob) (om_key ob) None \<noteq> Inl e" for e
  proof -
    have "(?k, ?new) \<in> set (ms_objects st')"
      using map_of_SomeD [of "ms_objects st'" ?k ?new] get by simp
    then have "filter (\<lambda>((b, k, v), ob'). b = om_bucket ob \<and> k = om_key ob) (ms_objects st') \<noteq> []"
      by (force simp: filter_empty_conv key_of_object_def)
    then show ?thesis by (auto simp: find_object_def split: option.splits)
  qed
  then obtain found where f: "find_object st' (om_bucket ob) (om_key ob) None = Inr found"
    by (cases "find_object st' (om_bucket ob) (om_key ob) None") auto
  have new: "hm_get (ms_objects st') (om_bucket ob, om_key ob, om_version_id ob) = Some ?new"
    by (simp add: get key_of_object_def)
  obtain v where v: "hm_get (ms_objects st') (om_bucket ob, om_key ob, v) = Some found"
    "timestamp_sort_key (om_updated_at ?new) \<le> timestamp_sort_key (om_updated_at found)"
    using find_object_latest [OF keyed_distinct [OF wf] f] new by blast
  have "found = ?new"
  proof (rule ccontr)
    assume "found \<noteq> ?new"
    then have "hm_get (ms_objects st) (om_bucket ob, om_key ob, v) = Some found"
      using v(1) get by (auto split: if_splits)
    then have "timestamp_sort_key (om_updated_at found) < (ts_seconds now, ts_nanos now)"
      using assms(3) by blast
    moreover have "timestamp_sort_key (om_updated_at ?new) = (ts_seconds now, ts_nanos now)"
      by (simp add: timestamp_sort_key_def)
    ultimately show False using v(2) by simp
  qed
  with f get show ?thesis by (auto simp: find_object_def key_of_object_def)
qed

theorem put_object_then_find_witness:
  "fst (apply_command \<lparr>ts_seconds = 200, ts_nanos = 0\<rparr> (PutObject (demo_object\<lparr>om_size := 9\<rparr>)) demo_state) = Inr () \<and>
   find_object (snd (apply_command \<lparr>ts_seconds = 200, ts_nanos = 0\<rparr> (PutObject (demo_object\<lparr>om_size := 9\<rparr>)) demo_state))
     ''photos'' ''a.jpg'' None = Inr (stamp_object \<lparr>ts_seconds = 200, ts_nanos = 0\<rparr> (demo_object\<lparr>om_size := 9\<rparr>))"
proof -
  let ?now = "\<lparr>ts_seconds = 200, ts_nanos = 0\<rparr>" and ?ob = "demo_object\<lparr>om_size := 9\<rparr>"
  have ok: "apply_command ?now (PutObject ?ob) demo_state =
      (Inr (), snd (apply_command ?now (PutObject ?ob) demo_state))"
    by (simp add: demo_state_eq apply_put_object_def demo_object_def Let_def)
  have old: "\<forall>v ob'. hm_get (ms_objects demo_state) (om_bucket ?ob, om_key ?ob, v) = Some ob' \<longrightarrow>
      timestamp_sort_key (om_updated_at ob') < (ts_seconds ?now, ts_nanos ?now)"
    by (auto simp: demo_state_eq demo_time_def timestamp_sort_key_def split: if_splits)
  have b: "om_bucket ?ob = ''photos''" "om_key ?ob = ''a.jpg''" by (simp_all add: demo_object_def)
  show ?thesis
    using put_object_then_find [OF wf_demo_state ok old] ok unfolding b by (metis fst_conv)
qed

text \<open>
  The status enumerations of the common crate, as the statuses of the protocol.
\<close>

primrec proto_restore :: "model_restore_status \<Rightarrow> restore_status" where
  "proto_restore Mr_Pending = RestorePending"
| "proto_restore Mr_WaitingForMedia = RestoreWaitingForMedia"
| "proto_restore Mr_InProgress = RestoreInProgress"
| "proto_restore Mr_Completed = RestoreCompleted"
| "proto_restore Mr_Expired = RestoreExpired"
| "proto_restore Mr_Failed = RestoreFailed"

primrec proto_bundle :: "model_bundle_status \<Rightarrow> archive_bundle_status" where
  "proto_bundle Mb_Pending = BundlePending"
| "proto_bundle Mb_Writing = BundleWriting"
| "proto_bundle Mb_Completed = BundleCompleted"
| "proto_bundle Mb_Failed = BundleFailed"

primrec proto_task :: "model_task_status \<Rightarrow> archive_task_status" where
  "proto_task Mt_Pending = ArchiveTaskPending"
| "proto_task Mt_InProgress = ArchiveTaskInProgress"
| "proto_task Mt_Completed = ArchiveTaskCompleted"
| "proto_task Mt_Failed = ArchiveTaskFailed"

text \<open>
  C22 (equivalence). The transition tables of the common crate and the checks of the
  state machine agree on archive bundles and archive tasks. On restores they do not: the
  state machine lets a restore that waits for media go in progress, which the common crate
  forbids, and this is the only difference.
\<close>

theorem status_machines_agree:
  "(validate_archive_bundle_transition (archive_bundle_status_i32 (proto_bundle b))
      (archive_bundle_status_i32 (proto_bundle b')) = Inr () \<longleftrightarrow> bundle_can_transition_to b b') \<and>
   (validate_archive_task_transition (archive_task_status_i32 (proto_task t))
      (archive_task_status_i32 (proto_task t')) = Inr () \<longleftrightarrow> task_can_transition_to t t') \<and>
   (validate_restore_transition (Some (restore_status_i32 (proto_restore s)))
      (restore_status_i32 (proto_restore s')) = Inr () \<longleftrightarrow>
      restore_can_transition_to s s' \<or> (s, s') = (Mr_WaitingForMedia, Mr_InProgress))"
proof (intro conjI)
  show "validate_archive_bundle_transition (archive_bundle_status_i32 (proto_bundle b))
      (archive_bundle_status_i32 (proto_bundle b')) = Inr () \<longleftrightarrow> bundle_can_transition_to b b'"
    by (cases b; cases b') (simp_all add: validate_archive_bundle_transition_def bundle_can_transition_to_def
        del: archive_bundle_status_i32.simps)
  show "validate_archive_task_transition (archive_task_status_i32 (proto_task t))
      (archive_task_status_i32 (proto_task t')) = Inr () \<longleftrightarrow> task_can_transition_to t t'"
    by (cases t; cases t') (simp_all add: validate_archive_task_transition_def task_can_transition_to_def
        del: archive_task_status_i32.simps)
  show "validate_restore_transition (Some (restore_status_i32 (proto_restore s)))
      (restore_status_i32 (proto_restore s')) = Inr () \<longleftrightarrow>
      restore_can_transition_to s s' \<or> (s, s') = (Mr_WaitingForMedia, Mr_InProgress)"
    by (cases s; cases s') (simp_all add: validate_restore_transition_def restore_can_transition_to_def
        del: restore_status_i32.simps)
qed

end
