(* ===== verification/Metadata_Snapshot.thy ===== *)
theory Metadata_Snapshot
  imports Metadata_State "HOL-Library.Sublist"
begin

text \<open>
  The snapshot format of the metadata state (the codec half of
  \<open>crates/metadata/src/state_machine.rs\<close>): a magic line and nine sections, each a count and
  that many length-prefixed messages. The encoding of one message is the protobuf library's;
  it is a parameter, a \<open>codec\<close> of an encoder and a fallible decoder per message type, and
  what the snapshot relies on is that decoding an encoded message gives it back.

  The lemmas show that the decoder inverts the encoder on states within its limits, that it
  refuses the encoding of any larger state, and that it rejects every strict prefix of an
  encoding, so a snapshot that was cut off while it was written never loads.
\<close>

section \<open>Definitions\<close>

record 'm codec =
  encode :: "'m \<Rightarrow> bytes"
  decode :: "bytes \<Rightarrow> string + 'm"

record codecs =
  c_object :: "object_metadata codec"
  c_bucket :: "bucket_info codec"
  c_archive_bundle :: "archive_bundle codec"
  c_archive_task :: "archive_task codec"
  c_recall_task :: "recall_task codec"
  c_tape :: "tape_info codec"
  c_scheduler_worker :: "scheduler_worker_info codec"
  c_cache_worker :: "cache_worker_info codec"
  c_tape_worker :: "tape_worker_info codec"

definition SNAPSHOT_MAGIC :: bytes where
  "SNAPSHOT_MAGIC = map (\<lambda>c. of_nat (of_char c)) (''COLDMETA2'' @ [CHR 0x0A])"

definition MAX_SNAPSHOT_MESSAGES_PER_SECTION :: u64 where
  "MAX_SNAPSHOT_MESSAGES_PER_SECTION = 1000000"

definition MAX_SNAPSHOT_MESSAGE_BYTES :: usize where
  "MAX_SNAPSHOT_MESSAGE_BYTES = 64 * 1024 * 1024"

definition u64_to_le_bytes :: "u64 \<Rightarrow> bytes" where
  "u64_to_le_bytes w = map (\<lambda>i. ucast (drop_bit (8 * i) w)) [0 ..< 8]"

definition u64_from_le_bytes :: "bytes \<Rightarrow> u64" where
  "u64_from_le_bytes bs = foldr (\<lambda>b w. ucast b + push_bit 8 w) bs 0"

definition write_messages :: "('m \<Rightarrow> bytes) \<Rightarrow> 'm list \<Rightarrow> bytes" where
  "write_messages enc ms =
     (let encoded = map enc ms
      in u64_to_le_bytes (len_u64 encoded) @
         concat (map (\<lambda>m. u64_to_le_bytes (len_u64 m) @ m) encoded))"

definition encode_snapshot :: "codecs \<Rightarrow> metadata_state \<Rightarrow> bytes" where
  "encode_snapshot c st =
     SNAPSHOT_MAGIC @
     write_messages (encode (c_object c)) (hm_values (ms_objects st)) @
     write_messages (encode (c_bucket c)) (hm_values (ms_buckets st)) @
     write_messages (encode (c_archive_bundle c)) (hm_values (ms_archive_bundles st)) @
     write_messages (encode (c_archive_task c)) (hm_values (ms_archive_tasks st)) @
     write_messages (encode (c_recall_task c)) (hm_values (ms_recall_tasks st)) @
     write_messages (encode (c_tape c)) (hm_values (ms_tapes st)) @
     write_messages (encode (c_scheduler_worker c)) (hm_values (ms_scheduler_workers st)) @
     write_messages (encode (c_cache_worker c)) (hm_values (ms_cache_workers st)) @
     write_messages (encode (c_tape_worker c)) (hm_values (ms_tape_workers st))"

text \<open>A reader returns its value and the rest of the cursor.\<close>

definition read_u64 :: "bytes \<Rightarrow> string + u64 \<times> bytes" where
  "read_u64 cursor =
     (if length cursor < 8 then Inl ''truncated metadata snapshot header''
      else Inr (u64_from_le_bytes (take 8 cursor), drop 8 cursor))"

fun read_message_loop :: "(bytes \<Rightarrow> string + 'm) \<Rightarrow> nat \<Rightarrow> bytes \<Rightarrow> string + 'm list \<times> bytes" where
  "read_message_loop dec 0 cursor = Inr ([], cursor)"
| "read_message_loop dec (Suc n) cursor =
     try_then (read_u64 cursor) (\<lambda>(w, cursor).
       let len = unat w
       in if len > MAX_SNAPSHOT_MESSAGE_BYTES then Inl ''metadata snapshot message is too large''
          else if length cursor < len then Inl ''truncated metadata snapshot message''
          else try_then (dec (take len cursor)) (\<lambda>m.
            try_then (read_message_loop dec n (drop len cursor)) (\<lambda>(ms, cursor). Inr (m # ms, cursor))))"

definition read_messages :: "(bytes \<Rightarrow> string + 'm) \<Rightarrow> bytes \<Rightarrow> string + 'm list \<times> bytes" where
  "read_messages dec cursor =
     try_then (read_u64 cursor) (\<lambda>(count, cursor).
       if count > MAX_SNAPSHOT_MESSAGES_PER_SECTION
       then Inl ''metadata snapshot section contains too many messages''
       else read_message_loop dec (unat count) cursor)"

definition decode_snapshot :: "codecs \<Rightarrow> bytes \<Rightarrow> string + metadata_state" where
  "decode_snapshot c bytes =
     (if take (length SNAPSHOT_MAGIC) bytes \<noteq> SNAPSHOT_MAGIC then Inl ''invalid metadata snapshot magic''
      else
        try_then (read_messages (decode (c_object c)) (drop (length SNAPSHOT_MAGIC) bytes)) (\<lambda>(objects, cursor).
        try_then (read_messages (decode (c_bucket c)) cursor) (\<lambda>(buckets, cursor).
        try_then (read_messages (decode (c_archive_bundle c)) cursor) (\<lambda>(archive_bundles, cursor).
        try_then (read_messages (decode (c_archive_task c)) cursor) (\<lambda>(archive_tasks, cursor).
        try_then (read_messages (decode (c_recall_task c)) cursor) (\<lambda>(recall_tasks, cursor).
        try_then (read_messages (decode (c_tape c)) cursor) (\<lambda>(tapes, cursor).
        try_then (read_messages (decode (c_scheduler_worker c)) cursor) (\<lambda>(scheduler_workers, cursor).
        try_then (read_messages (decode (c_cache_worker c)) cursor) (\<lambda>(cache_workers, cursor).
        try_then (read_messages (decode (c_tape_worker c)) cursor) (\<lambda>(tape_workers, cursor).
        if cursor \<noteq> [] then Inl ''trailing bytes in metadata snapshot''
        else Inr
          \<lparr>ms_objects = hm_collect (map (\<lambda>ob. (key_of_object ob, ob)) objects),
           ms_buckets = hm_collect (map (\<lambda>b. (bi_name b, b)) buckets),
           ms_archive_bundles = hm_collect (map (\<lambda>b. (ab_id b, b)) archive_bundles),
           ms_archive_tasks = hm_collect (map (\<lambda>t. (at_id t, t)) archive_tasks),
           ms_recall_tasks = hm_collect (map (\<lambda>t. (rt_id t, t)) recall_tasks),
           ms_tapes = hm_collect (map (\<lambda>t. (ti_id t, t)) tapes),
           ms_scheduler_workers = hm_collect (map (\<lambda>w. (sw_node_id w, w)) scheduler_workers),
           ms_cache_workers = hm_collect (map (\<lambda>w. (cw_node_id w, w)) cache_workers),
           ms_tape_workers = hm_collect (map (\<lambda>w. (tw_node_id w, w)) tape_workers)\<rparr>))))))))))"

section \<open>Integers\<close>

lemma length_u64_to_le_bytes [simp]: "length (u64_to_le_bytes w) = 8"
  by (simp add: u64_to_le_bytes_def)

lemma ucast_byte: "ucast (ucast w :: u8) = take_bit 8 w" for w :: u64
  by (rule bit_word_eqI) (auto simp: bit_unsigned_iff bit_take_bit_iff)

lemma split_low_byte: "take_bit 8 w + push_bit 8 (take_bit m (drop_bit 8 w)) = take_bit (m + 8) w" for w :: u64
  using bits_ident [of 8 "take_bit (m + 8) w"] by (simp add: drop_bit_take_bit ac_simps)

lemma u64_from_le_bytes_drop:
  "foldr (\<lambda>b w. ucast b + push_bit 8 w) (map (\<lambda>i. ucast (drop_bit (8 * i) w) :: u8) [k ..< k + n]) 0 =
     take_bit (8 * n) (drop_bit (8 * k) w)" for w :: u64
proof (induction n arbitrary: k)
  case (Suc n)
  have "[k ..< k + Suc n] = k # [Suc k ..< Suc k + n]"
    by (simp add: upt_conv_Cons)
  then show ?case
    using Suc.IH [of "Suc k"] split_low_byte [of "drop_bit (8 * k) w" "8 * n"]
    by (simp add: ucast_byte algebra_simps)
qed simp

lemma u64_le_bytes_round_trip [simp]: "u64_from_le_bytes (u64_to_le_bytes w) = w"
  using u64_from_le_bytes_drop [of w 0 8]
  by (simp add: u64_from_le_bytes_def u64_to_le_bytes_def take_bit_word_eq_self)

section \<open>Sections\<close>

text \<open>The messages of a section fit the limits of the reader.\<close>

definition fits :: "('m \<Rightarrow> bytes) \<Rightarrow> 'm list \<Rightarrow> bool" where
  "fits enc ms \<longleftrightarrow>
     length ms \<le> unat MAX_SNAPSHOT_MESSAGES_PER_SECTION \<and>
     (\<forall>m \<in> set ms. length (enc m) \<le> MAX_SNAPSHOT_MESSAGE_BYTES)"

abbreviation frame :: "bytes \<Rightarrow> bytes" where
  "frame m \<equiv> u64_to_le_bytes (len_u64 m) @ m"

lemma read_u64_append [simp]: "read_u64 (u64_to_le_bytes w @ rest) = Inr (w, rest)"
  by (simp add: read_u64_def)

lemma unat_len_message: "length m \<le> MAX_SNAPSHOT_MESSAGE_BYTES \<Longrightarrow> unat (len_u64 m) = length m"
  by (rule unat_len_u64) (simp add: MAX_SNAPSHOT_MESSAGE_BYTES_def)

lemma read_message_loop_frames:
  assumes "\<forall>m \<in> set ms. dec (enc m) = Inr m \<and> length (enc m) \<le> MAX_SNAPSHOT_MESSAGE_BYTES"
  shows "read_message_loop dec (length ms) (concat (map (\<lambda>m. frame (enc m)) ms) @ rest) = Inr (ms, rest)"
  using assms by (induction ms) (simp_all add: unat_len_message)

lemma unat_section_count:
  assumes "fits enc ms"
  shows "unat (len_u64 ms) = length ms" and "len_u64 ms \<le> MAX_SNAPSHOT_MESSAGES_PER_SECTION"
proof -
  have "length ms \<le> 1000000" using assms by (simp add: fits_def MAX_SNAPSHOT_MESSAGES_PER_SECTION_def)
  then show count: "unat (len_u64 ms) = length ms" by (intro unat_len_u64) simp
  with assms show "len_u64 ms \<le> MAX_SNAPSHOT_MESSAGES_PER_SECTION"
    by (simp add: word_le_nat_alt fits_def)
qed

lemma len_u64_map [simp]: "len_u64 (map f xs) = len_u64 xs"
  by (simp add: len_u64_def)

lemma write_messages_eq:
  "write_messages enc ms = u64_to_le_bytes (len_u64 ms) @ concat (map (\<lambda>m. frame (enc m)) ms)"
  by (simp add: write_messages_def o_def)

text \<open>A reader that takes exactly \<open>bs\<close>, and rejects everything that stops short of it.\<close>

definition accepts :: "(bytes \<Rightarrow> string + 'a \<times> bytes) \<Rightarrow> bytes \<Rightarrow> 'a \<Rightarrow> bool" where
  "accepts rd bs x \<longleftrightarrow> (\<forall>rest. rd (bs @ rest) = Inr (x, rest))"

definition rejects_prefixes :: "(bytes \<Rightarrow> string + 'a) \<Rightarrow> bytes \<Rightarrow> bool" where
  "rejects_prefixes rd bs \<longleftrightarrow> (\<forall>p. strict_prefix p bs \<longrightarrow> (\<exists>e. rd p = Inl e))"

lemma strict_prefix_append_cases:
  assumes "strict_prefix p (xs @ ys)"
  shows "strict_prefix p xs \<or> (\<exists>p'. p = xs @ p' \<and> strict_prefix p' ys)"
  using assms by (auto simp: strict_prefix_def prefix_append)

lemma rejects_prefixes_then:
  assumes "accepts rd bs x" and "rejects_prefixes rd bs" and "rejects_prefixes (f x) bs'"
  shows "rejects_prefixes (\<lambda>p. try_then (rd p) (\<lambda>(x, cursor). f x cursor)) (bs @ bs')"
  unfolding rejects_prefixes_def
proof (intro allI impI)
  fix p assume p: "strict_prefix p (bs @ bs')"
  show "\<exists>e. try_then (rd p) (\<lambda>(x, cursor). f x cursor) = Inl e"
  proof (cases "strict_prefix p bs")
    case True
    then obtain e where "rd p = Inl e" using assms(2) by (auto simp: rejects_prefixes_def)
    then show ?thesis by simp
  next
    case False
    with p obtain p' where p': "p = bs @ p'" "strict_prefix p' bs'"
      using strict_prefix_append_cases by blast
    then have "rd p = Inr (x, p')" using assms(1) by (simp add: accepts_def)
    with p' assms(3) show ?thesis by (auto simp: rejects_prefixes_def)
  qed
qed

lemma rejects_prefixes_Nil: "rejects_prefixes rd []"
  by (simp add: rejects_prefixes_def)

lemma accepts_u64: "accepts read_u64 (u64_to_le_bytes w) w"
  by (simp add: accepts_def)

lemma rejects_u64: "rejects_prefixes read_u64 (u64_to_le_bytes w)"
proof -
  have "length p < 8" if "strict_prefix p (u64_to_le_bytes w)" for p
    using prefix_length_less [OF that] by simp
  then show ?thesis by (auto simp: rejects_prefixes_def read_u64_def)
qed

lemma rejects_frames:
  assumes "\<forall>m \<in> set ms. length (enc m) \<le> MAX_SNAPSHOT_MESSAGE_BYTES"
  shows "rejects_prefixes (read_message_loop dec (length ms)) (concat (map (\<lambda>m. frame (enc m)) ms))"
  using assms
proof (induction ms)
  case Nil
  then show ?case by (simp add: rejects_prefixes_Nil)
next
  case (Cons m ms)
  let ?rest = "concat (map (\<lambda>m. frame (enc m)) ms)"
  define body where "body w cursor =
     (let len = unat (w :: u64)
      in if len > MAX_SNAPSHOT_MESSAGE_BYTES then Inl ''metadata snapshot message is too large''
         else if length cursor < len then Inl ''truncated metadata snapshot message''
         else try_then (dec (take len cursor)) (\<lambda>m.
           try_then (read_message_loop dec (length ms) (drop len cursor)) (\<lambda>(ms, cursor). Inr (m # ms, cursor))))"
    for w cursor
  have IH: "rejects_prefixes (read_message_loop dec (length ms)) ?rest"
    using Cons by simp
  have len: "unat (len_u64 (enc m)) = length (enc m)" using Cons.prems by (simp add: unat_len_message)
  have body: "rejects_prefixes (body (len_u64 (enc m))) (enc m @ ?rest)"
    unfolding rejects_prefixes_def
  proof (intro allI impI)
    fix p assume p: "strict_prefix p (enc m @ ?rest)"
    show "\<exists>e. body (len_u64 (enc m)) p = Inl e"
    proof (cases "length p < length (enc m)")
      case True
      with Cons.prems len show ?thesis by (simp add: body_def Let_def)
    next
      case False
      then have "\<not> strict_prefix p (enc m)" using prefix_length_less by blast
      with p obtain p' where p': "p = enc m @ p'" "strict_prefix p' ?rest"
        using strict_prefix_append_cases by blast
      then obtain e where "read_message_loop dec (length ms) p' = Inl e"
        using IH by (auto simp: rejects_prefixes_def)
      with p' Cons.prems len show ?thesis
        by (cases "dec (enc m)") (simp_all add: body_def Let_def)
    qed
  qed
  have "read_message_loop dec (length (m # ms)) = (\<lambda>p. try_then (read_u64 p) (\<lambda>(w, cursor). body w cursor))"
    by (rule ext) (simp add: body_def Let_def)
  then show ?case
    using rejects_prefixes_then [where f = body, OF accepts_u64 rejects_u64 body] by simp
qed

lemma accepts_section:
  assumes "fits enc ms" and "\<forall>m \<in> set ms. dec (enc m) = Inr m"
  shows "accepts (read_messages dec) (write_messages enc ms) ms"
proof -
  have "read_message_loop dec (length ms) (concat (map (\<lambda>m. frame (enc m)) ms) @ rest) = Inr (ms, rest)" for rest
    using assms by (intro read_message_loop_frames) (simp add: fits_def)
  then show ?thesis
    using unat_section_count [OF assms(1)]
    by (simp add: accepts_def read_messages_def write_messages_eq linorder_not_less [symmetric])
qed

lemma rejects_section:
  assumes "fits enc ms"
  shows "rejects_prefixes (read_messages dec) (write_messages enc ms)"
proof -
  define body where "body count cursor =
      (if count > MAX_SNAPSHOT_MESSAGES_PER_SECTION
       then Inl ''metadata snapshot section contains too many messages''
       else read_message_loop dec (unat count) cursor)" for count :: u64 and cursor
  have "body (len_u64 ms) = read_message_loop dec (length ms)"
    using unat_section_count [OF assms] by (simp add: body_def fun_eq_iff linorder_not_less [symmetric])
  then have "rejects_prefixes (body (len_u64 ms)) (concat (map (\<lambda>m. frame (enc m)) ms))"
    using rejects_frames [of ms enc dec] assms by (simp add: fits_def)
  from rejects_prefixes_then [where f = body, OF accepts_u64 rejects_u64 this]
  show ?thesis
    by (simp add: write_messages_eq read_messages_def [abs_def] body_def [abs_def])
qed

section \<open>Snapshots\<close>

text \<open>
  What the snapshot relies on of the message codecs, for the messages of a state: decoding
  the encoding of a message gives the message back.
\<close>

definition codecs_invert :: "codecs \<Rightarrow> metadata_state \<Rightarrow> bool" where
  "codecs_invert c st \<longleftrightarrow>
     (\<forall>m \<in> set (hm_values (ms_objects st)). decode (c_object c) (encode (c_object c) m) = Inr m) \<and>
     (\<forall>m \<in> set (hm_values (ms_buckets st)). decode (c_bucket c) (encode (c_bucket c) m) = Inr m) \<and>
     (\<forall>m \<in> set (hm_values (ms_archive_bundles st)).
        decode (c_archive_bundle c) (encode (c_archive_bundle c) m) = Inr m) \<and>
     (\<forall>m \<in> set (hm_values (ms_archive_tasks st)).
        decode (c_archive_task c) (encode (c_archive_task c) m) = Inr m) \<and>
     (\<forall>m \<in> set (hm_values (ms_recall_tasks st)). decode (c_recall_task c) (encode (c_recall_task c) m) = Inr m) \<and>
     (\<forall>m \<in> set (hm_values (ms_tapes st)). decode (c_tape c) (encode (c_tape c) m) = Inr m) \<and>
     (\<forall>m \<in> set (hm_values (ms_scheduler_workers st)).
        decode (c_scheduler_worker c) (encode (c_scheduler_worker c) m) = Inr m) \<and>
     (\<forall>m \<in> set (hm_values (ms_cache_workers st)).
        decode (c_cache_worker c) (encode (c_cache_worker c) m) = Inr m) \<and>
     (\<forall>m \<in> set (hm_values (ms_tape_workers st)). decode (c_tape_worker c) (encode (c_tape_worker c) m) = Inr m)"

text \<open>The state is within the limits of the reader: a million messages of 64 MiB per section.\<close>

definition state_fits :: "codecs \<Rightarrow> metadata_state \<Rightarrow> bool" where
  "state_fits c st \<longleftrightarrow>
     fits (encode (c_object c)) (hm_values (ms_objects st)) \<and>
     fits (encode (c_bucket c)) (hm_values (ms_buckets st)) \<and>
     fits (encode (c_archive_bundle c)) (hm_values (ms_archive_bundles st)) \<and>
     fits (encode (c_archive_task c)) (hm_values (ms_archive_tasks st)) \<and>
     fits (encode (c_recall_task c)) (hm_values (ms_recall_tasks st)) \<and>
     fits (encode (c_tape c)) (hm_values (ms_tapes st)) \<and>
     fits (encode (c_scheduler_worker c)) (hm_values (ms_scheduler_workers st)) \<and>
     fits (encode (c_cache_worker c)) (hm_values (ms_cache_workers st)) \<and>
     fits (encode (c_tape_worker c)) (hm_values (ms_tape_workers st))"

definition snapshot_ok :: "codecs \<Rightarrow> metadata_state \<Rightarrow> bool" where
  "snapshot_ok c st \<longleftrightarrow> wf_meta st \<and> codecs_invert c st \<and> state_fits c st"

lemma read_section:
  assumes "fits enc ms" and "\<forall>m \<in> set ms. dec (enc m) = Inr m"
  shows "read_messages dec (write_messages enc ms @ rest) = Inr (ms, rest)"
    and "read_messages dec (write_messages enc ms) = Inr (ms, [])"
  using accepts_section [OF assms] unfolding accepts_def by (blast, metis append_Nil2)

lemma decode_encode_snapshot:
  assumes "snapshot_ok c st"
  shows "decode_snapshot c (encode_snapshot c st) = Inr st"
proof -
  note inv = assms [unfolded snapshot_ok_def codecs_invert_def state_fits_def]
  have collected: "\<lparr>ms_objects = hm_collect (map (\<lambda>ob. (key_of_object ob, ob)) (hm_values (ms_objects st))),
     ms_buckets = hm_collect (map (\<lambda>b. (bi_name b, b)) (hm_values (ms_buckets st))),
     ms_archive_bundles = hm_collect (map (\<lambda>b. (ab_id b, b)) (hm_values (ms_archive_bundles st))),
     ms_archive_tasks = hm_collect (map (\<lambda>t. (at_id t, t)) (hm_values (ms_archive_tasks st))),
     ms_recall_tasks = hm_collect (map (\<lambda>t. (rt_id t, t)) (hm_values (ms_recall_tasks st))),
     ms_tapes = hm_collect (map (\<lambda>t. (ti_id t, t)) (hm_values (ms_tapes st))),
     ms_scheduler_workers = hm_collect (map (\<lambda>w. (sw_node_id w, w)) (hm_values (ms_scheduler_workers st))),
     ms_cache_workers = hm_collect (map (\<lambda>w. (cw_node_id w, w)) (hm_values (ms_cache_workers st))),
     ms_tape_workers = hm_collect (map (\<lambda>w. (tw_node_id w, w)) (hm_values (ms_tape_workers st)))\<rparr> = st"
    using inv by (simp only: hm_collect_keyed wf_meta_tables) simp
  show ?thesis
    unfolding decode_snapshot_def encode_snapshot_def
    using inv collected by (simp add: read_section del: set_map list.map_comp map_map)
qed

text \<open>The chain of section readers of \<open>decode_snapshot\<close> rejects every strict prefix.\<close>

lemma rejects_section_then:
  assumes "fits enc ms" and "\<forall>m \<in> set ms. dec (enc m) = Inr m" and "rejects_prefixes (f ms) bs"
  shows "rejects_prefixes (\<lambda>p. try_then (read_messages dec p) (\<lambda>(x, cursor). f x cursor)) (write_messages enc ms @ bs)"
  by (rule rejects_prefixes_then [where f = f, OF accepts_section [OF assms(1,2)] rejects_section [OF assms(1)] assms(3)])

lemma rejects_last_section:
  assumes "fits enc ms" and "\<forall>m \<in> set ms. dec (enc m) = Inr m"
  shows "rejects_prefixes (\<lambda>p. try_then (read_messages dec p) (\<lambda>(x, cursor). f x cursor)) (write_messages enc ms)"
  using rejects_section_then [where f = f, OF assms rejects_prefixes_Nil] by simp

lemma decode_snapshot_rejects_prefix:
  assumes "codecs_invert c st" and "state_fits c st" and "strict_prefix p (encode_snapshot c st)"
  shows "\<exists>e. decode_snapshot c p = Inl e"
proof (cases "take (length SNAPSHOT_MAGIC) p = SNAPSHOT_MAGIC")
  case False
  then show ?thesis by (simp add: decode_snapshot_def)
next
  case True
  then obtain p' where p: "p = SNAPSHOT_MAGIC @ p'" by (metis append_take_drop_id)
  define sections where "sections = drop (length SNAPSHOT_MAGIC) (encode_snapshot c st)"
  note inv = assms(1,2) [unfolded codecs_invert_def state_fits_def]
  have eq: "encode_snapshot c st = SNAPSHOT_MAGIC @ sections"
    by (simp add: sections_def encode_snapshot_def)
  have "rejects_prefixes (\<lambda>p. decode_snapshot c (SNAPSHOT_MAGIC @ p)) sections"
    unfolding decode_snapshot_def sections_def encode_snapshot_def append_eq_conv_conj [THEN iffD1, OF refl]
      append_take_drop_id simp_thms if_False take_append drop_append
    by (simp, intro rejects_section_then rejects_last_section, (use inv in blast)+)
  moreover have "strict_prefix p' sections" using assms(3) unfolding p eq by (simp add: strict_prefix_def)
  ultimately show ?thesis by (auto simp: rejects_prefixes_def p)
qed

text \<open>
  The interface that the persistence of the service uses: what was saved is what is loaded,
  and a torn write is noticed.
\<close>

locale snapshot_format =
  fixes enc :: "'s \<Rightarrow> bytes"
    and dec :: "bytes \<Rightarrow> string + 's"
    and ok :: "'s \<Rightarrow> bool"
  assumes dec_enc: "ok s \<Longrightarrow> dec (enc s) = Inr s"
    and dec_torn: "ok s \<Longrightarrow> strict_prefix p (enc s) \<Longrightarrow> \<exists>e. dec p = Inl e"
begin

text \<open>A file that holds a prefix of a saved state either loads that state or does not load at all.\<close>

lemma load_prefix:
  assumes "ok s" and "prefix p (enc s)" and "dec p = Inr s'"
  shows "s' = s"
proof (cases "p = enc s")
  case True
  with assms dec_enc show ?thesis by simp
next
  case False
  with assms dec_torn [of s p] show ?thesis by (auto simp: strict_prefix_def)
qed

lemma enc_inject: "ok s \<Longrightarrow> ok s' \<Longrightarrow> enc s = enc s' \<Longrightarrow> s = s'"
  by (metis dec_enc sum.inject(2))

end

interpretation snapshot: snapshot_format "encode_snapshot c" "decode_snapshot c" "snapshot_ok c" for c
  by unfold_locales (auto simp: snapshot_ok_def decode_encode_snapshot decode_snapshot_rejects_prefix)

section \<open>Properties of the snapshot\<close>

text \<open>The lengths of the vectors of a section are values of \<open>usize\<close>.\<close>

definition in_memory :: "('m \<Rightarrow> bytes) \<Rightarrow> 'm list \<Rightarrow> bool" where
  "in_memory enc ms \<longleftrightarrow> length ms \<le> usize_MAX \<and> (\<forall>m \<in> set ms. length (enc m) \<le> usize_MAX)"

definition state_in_memory :: "codecs \<Rightarrow> metadata_state \<Rightarrow> bool" where
  "state_in_memory c st \<longleftrightarrow>
     in_memory (encode (c_object c)) (hm_values (ms_objects st)) \<and>
     in_memory (encode (c_bucket c)) (hm_values (ms_buckets st)) \<and>
     in_memory (encode (c_archive_bundle c)) (hm_values (ms_archive_bundles st)) \<and>
     in_memory (encode (c_archive_task c)) (hm_values (ms_archive_tasks st)) \<and>
     in_memory (encode (c_recall_task c)) (hm_values (ms_recall_tasks st)) \<and>
     in_memory (encode (c_tape c)) (hm_values (ms_tapes st)) \<and>
     in_memory (encode (c_scheduler_worker c)) (hm_values (ms_scheduler_workers st)) \<and>
     in_memory (encode (c_cache_worker c)) (hm_values (ms_cache_workers st)) \<and>
     in_memory (encode (c_tape_worker c)) (hm_values (ms_tape_workers st))"

text \<open>The writer has no limits: a section that does not fit is written and then refused by the reader.\<close>

lemma read_message_loop_too_large:
  assumes "in_memory enc ms" and "\<forall>m \<in> set ms. dec (enc m) = Inr m"
    and "\<exists>m \<in> set ms. length (enc m) > MAX_SNAPSHOT_MESSAGE_BYTES"
  shows "\<exists>e. read_message_loop dec (length ms) (concat (map (\<lambda>m. frame (enc m)) ms) @ rest) = Inl e"
  using assms
proof (induction ms)
  case (Cons m ms)
  have len: "unat (len_u64 (enc m)) = length (enc m)"
    using Cons.prems(1) by (intro unat_len_u64) (simp add: in_memory_def usize_MAX_def)
  show ?case
  proof (cases "length (enc m) > MAX_SNAPSHOT_MESSAGE_BYTES")
    case True
    then show ?thesis by (simp add: len)
  next
    case False
    then have "\<exists>e. read_message_loop dec (length ms) (concat (map (\<lambda>m. frame (enc m)) ms) @ rest) = Inl e"
      using Cons.prems by (intro Cons.IH) (auto simp: in_memory_def)
    then obtain e where "read_message_loop dec (length ms) (concat (map (\<lambda>m. frame (enc m)) ms) @ rest) = Inl e" ..
    with False Cons.prems(2) show ?thesis by (simp add: len)
  qed
qed simp

lemma read_section_too_large:
  assumes "in_memory enc ms" and "\<forall>m \<in> set ms. dec (enc m) = Inr m" and "\<not> fits enc ms"
  shows "\<exists>e. read_messages dec (write_messages enc ms @ rest) = Inl e"
proof -
  have len: "unat (len_u64 ms) = length ms"
    using assms(1) by (intro unat_len_u64) (simp add: in_memory_def usize_MAX_def)
  show ?thesis
  proof (cases "len_u64 ms > MAX_SNAPSHOT_MESSAGES_PER_SECTION")
    case True
    then show ?thesis by (simp add: read_messages_def write_messages_eq)
  next
    case False
    then have "\<exists>m \<in> set ms. length (enc m) > MAX_SNAPSHOT_MESSAGE_BYTES"
      using assms(3) len by (auto simp: fits_def word_less_nat_alt not_le)
    with False read_message_loop_too_large [OF assms(1,2) this, of rest] show ?thesis
      by (simp add: read_messages_def write_messages_eq len)
  qed
qed

lemma refuse_section:
  assumes "in_memory enc ms" and "\<forall>m \<in> set ms. dec (enc m) = Inr m"
    and "fits enc ms \<Longrightarrow> \<exists>e. f ms rest = Inl e"
  shows "\<exists>e. try_then (read_messages dec (write_messages enc ms @ rest)) (\<lambda>(ms, cursor). f ms cursor) = Inl e"
  using assms read_section_too_large [OF assms(1,2), of rest] read_section(1) [OF _ assms(2), of rest]
  by (cases "fits enc ms") auto

lemma refuse_last_section:
  assumes "in_memory enc ms" and "\<forall>m \<in> set ms. dec (enc m) = Inr m" and "\<not> fits enc ms"
  shows "\<exists>e. try_then (read_messages dec (write_messages enc ms)) (\<lambda>(ms, cursor). f ms cursor) = Inl e"
  using read_section_too_large [OF assms, of "[]"] by auto

lemma decode_too_large:
  assumes "codecs_invert c st" and "state_in_memory c st" and "\<not> state_fits c st"
  shows "\<exists>e. decode_snapshot c (encode_snapshot c st) = Inl e"
proof -
  note inv = assms(1) [unfolded codecs_invert_def] and mem = assms(2) [unfolded state_in_memory_def]
  have magic: "take (length SNAPSHOT_MAGIC) (encode_snapshot c st) = SNAPSHOT_MAGIC" by (simp add: encode_snapshot_def)
  show ?thesis
    unfolding decode_snapshot_def using magic
    apply (simp add: encode_snapshot_def del: set_map)
    apply (rule refuse_section, use mem in blast, use inv in blast)+
    apply (rule refuse_last_section)
    using inv mem assms(3) unfolding state_fits_def by blast+
qed


text \<open>
  C23 (round trip). The reader refuses a section of more than 1000000 messages and a message of
  more than 64 MiB, limits that the writer does not have. Decoding the snapshot of a consistent
  state gives exactly that state when it is within these limits, and an error when it is not.
  The message codecs are taken to invert each other on its messages.
\<close>

theorem snapshot_round_trip:
  assumes "wf_meta st" and "codecs_invert c st" and "state_in_memory c st"
  shows "if state_fits c st then decode_snapshot c (encode_snapshot c st) = Inr st
    else \<exists>e. decode_snapshot c (encode_snapshot c st) = Inl e"
  using assms decode_too_large [OF assms(2,3)] snapshot.dec_enc [of c st] by (simp add: snapshot_ok_def)

definition no_codec :: "'m codec" where
  "no_codec = \<lparr>encode = (\<lambda>_. []), decode = (\<lambda>_. Inl ''no message'')\<rparr>"

definition demo_codecs :: codecs where
  "demo_codecs =
     \<lparr>c_object = \<lparr>encode = (\<lambda>_. [1]), decode = (\<lambda>_. Inr (stamp_object demo_time demo_object))\<rparr>,
      c_bucket = \<lparr>encode = (\<lambda>_. [2, 2]), decode = (\<lambda>_. Inr (demo_bucket
        \<lparr>bi_created_at := Some demo_time, bi_object_count := 1, bi_total_size := 5\<rparr>))\<rparr>,
      c_archive_bundle = no_codec, c_archive_task = no_codec, c_recall_task = no_codec, c_tape = no_codec,
      c_scheduler_worker = no_codec, c_cache_worker = no_codec, c_tape_worker = no_codec\<rparr>"

lemma demo_snapshot_ok: "codecs_invert demo_codecs demo_state" "state_fits demo_codecs demo_state"
  by (simp_all add: demo_state_eq codecs_invert_def state_fits_def fits_def demo_codecs_def
      metadata_state_default_def MAX_SNAPSHOT_MESSAGES_PER_SECTION_def MAX_SNAPSHOT_MESSAGE_BYTES_def)

definition large_codecs :: codecs where
  "large_codecs = demo_codecs\<lparr>c_object :=
     \<lparr>encode = (\<lambda>_. replicate (Suc MAX_SNAPSHOT_MESSAGE_BYTES) 0), decode = (\<lambda>_. Inr (stamp_object demo_time demo_object))\<rparr>\<rparr>"

lemma demo_state_in_memory: "state_in_memory demo_codecs demo_state"
  by (simp add: demo_state_eq state_in_memory_def in_memory_def demo_codecs_def metadata_state_default_def usize_MAX_def)

lemma large_snapshot:
  "codecs_invert large_codecs demo_state" "state_in_memory large_codecs demo_state" "\<not> state_fits large_codecs demo_state"
  by (simp_all add: demo_state_eq codecs_invert_def state_fits_def fits_def state_in_memory_def in_memory_def large_codecs_def
      demo_codecs_def metadata_state_default_def MAX_SNAPSHOT_MESSAGES_PER_SECTION_def MAX_SNAPSHOT_MESSAGE_BYTES_def
      usize_MAX_def)

theorem snapshot_round_trip_witness:
  "decode_snapshot demo_codecs (encode_snapshot demo_codecs demo_state) = Inr demo_state \<and>
   (\<exists>e. decode_snapshot large_codecs (encode_snapshot large_codecs demo_state) = Inl e)"
  using snapshot_round_trip [OF wf_demo_state demo_snapshot_ok(1) demo_state_in_memory]
    snapshot_round_trip [OF wf_demo_state large_snapshot(1,2)] demo_snapshot_ok(2) large_snapshot(3) by simp

text \<open>
  C24 (safety). A snapshot file that was cut off before its end, at whatever byte, is
  rejected by the decoder: it never loads as some other state.
\<close>

theorem torn_snapshot_rejected:
  assumes "wf_meta st" and "codecs_invert c st" and "state_fits c st" and "n < length (encode_snapshot c st)"
  shows "\<exists>e. decode_snapshot c (take n (encode_snapshot c st)) = Inl e"
proof (rule snapshot.dec_torn)
  show "snapshot_ok c st" using assms by (simp add: snapshot_ok_def)
  show "strict_prefix (take n (encode_snapshot c st)) (encode_snapshot c st)"
    using assms(4) take_is_prefix [of n "encode_snapshot c st"]
    by (metis strict_prefix_def length_take min.absorb4 order_less_irrefl)
qed

theorem torn_snapshot_rejected_witness:
  "12 < length (encode_snapshot demo_codecs demo_state) \<and>
   (\<exists>e. decode_snapshot demo_codecs (take 12 (encode_snapshot demo_codecs demo_state)) = Inl e)"
proof -
  have "12 < length (encode_snapshot demo_codecs demo_state)"
    by (simp add: encode_snapshot_def write_messages_eq SNAPSHOT_MAGIC_def)
  with torn_snapshot_rejected [OF wf_demo_state demo_snapshot_ok] show ?thesis by blast
qed

text \<open>
  The decoder refuses input without the magic line, a section that announces
  more than a million messages, and bytes behind the last section.
\<close>

theorem snapshot_malformed_rejected:
  "(take (length SNAPSHOT_MAGIC) bytes \<noteq> SNAPSHOT_MAGIC \<longrightarrow>
      decode_snapshot c bytes = Inl ''invalid metadata snapshot magic'') \<and>
   (count > MAX_SNAPSHOT_MESSAGES_PER_SECTION \<longrightarrow>
      decode_snapshot c (SNAPSHOT_MAGIC @ u64_to_le_bytes count @ rest) =
        Inl ''metadata snapshot section contains too many messages'') \<and>
   (snapshot_ok c st \<longrightarrow> extra \<noteq> [] \<longrightarrow>
      decode_snapshot c (encode_snapshot c st @ extra) = Inl ''trailing bytes in metadata snapshot'')"
proof (intro conjI impI)
  assume "snapshot_ok c st" and "extra \<noteq> []"
  then show "decode_snapshot c (encode_snapshot c st @ extra) = Inl ''trailing bytes in metadata snapshot''"
    unfolding decode_snapshot_def encode_snapshot_def
    by (simp add: read_section snapshot_ok_def codecs_invert_def state_fits_def del: set_map map_map)
qed (simp_all add: decode_snapshot_def read_messages_def)

theorem snapshot_malformed_rejected_witness:
  "decode_snapshot demo_codecs [7] = Inl ''invalid metadata snapshot magic'' \<and>
   decode_snapshot demo_codecs (SNAPSHOT_MAGIC @ u64_to_le_bytes 2000000 @ []) =
     Inl ''metadata snapshot section contains too many messages'' \<and>
   decode_snapshot demo_codecs (encode_snapshot demo_codecs demo_state @ [0]) =
     Inl ''trailing bytes in metadata snapshot''"
proof -
  have "take (length SNAPSHOT_MAGIC) [7] \<noteq> SNAPSHOT_MAGIC"
    by (auto simp: SNAPSHOT_MAGIC_def)
  moreover have "2000000 > MAX_SNAPSHOT_MESSAGES_PER_SECTION"
    by (simp add: MAX_SNAPSHOT_MESSAGES_PER_SECTION_def word_less_nat_alt)
  moreover have "snapshot_ok demo_codecs demo_state"
    by (simp add: snapshot_ok_def wf_demo_state demo_snapshot_ok)
  ultimately show ?thesis
    using snapshot_malformed_rejected [of "[7]" demo_codecs 2000000 "[]" demo_state "[0]"] by blast
qed

end
