(* ===== verification/Metadata_Raft.thy ===== *)
theory Metadata_Raft
  imports Metadata_Snapshot Config
begin

text \<open>
  The persistence of the metadata service: the local single-node log of
  \<open>crates/metadata/src/raft_storage.rs\<close>, the backend of \<open>raft.rs\<close>, the snapshot file, and the
  constructors and \<open>apply_and_persist\<close> of \<open>service.rs\<close>.

  The database, the file system, the debug rendering of a command and the rendering of a
  status are third-party code: they are the fields of the record \<open>env\<close>, and what the code
  relies on of the database is the named law \<open>database_laws\<close>. A command that goes
  through the service is applied twice, to the live state and to the state machine of the
  log, and each application reads the clock: \<open>now\<close> and \<open>now'\<close> are the two readings.

  The lemmas show that an acknowledged command is in the durable state and is there after a
  restart, that the live and the durable state agree as long as the two clock readings do,
  and what is left behind when persisting fails.
\<close>

section \<open>The environment\<close>

record ('d, 'f) env =
  db_put :: "bytes \<Rightarrow> bytes \<Rightarrow> 'd \<Rightarrow> (string + unit) \<times> 'd"
  db_get :: "'d \<Rightarrow> bytes \<Rightarrow> string + bytes option"
  db_iterator_from :: "'d \<Rightarrow> bytes \<Rightarrow> (string + bytes \<times> bytes) list"
  fs_create_parent :: "string \<Rightarrow> 'f \<Rightarrow> (string + unit) \<times> 'f"
  fs_write :: "string \<Rightarrow> bytes \<Rightarrow> 'f \<Rightarrow> (string + unit) \<times> 'f"
  fs_rename :: "string \<Rightarrow> string \<Rightarrow> 'f \<Rightarrow> (string + unit) \<times> 'f"
  fs_try_exists :: "string \<Rightarrow> 'f \<Rightarrow> string + bool"
  fs_read :: "string \<Rightarrow> 'f \<Rightarrow> string + bytes"
  tmp_path :: "string \<Rightarrow> string"
  debug_command :: "metadata_command \<Rightarrow> bytes"
  status_to_string :: "status \<Rightarrow> string"
  codecs_of :: codecs

definition ascii :: "string \<Rightarrow> bytes" where
  "ascii s = map (\<lambda>c. of_nat (of_char c)) s"

definition SNAPSHOT_KEY :: bytes where
  "SNAPSHOT_KEY = ascii ''metadata:snapshot:latest''"

definition VOTE_KEY :: bytes where
  "VOTE_KEY = ascii ''raft:vote''"

definition LOG_KEY_PREFIX :: bytes where
  "LOG_KEY_PREFIX = ascii ''raft:log:''"

section \<open>The raft storage\<close>

definition u64_to_be_bytes :: "u64 \<Rightarrow> bytes" where
  "u64_to_be_bytes w = rev (u64_to_le_bytes w)"

definition log_key :: "u64 \<Rightarrow> bytes" where
  "log_key index = LOG_KEY_PREFIX @ u64_to_be_bytes index"

definition save_vote :: "('d, 'f) env \<Rightarrow> u64 \<Rightarrow> u64 \<Rightarrow> 'd \<Rightarrow> (string + unit) \<times> 'd" where
  "save_vote e term node_id d = db_put e VOTE_KEY (u64_to_le_bytes term @ u64_to_le_bytes node_id) d"

definition load_vote :: "('d, 'f) env \<Rightarrow> 'd \<Rightarrow> string + (u64 \<times> u64) option" where
  "load_vote e d =
     try_then (db_get e d VOTE_KEY) (\<lambda>r. case r of
         None \<Rightarrow> Inr None
       | Some bytes \<Rightarrow>
           if length bytes \<noteq> 16 then Inl ''invalid raft vote record''
           else Inr (Some (u64_from_le_bytes (take 8 bytes), u64_from_le_bytes (drop 8 bytes))))"

definition append_log_entry ::
  "('d, 'f) env \<Rightarrow> u64 \<Rightarrow> u64 \<Rightarrow> metadata_command \<Rightarrow> 'd \<Rightarrow> (string + unit) \<times> 'd" where
  "append_log_entry e index term cmd d = db_put e (log_key index) (u64_to_le_bytes term @ debug_command e cmd) d"

definition log_entry_count :: "('d, 'f) env \<Rightarrow> 'd \<Rightarrow> u64" where
  "log_entry_count e d =
     of_nat (length (takeWhile
       (\<lambda>entry. case entry of
                  Inr (key, _) \<Rightarrow> take (length LOG_KEY_PREFIX) key = LOG_KEY_PREFIX
                | Inl _ \<Rightarrow> True)
       (db_iterator_from e d LOG_KEY_PREFIX)))"

definition save_state_machine_snapshot ::
  "('d, 'f) env \<Rightarrow> metadata_state \<Rightarrow> 'd \<Rightarrow> (string + unit) \<times> 'd" where
  "save_state_machine_snapshot e st d = db_put e SNAPSHOT_KEY (encode_snapshot (codecs_of e) st) d"

definition load_state_machine_snapshot :: "('d, 'f) env \<Rightarrow> 'd \<Rightarrow> string + metadata_state option" where
  "load_state_machine_snapshot e d =
     try_then (db_get e d SNAPSHOT_KEY) (\<lambda>r. case r of
         None \<Rightarrow> Inr None
       | Some bytes \<Rightarrow> try_then (decode_snapshot (codecs_of e) bytes) (\<lambda>st. Inr (Some st)))"

text \<open>\<open>LocalSingleNodeMetadataRaft\<close>: the database and the state machine behind its mutex.\<close>

record 'd local_raft =
  lr_db :: 'd
  lr_state_machine :: metadata_state

definition raft_open :: "('d, 'f) env \<Rightarrow> 'd \<Rightarrow> string + 'd local_raft" where
  "raft_open e d =
     try_then (load_state_machine_snapshot e d) (\<lambda>st.
       Inr \<lparr>lr_db = d,
            lr_state_machine = (case st of None \<Rightarrow> metadata_state_default | Some st \<Rightarrow> st)\<rparr>)"

definition propose ::
  "('d, 'f) env \<Rightarrow> timestamp \<Rightarrow> metadata_command \<Rightarrow> 'd local_raft \<Rightarrow> (string + u64) \<times> 'd local_raft" where
  "propose e now cmd r =
     (let index = log_entry_count e (lr_db r) + 1
      in case append_log_entry e index 1 cmd (lr_db r) of
           (Inl err, d1) \<Rightarrow> (Inl err, r\<lparr>lr_db := d1\<rparr>)
         | (Inr _, d1) \<Rightarrow>
             (case apply_command now cmd (lr_state_machine r) of
                (Inl status, st) \<Rightarrow>
                  (Inl (status_to_string e status), r\<lparr>lr_db := d1, lr_state_machine := st\<rparr>)
              | (Inr _, st) \<Rightarrow>
                  (case save_state_machine_snapshot e st d1 of
                     (Inl err, d2) \<Rightarrow> (Inl err, r\<lparr>lr_db := d2, lr_state_machine := st\<rparr>)
                   | (Inr _, d2) \<Rightarrow> (Inr index, r\<lparr>lr_db := d2, lr_state_machine := st\<rparr>))))"

definition raft_snapshot :: "('d, 'f) env \<Rightarrow> 'd local_raft \<Rightarrow> string + metadata_state" where
  "raft_snapshot e r =
     try_then (load_state_machine_snapshot e (lr_db r)) (\<lambda>st.
       Inr (case st of None \<Rightarrow> lr_state_machine r | Some st \<Rightarrow> st))"

section \<open>The raft backend\<close>

datatype 'd raft_backend_mode = Memory | Persistent "'d local_raft"

record 'd raft_backend =
  rb_inner :: "'d raft_backend_mode"
  rb_proposed_commands :: u64

definition backend_memory :: "'d raft_backend" where
  "backend_memory = \<lparr>rb_inner = Memory, rb_proposed_commands = 0\<rparr>"

definition new_with_storage :: "('d, 'f) env \<Rightarrow> 'd \<Rightarrow> string + 'd raft_backend" where
  "new_with_storage e d =
     try_then (raft_open e d) (\<lambda>r.
       Inr \<lparr>rb_inner = Persistent r, rb_proposed_commands = log_entry_count e (lr_db r)\<rparr>)"

definition cluster_term_and_leader :: "('d, 'f) env \<Rightarrow> 'd raft_backend \<Rightarrow> u64 \<times> u64 option" where
  "cluster_term_and_leader e b =
     (case rb_inner b of
        Memory \<Rightarrow> (1, None)
      | Persistent r \<Rightarrow>
          (case load_vote e (lr_db r) of
             Inr (Some (term, node_id)) \<Rightarrow> (term, Some node_id)
           | _ \<Rightarrow> (0, None)))"

definition bootstrapped_state :: "('d, 'f) env \<Rightarrow> 'd raft_backend \<Rightarrow> string + metadata_state option" where
  "bootstrapped_state e b =
     (case rb_inner b of
        Memory \<Rightarrow> Inr None
      | Persistent r \<Rightarrow> try_then (raft_snapshot e r) (\<lambda>st. Inr (Some st)))"

definition persist_if_needed ::
  "('d, 'f) env \<Rightarrow> timestamp \<Rightarrow> metadata_command \<Rightarrow> 'd raft_backend \<Rightarrow> u64 option result \<times> 'd raft_backend" where
  "persist_if_needed e now cmd b =
     (case rb_inner b of
        Memory \<Rightarrow> (Inr None, b)
      | Persistent r \<Rightarrow>
          (case propose e now cmd r of
             (Inl err, r') \<Rightarrow> (Inl (Status Internal err), b\<lparr>rb_inner := Persistent r'\<rparr>)
           | (Inr next, r') \<Rightarrow> (Inr (Some next), b\<lparr>rb_inner := Persistent r'\<rparr>)))"

text \<open>\<open>now\<close> is the clock of the live application and \<open>now'\<close> the clock of the log's.\<close>

definition propose_local_apply ::
  "('d, 'f) env \<Rightarrow> timestamp \<Rightarrow> timestamp \<Rightarrow> metadata_command \<Rightarrow> metadata_state \<Rightarrow> 'd raft_backend \<Rightarrow>
   unit result \<times> metadata_state \<times> 'd raft_backend" where
  "propose_local_apply e now now' cmd st b =
     (case apply_command now cmd st of
        (Inl err, st1) \<Rightarrow> (Inl err, st1, b)
      | (Inr _, st1) \<Rightarrow>
          (case persist_if_needed e now' cmd b of
             (Inl err, b1) \<Rightarrow> (Inl err, st1, b1)
           | (Inr (Some next), b1) \<Rightarrow> (Inr (), st1, b1\<lparr>rb_proposed_commands := next\<rparr>)
           | (Inr None, b1) \<Rightarrow>
               (Inr (), st1, b1\<lparr>rb_proposed_commands := sat_add (rb_proposed_commands b1) 1\<rparr>)))"

definition bootstrap_state_if_empty ::
  "('d, 'f) env \<Rightarrow> metadata_state \<Rightarrow> 'd raft_backend \<Rightarrow> unit result \<times> 'd raft_backend" where
  "bootstrap_state_if_empty e st b =
     (if metadata_is_empty st then (Inr (), b)
      else case rb_inner b of
             Memory \<Rightarrow> (Inr (), b)
           | Persistent r \<Rightarrow>
               (case load_state_machine_snapshot e (lr_db r) of
                  Inl err \<Rightarrow> (Inl (Status Internal err), b)
                | Inr (Some _) \<Rightarrow> (Inr (), b)
                | Inr None \<Rightarrow>
                    (case save_state_machine_snapshot e st (lr_db r) of
                       (Inl err, d) \<Rightarrow> (Inl (Status Internal err), b\<lparr>rb_inner := Persistent (r\<lparr>lr_db := d\<rparr>)\<rparr>)
                     | (Inr _, d) \<Rightarrow> (Inr (), b\<lparr>rb_inner := Persistent (r\<lparr>lr_db := d\<rparr>)\<rparr>))))"

section \<open>The snapshot file and the service\<close>

definition load_snapshot :: "('d, 'f) env \<Rightarrow> string \<Rightarrow> 'f \<Rightarrow> string + metadata_state" where
  "load_snapshot e path fs = try_then (fs_read e path fs) (decode_snapshot (codecs_of e))"

definition save_snapshot :: "('d, 'f) env \<Rightarrow> string \<Rightarrow> metadata_state \<Rightarrow> 'f \<Rightarrow> (string + unit) \<times> 'f" where
  "save_snapshot e path st fs =
     (case fs_create_parent e path fs of
        (Inl err, fs1) \<Rightarrow> (Inl err, fs1)
      | (Inr _, fs1) \<Rightarrow>
          (case fs_write e (tmp_path e path) (encode_snapshot (codecs_of e) st) fs1 of
             (Inl err, fs2) \<Rightarrow> (Inl err, fs2)
           | (Inr _, fs2) \<Rightarrow> fs_rename e (tmp_path e path) path fs2))"

record ('d, 'f) metadata_service =
  sv_config :: metadata_config
  sv_state :: metadata_state
  sv_snapshot_path :: "string option"
  sv_raft_backend :: "'d raft_backend option"
  sv_fs :: 'f

definition persist_locked ::
  "('d, 'f) env \<Rightarrow> ('d, 'f) metadata_service \<Rightarrow> unit result \<times> ('d, 'f) metadata_service" where
  "persist_locked e s =
     (case sv_snapshot_path s of
        None \<Rightarrow> (Inr (), s)
      | Some path \<Rightarrow>
          (case save_snapshot e path (sv_state s) (sv_fs s) of
             (Inl err, fs) \<Rightarrow> (Inl (Status Internal (''persist metadata snapshot: '' @ err)), s\<lparr>sv_fs := fs\<rparr>)
           | (Inr _, fs) \<Rightarrow> (Inr (), s\<lparr>sv_fs := fs\<rparr>)))"

definition apply_and_persist ::
  "('d, 'f) env \<Rightarrow> timestamp \<Rightarrow> timestamp \<Rightarrow> metadata_command \<Rightarrow> ('d, 'f) metadata_service \<Rightarrow>
   unit result \<times> ('d, 'f) metadata_service" where
  "apply_and_persist e now now' cmd s =
     (case sv_raft_backend s of
        None \<Rightarrow> (Inl (Status Internal ''metadata raft backend is not initialized''), s)
      | Some b \<Rightarrow>
          (case propose_local_apply e now now' cmd (sv_state s) b of
             (Inl err, st, b1) \<Rightarrow> (Inl err, s\<lparr>sv_state := st, sv_raft_backend := Some b1\<rparr>)
           | (Inr _, st, b1) \<Rightarrow> persist_locked e (s\<lparr>sv_state := st, sv_raft_backend := Some b1\<rparr>)))"

definition service_new :: "metadata_config \<Rightarrow> 'f \<Rightarrow> ('d, 'f) metadata_service" where
  "service_new config fs =
     \<lparr>sv_config = config, sv_state = metadata_state_default, sv_snapshot_path = None,
      sv_raft_backend = Some backend_memory, sv_fs = fs\<rparr>"

definition new_with_snapshot ::
  "('d, 'f) env \<Rightarrow> metadata_config \<Rightarrow> string \<Rightarrow> 'f \<Rightarrow> string + ('d, 'f) metadata_service" where
  "new_with_snapshot e config path fs =
     try_then (fs_try_exists e path fs) (\<lambda>there.
     try_then (if there then load_snapshot e path fs else Inr metadata_state_default) (\<lambda>st.
       Inr \<lparr>sv_config = config, sv_state = st, sv_snapshot_path = Some path,
            sv_raft_backend = Some backend_memory, sv_fs = fs\<rparr>))"

definition new_with_raft_backend ::
  "('d, 'f) env \<Rightarrow> metadata_config \<Rightarrow> 'd raft_backend \<Rightarrow> 'f \<Rightarrow> string + ('d, 'f) metadata_service" where
  "new_with_raft_backend e config b fs =
     try_then (bootstrapped_state e b) (\<lambda>booted.
       Inr \<lparr>sv_config = config,
            sv_state = (case booted of None \<Rightarrow> metadata_state_default | Some st \<Rightarrow> st),
            sv_snapshot_path = None, sv_raft_backend = Some b, sv_fs = fs\<rparr>)"

definition new_with_snapshot_and_raft_backend ::
  "('d, 'f) env \<Rightarrow> metadata_config \<Rightarrow> string \<Rightarrow> 'd raft_backend \<Rightarrow> 'f \<Rightarrow> string + ('d, 'f) metadata_service" where
  "new_with_snapshot_and_raft_backend e config path b fs =
     try_then (bootstrapped_state e b) (\<lambda>booted.
       let raft_state = (case booted of None \<Rightarrow> metadata_state_default | Some st \<Rightarrow> st)
       in try_then
            (if metadata_is_empty raft_state
             then try_then (fs_try_exists e path fs) (\<lambda>there.
                    if there
                    then try_then (load_snapshot e path fs) (\<lambda>st.
                           if metadata_is_empty st then Inr (metadata_state_default, b)
                           else case bootstrap_state_if_empty e st b of
                                  (Inl err, b1) \<Rightarrow> Inl (status_to_string e err)
                                | (Inr _, b1) \<Rightarrow> Inr (st, b1))
                    else Inr (metadata_state_default, b))
             else Inr (raft_state, b))
            (\<lambda>(st, b1). Inr \<lparr>sv_config = config, sv_state = st, sv_snapshot_path = Some path,
                            sv_raft_backend = Some b1, sv_fs = fs\<rparr>))"

section \<open>What an acknowledged command has done\<close>

text \<open>
  The database as a map \<open>view\<close>: a read returns what is stored, and a write that succeeds
  has stored its value.
\<close>

definition database_laws :: "('d, 'f) env \<Rightarrow> ('d \<Rightarrow> bytes \<Rightarrow> bytes option) \<Rightarrow> bool" where
  "database_laws e view \<longleftrightarrow>
     (\<forall>d k. db_get e d k = Inr (view d k)) \<and>
     (\<forall>k v d r d'. db_put e k v d = (Inr r, d') \<longrightarrow> view d' = (view d)(k \<mapsto> v))"

lemma log_key_not_snapshot [simp]: "log_key i \<noteq> SNAPSHOT_KEY"
proof -
  have "hd (log_key i) = 114" "hd SNAPSHOT_KEY = 109"
    by (simp_all add: log_key_def LOG_KEY_PREFIX_def SNAPSHOT_KEY_def ascii_def)
  then show ?thesis by auto
qed

text \<open>A proposal that returns has applied the command and saved the state it gave.\<close>

lemma propose_saved:
  assumes "database_laws e view" and "propose e now cmd r = (Inr i, r')"
  shows "fst (apply_command now cmd (lr_state_machine r)) = Inr () \<and>
     lr_state_machine r' = snd (apply_command now cmd (lr_state_machine r)) \<and>
     view (lr_db r') SNAPSHOT_KEY = Some (encode_snapshot (codecs_of e) (lr_state_machine r')) \<and>
     i = log_entry_count e (lr_db r) + 1"
proof -
  obtain d1 where d1: "append_log_entry e (log_entry_count e (lr_db r) + 1) 1 cmd (lr_db r) = (Inr (), d1)"
    using assms(2) by (auto simp: propose_def Let_def split: prod.splits sum.splits)
  obtain st where st: "apply_command now cmd (lr_state_machine r) = (Inr (), st)"
    using assms(2) d1 by (auto simp: propose_def Let_def split: prod.splits sum.splits)
  obtain d2 where d2: "save_state_machine_snapshot e st d1 = (Inr (), d2)"
    using assms(2) d1 st by (auto simp: propose_def Let_def split: prod.splits sum.splits)
  have r': "r' = r\<lparr>lr_db := d2, lr_state_machine := st\<rparr>" "i = log_entry_count e (lr_db r) + 1"
    using assms(2) d1 st d2 by (auto simp: propose_def Let_def)
  have "view d2 SNAPSHOT_KEY = Some (encode_snapshot (codecs_of e) st)"
    using assms(1) d2 by (auto simp: database_laws_def save_state_machine_snapshot_def)
  with st r' show ?thesis by simp
qed

lemma propose_Inr:
  assumes "database_laws e view" and "propose e now cmd r = (Inr i, r')"
    and "snapshot_ok (codecs_of e) (snd (apply_command now cmd (lr_state_machine r)))"
  shows "fst (apply_command now cmd (lr_state_machine r)) = Inr () \<and>
     lr_state_machine r' = snd (apply_command now cmd (lr_state_machine r)) \<and>
     load_state_machine_snapshot e (lr_db r') = Inr (Some (lr_state_machine r')) \<and>
     i = log_entry_count e (lr_db r) + 1"
  using propose_saved [OF assms(1,2)] snapshot.dec_enc [OF assms(3)] assms(1)
  by (simp add: load_state_machine_snapshot_def database_laws_def)

text \<open>The service is backed by a log whose durable state is what a restart would load.\<close>

definition durable :: "('d, 'f) env \<Rightarrow> ('d, 'f) metadata_service \<Rightarrow> metadata_state \<Rightarrow> bool" where
  "durable e s st \<longleftrightarrow>
     (\<exists>b r. sv_raft_backend s = Some b \<and> rb_inner b = Persistent r \<and> lr_state_machine r = st \<and>
        raft_open e (lr_db r) = Inr r)"

lemma persist_locked_frame:
  "persist_locked e s = (r, s') \<Longrightarrow>
     sv_state s' = sv_state s \<and> sv_raft_backend s' = sv_raft_backend s \<and> sv_config s' = sv_config s \<and>
     sv_snapshot_path s' = sv_snapshot_path s"
  by (auto simp: persist_locked_def split: option.splits prod.splits sum.splits)

lemma apply_and_persist_proposed:
  assumes "durable e s st" and "apply_and_persist e now now' cmd s = (Inr (), s')"
  shows "\<exists>r i b' r'. lr_state_machine r = st \<and> propose e now' cmd r = (Inr i, r') \<and>
     sv_raft_backend s' = Some b' \<and> rb_inner b' = Persistent r' \<and>
     fst (apply_command now cmd (sv_state s)) = Inr () \<and> sv_state s' = snd (apply_command now cmd (sv_state s))"
proof -
  obtain b r where b: "sv_raft_backend s = Some b" "rb_inner b = Persistent r" "lr_state_machine r = st"
    using assms(1) by (auto simp: durable_def)
  obtain live where live: "apply_command now cmd (sv_state s) = (Inr (), live)"
    using assms(2) b by (auto simp: apply_and_persist_def propose_local_apply_def split: prod.splits sum.splits)
  obtain i r' where r': "propose e now' cmd r = (Inr i, r')"
    using assms(2) b live
    by (auto simp: apply_and_persist_def propose_local_apply_def persist_if_needed_def
        split: prod.splits sum.splits)
  have "sv_state s' = live"
    "sv_raft_backend s' = Some (b\<lparr>rb_inner := Persistent r', rb_proposed_commands := i\<rparr>)"
    using assms(2) b live r'
    by (auto simp: apply_and_persist_def propose_local_apply_def persist_if_needed_def
        dest!: persist_locked_frame)
  with b(3) live r' show ?thesis by auto
qed

lemma apply_and_persist_Inr:
  assumes "database_laws e view" and "durable e s st"
    and "apply_and_persist e now now' cmd s = (Inr (), s')"
    and "snapshot_ok (codecs_of e) (snd (apply_command now' cmd st))"
  shows "fst (apply_command now' cmd st) = Inr () \<and> fst (apply_command now cmd (sv_state s)) = Inr () \<and>
     durable e s' (snd (apply_command now' cmd st)) \<and> sv_state s' = snd (apply_command now cmd (sv_state s))"
proof -
  obtain r i b' r' where r: "lr_state_machine r = st" "propose e now' cmd r = (Inr i, r')"
    "sv_raft_backend s' = Some b'" "rb_inner b' = Persistent r'"
    "fst (apply_command now cmd (sv_state s)) = Inr ()" "sv_state s' = snd (apply_command now cmd (sv_state s))"
    using apply_and_persist_proposed [OF assms(2,3)] by blast
  note p = propose_Inr [OF assms(1) r(2), unfolded r(1), OF assms(4)]
  have "durable e s' (snd (apply_command now' cmd st))"
    using r(3,4) p by (simp add: durable_def raft_open_def)
  with p r(5,6) show ?thesis by simp
qed

text \<open>A command that was accepted is in the live state, persisted or not.\<close>

lemma accepted_command_is_live:
  assumes "durable e s st" and "fst (apply_command now cmd (sv_state s)) = Inr ()"
  shows "sv_state (snd (apply_and_persist e now now' cmd s)) = snd (apply_command now cmd (sv_state s))"
proof -
  obtain b r where "sv_raft_backend s = Some b" "rb_inner b = Persistent r" using assms(1) by (auto simp: durable_def)
  moreover obtain live where "apply_command now cmd (sv_state s) = (Inr (), live)"
    using assms(2) by (cases "apply_command now cmd (sv_state s)") auto
  moreover have "sv_state (snd (persist_locked e s1)) = sv_state s1" for s1
    using persist_locked_frame [of e s1] by (metis prod.collapse)
  ultimately show ?thesis
    by (auto simp: apply_and_persist_def propose_local_apply_def persist_if_needed_def split: prod.splits sum.splits)
qed

text \<open>A command that the live state refuses touches nothing.\<close>

lemma apply_and_persist_refused:
  assumes "durable e s st" and "fst (apply_command now cmd (sv_state s)) = Inl err"
  shows "apply_and_persist e now now' cmd s = (Inl err, s)"
proof -
  obtain b where b: "sv_raft_backend s = Some b" using assms(1) by (auto simp: durable_def)
  obtain st' where st': "apply_command now cmd (sv_state s) = (Inl err, st')"
    using assms(2) by (cases "apply_command now cmd (sv_state s)") auto
  then have "st' = sv_state s" by (rule apply_command_refused)
  with b st' show ?thesis by (simp add: apply_and_persist_def propose_local_apply_def)
qed

lemma empty_is_default: "metadata_is_empty st \<Longrightarrow> st = metadata_state_default"
  by (cases st) (simp add: metadata_is_empty_def metadata_state_default_def)

text \<open>
  A restart loads the state of the database, unless that is empty and the snapshot file, which
  is then looked at instead, is there.
\<close>

lemma restart_loads_durable:
  assumes "raft_open e (lr_db r) = Inr r"
    and "metadata_is_empty (lr_state_machine r) \<Longrightarrow> fs_try_exists e path fs = Inr False"
  shows "\<exists>b svc. new_with_storage e (lr_db r) = Inr b \<and>
    new_with_snapshot_and_raft_backend e config path b fs = Inr svc \<and> sv_state svc = lr_state_machine r"
proof -
  obtain loaded where loaded: "load_state_machine_snapshot e (lr_db r) = Inr loaded"
    "lr_state_machine r = (case loaded of None \<Rightarrow> metadata_state_default | Some st \<Rightarrow> st)"
    using assms(1) by (cases "load_state_machine_snapshot e (lr_db r)"; cases r) (auto simp: raft_open_def)
  then have "raft_snapshot e r = Inr (lr_state_machine r)"
    by (auto simp: raft_snapshot_def split: option.splits)
  with assms empty_is_default [of "lr_state_machine r"] show ?thesis
    by (cases "metadata_is_empty (lr_state_machine r)")
      (simp_all add: new_with_storage_def new_with_snapshot_and_raft_backend_def bootstrapped_state_def Let_def)
qed

lemma restart_refused:
  assumes "database_laws e view" and "view d SNAPSHOT_KEY = Some bytes" and "decode_snapshot (codecs_of e) bytes = Inl err"
  shows "new_with_storage e d = Inl err"
  using assms by (simp add: new_with_storage_def raft_open_def load_state_machine_snapshot_def database_laws_def)

section \<open>A database in memory\<close>

text \<open>
  An association list satisfies the laws of the database. The examples run on a log whose
  state has one bucket, and the message codecs are those of the two bucket states and the
  one object that occur in them.
\<close>

definition demo_created :: bucket_info where
  "demo_created = demo_bucket\<lparr>bi_created_at := Some demo_time\<rparr>"

definition raft_codecs :: codecs where
  "raft_codecs = demo_codecs\<lparr>c_bucket :=
     \<lparr>encode = (\<lambda>b. if bi_object_count b = 0 then [2] else [2, 2]),
      decode = (\<lambda>bs. if bs = [2] then Inr demo_created
                     else Inr (demo_created\<lparr>bi_object_count := 1, bi_total_size := 5\<rparr>))\<rparr>\<rparr>"

definition demo_env :: "((bytes \<times> bytes) list, unit) env" where
  "demo_env =
     \<lparr>db_put = (\<lambda>k v d. (Inr (), AList.update k v d)), db_get = (\<lambda>d k. Inr (map_of d k)),
      db_iterator_from = (\<lambda>d p. map Inr (sort_key fst (filter (\<lambda>(k, v). p \<le> k) d))),
      fs_create_parent = (\<lambda>p fs. (Inr (), fs)), fs_write = (\<lambda>p b fs. (Inr (), fs)),
      fs_rename = (\<lambda>p q fs. (Inr (), fs)), fs_try_exists = (\<lambda>p fs. Inr False),
      fs_read = (\<lambda>p fs. Inl ''no such file''), tmp_path = (\<lambda>p. p @ ''.tmp''),
      debug_command = (\<lambda>c. []), status_to_string = status_message, codecs_of = raft_codecs\<rparr>"

lemma demo_database_laws: "database_laws demo_env map_of"
  by (auto simp: database_laws_def demo_env_def)

definition demo_before :: metadata_state where
  "demo_before = fold apply_step [(demo_time, CreateBucket demo_bucket)] metadata_state_default"

lemma demo_before_eq: "demo_before = metadata_state_default\<lparr>ms_buckets := [(''photos'', demo_created)]\<rparr>"
  by (simp add: demo_before_def apply_step_def apply_create_bucket_def metadata_state_default_def
      demo_bucket_def demo_created_def)

lemma wf_demo_before: "wf_meta demo_before"
  unfolding demo_before_def by (intro wf_apply_steps wf_meta_default)

lemma demo_put: "fst (apply_command t (PutObject demo_object) demo_before) = Inr ()"
  by (simp add: demo_before_eq apply_put_object_def demo_object_def Let_def)

lemma demo_put_state: "snd (apply_command demo_time (PutObject demo_object) demo_before) = demo_state"
  by (simp add: demo_state_def demo_before_def apply_step_def)

lemma demo_snapshots_ok: "snapshot_ok raft_codecs demo_before" "snapshot_ok raft_codecs demo_state"
proof -
  have "bi_object_count demo_created = 0" by (simp add: demo_created_def demo_bucket_def)
  then show "snapshot_ok raft_codecs demo_before" "snapshot_ok raft_codecs demo_state"
    using wf_demo_before wf_demo_state
    by (simp_all add: snapshot_ok_def codecs_invert_def state_fits_def fits_def raft_codecs_def demo_codecs_def
        demo_before_eq demo_state_eq metadata_state_default_def MAX_SNAPSHOT_MESSAGES_PER_SECTION_def
        MAX_SNAPSHOT_MESSAGE_BYTES_def demo_created_def)
qed

definition demo_raft :: "(bytes \<times> bytes) list local_raft" where
  "demo_raft = \<lparr>lr_db = [(SNAPSHOT_KEY, encode_snapshot raft_codecs demo_before)], lr_state_machine = demo_before\<rparr>"

definition demo_service :: "((bytes \<times> bytes) list, unit) metadata_service" where
  "demo_service =
     \<lparr>sv_config = metadata_config_default, sv_state = demo_before, sv_snapshot_path = None,
      sv_raft_backend = Some \<lparr>rb_inner = Persistent demo_raft, rb_proposed_commands = 0\<rparr>, sv_fs = ()\<rparr>"

lemma demo_service_durable: "durable demo_env demo_service demo_before"
  using snapshot.dec_enc [OF demo_snapshots_ok(1)]
  by (simp add: durable_def demo_service_def demo_raft_def raft_open_def load_state_machine_snapshot_def demo_env_def)

lemma demo_service_acknowledges:
  assumes "fst (apply_command now cmd demo_before) = Inr ()" and "fst (apply_command now' cmd demo_before) = Inr ()"
  shows "fst (apply_and_persist demo_env now now' cmd demo_service) = Inr ()"
  using assms
  by (cases "apply_command now cmd demo_before"; cases "apply_command now' cmd demo_before")
    (simp add: apply_and_persist_def propose_local_apply_def persist_if_needed_def propose_def Let_def
      append_log_entry_def save_state_machine_snapshot_def persist_locked_def demo_service_def demo_raft_def demo_env_def)

section \<open>Properties of the persistence\<close>

text \<open>
  C13 (safety). Durability: a command that the service has acknowledged is in the state that a
  restart from the same database loads, which is the previous durable state with the command
  applied. This holds for states within the limits of the snapshot reader; a command that takes
  the state beyond them is acknowledged all the same, and then a restart is refused. An empty
  state is loaded from the database only if there is no snapshot file beside it, which the start
  prefers to it. The database keeps what it has stored and the message codecs invert each other.
\<close>

theorem acknowledged_command_survives_restart:
  assumes "database_laws e view" and "durable e s st" and "wf_meta st"
    and "apply_and_persist e now now' cmd s = (Inr (), s')"
    and "st' = snd (apply_command now' cmd st)" and "codecs_invert (codecs_of e) st'" and "state_in_memory (codecs_of e) st'"
    and "metadata_is_empty st' \<Longrightarrow> fs_try_exists e path fs = Inr False"
  shows "fst (apply_command now' cmd st) = Inr () \<and>
    (\<exists>b r. sv_raft_backend s' = Some b \<and> rb_inner b = Persistent r \<and>
      (if state_fits (codecs_of e) st'
       then \<exists>b2 svc. new_with_storage e (lr_db r) = Inr b2 \<and>
         new_with_snapshot_and_raft_backend e config path b2 fs = Inr svc \<and> sv_state svc = st'
       else \<exists>err. new_with_storage e (lr_db r) = Inl err))"
proof -
  obtain r0 i b r where r: "lr_state_machine r0 = st" "propose e now' cmd r0 = (Inr i, r)"
    "sv_raft_backend s' = Some b" "rb_inner b = Persistent r"
    using apply_and_persist_proposed [OF assms(2,4)] by blast
  note p = propose_saved [OF assms(1) r(2), unfolded r(1), folded assms(5)]
  have wf: "wf_meta st'" unfolding assms(5) by (rule wf_apply_command [OF assms(3)])
  show ?thesis
  proof (cases "state_fits (codecs_of e) st'")
    case True
    then have "snapshot_ok (codecs_of e) st'" using wf assms(6) by (simp add: snapshot_ok_def)
    then have "decode_snapshot (codecs_of e) (encode_snapshot (codecs_of e) st') = Inr st'" by (rule snapshot.dec_enc)
    then have "raft_open e (lr_db r) = Inr r"
      using p assms(1) by (simp add: raft_open_def load_state_machine_snapshot_def database_laws_def)
    from restart_loads_durable [OF this, of path fs config] p r(3,4) True assms(8) show ?thesis by simp
  next
    case False
    with decode_too_large [OF assms(6,7)] restart_refused [OF assms(1)] p r(3,4) show ?thesis by auto
  qed
qed

theorem acknowledged_command_survives_restart_witness:
  "fst (apply_and_persist demo_env demo_time demo_time (PutObject demo_object) demo_service) = Inr () \<and>
   (\<exists>b r b2 svc. sv_raft_backend (snd (apply_and_persist demo_env demo_time demo_time (PutObject demo_object) demo_service)) = Some b \<and>
     rb_inner b = Persistent r \<and> new_with_storage demo_env (lr_db r) = Inr b2 \<and>
     new_with_snapshot_and_raft_backend demo_env metadata_config_default ''/snap'' b2 () = Inr svc \<and>
     sv_state svc = demo_state)"
proof -
  let ?a = "apply_and_persist demo_env demo_time demo_time (PutObject demo_object) demo_service"
  have ok: "?a = (Inr (), snd ?a)"
    using demo_service_acknowledges [OF demo_put demo_put, of demo_time demo_time] by (metis prod.collapse)
  have codec: "codecs_of demo_env = raft_codecs" by (simp add: demo_env_def)
  have "codecs_invert (codecs_of demo_env) demo_state" and fit: "state_fits (codecs_of demo_env) demo_state"
    using demo_snapshots_ok(2) by (simp_all add: codec snapshot_ok_def)
  moreover have "state_in_memory (codecs_of demo_env) demo_state"
    by (simp add: codec state_in_memory_def in_memory_def demo_state_eq raft_codecs_def demo_codecs_def
        metadata_state_default_def usize_MAX_def)
  moreover have "fs_try_exists demo_env ''/snap'' () = Inr False" by (simp add: demo_env_def)
  ultimately have "\<exists>b r. sv_raft_backend (snd ?a) = Some b \<and> rb_inner b = Persistent r \<and>
      (if state_fits (codecs_of demo_env) demo_state
       then \<exists>b2 svc. new_with_storage demo_env (lr_db r) = Inr b2 \<and>
         new_with_snapshot_and_raft_backend demo_env metadata_config_default ''/snap'' b2 () = Inr svc \<and> sv_state svc = demo_state
       else \<exists>err. new_with_storage demo_env (lr_db r) = Inl err)"
    by (intro conjunct2 [OF acknowledged_command_survives_restart [OF demo_database_laws demo_service_durable
        wf_demo_before ok demo_put_state [symmetric]]])
  with ok fit show ?thesis by (metis fst_conv)
qed

text \<open>
  C14 (invariant). When both applications of a command read the same time, the live state and
  the durable state are changed together: an acknowledged command is applied to both, and one
  that the state machine refuses changes nothing. The third outcome is the exception: a command
  that was applied but could not be persisted is reported as failed and is in the live state.
  The state after the command is taken to be within the limits of the snapshot reader.
\<close>

theorem live_state_stays_durable:
  assumes "database_laws e view" and "durable e s (sv_state s)"
    and "apply_and_persist e now now cmd s = (res, s')"
    and "snapshot_ok (codecs_of e) (snd (apply_command now cmd (sv_state s)))"
  shows "case (fst (apply_command now cmd (sv_state s)), res) of
      (Inl err, _) \<Rightarrow> res = Inl err \<and> s' = s
    | (Inr _, Inr _) \<Rightarrow> durable e s' (sv_state s') \<and> sv_state s' = snd (apply_command now cmd (sv_state s))
    | (Inr _, Inl _) \<Rightarrow> sv_state s' = snd (apply_command now cmd (sv_state s))"
proof (cases "fst (apply_command now cmd (sv_state s))")
  case (Inl err)
  have "res = Inl err" "s' = s" using assms(3) apply_and_persist_refused [OF assms(2) Inl, of now] by simp_all
  with Inl show ?thesis by simp
next
  case (Inr u)
  show ?thesis
  proof (cases res)
    case (Inl err)
    with Inr accepted_command_is_live [OF assms(2), of now cmd now] assms(3) show ?thesis by simp
  next
    case (Inr v)
    with \<open>fst (apply_command now cmd (sv_state s)) = Inr u\<close> apply_and_persist_Inr [OF assms(1,2) _ assms(4)] assms(3)
    show ?thesis by simp
  qed
qed

theorem live_state_stays_durable_witness:
  "fst (apply_and_persist demo_env demo_time demo_time (PutObject demo_object) demo_service) = Inr () \<and>
   durable demo_env (snd (apply_and_persist demo_env demo_time demo_time (PutObject demo_object) demo_service)) demo_state"
proof -
  let ?a = "apply_and_persist demo_env demo_time demo_time (PutObject demo_object) demo_service"
  have ok: "?a = (Inr (), snd ?a)"
    using demo_service_acknowledges [OF demo_put demo_put, of demo_time demo_time] by (metis prod.collapse)
  have st: "sv_state demo_service = demo_before" by (simp add: demo_service_def)
  have fit: "snapshot_ok (codecs_of demo_env) (snd (apply_command demo_time (PutObject demo_object) demo_before))"
    using demo_snapshots_ok(2) by (simp only: demo_put_state) (simp add: demo_env_def)
  have "durable demo_env (snd ?a) (sv_state (snd ?a)) \<and> sv_state (snd ?a) = demo_state"
    using live_state_stays_durable [of demo_env map_of demo_service, unfolded st, OF demo_database_laws
      demo_service_durable ok fit] unfolding demo_put demo_put_state prod.case sum.case .
  with ok show ?thesis by (metis fst_conv)
qed

text \<open>
  C15 (error). When the clock ticks between the two applications, an acknowledged put is
  stamped with two different times: the live object and the durable object differ, so a
  restart changes the update time that archive completions and lookups compare.
\<close>

theorem clock_tick_splits_live_and_durable:
  assumes "database_laws e view" and "durable e s (sv_state s)"
    and "apply_and_persist e now now' (PutObject ob) s = (Inr (), s')"
    and "snapshot_ok (codecs_of e) (snd (apply_command now' (PutObject ob) (sv_state s)))"
    and "now \<noteq> now'"
  shows "\<exists>st'. durable e s' st' \<and> st' \<noteq> sv_state s' \<and>
     hm_get (ms_objects (sv_state s')) (key_of_object ob) = Some (stamp_object now ob) \<and>
     hm_get (ms_objects st') (key_of_object ob) = Some (stamp_object now' ob) \<and>
     om_updated_at (stamp_object now ob) \<noteq> om_updated_at (stamp_object now' ob)"
proof -
  note ok = apply_and_persist_Inr [OF assms(1-4)]
  have get: "hm_get (ms_objects (snd (apply_command t (PutObject ob) (sv_state s)))) (key_of_object ob) =
      Some (stamp_object t ob)" if "fst (apply_command t (PutObject ob) (sv_state s)) = Inr ()" for t
    using that by (auto simp: apply_put_object_def Let_def split: if_splits)
  have "om_updated_at (stamp_object now ob) \<noteq> om_updated_at (stamp_object now' ob)"
    using assms(5) by simp
  then have "stamp_object now ob \<noteq> stamp_object now' ob" by metis
  with ok get [of now] get [of now'] assms(5) show ?thesis
    by (intro exI [of _ "snd (apply_command now' (PutObject ob) (sv_state s))"]) auto
qed

theorem clock_tick_splits_live_and_durable_witness:
  "fst (apply_and_persist demo_env \<lparr>ts_seconds = 99, ts_nanos = 0\<rparr> demo_time (PutObject demo_object) demo_service) = Inr () \<and>
   (\<exists>st'. durable demo_env (snd (apply_and_persist demo_env \<lparr>ts_seconds = 99, ts_nanos = 0\<rparr> demo_time
       (PutObject demo_object) demo_service)) st' \<and>
     st' \<noteq> sv_state (snd (apply_and_persist demo_env \<lparr>ts_seconds = 99, ts_nanos = 0\<rparr> demo_time
       (PutObject demo_object) demo_service)))"
proof -
  let ?t = "\<lparr>ts_seconds = 99, ts_nanos = 0\<rparr>"
  let ?a = "apply_and_persist demo_env ?t demo_time (PutObject demo_object) demo_service"
  have ok: "?a = (Inr (), snd ?a)"
    using demo_service_acknowledges [OF demo_put demo_put, of ?t demo_time] by (metis prod.collapse)
  have st: "sv_state demo_service = demo_before" by (simp add: demo_service_def)
  have fit: "snapshot_ok (codecs_of demo_env) (snd (apply_command demo_time (PutObject demo_object) demo_before))"
    using demo_snapshots_ok(2) by (simp only: demo_put_state) (simp add: demo_env_def)
  have "?t \<noteq> demo_time" by (simp add: demo_time_def)
  from clock_tick_splits_live_and_durable [of demo_env map_of demo_service, unfolded st, OF demo_database_laws
      demo_service_durable ok fit this] ok
  show ?thesis by (metis fst_conv)
qed

text \<open>
  A command whose persisting fails is reported as failed although the live
  state has already applied it: reads see its effect, and a restart loses it.
\<close>

theorem persist_failure_leaves_live_state_changed:
  assumes "sv_raft_backend s = Some b" and "rb_inner b = Persistent r"
    and "fst (apply_command now cmd (sv_state s)) = Inr ()" and "fst (propose e now' cmd r) = Inl err"
  shows "fst (apply_and_persist e now now' cmd s) = Inl (Status Internal err) \<and>
     sv_state (snd (apply_and_persist e now now' cmd s)) = snd (apply_command now cmd (sv_state s))"
  using assms
  by (cases "apply_command now cmd (sv_state s)"; cases "propose e now' cmd r")
    (simp add: apply_and_persist_def propose_local_apply_def persist_if_needed_def)

theorem persist_failure_leaves_live_state_changed_witness:
  "fst (apply_and_persist (demo_env\<lparr>db_put := (\<lambda>k v d. (Inl ''disk full'', d))\<rparr>) demo_time demo_time
      (PutObject demo_object) demo_service) = Inl (Status Internal ''disk full'') \<and>
   sv_state (snd (apply_and_persist (demo_env\<lparr>db_put := (\<lambda>k v d. (Inl ''disk full'', d))\<rparr>) demo_time demo_time
      (PutObject demo_object) demo_service)) = demo_state"
proof -
  let ?e = "demo_env\<lparr>db_put := (\<lambda>k v d. (Inl ''disk full'', d))\<rparr>"
  have backend: "sv_raft_backend demo_service = Some \<lparr>rb_inner = Persistent demo_raft, rb_proposed_commands = 0\<rparr>"
    and st: "sv_state demo_service = demo_before"
    by (simp_all add: demo_service_def)
  have "fst (propose ?e demo_time (PutObject demo_object) demo_raft) = Inl ''disk full''"
    by (simp add: propose_def append_log_entry_def Let_def)
  from persist_failure_leaves_live_state_changed [of demo_service, unfolded st, OF backend _ demo_put this] show ?thesis
    by (simp only: demo_put_state raft_backend.simps simp_thms)
qed

end
