(* ===== verification/Metadata_Cluster.thy ===== *)
theory Metadata_Cluster
  imports Metadata_Raft
begin

text \<open>
  How a metadata node starts (\<open>crates/metadata/src/lib.rs\<close>): the cluster string is parsed
  into its nodes, the node's own entry is compared with the address it listens on, and the
  consensus mode is checked against the size of the cluster; only then the state is loaded
  and the service is built. An error of \<open>anyhow\<close> is its message. The socket address parser
  and the opening of the database at a path are parameters of \<open>run\<close>, and the model ends
  where the gRPC server is handed the service.
\<close>

section \<open>Definitions\<close>

definition default_snapshot_path :: "metadata_config \<Rightarrow> string" where
  "default_snapshot_path config =
     path_join (mc_data_path config) (''node-'' @ show_word (mc_node_id config) @ ''-snapshot.bin'')"

definition default_raft_path :: "metadata_config \<Rightarrow> string" where
  "default_raft_path config =
     path_join (mc_data_path config) (''node-'' @ show_word (mc_node_id config) @ ''/raft'')"

text \<open>\<open>trim_start_matches\<close> with a string pattern removes every leading copy of it.\<close>

function trim_start_str :: "string \<Rightarrow> string \<Rightarrow> string" where
  "trim_start_str p s =
     (if p \<noteq> [] \<and> starts_with p s then trim_start_str p (drop (length p) s) else s)"
  by pat_completeness auto
termination
  by (relation "measure (\<lambda>(p, s). length s)") (auto simp: starts_with_iff)

declare trim_start_str.simps [simp del]

lemma trim_start_str_id: "\<not> starts_with p s \<Longrightarrow> trim_start_str p s = s"
  by (simp add: trim_start_str.simps)

definition strip_listen_scheme :: "string \<Rightarrow> string" where
  "strip_listen_scheme entry =
     trim_start_str ''grpc://'' (trim_start_str ''https://'' (trim_start_str ''http://'' (trim entry)))"

definition normalize_listen_addr :: "string \<Rightarrow> string" where
  "normalize_listen_addr listen = trim (trim_end_chars ''/'' (trim (strip_listen_scheme listen)))"

record metadata_cluster_node =
  cn_node_id :: u64
  cn_listen :: string

definition quoted :: "string \<Rightarrow> string" where
  "quoted s = CHR 0x27 # s @ [CHR 0x27]"

text \<open>
  The loop over the entries. The two hash sets of the code hold the node ids and the
  addresses of the nodes parsed so far.
\<close>

fun parse_entries ::
  "string list \<Rightarrow> metadata_cluster_node list \<Rightarrow> u64 list \<Rightarrow> string list \<Rightarrow>
   string + metadata_cluster_node list" where
  "parse_entries [] parsed node_ids listen_addrs = Inr parsed"
| "parse_entries (raw_entry # entries) parsed node_ids listen_addrs =
     (case split_once (CHR '':'') raw_entry of
        None \<Rightarrow> Inl (''invalid cluster entry '' @ quoted raw_entry @ '', expected node_id:listen_addr'')
      | Some (node_id, listen) \<Rightarrow>
          (case parse_u64 (trim node_id) of
             None \<Rightarrow> Inl (''invalid node id in cluster entry '' @ quoted raw_entry)
           | Some node_id \<Rightarrow>
               let listen = normalize_listen_addr listen
               in if listen = []
                  then Inl (''invalid cluster entry '' @ quoted raw_entry @ '', listen address is empty'')
                  else if node_id \<in> set node_ids
                  then Inl (''duplicated metadata node_id '' @ quoted (show_word node_id) @ '' in cluster config'')
                  else if listen \<in> set listen_addrs
                  then Inl (''duplicated metadata listen address '' @ quoted listen @ '' in cluster config'')
                  else parse_entries entries (parsed @ [\<lparr>cn_node_id = node_id, cn_listen = listen\<rparr>])
                         (node_id # node_ids) (listen # listen_addrs)))"

definition parse_cluster_nodes :: "string \<Rightarrow> string + metadata_cluster_node list" where
  "parse_cluster_nodes cluster =
     try_then (parse_entries (filter (\<lambda>entry. entry \<noteq> []) (map trim (split_char (CHR '','') cluster))) [] [] [])
       (\<lambda>parsed.
          if parsed = []
          then Inl ''metadata cluster configuration is invalid or empty; expected node_id:listen_addr entries''
          else Inr parsed)"

definition split_host_port :: "string \<Rightarrow> (string \<times> string) option" where
  "split_host_port addr =
     (case rsplit_once (CHR '':'') addr of
        None \<Rightarrow> None
      | Some (host, port) \<Rightarrow> if host = [] \<or> port = [] then None else Some (trim_chars ''[]'' host, port))"

definition is_wildcard_host :: "string \<Rightarrow> bool" where
  "is_wildcard_host host \<longleftrightarrow> host \<in> {''0.0.0.0'', ''::'', ''*''}"

definition listen_addrs_match :: "string \<Rightarrow> string \<Rightarrow> bool" where
  "listen_addrs_match local_listen cluster_listen =
     (let cluster_listen = normalize_listen_addr cluster_listen
      in if local_listen = cluster_listen then True
         else case split_host_port local_listen of
                None \<Rightarrow> False
              | Some (local_host, local_port) \<Rightarrow>
                  (case split_host_port cluster_listen of
                     None \<Rightarrow> False
                   | Some (_, cluster_port) \<Rightarrow> local_port = cluster_port \<and> is_wildcard_host local_host))"

definition enforce_consensus_mode :: "metadata_config \<Rightarrow> metadata_cluster_node list \<Rightarrow> string + unit" where
  "enforce_consensus_mode config cluster_nodes =
     (let cluster_size = length cluster_nodes
      in case List.find (\<lambda>node. cn_node_id node = mc_node_id config) cluster_nodes of
           None \<Rightarrow> Inl (''metadata node_id '' @ show_word (mc_node_id config) @ '' not present in cluster definition'')
         | Some local_node \<Rightarrow>
             if \<not> listen_addrs_match (normalize_listen_addr (mc_listen config)) (cn_listen local_node)
             then Inl (''metadata listen mismatch: node_id '' @ show_word (mc_node_id config) @ '' uses '' @
                       mc_listen config @ '' but cluster entry expects '' @ cn_listen local_node)
             else let is_clustered = (cluster_size > 1)
                  in if cluster_size = 0 then Inl ''metadata cluster_size must be greater than 0''
                     else case (mc_consensus_mode config, is_clustered) of
                            (Standalone, True) \<Rightarrow>
                              Inl ''standalone mode only supports a single metadata node; distributed metadata clusters require a real Raft runtime''
                          | (LocalRaft, True) \<Rightarrow>
                              Inl ''local_raft mode is not valid for multi-node metadata clusters; distributed metadata clusters require a real Raft runtime''
                          | (PersistentRaft, True) \<Rightarrow>
                              Inl ''persistent_raft multi-node metadata clusters require the distributed Raft runtime; this build only supports single-node persistent_raft safely''
                          | _ \<Rightarrow> Inr ())"

text \<open>
  The start of a node with both raft features enabled, up to the call of the server:
  \<open>parse_addr\<close> is the parser of socket addresses, \<open>open_db\<close> opens the database at a path.
\<close>

definition run ::
  "('d, 'f) env \<Rightarrow> (string \<Rightarrow> string + 'a) \<Rightarrow> (string \<Rightarrow> 'f \<Rightarrow> string + 'd) \<Rightarrow> metadata_config \<Rightarrow> 'f \<Rightarrow>
   string + ('a \<times> ('d, 'f) metadata_service)" where
  "run e parse_addr open_db config fs =
     try_then (parse_addr (mc_listen config)) (\<lambda>addr.
     try_then (parse_cluster_nodes (mc_cluster config)) (\<lambda>cluster_nodes.
     try_then (enforce_consensus_mode config cluster_nodes) (\<lambda>_.
       let snapshot_path = default_snapshot_path config
       in try_then
            (case mc_consensus_mode config of
               Standalone \<Rightarrow> new_with_snapshot_and_raft_backend e config snapshot_path backend_memory fs
             | LocalRaft \<Rightarrow> new_with_snapshot_and_raft_backend e config snapshot_path backend_memory fs
             | PersistentRaft \<Rightarrow>
                 let raft_storage_path = (case mc_raft_state_path config of
                       None \<Rightarrow> default_raft_path config | Some path \<Rightarrow> path)
                 in try_then (open_db raft_storage_path fs) (\<lambda>d.
                    try_then (new_with_storage e d) (\<lambda>raft_backend.
                      new_with_snapshot_and_raft_backend e config snapshot_path raft_backend fs)))
            (\<lambda>service. Inr (addr, service)))))"

section \<open>Trimming, splitting and joining\<close>

lemma dropWhile_hd: "dropWhile P s = [] \<or> \<not> P (hd (dropWhile P s))"
  by (induction s) auto

lemma trim_fixed:
  assumes "s = [] \<or> (\<not> is_space (hd s) \<and> \<not> is_space (last s))"
  shows "trim s = s"
proof (cases "s = []")
  case False
  with assms have "dropWhile is_space s = s" by (cases s) auto
  moreover from False assms have "dropWhile is_space (rev s) = rev s" by (cases s rule: rev_cases) auto
  ultimately show ?thesis by (simp add: trim_def)
qed (simp add: trim_def)

lemma trim_ends:
  assumes "trim s \<noteq> []"
  shows "\<not> is_space (hd (trim s)) \<and> \<not> is_space (last (trim s))"
proof -
  let ?d = "dropWhile is_space s"
  let ?r = "dropWhile is_space (rev ?d)"
  have t: "trim s = rev ?r" by (simp add: trim_def)
  with assms have r: "?r \<noteq> []" by simp
  have "\<not> is_space (hd ?r)" using dropWhile_hd [of is_space "rev ?d"] r by blast
  moreover have "hd (trim s) = hd ?d"
  proof -
    obtain w where w: "rev ?d = w @ ?r" by (metis takeWhile_dropWhile_id)
    then have "?d = rev ?r @ rev w" by (metis rev_append rev_rev_ident)
    then show ?thesis using r t by (metis hd_append2 rev_is_Nil_conv)
  qed
  moreover have "?d \<noteq> []" using r by (metis dropWhile.simps(1) rev.simps(1))
  ultimately show ?thesis using dropWhile_hd [of is_space s] t by (metis last_rev)
qed

lemma trim_idem: "trim (trim s) = trim s"
  using trim_ends [of s] by (intro trim_fixed) blast

fun join_char :: "char \<Rightarrow> string list \<Rightarrow> string" where
  "join_char c [] = []"
| "join_char c [s] = s"
| "join_char c (s # t # ss) = s @ c # join_char c (t # ss)"

lemma split_char_append: "c \<notin> set s \<Longrightarrow> split_char c (s @ c # t) = s # split_char c t"
  by (induction s) auto

lemma split_char_single: "c \<notin> set s \<Longrightarrow> split_char c s = [s]"
  by (induction s) auto

lemma split_char_join:
  "ss \<noteq> [] \<Longrightarrow> (\<And>s. s \<in> set ss \<Longrightarrow> c \<notin> set s) \<Longrightarrow> split_char c (join_char c ss) = ss"
  by (induction c ss rule: join_char.induct) (simp_all add: split_char_append split_char_single)

lemma digit_not_space: "is_ascii_digit c \<Longrightarrow> \<not> is_space c"
  by (auto simp: is_ascii_digit_def is_space_def)

lemma show_word_chars: "c \<in> set (show_word w) \<Longrightarrow> is_ascii_digit c"
  using nat_to_string_digits [of "unat w"] by (simp add: list_all_iff)

lemma show_word_no_colon: "CHR '':'' \<notin> set (show_word w)"
  using show_word_chars [of "CHR '':''" w] by (auto simp: is_ascii_digit_def)

lemma show_word_no_comma: "CHR '','' \<notin> set (show_word w)"
  using show_word_chars [of "CHR '',''" w] by (auto simp: is_ascii_digit_def)

lemma show_word_ends: "\<not> is_space (hd (show_word w))" "\<not> is_space (last (show_word w))"
  using show_word_chars [of "hd (show_word w)" w] show_word_chars [of "last (show_word w)" w]
  by (simp_all add: digit_not_space)

lemma trim_show_word [simp]: "trim (show_word w) = show_word w"
  using show_word_ends by (intro trim_fixed) blast

section \<open>Cluster strings\<close>

text \<open>
  A node whose address survives normalisation, and the cluster string that lists such nodes.
\<close>

definition printable_node :: "metadata_cluster_node \<Rightarrow> bool" where
  "printable_node n \<longleftrightarrow> cn_listen n \<noteq> [] \<and> normalize_listen_addr (cn_listen n) = cn_listen n \<and>
     CHR '','' \<notin> set (cn_listen n)"

definition show_node :: "metadata_cluster_node \<Rightarrow> string" where
  "show_node n = show_word (cn_node_id n) @ CHR '':'' # cn_listen n"

definition show_cluster :: "metadata_cluster_node list \<Rightarrow> string" where
  "show_cluster ns = join_char (CHR '','') (map show_node ns)"

lemma show_node_trim:
  assumes "printable_node n"
  shows "trim (show_node n) = show_node n"
proof -
  from assms have l: "cn_listen n \<noteq> []" and t: "trim (cn_listen n) = cn_listen n"
    by (auto simp: printable_node_def) (metis normalize_listen_addr_def trim_idem)
  have "\<not> is_space (hd (show_node n))"
    by (simp add: show_node_def show_word_ends)
  moreover have "\<not> is_space (last (show_node n))"
    using trim_ends [of "cn_listen n"] l t by (simp add: show_node_def)
  ultimately show ?thesis by (simp add: trim_fixed)
qed

lemma split_show_node: "split_once (CHR '':'') (show_node n) = Some (show_word (cn_node_id n), cn_listen n)"
  by (simp add: split_once_Some_iff show_node_def show_word_no_colon)

lemma parse_entries_show:
  assumes "\<And>n. n \<in> set ns \<Longrightarrow> printable_node n"
    and "distinct (map cn_node_id ns)" and "set (map cn_node_id ns) \<inter> set ids = {}"
    and "distinct (map cn_listen ns)" and "set (map cn_listen ns) \<inter> set addrs = {}"
  shows "parse_entries (map show_node ns) done ids addrs = Inr (done @ ns)"
  using assms
proof (induction ns arbitrary: "done" ids addrs)
  case (Cons n ns)
  then have "printable_node n" by simp
  with Cons.IH [of "cn_node_id n # ids" "cn_listen n # addrs" "done @ [n]"] Cons.prems show ?case
    by (cases n) (simp add: split_show_node printable_node_def Let_def)
qed simp

lemma parse_entries_sound:
  assumes "parse_entries es done ids addrs = Inr ns"
    and "distinct (map cn_node_id done)" and "set ids = set (map cn_node_id done)"
    and "distinct (map cn_listen done)" and "set addrs = set (map cn_listen done)"
    and "\<forall>n \<in> set done. cn_listen n \<noteq> []"
  shows "distinct (map cn_node_id ns) \<and> distinct (map cn_listen ns) \<and> (\<forall>n \<in> set ns. cn_listen n \<noteq> []) \<and>
    length ns = length done + length es"
  using assms
proof (induction es "done" ids addrs rule: parse_entries.induct)
  case (2 e es parsed ids addrs)
  then show ?case by (auto simp: Let_def split: option.splits if_splits)
qed simp

lemma parse_show_cluster:
  assumes "ns \<noteq> []" and "\<And>n. n \<in> set ns \<Longrightarrow> printable_node n"
    and "distinct (map cn_node_id ns)" and "distinct (map cn_listen ns)"
  shows "parse_cluster_nodes (show_cluster ns) = Inr ns"
proof -
  have comma: "CHR '','' \<notin> set s" if "s \<in> set (map show_node ns)" for s
    using that assms(2) by (auto simp: show_node_def printable_node_def show_word_no_comma)
  have "split_char (CHR '','') (show_cluster ns) = map show_node ns"
    unfolding show_cluster_def using assms(1) comma by (intro split_char_join) auto
  moreover have "map trim (map show_node ns) = map show_node ns"
    using assms(2) by (auto simp: show_node_trim)
  moreover have "filter (\<lambda>e. e \<noteq> []) (map show_node ns) = map show_node ns"
    by (auto simp: show_node_def filter_id_conv)
  ultimately show ?thesis
    using parse_entries_show [OF assms(2,3) _ assms(4), of "[]" "[]" "[]"] assms(1)
    by (simp add: parse_cluster_nodes_def del: map_map)
qed

section \<open>Properties of the start\<close>

text \<open>
  C25 (roundtrip). The cluster parser is the inverse of the cluster syntax: every list of
  nodes with distinct ids and distinct normalised addresses is read back from the string
  that lists its entries.
\<close>

theorem parse_cluster_nodes_show:
  assumes "ns \<noteq> []" and "\<And>n. n \<in> set ns \<Longrightarrow> printable_node n"
    and "distinct (map cn_node_id ns)" and "distinct (map cn_listen ns)"
  shows "parse_cluster_nodes (show_cluster ns) = Inr ns"
  using assms by (rule parse_show_cluster)

definition demo_nodes :: "metadata_cluster_node list" where
  "demo_nodes = [\<lparr>cn_node_id = 1, cn_listen = ''127.0.0.1:21001''\<rparr>, \<lparr>cn_node_id = 2, cn_listen = ''127.0.0.1:21002''\<rparr>]"

lemma demo_nodes_printable: "n \<in> set demo_nodes \<Longrightarrow> printable_node n"
  by (auto simp: demo_nodes_def printable_node_def normalize_listen_addr_def strip_listen_scheme_def
      trim_def is_space_def trim_start_str_id starts_with_def trim_end_chars_def)

lemma demo_nodes_parsed: "parse_cluster_nodes (show_cluster demo_nodes) = Inr demo_nodes"
  using parse_show_cluster [of demo_nodes, OF _ demo_nodes_printable] by (simp add: demo_nodes_def)

theorem parse_cluster_nodes_show_witness:
  "demo_nodes \<noteq> [] \<and> parse_cluster_nodes (show_cluster demo_nodes) = Inr demo_nodes"
  using parse_cluster_nodes_show [of demo_nodes, OF _ demo_nodes_printable] by (simp add: demo_nodes_def)

text \<open>
  A metadata node only starts as the single member of its cluster, in every
  consensus mode: the cluster string has exactly one entry, it carries the node's own id
  and an address that matches the one the node listens on.
\<close>

theorem started_node_is_alone:
  assumes "run e parse_addr open_db config fs = Inr (addr, svc)"
  shows "\<exists>n. parse_cluster_nodes (mc_cluster config) = Inr [n] \<and> cn_node_id n = mc_node_id config \<and>
     listen_addrs_match (normalize_listen_addr (mc_listen config)) (cn_listen n) \<and> cn_listen n \<noteq> []"
proof -
  from assms obtain ns where ns: "parse_cluster_nodes (mc_cluster config) = Inr ns"
    and ok: "enforce_consensus_mode config ns = Inr ()"
    by (auto simp: run_def try_then_Inr)
  from ns have "\<forall>n \<in> set ns. cn_listen n \<noteq> []"
    using parse_entries_sound [of _ "[]" "[]" "[]" ns]
    by (auto simp: parse_cluster_nodes_def try_then_Inr split: if_splits)
  moreover from ok obtain n where n: "List.find (\<lambda>n. cn_node_id n = mc_node_id config) ns = Some n"
    and m: "listen_addrs_match (normalize_listen_addr (mc_listen config)) (cn_listen n)"
    and one: "length ns = 1"
    by (cases "mc_consensus_mode config"; cases ns)
      (auto simp: enforce_consensus_mode_def Let_def split: option.splits if_splits bool.splits)
  from one obtain x where "ns = [x]" by (auto simp: length_Suc_conv)
  ultimately show ?thesis using ns n m by (auto split: if_splits)
qed

definition started_config :: metadata_config where
  "started_config = metadata_config_default\<lparr>mc_cluster := show_cluster [hd demo_nodes], mc_consensus_mode := Standalone\<rparr>"

lemma started_config_cluster: "parse_cluster_nodes (mc_cluster started_config) = Inr [hd demo_nodes]"
proof -
  have "hd demo_nodes \<in> set demo_nodes" by (simp add: demo_nodes_def)
  from demo_nodes_printable [OF this] have "split_char (CHR '','') (show_node (hd demo_nodes)) = [show_node (hd demo_nodes)]"
    by (intro split_char_single) (auto simp: show_node_def printable_node_def show_word_no_comma)
  moreover have "parse_entries [show_node (hd demo_nodes)] [] [] [] = Inr [hd demo_nodes]"
    using parse_entries_show [of "[hd demo_nodes]" "[]" "[]" "[]"] demo_nodes_printable [of "hd demo_nodes"]
    by (simp add: demo_nodes_def del: parse_entries.simps)
  ultimately show ?thesis
    using show_node_trim [of "hd demo_nodes"] demo_nodes_printable [of "hd demo_nodes"]
    by (simp add: started_config_def parse_cluster_nodes_def show_cluster_def demo_nodes_def show_node_def del: parse_entries.simps)
qed

lemma started_config_enforced: "enforce_consensus_mode started_config [hd demo_nodes] = Inr ()"
  by (simp add: enforce_consensus_mode_def started_config_def demo_nodes_def metadata_config_default_def
      listen_addrs_match_def split_host_port_def rsplit_once_def is_wildcard_host_def normalize_listen_addr_def
      strip_listen_scheme_def trim_def is_space_def trim_start_str_id starts_with_def trim_end_chars_def
      trim_chars_def trim_start_chars_def)

theorem started_node_is_alone_witness:
  "\<exists>n. parse_cluster_nodes (mc_cluster started_config) = Inr [n] \<and> cn_node_id n = mc_node_id started_config \<and>
     listen_addrs_match (normalize_listen_addr (mc_listen started_config)) (cn_listen n) \<and> cn_listen n \<noteq> []"
proof -
  let ?e = "demo_env"
  have "\<exists>svc. run ?e (\<lambda>s. Inr s) (\<lambda>p fs. Inl ''unused'') started_config () = Inr (mc_listen started_config, svc)"
    using started_config_cluster started_config_enforced
    by (simp add: run_def started_config_def new_with_snapshot_and_raft_backend_def bootstrapped_state_def
        backend_memory_def metadata_is_empty_def metadata_state_default_def demo_env_def Let_def)
  then obtain svc where "run ?e (\<lambda>s. Inr s) (\<lambda>p fs. Inl ''unused'') started_config () = Inr (mc_listen started_config, svc)"
    by blast
  from started_node_is_alone [OF this] show ?thesis .
qed

end
