(* ===== verification/Metadata_Service.thy ===== *)
theory Metadata_Service
  imports Metadata_Cluster
begin

text \<open>
  The handlers of the metadata service (\<open>impl MetadataService\<close> in
  \<open>crates/metadata/src/service.rs\<close>). A handler that changes the state goes through
  \<open>apply_and_persist\<close> with the clocks of its two applications; a handler that reads it is a
  function of the live state. A handler named \<open>f\<close> in the code is \<open>md_f\<close> here, since the
  scheduler and the gateway have handlers with the same names. The request and response
  messages are those of \<open>metadata.proto\<close>; a request with one field is that field.
\<close>

section \<open>Requests and responses\<close>

record list_objects_request =
  lor_bucket :: string
  lor_prefix :: "string option"
  lor_marker :: "string option"
  lor_max_keys :: u32

record list_objects_response =
  lop_objects :: "object_metadata list"
  lop_next_marker :: "string option"
  lop_is_truncated :: bool

type_synonym ('d, 'f) handler = "('d, 'f) metadata_service \<Rightarrow> unit result \<times> ('d, 'f) metadata_service"

section \<open>Handlers that change the state\<close>

definition md_put_object ::
  "('d, 'f) env \<Rightarrow> timestamp \<Rightarrow> timestamp \<Rightarrow> object_metadata \<Rightarrow> ('d, 'f) handler" where
  "md_put_object e now now' request s = apply_and_persist e now now' (PutObject request) s"

definition md_delete_object ::
  "('d, 'f) env \<Rightarrow> timestamp \<Rightarrow> timestamp \<Rightarrow> delete_object_request \<Rightarrow> ('d, 'f) handler" where
  "md_delete_object e now now' request s = apply_and_persist e now now' (DeleteObject request) s"

definition md_update_storage_class ::
  "('d, 'f) env \<Rightarrow> timestamp \<Rightarrow> timestamp \<Rightarrow> update_storage_class_request \<Rightarrow> ('d, 'f) handler" where
  "md_update_storage_class e now now' request s = apply_and_persist e now now' (UpdateStorageClass request) s"

definition md_update_archive_location ::
  "('d, 'f) env \<Rightarrow> timestamp \<Rightarrow> timestamp \<Rightarrow> update_archive_location_request \<Rightarrow> ('d, 'f) handler" where
  "md_update_archive_location e now now' request s = apply_and_persist e now now' (UpdateArchiveLocation request) s"

definition md_complete_archive_object ::
  "('d, 'f) env \<Rightarrow> timestamp \<Rightarrow> timestamp \<Rightarrow> complete_archive_object_request \<Rightarrow> ('d, 'f) handler" where
  "md_complete_archive_object e now now' request s = apply_and_persist e now now' (CompleteArchiveObject request) s"

definition md_update_restore_status ::
  "('d, 'f) env \<Rightarrow> timestamp \<Rightarrow> timestamp \<Rightarrow> update_restore_status_request \<Rightarrow> ('d, 'f) handler" where
  "md_update_restore_status e now now' request s = apply_and_persist e now now' (UpdateRestoreStatus request) s"

definition md_create_bucket ::
  "('d, 'f) env \<Rightarrow> timestamp \<Rightarrow> timestamp \<Rightarrow> bucket_info \<Rightarrow> ('d, 'f) handler" where
  "md_create_bucket e now now' request s = apply_and_persist e now now' (CreateBucket request) s"

definition md_delete_bucket ::
  "('d, 'f) env \<Rightarrow> timestamp \<Rightarrow> timestamp \<Rightarrow> string \<Rightarrow> ('d, 'f) handler" where
  "md_delete_bucket e now now' request s = apply_and_persist e now now' (DeleteBucket request) s"

definition md_put_archive_bundle ::
  "('d, 'f) env \<Rightarrow> timestamp \<Rightarrow> timestamp \<Rightarrow> archive_bundle \<Rightarrow> ('d, 'f) handler" where
  "md_put_archive_bundle e now now' request s = apply_and_persist e now now' (PutArchiveBundle request) s"

definition md_update_archive_bundle_status ::
  "('d, 'f) env \<Rightarrow> timestamp \<Rightarrow> timestamp \<Rightarrow> update_archive_bundle_status_request \<Rightarrow> ('d, 'f) handler" where
  "md_update_archive_bundle_status e now now' request s = apply_and_persist e now now' (UpdateArchiveBundleStatus request) s"

definition md_put_archive_task ::
  "('d, 'f) env \<Rightarrow> timestamp \<Rightarrow> timestamp \<Rightarrow> archive_task \<Rightarrow> ('d, 'f) handler" where
  "md_put_archive_task e now now' request s = apply_and_persist e now now' (PutArchiveTask request) s"

definition md_update_archive_task ::
  "('d, 'f) env \<Rightarrow> timestamp \<Rightarrow> timestamp \<Rightarrow> archive_task \<Rightarrow> ('d, 'f) handler" where
  "md_update_archive_task e now now' request s = apply_and_persist e now now' (UpdateArchiveTask request) s"

definition md_put_recall_task ::
  "('d, 'f) env \<Rightarrow> timestamp \<Rightarrow> timestamp \<Rightarrow> recall_task \<Rightarrow> ('d, 'f) handler" where
  "md_put_recall_task e now now' request s = apply_and_persist e now now' (PutRecallTask request) s"

definition md_update_recall_task ::
  "('d, 'f) env \<Rightarrow> timestamp \<Rightarrow> timestamp \<Rightarrow> recall_task \<Rightarrow> ('d, 'f) handler" where
  "md_update_recall_task e now now' request s = apply_and_persist e now now' (UpdateRecallTask request) s"

definition md_put_tape ::
  "('d, 'f) env \<Rightarrow> timestamp \<Rightarrow> timestamp \<Rightarrow> tape_info \<Rightarrow> ('d, 'f) handler" where
  "md_put_tape e now now' request s = apply_and_persist e now now' (PutTape request) s"

definition md_update_tape ::
  "('d, 'f) env \<Rightarrow> timestamp \<Rightarrow> timestamp \<Rightarrow> tape_info \<Rightarrow> ('d, 'f) handler" where
  "md_update_tape e now now' request s = apply_and_persist e now now' (UpdateTape request) s"

definition md_register_scheduler_worker ::
  "('d, 'f) env \<Rightarrow> timestamp \<Rightarrow> timestamp \<Rightarrow> scheduler_worker_info \<Rightarrow> ('d, 'f) handler" where
  "md_register_scheduler_worker e now now' request s = apply_and_persist e now now' (RegisterSchedulerWorker request) s"

definition md_deregister_scheduler_worker ::
  "('d, 'f) env \<Rightarrow> timestamp \<Rightarrow> timestamp \<Rightarrow> u64 \<Rightarrow> ('d, 'f) handler" where
  "md_deregister_scheduler_worker e now now' request s = apply_and_persist e now now' (DeregisterSchedulerWorker request) s"

definition md_register_cache_worker ::
  "('d, 'f) env \<Rightarrow> timestamp \<Rightarrow> timestamp \<Rightarrow> cache_worker_info \<Rightarrow> ('d, 'f) handler" where
  "md_register_cache_worker e now now' request s = apply_and_persist e now now' (RegisterCacheWorker request) s"

definition md_deregister_cache_worker ::
  "('d, 'f) env \<Rightarrow> timestamp \<Rightarrow> timestamp \<Rightarrow> u64 \<Rightarrow> ('d, 'f) handler" where
  "md_deregister_cache_worker e now now' request s = apply_and_persist e now now' (DeregisterCacheWorker request) s"

definition md_register_tape_worker ::
  "('d, 'f) env \<Rightarrow> timestamp \<Rightarrow> timestamp \<Rightarrow> tape_worker_info \<Rightarrow> ('d, 'f) handler" where
  "md_register_tape_worker e now now' request s = apply_and_persist e now now' (RegisterTapeWorker request) s"

definition md_deregister_tape_worker ::
  "('d, 'f) env \<Rightarrow> timestamp \<Rightarrow> timestamp \<Rightarrow> u64 \<Rightarrow> ('d, 'f) handler" where
  "md_deregister_tape_worker e now now' request s = apply_and_persist e now now' (DeregisterTapeWorker request) s"

definition md_update_worker_status ::
  "('d, 'f) env \<Rightarrow> timestamp \<Rightarrow> timestamp \<Rightarrow> update_worker_status_request \<Rightarrow> ('d, 'f) handler" where
  "md_update_worker_status e now now' request s = apply_and_persist e now now' (UpdateWorkerStatus request) s"

definition md_heartbeat ::
  "('d, 'f) env \<Rightarrow> timestamp \<Rightarrow> timestamp \<Rightarrow> heartbeat_request \<Rightarrow> ('d, 'f) handler" where
  "md_heartbeat e now now' request s = apply_and_persist e now now' (Heartbeat request) s"

definition md_drain_worker ::
  "('d, 'f) env \<Rightarrow> timestamp \<Rightarrow> timestamp \<Rightarrow> i32 \<Rightarrow> u64 \<Rightarrow> ('d, 'f) handler" where
  "md_drain_worker e now now' worker_type node_id s =
     md_update_worker_status e now now'
       \<lparr>uws_worker_type = worker_type, uws_node_id = node_id, uws_status = node_status_i32 NodeDraining\<rparr> s"

lemmas md_handler_defs = md_put_object_def md_delete_object_def md_update_storage_class_def md_update_archive_location_def md_complete_archive_object_def md_update_restore_status_def md_create_bucket_def md_delete_bucket_def md_put_archive_bundle_def md_update_archive_bundle_status_def md_put_archive_task_def md_update_archive_task_def md_put_recall_task_def md_update_recall_task_def md_put_tape_def md_update_tape_def md_register_scheduler_worker_def md_deregister_scheduler_worker_def md_register_cache_worker_def md_deregister_cache_worker_def md_register_tape_worker_def md_deregister_tape_worker_def md_update_worker_status_def md_heartbeat_def md_drain_worker_def

section \<open>Handlers that read the state\<close>

definition md_get_object :: "('d, 'f) metadata_service \<Rightarrow> string \<Rightarrow> string \<Rightarrow> object_metadata result" where
  "md_get_object s bucket key = find_object (sv_state s) bucket key None"

definition md_get_object_version ::
  "('d, 'f) metadata_service \<Rightarrow> string \<Rightarrow> string \<Rightarrow> string \<Rightarrow> object_metadata result" where
  "md_get_object_version s bucket key version_id = find_object (sv_state s) bucket key (Some version_id)"

definition md_head_object :: "('d, 'f) metadata_service \<Rightarrow> string \<Rightarrow> string \<Rightarrow> object_metadata result" where
  "md_head_object s bucket key = find_object (sv_state s) bucket key None"

definition md_list_objects ::
  "('d, 'f) metadata_service \<Rightarrow> list_objects_request \<Rightarrow> list_objects_response result" where
  "md_list_objects s request =
     (if \<not> hm_contains_key (ms_buckets (sv_state s)) (lor_bucket request)
      then Inl (Status NotFound (''bucket not found: '' @ lor_bucket request))
      else
        let prefix = (case lor_prefix request of None \<Rightarrow> [] | Some p \<Rightarrow> p);
            marker = (case lor_marker request of None \<Rightarrow> [] | Some m \<Rightarrow> m);
            limit = (if lor_max_keys request = 0 then usize_MAX else unat (lor_max_keys request));
            objects = sort_key (\<lambda>ob. (om_key ob, om_version_id ob))
              (filter (\<lambda>ob. om_key ob > marker)
                (filter (\<lambda>ob. starts_with prefix (om_key ob))
                  (filter (\<lambda>ob. om_bucket ob = lor_bucket request) (hm_values (ms_objects (sv_state s))))));
            is_truncated = length objects > limit;
            next_marker = (if is_truncated
              then (if limit - 1 < length objects then Some (om_key (objects ! (limit - 1))) else None)
              else None)
        in Inr \<lparr>lop_objects = take limit objects, lop_next_marker = next_marker, lop_is_truncated = is_truncated\<rparr>)"

definition md_scan_cold_pending :: "('d, 'f) metadata_service \<Rightarrow> u32 \<Rightarrow> object_metadata list result" where
  "md_scan_cold_pending s limit =
     (let limit = (if limit = 0 then usize_MAX else unat limit);
          objects = sort_key (\<lambda>ob. (om_bucket ob, om_key ob))
            (filter (\<lambda>ob. om_storage_class ob = storage_class_i32 ColdPending) (hm_values (ms_objects (sv_state s))))
      in Inr (take limit objects))"

definition md_get_bucket :: "('d, 'f) metadata_service \<Rightarrow> string \<Rightarrow> bucket_info result" where
  "md_get_bucket s name =
     (case hm_get (ms_buckets (sv_state s)) name of
        None \<Rightarrow> Inl (Status NotFound (''bucket not found: '' @ name))
      | Some b \<Rightarrow> Inr b)"

definition md_list_buckets :: "('d, 'f) metadata_service \<Rightarrow> bucket_info list result" where
  "md_list_buckets s = Inr (sort_key bi_name (hm_values (ms_buckets (sv_state s))))"

definition md_get_archive_bundle :: "('d, 'f) metadata_service \<Rightarrow> string \<Rightarrow> archive_bundle result" where
  "md_get_archive_bundle s bundle_id =
     (case hm_get (ms_archive_bundles (sv_state s)) bundle_id of
        None \<Rightarrow> Inl (Status NotFound ''archive bundle not found'')
      | Some b \<Rightarrow> Inr b)"

definition md_list_bundles_by_tape :: "('d, 'f) metadata_service \<Rightarrow> string \<Rightarrow> string list result" where
  "md_list_bundles_by_tape s tape_id =
     Inr (map ab_id (filter (\<lambda>b. ab_tape_id b = tape_id) (hm_values (ms_archive_bundles (sv_state s)))))"

definition md_get_archive_task :: "('d, 'f) metadata_service \<Rightarrow> string \<Rightarrow> archive_task result" where
  "md_get_archive_task s task_id =
     (case hm_get (ms_archive_tasks (sv_state s)) task_id of
        None \<Rightarrow> Inl (Status NotFound ''archive task not found'')
      | Some t \<Rightarrow> Inr t)"

definition md_list_pending_archive_tasks :: "('d, 'f) metadata_service \<Rightarrow> archive_task list result" where
  "md_list_pending_archive_tasks s =
     Inr (filter (\<lambda>t. archive_task_status_try_from (at_status t) \<in> {Some ArchiveTaskPending, Some ArchiveTaskInProgress})
            (hm_values (ms_archive_tasks (sv_state s))))"

definition md_get_recall_task :: "('d, 'f) metadata_service \<Rightarrow> string \<Rightarrow> recall_task result" where
  "md_get_recall_task s task_id =
     (case hm_get (ms_recall_tasks (sv_state s)) task_id of
        None \<Rightarrow> Inl (Status NotFound ''recall task not found'')
      | Some t \<Rightarrow> Inr t)"

definition md_list_pending_recall_tasks :: "('d, 'f) metadata_service \<Rightarrow> recall_task list result" where
  "md_list_pending_recall_tasks s =
     Inr (filter (\<lambda>t. is_pending_restore_status (rt_status t)) (hm_values (ms_recall_tasks (sv_state s))))"

definition md_list_recall_tasks_by_tape :: "('d, 'f) metadata_service \<Rightarrow> string \<Rightarrow> recall_task list result" where
  "md_list_recall_tasks_by_tape s tape_id =
     Inr (filter (\<lambda>t. rt_tape_id t = tape_id) (hm_values (ms_recall_tasks (sv_state s))))"

definition md_find_active_recall ::
  "('d, 'f) metadata_service \<Rightarrow> string \<Rightarrow> string \<Rightarrow> recall_task option result" where
  "md_find_active_recall s bucket key =
     Inr (List.find (\<lambda>t. rt_bucket t = bucket \<and> rt_key t = key \<and> is_active_restore_status (rt_status t))
            (hm_values (ms_recall_tasks (sv_state s))))"

definition md_get_tape :: "('d, 'f) metadata_service \<Rightarrow> string \<Rightarrow> tape_info result" where
  "md_get_tape s tape_id =
     (case hm_get (ms_tapes (sv_state s)) tape_id of
        None \<Rightarrow> Inl (Status NotFound ''tape not found'')
      | Some t \<Rightarrow> Inr t)"

definition md_list_tapes :: "('d, 'f) metadata_service \<Rightarrow> tape_info list result" where
  "md_list_tapes s = Inr (hm_values (ms_tapes (sv_state s)))"

definition md_list_tapes_by_status :: "('d, 'f) metadata_service \<Rightarrow> i32 \<Rightarrow> tape_info list result" where
  "md_list_tapes_by_status s status = Inr (filter (\<lambda>t. ti_status t = status) (hm_values (ms_tapes (sv_state s))))"

definition md_list_online_scheduler_workers :: "('d, 'f) metadata_service \<Rightarrow> scheduler_worker_info list result" where
  "md_list_online_scheduler_workers s =
     Inr (filter (\<lambda>w. sw_status w = node_status_i32 NodeOnline) (hm_values (ms_scheduler_workers (sv_state s))))"

definition md_list_online_cache_workers :: "('d, 'f) metadata_service \<Rightarrow> cache_worker_info list result" where
  "md_list_online_cache_workers s =
     Inr (filter (\<lambda>w. cw_status w = node_status_i32 NodeOnline) (hm_values (ms_cache_workers (sv_state s))))"

definition md_list_online_tape_workers :: "('d, 'f) metadata_service \<Rightarrow> tape_worker_info list result" where
  "md_list_online_tape_workers s =
     Inr (filter (\<lambda>w. tw_status w = node_status_i32 NodeOnline) (hm_values (ms_tape_workers (sv_state s))))"

subsection \<open>The cluster\<close>

definition metadata_nodes :: "timestamp \<Rightarrow> metadata_config \<Rightarrow> u64 option \<Rightarrow> metadata_node_info list" where
  "metadata_nodes now config leader_hint =
     List.map_filter (\<lambda>entry.
       case split_once (CHR '':'') entry of
         None \<Rightarrow> None
       | Some (node_id, addr) \<Rightarrow>
           (case parse_u64 node_id of
              None \<Rightarrow> None
            | Some node_id \<Rightarrow>
                Some \<lparr>mn_node_id = node_id, mn_addr = addr,
                      mn_raft_role = (if Some node_id = leader_hint then ''Leader'' else ''Follower''),
                      mn_last_heartbeat = Some now, mn_status = node_status_i32 NodeOnline\<rparr>))
       (split_char (CHR '','') (mc_cluster config))"

definition md_get_cluster_info :: "('d, 'f) env \<Rightarrow> timestamp \<Rightarrow> ('d, 'f) metadata_service \<Rightarrow> cluster_info result" where
  "md_get_cluster_info e now s =
     (let st = sv_state s;
          (leader_id, term, committed_index) =
            (case sv_raft_backend s of
               Some b \<Rightarrow> let (term, leader_id) = cluster_term_and_leader e b in (leader_id, term, rb_proposed_commands b)
             | None \<Rightarrow> (None, 1, len_u64 (ms_objects st)))
      in Inr \<lparr>ci_cluster_id = ''coldstore-phase1'', ci_metadata_nodes = metadata_nodes now (sv_config s) leader_id,
              ci_scheduler_workers = hm_values (ms_scheduler_workers st), ci_cache_workers = hm_values (ms_cache_workers st),
              ci_tape_workers = hm_values (ms_tape_workers st), ci_leader_id = leader_id, ci_term = term,
              ci_committed_index = committed_index\<rparr>)"

section \<open>Listing\<close>

text \<open>
  The objects a listing ranges over, in listing order, and a client that follows the markers
  until a page is not truncated.
\<close>

definition listed :: "metadata_state \<Rightarrow> list_objects_request \<Rightarrow> object_metadata list" where
  "listed st request =
     sort_key (\<lambda>ob. (om_key ob, om_version_id ob))
       (filter (\<lambda>ob. om_bucket ob = lor_bucket request \<and>
            starts_with (case lor_prefix request of None \<Rightarrow> [] | Some p \<Rightarrow> p) (om_key ob) \<and>
            om_key ob > (case lor_marker request of None \<Rightarrow> [] | Some m \<Rightarrow> m))
          (hm_values (ms_objects st)))"

fun list_pages :: "nat \<Rightarrow> ('d, 'f) metadata_service \<Rightarrow> list_objects_request \<Rightarrow> object_metadata list result" where
  "list_pages 0 s request = Inl (Status Cancelled ''too many pages'')"
| "list_pages (Suc n) s request =
     try_then (md_list_objects s request) (\<lambda>page.
       if lop_is_truncated page
       then try_then (list_pages n s (request\<lparr>lor_marker := lop_next_marker page\<rparr>))
              (\<lambda>rest. Inr (lop_objects page @ rest))
       else Inr (lop_objects page))"

definition page_limit :: "u32 \<Rightarrow> nat" where
  "page_limit max_keys = (if max_keys = 0 then usize_MAX else unat max_keys)"

lemma page_limit_pos: "0 < page_limit max_keys"
  by (simp add: page_limit_def usize_MAX_def unat_gt_0)

lemma md_list_objects_eq:
  "md_list_objects s request =
     (if \<not> hm_contains_key (ms_buckets (sv_state s)) (lor_bucket request)
      then Inl (Status NotFound (''bucket not found: '' @ lor_bucket request))
      else let objects = listed (sv_state s) request; limit = page_limit (lor_max_keys request)
           in Inr \<lparr>lop_objects = take limit objects,
                   lop_next_marker = (if length objects > limit then Some (om_key (objects ! (limit - 1))) else None),
                   lop_is_truncated = length objects > limit\<rparr>)"
proof -
  have obs: "sort_key (\<lambda>ob. (om_key ob, om_version_id ob))
      (filter (\<lambda>ob. om_key ob > (case lor_marker request of None \<Rightarrow> [] | Some m \<Rightarrow> m))
        (filter (\<lambda>ob. starts_with (case lor_prefix request of None \<Rightarrow> [] | Some p \<Rightarrow> p) (om_key ob))
          (filter (\<lambda>ob. om_bucket ob = lor_bucket request) (hm_values (ms_objects (sv_state s)))))) =
      listed (sv_state s) request"
    unfolding listed_def filter_filter by (rule arg_cong [where f = "sort_key _"]) (auto intro: filter_cong)
  have "n - 1 < length xs" if "n < length xs" for n and xs :: "object_metadata list" using that by simp
  then show ?thesis
    unfolding md_list_objects_def obs page_limit_def [symmetric] Let_def by simp
qed

lemma listed_marker:
  assumes "(case lor_marker request of None \<Rightarrow> [] | Some m' \<Rightarrow> m') \<le> m"
  shows "listed st (request\<lparr>lor_marker := Some m\<rparr>) = filter (\<lambda>ob. om_key ob > m) (listed st request)"
proof -
  have "(m' < k \<and> m < k) = (m < k)" if "m' \<le> m" for k m' :: string
    using that by auto
  with assms show ?thesis
    unfolding listed_def filter_sort filter_filter by (auto intro!: arg_cong [where f = "sort_key _"] filter_cong)
qed

lemma listed_in: "ob \<in> set (listed st request) \<Longrightarrow> (case lor_marker request of None \<Rightarrow> [] | Some m \<Rightarrow> m) < om_key ob"
  by (simp add: listed_def)

lemma sorted_listed: "sorted (map (\<lambda>ob. (om_key ob, om_version_id ob)) (listed st request))"
  unfolding listed_def by (rule sorted_sort_key)

lemma listed_distinct:
  assumes "wf_meta st"
  shows "distinct (map (\<lambda>ob. (om_key ob, om_version_id ob)) (listed st request))"
proof -
  have k: "keyed key_of_object (ms_objects st)" using assms by (simp add: wf_meta_def)
  have keys: "map key_of_object (hm_values (ms_objects st)) = hm_keys (ms_objects st)"
    using k by (auto simp: keyed_def)
  then have "distinct (map key_of_object (hm_values (ms_objects st)))"
    using keyed_distinct [OF k] by metis
  then have "inj_on key_of_object (set (hm_values (ms_objects st)))" "distinct (hm_values (ms_objects st))"
    by (simp_all only: distinct_map)
  then show ?thesis
    by (auto simp: listed_def distinct_map inj_on_def key_of_object_def)
qed

text \<open>On a list with increasing keys, the entries behind the last one of a page are the rest.\<close>

lemma filter_behind:
  assumes "sorted_wrt (\<lambda>a b. f a < (f b :: 'k::linorder)) xs" and "n < length xs"
  shows "filter (\<lambda>x. f x > f (xs ! n)) xs = drop (Suc n) xs"
proof -
  have xs: "xs = take n xs @ xs ! n # drop (Suc n) xs"
    using assms(2) by (simp add: id_take_nth_drop)
  from assms(1) have "sorted_wrt (\<lambda>a b. f a < f b) (take n xs @ xs ! n # drop (Suc n) xs)"
    using xs by metis
  then have "\<forall>x \<in> set (take n xs). \<not> f x > f (xs ! n)" "\<forall>x \<in> set (drop (Suc n) xs). f x > f (xs ! n)"
    by (force simp: sorted_wrt_append)+
  then have "filter (\<lambda>x. f x > f (xs ! n)) (take n xs @ xs ! n # drop (Suc n) xs) = drop (Suc n) xs"
    by (simp add: filter_empty_conv filter_id_conv)
  then show ?thesis using xs by metis
qed

lemma sorted_keys_listed:
  assumes "distinct (map om_key (listed st request))"
  shows "sorted_wrt (\<lambda>a b. om_key a < om_key b) (listed st request)"
proof -
  have "sorted (map om_key (listed st request))"
    using sorted_listed [of st request] unfolding sorted_map
    by (rule sorted_wrt_mono_rel [rotated]) (auto simp: less_eq_prod_def)
  with assms have "sorted_wrt (<) (map om_key (listed st request))"
    by (simp only: strict_sorted_iff)
  then show ?thesis by (simp only: sorted_wrt_map)
qed

lemma list_pages_listed:
  assumes "hm_contains_key (ms_buckets (sv_state s)) (lor_bucket request)"
    and "distinct (map om_key (listed (sv_state s) request))"
    and "length (listed (sv_state s) request) < n"
  shows "list_pages n s request = Inr (listed (sv_state s) request)"
  using assms
proof (induction n arbitrary: request)
  case (Suc n)
  let ?l = "page_limit (lor_max_keys request)" and ?obs = "listed (sv_state s) request"
  show ?case
  proof (cases "?l < length ?obs")
    case True
    define m where "m = om_key (?obs ! (?l - 1))"
    have l: "?l - 1 < length ?obs" "Suc (?l - 1) = ?l" using True page_limit_pos [of "lor_max_keys request"] by auto
    have "(case lor_marker request of None \<Rightarrow> [] | Some m' \<Rightarrow> m') \<le> m"
      using listed_in [OF nth_mem [OF l(1)]] by (simp add: less_imp_le m_def)
    then have rest: "listed (sv_state s) (request\<lparr>lor_marker := Some m\<rparr>) = drop ?l ?obs"
      using filter_behind [OF sorted_keys_listed [OF Suc.prems(2)] l(1)] l(2) by (simp add: listed_marker m_def)
    have "list_pages n s (request\<lparr>lor_marker := Some m\<rparr>) = Inr (drop ?l ?obs)"
      using Suc.prems True page_limit_pos [of "lor_max_keys request"]
      by (subst Suc.IH) (simp_all add: rest drop_map [symmetric])
    with True Suc.prems(1) show ?thesis by (simp add: md_list_objects_eq Let_def m_def)
  next
    case False
    with Suc.prems(1) show ?thesis by (simp add: md_list_objects_eq Let_def)
  qed
qed simp

lemma list_pages_bound:
  assumes "list_pages n s request = Inr objs" and "ob \<in> set objs"
  shows "ob \<in> set (listed (sv_state s) request)"
  using assms
proof (induction n arbitrary: request objs)
  case (Suc n)
  let ?l = "page_limit (lor_max_keys request)" and ?obs = "listed (sv_state s) request"
  show ?case
  proof (cases "?l < length ?obs")
    case True
    define m where "m = om_key (?obs ! (?l - 1))"
    have "?l - 1 < length ?obs" using True by simp
    from listed_in [OF nth_mem [OF this]] have "(case lor_marker request of None \<Rightarrow> [] | Some m' \<Rightarrow> m') \<le> m"
      by (simp add: less_imp_le m_def)
    then have sub: "set (listed (sv_state s) (request\<lparr>lor_marker := Some m\<rparr>)) \<subseteq> set ?obs"
      by (auto simp: listed_marker)
    from Suc.prems True obtain rest where r: "list_pages n s (request\<lparr>lor_marker := Some m\<rparr>) = Inr rest"
      "objs = take ?l ?obs @ rest"
      by (auto simp: md_list_objects_eq Let_def try_then_Inr m_def split: if_splits)
    with Suc.IH [OF r(1)] Suc.prems(2) sub show ?thesis by (auto dest: in_set_takeD)
  next
    case False
    with Suc.prems show ?thesis by (auto simp: md_list_objects_eq Let_def split: if_splits)
  qed
qed simp

section \<open>Worker status\<close>

primrec worker_status_of :: "metadata_state \<Rightarrow> worker_type \<Rightarrow> u64 \<Rightarrow> i32 option" where
  "worker_status_of st WorkerTypeUnspecified n = None"
| "worker_status_of st WorkerScheduler n = map_option sw_status (hm_get (ms_scheduler_workers st) n)"
| "worker_status_of st WorkerCache n = map_option cw_status (hm_get (ms_cache_workers st) n)"
| "worker_status_of st WorkerTape n = map_option tw_status (hm_get (ms_tape_workers st) n)"

primrec online_worker_ids :: "('d, 'f) metadata_service \<Rightarrow> worker_type \<Rightarrow> u64 list" where
  "online_worker_ids s WorkerTypeUnspecified = []"
| "online_worker_ids s WorkerScheduler = map sw_node_id (projr (md_list_online_scheduler_workers s))"
| "online_worker_ids s WorkerCache = map cw_node_id (projr (md_list_online_cache_workers s))"
| "online_worker_ids s WorkerTape = map tw_node_id (projr (md_list_online_tape_workers s))"

text \<open>The commands that set the status of a given worker.\<close>

fun sets_worker_status :: "worker_type \<Rightarrow> u64 \<Rightarrow> metadata_command \<Rightarrow> bool" where
  "sets_worker_status wt n (RegisterSchedulerWorker w) = (wt = WorkerScheduler \<and> sw_node_id w = n)"
| "sets_worker_status wt n (RegisterCacheWorker w) = (wt = WorkerCache \<and> cw_node_id w = n)"
| "sets_worker_status wt n (RegisterTapeWorker w) = (wt = WorkerTape \<and> tw_node_id w = n)"
| "sets_worker_status wt n (UpdateWorkerStatus req) =
     (uws_worker_type req = worker_type_i32 wt \<and> uws_node_id req = n)"
| "sets_worker_status wt n _ = False"

lemma worker_tables_frame [simp]:
  "ms_scheduler_workers (refresh_bucket_stats name st) = ms_scheduler_workers st"
  "ms_cache_workers (refresh_bucket_stats name st) = ms_cache_workers st"
  "ms_tape_workers (refresh_bucket_stats name st) = ms_tape_workers st"
  "ms_scheduler_workers (modify_object k f st) = ms_scheduler_workers st"
  "ms_cache_workers (modify_object k f st) = ms_cache_workers st"
  "ms_tape_workers (modify_object k f st) = ms_tape_workers st"
  by (simp_all add: refresh_bucket_stats_eq modify_object_def)

lemma apply_complete_archive_object_workers [simp]:
  "ms_scheduler_workers (snd (apply_complete_archive_object now req st)) = ms_scheduler_workers st"
  "ms_cache_workers (snd (apply_complete_archive_object now req st)) = ms_cache_workers st"
  "ms_tape_workers (snd (apply_complete_archive_object now req st)) = ms_tape_workers st"
  by (auto simp: apply_complete_archive_object_def split: option.splits sum.splits)

lemma worker_type_try_from_SomeD: "worker_type_try_from n = Some t \<Longrightarrow> n = worker_type_i32 t"
  by (auto simp: worker_type_try_from_def split: if_splits)

lemma worker_status_step:
  assumes "\<not> sets_worker_status wt n (snd c)"
  shows "worker_status_of (apply_step c st) wt n \<in> {worker_status_of st wt n, None}"
  using assms
  by (cases "snd c"; cases wt)
    (auto simp: apply_step_def apply_defs Let_def option.map_comp dest: worker_type_try_from_SomeD
      split: option.splits sum.splits worker_type.splits heartbeat_payload.splits)

lemma worker_status_steps:
  assumes "list_all (\<lambda>c. \<not> sets_worker_status wt n (snd c)) cs"
    and "worker_status_of st wt n \<in> {Some x, None}"
  shows "worker_status_of (fold apply_step cs st) wt n \<in> {Some x, None}"
  using assms
proof (induction cs arbitrary: st)
  case (Cons c cs)
  from Cons.prems have "\<not> sets_worker_status wt n (snd c)" by simp
  from worker_status_step [OF this, of st] Cons.prems(2) have "worker_status_of (apply_step c st) wt n \<in> {Some x, None}"
    by auto
  with Cons show ?case by simp
qed simp

lemma online_worker_status:
  assumes "wf_meta (sv_state s)" and "n \<in> set (online_worker_ids s wt)"
  shows "worker_status_of (sv_state s) wt n = Some (node_status_i32 NodeOnline)"
proof -
  note k = wf_meta_tables [OF assms(1)]
  show ?thesis
    using assms(2)
    by (cases wt) (auto simp: md_list_online_scheduler_workers_def md_list_online_cache_workers_def
        md_list_online_tape_workers_def keyed_get [OF k(7)] keyed_get [OF k(8)] keyed_get [OF k(9)]
        simp del: node_status_i32.simps)
qed

text \<open>An acknowledged command has been applied to the live state, whatever the backend.\<close>

lemma apply_and_persist_live:
  assumes "apply_and_persist e now now' cmd s = (Inr (), s')"
  shows "fst (apply_command now cmd (sv_state s)) = Inr () \<and> sv_state s' = snd (apply_command now cmd (sv_state s))"
  using assms
  by (auto simp: apply_and_persist_def propose_local_apply_def dest!: persist_locked_frame
      split: option.splits prod.splits sum.splits)

section \<open>Examples\<close>

definition listing_service :: "((bytes \<times> bytes) list, unit) metadata_service" where
  "listing_service = demo_service\<lparr>sv_state := demo_state\<rparr>"

definition versions :: "object_metadata list" where
  "versions = map (stamp_object demo_time) [demo_object, demo_object\<lparr>om_version_id := Some ''v1''\<rparr>]"

definition versions_service :: "((bytes \<times> bytes) list, unit) metadata_service" where
  "versions_service = demo_service\<lparr>sv_state := fold apply_step
     [(demo_time, CreateBucket demo_bucket), (demo_time, PutObject demo_object),
      (demo_time, PutObject (demo_object\<lparr>om_version_id := Some ''v1''\<rparr>))] metadata_state_default\<rparr>"

definition photos_request :: list_objects_request where
  "photos_request = \<lparr>lor_bucket = ''photos'', lor_prefix = None, lor_marker = None, lor_max_keys = 1\<rparr>"

definition demo_cache_worker :: cache_worker_info where
  "demo_cache_worker =
     \<lparr>cw_node_id = 7, cw_addr = ''c:1'', cw_status = node_status_i32 NodeOnline, cw_last_heartbeat = None, cw_bdev_name = [],
      cw_total_capacity = 0, cw_used_capacity = 0, cw_blob_count = 0, cw_io_unit_size = 0\<rparr>"

definition worker_service :: "((bytes \<times> bytes) list, unit) metadata_service" where
  "worker_service = (service_new metadata_config_default ())
     \<lparr>sv_state := fold apply_step [(demo_time, RegisterCacheWorker demo_cache_worker)] metadata_state_default\<rparr>"

lemma wf_apply_step: "wf_meta st \<Longrightarrow> wf_meta (apply_step c st)"
  using wf_apply_steps [of st "[c]"] by simp

lemma example_services_wf:
  "wf_meta (sv_state listing_service)" "wf_meta (sv_state versions_service)" "wf_meta (sv_state worker_service)"
  by (simp_all add: listing_service_def versions_service_def worker_service_def wf_demo_state wf_apply_step
      wf_meta_default)

lemma listed_photos: "listed demo_state photos_request = [stamp_object demo_time demo_object]"
  by (simp add: listed_def demo_state_eq photos_request_def demo_object_def starts_with_def)

lemma versions_state:
  "hm_contains_key (ms_buckets (sv_state versions_service)) ''photos''"
  "hm_values (ms_objects (sv_state versions_service)) = versions"
  by (simp_all add: versions_service_def versions_def apply_step_def apply_create_bucket_def apply_put_object_def
      metadata_state_default_def demo_bucket_def demo_object_def key_of_object_def refresh_bucket_stats_eq Let_def)

lemma listed_versions: "listed (sv_state versions_service) photos_request = versions"
  unfolding listed_def versions_state(2)
  by (simp add: versions_def photos_request_def demo_object_def starts_with_def)

section \<open>Properties of the service\<close>

text \<open>
  C26 (functional). A listing page: the objects returned are the first ones, in the order of
  key and version, of the objects of the bucket that have the prefix and lie behind the
  marker; no object appears twice; the page is marked as truncated exactly when it leaves
  something out, and then it is full.
\<close>

theorem list_objects_page:
  assumes "wf_meta (sv_state s)" and "md_list_objects s request = Inr page"
  shows "sorted_wrt (<) (map (\<lambda>ob. (om_key ob, om_version_id ob)) (lop_objects page)) \<and>
    (\<exists>rest. set (lop_objects page @ rest) =
        {ob \<in> set (hm_values (ms_objects (sv_state s))). om_bucket ob = lor_bucket request \<and>
           starts_with (case lor_prefix request of None \<Rightarrow> [] | Some p \<Rightarrow> p) (om_key ob) \<and>
           (case lor_marker request of None \<Rightarrow> [] | Some m \<Rightarrow> m) < om_key ob} \<and>
      sorted_wrt (<) (map (\<lambda>ob. (om_key ob, om_version_id ob)) (lop_objects page @ rest)) \<and>
      lop_is_truncated page = (rest \<noteq> []) \<and>
      (rest \<noteq> [] \<longrightarrow> length (lop_objects page) = page_limit (lor_max_keys request) \<and>
         lop_next_marker page = Some (om_key (last (lop_objects page)))))"
proof -
  let ?obs = "listed (sv_state s) request" and ?l = "page_limit (lor_max_keys request)"
  have page: "page = \<lparr>lop_objects = take ?l ?obs,
      lop_next_marker = (if length ?obs > ?l then Some (om_key (?obs ! (?l - 1))) else None),
      lop_is_truncated = length ?obs > ?l\<rparr>"
    using assms(2) by (auto simp: md_list_objects_eq Let_def split: if_splits)
  have srt: "sorted_wrt (<) (map (\<lambda>ob. (om_key ob, om_version_id ob)) ?obs)"
    using sorted_listed listed_distinct [OF assms(1)] by (simp only: strict_sorted_iff)
  have last: "last (take ?l ?obs) = ?obs ! (?l - 1)" if "?l < length ?obs"
    using that page_limit_pos [of "lor_max_keys request"] by (subst last_conv_nth) auto
  have "sorted_wrt (<) (map (\<lambda>ob. (om_key ob, om_version_id ob)) (take ?l ?obs))"
    using srt by (simp add: sorted_wrt_take flip: take_map)
  moreover have "set (take ?l ?obs @ drop ?l ?obs) = {ob \<in> set (hm_values (ms_objects (sv_state s))).
      om_bucket ob = lor_bucket request \<and>
      starts_with (case lor_prefix request of None \<Rightarrow> [] | Some p \<Rightarrow> p) (om_key ob) \<and>
      (case lor_marker request of None \<Rightarrow> [] | Some m \<Rightarrow> m) < om_key ob}"
    unfolding append_take_drop_id by (auto simp: listed_def)
  ultimately show ?thesis
    using srt last by (intro conjI exI [of _ "drop ?l ?obs"]) (simp_all only: page append_take_drop_id, auto)
qed

theorem list_objects_page_witness:
  "\<exists>page rest. md_list_objects versions_service photos_request = Inr page \<and> rest \<noteq> [] \<and>
     set (lop_objects page @ rest) = set versions \<and> lop_is_truncated page \<and> length (lop_objects page) = 1"
proof -
  let ?page = "\<lparr>lop_objects = [versions ! 0], lop_next_marker = Some ''a.jpg'', lop_is_truncated = True\<rparr>"
  have page: "md_list_objects versions_service photos_request = Inr ?page"
    using versions_state(1) by (simp add: md_list_objects_eq Let_def listed_versions page_limit_def)
      (simp add: photos_request_def versions_def demo_object_def)
  have vs: "{ob \<in> set versions. om_bucket ob = lor_bucket photos_request \<and>
      starts_with (case lor_prefix photos_request of None \<Rightarrow> [] | Some p \<Rightarrow> p) (om_key ob) \<and>
      (case lor_marker photos_request of None \<Rightarrow> [] | Some m \<Rightarrow> m) < om_key ob} = set versions"
    by (auto simp: photos_request_def versions_def demo_object_def starts_with_def)
  from list_objects_page [OF example_services_wf(2) page, unfolded versions_state(2) vs] page show ?thesis
    by (auto simp: photos_request_def page_limit_def)
qed

text \<open>
  C27 (liveness). Following the markers ends and returns the whole listing: when the bucket
  has one version of every key, a client that asks for pages of any size gets every object
  exactly once, in order, after at most as many pages as there are objects, plus one.
\<close>

theorem list_objects_pages_complete:
  assumes "hm_contains_key (ms_buckets (sv_state s)) (lor_bucket request)"
    and "inj_on om_key {ob \<in> set (hm_values (ms_objects (sv_state s))). om_bucket ob = lor_bucket request}"
    and "wf_meta (sv_state s)" and "length (ms_objects (sv_state s)) < n"
  shows "list_pages n s request = Inr (listed (sv_state s) request)"
proof -
  have "length (listed (sv_state s) request) < n"
    using assms(4) by (simp add: listed_def filter_map le_less_trans [OF length_filter_le])
  moreover have "distinct (listed (sv_state s) request)"
    using listed_distinct [OF assms(3), of request] by (simp add: distinct_map)
  then have "distinct (map om_key (listed (sv_state s) request))"
    using assms(2) by (auto simp: distinct_map listed_def inj_on_def)
  ultimately show ?thesis using assms(1) by (intro list_pages_listed)
qed

theorem list_objects_pages_complete_witness:
  "hm_contains_key (ms_buckets (sv_state listing_service)) ''photos'' \<and>
   list_pages 2 listing_service photos_request = Inr [stamp_object demo_time demo_object]"
proof -
  have b: "hm_contains_key (ms_buckets (sv_state listing_service)) (lor_bucket photos_request)"
    by (simp add: listing_service_def demo_state_eq photos_request_def)
  have "inj_on om_key {ob \<in> set (hm_values (ms_objects (sv_state listing_service))). om_bucket ob = lor_bucket photos_request}"
    "length (ms_objects (sv_state listing_service)) < 2"
    by (auto simp: listing_service_def demo_state_eq inj_on_def)
  from list_objects_pages_complete [OF b this(1) example_services_wf(1) this(2)] b show ?thesis
    using listed_photos by (simp add: listing_service_def photos_request_def)
qed

text \<open>
  The marker of a page is a key without its version. When the last object of a
  page and the next one are two versions of the same key, the second version is on no page
  that the markers lead to.
\<close>

theorem list_objects_pages_skip_version:
  assumes "wf_meta (sv_state s)" and "listed (sv_state s) request = xs @ a # b # ys"
    and "page_limit (lor_max_keys request) = Suc (length xs)" and "om_key b = om_key a"
    and "list_pages n s request = Inr objs"
  shows "b \<in> set (listed (sv_state s) request) \<and> b \<notin> set objs"
proof -
  let ?next = "request\<lparr>lor_marker := Some (om_key a)\<rparr>"
  from assms(5) obtain m where n: "n = Suc m" by (cases n) auto
  obtain rest where rest: "list_pages m s ?next = Inr rest" "objs = xs @ a # rest"
    using assms(2,3,5) n by (auto simp: md_list_objects_eq Let_def try_then_Inr nth_append split: if_splits)
  have "b \<notin> set (xs @ [a])"
    using listed_distinct [OF assms(1), of request] assms(2) by (auto simp: distinct_map)
  moreover have "b \<notin> set rest"
    using list_pages_bound [OF rest(1), of b] listed_in [of b "sv_state s" ?next] assms(4) by auto
  ultimately show ?thesis using assms(2) rest(2) by simp
qed

theorem list_objects_pages_skip_version_witness:
  "\<exists>objs. list_pages 3 versions_service photos_request = Inr objs \<and> versions ! 1 \<in> set versions \<and>
     versions ! 1 \<notin> set objs"
proof -
  have vs: "listed (sv_state versions_service) photos_request = [] @ versions ! 0 # versions ! 1 # []"
    unfolding listed_versions by (simp add: versions_def)
  have lim: "page_limit (lor_max_keys photos_request) = Suc (length ([] :: object_metadata list))"
    by (simp add: photos_request_def page_limit_def)
  have key: "om_key (versions ! 1) = om_key (versions ! 0)"
    by (simp add: versions_def)
  have "listed (sv_state versions_service) (photos_request\<lparr>lor_marker := Some ''a.jpg''\<rparr>) = []"
    using listed_marker [of photos_request "''a.jpg''" "sv_state versions_service"] unfolding listed_versions
    by (simp add: photos_request_def versions_def demo_object_def)
  then have "list_pages 3 versions_service photos_request = Inr [versions ! 0]"
    using versions_state(1) vs
    by (simp add: numeral_3_eq_3 md_list_objects_eq Let_def lim)
      (simp add: photos_request_def page_limit_def versions_def demo_object_def)
  from list_objects_pages_skip_version [OF example_services_wf(2) vs lim key this] this show ?thesis
    unfolding listed_versions by blast
qed

text \<open>
  C28 (safety). A drained worker gets no new work: once its draining is acknowledged it is on
  no list of online workers, whatever heartbeats and other commands follow, until it is
  registered again or its status is set explicitly.
\<close>

theorem drained_worker_stays_out:
  assumes "wf_meta (sv_state s)" and "md_drain_worker e now now' (worker_type_i32 wt) n s = (Inr (), s')"
    and "list_all (\<lambda>c. \<not> sets_worker_status wt n (snd c)) cs"
  shows "n \<notin> set (online_worker_ids (s'\<lparr>sv_state := fold apply_step cs (sv_state s')\<rparr>) wt)"
proof
  let ?req = "\<lparr>uws_worker_type = worker_type_i32 wt, uws_node_id = n, uws_status = node_status_i32 NodeDraining\<rparr>"
  let ?t = "s'\<lparr>sv_state := fold apply_step cs (sv_state s')\<rparr>"
  assume on: "n \<in> set (online_worker_ids ?t wt)"
  have live: "sv_state s' = snd (apply_command now (UpdateWorkerStatus ?req) (sv_state s))"
    and ok: "fst (apply_command now (UpdateWorkerStatus ?req) (sv_state s)) = Inr ()"
    using apply_and_persist_live [of e now now' "UpdateWorkerStatus ?req" s s'] assms(2)
    by (simp_all add: md_drain_worker_def md_update_worker_status_def)
  have "worker_status_of (sv_state s') wt n \<in> {Some (node_status_i32 NodeDraining), None}"
    unfolding live using ok
    by (cases wt) (auto simp: apply_update_worker_status_def Let_def option.map_comp
        simp del: worker_type_i32.simps node_status_i32.simps split: if_splits)
  from worker_status_steps [OF assms(3) this]
  have "worker_status_of (sv_state ?t) wt n \<in> {Some (node_status_i32 NodeDraining), None}" by simp
  moreover have "wf_meta (sv_state ?t)"
    using live by (simp del: apply_command.simps add: wf_apply_steps wf_apply_command assms(1))
  from online_worker_status [OF this on] have "worker_status_of (sv_state ?t) wt n = Some (node_status_i32 NodeOnline)" .
  ultimately show False by simp
qed

theorem drained_worker_stays_out_witness:
  "7 \<in> set (online_worker_ids worker_service WorkerCache) \<and>
   (\<exists>s'. md_drain_worker demo_env demo_time demo_time (worker_type_i32 WorkerCache) 7 worker_service = (Inr (), s') \<and>
     7 \<notin> set (online_worker_ids (s'\<lparr>sv_state := fold apply_step
       [(demo_time, Heartbeat \<lparr>hb_worker_type = worker_type_i32 WorkerCache, hb_node_id = 7, hb_payload = None\<rparr>)] (sv_state s')\<rparr>)
       WorkerCache))"
proof -
  have on: "7 \<in> set (online_worker_ids worker_service WorkerCache)"
    by (simp add: worker_service_def apply_step_def apply_register_cache_worker_def demo_cache_worker_def
        metadata_state_default_def md_list_online_cache_workers_def)
  have "fst (md_drain_worker demo_env demo_time demo_time (worker_type_i32 WorkerCache) 7 worker_service) = Inr ()"
    by (simp add: md_drain_worker_def md_update_worker_status_def apply_and_persist_def propose_local_apply_def
        persist_if_needed_def persist_locked_def worker_service_def service_new_def backend_memory_def apply_step_def
        apply_register_cache_worker_def apply_update_worker_status_def demo_cache_worker_def metadata_state_default_def
        worker_type_try_from_def)
  then obtain s' where s': "md_drain_worker demo_env demo_time demo_time (worker_type_i32 WorkerCache) 7 worker_service = (Inr (), s')"
    by (metis prod.collapse)
  let ?beat = "(demo_time, Heartbeat \<lparr>hb_worker_type = worker_type_i32 WorkerCache, hb_node_id = 7, hb_payload = None\<rparr>)"
  have "list_all (\<lambda>c. \<not> sets_worker_status WorkerCache 7 (snd c)) [?beat]" by simp
  from drained_worker_stays_out [OF example_services_wf(3) s' this] s' on show ?thesis by blast
qed

text \<open>
  The id that the cluster info reads from an entry, and the one that the start reads from the
  trimmed entry. Where there is the first there is the second, and they are the same.
\<close>

definition listed_id :: "string \<Rightarrow> u64 option" where
  "listed_id entry = (case split_once (CHR '':'') entry of None \<Rightarrow> None | Some (node_id, addr) \<Rightarrow> parse_u64 node_id)"

definition parsed_id :: "string \<Rightarrow> u64 option" where
  "parsed_id entry = (case split_once (CHR '':'') entry of None \<Rightarrow> None | Some (node_id, addr) \<Rightarrow> parse_u64 (trim node_id))"

lemma parse_u64_tight:
  assumes "parse_u64 s = Some i"
  shows "s \<noteq> []" and "\<not> is_space (hd s)" and "\<not> is_space (last s)"
proof -
  have "s \<noteq> [] \<and> (\<forall>c \<in> set s. c = CHR ''+'' \<or> is_ascii_digit c)"
    using assms by (cases s) (auto simp: parse_u64_def parse_unsigned_def Let_def list_all_iff split: if_splits)
  moreover have "\<not> is_space (CHR ''+'')" by (simp add: is_space_def)
  ultimately show "s \<noteq> []" "\<not> is_space (hd s)" "\<not> is_space (last s)"
    using digit_not_space hd_in_set [of s] last_in_set [of s] by metis+
qed

lemma listed_id_parsed:
  assumes "listed_id entry = Some i"
  shows "trim entry \<noteq> []" and "parsed_id (trim entry) = Some i"
proof -
  obtain n l where n: "entry = n @ CHR '':'' # l" "CHR '':'' \<notin> set n" "parse_u64 n = Some i"
    using assms by (auto simp: listed_id_def split_once_Some_iff split: option.splits)
  note t = parse_u64_tight [OF n(3)]
  have "\<exists>l'. trim ((n @ [CHR '':'']) @ l) = (n @ [CHR '':'']) @ l'"
    using t by (intro trim_keeps_prefix) (auto simp: is_space_def)
  then obtain l' where l': "trim entry = n @ CHR '':'' # l'" using n(1) by auto
  then show "trim entry \<noteq> []" by simp
  have "split_once (CHR '':'') (trim entry) = Some (n, l')" using l' n(2) by (simp add: split_once_Some_iff)
  moreover have "trim n = n" using t by (intro trim_fixed) blast
  ultimately show "parsed_id (trim entry) = Some i" using n(3) by (simp add: parsed_id_def)
qed

lemma parse_entries_ids:
  "parse_entries es parsed ids addrs = Inr ns \<Longrightarrow> map (Some \<circ> cn_node_id) ns = map (Some \<circ> cn_node_id) parsed @ map parsed_id es"
proof (induction es parsed ids addrs rule: parse_entries.induct)
  case (2 e es parsed ids addrs)
  then show ?case by (auto simp: parsed_id_def Let_def split: option.splits prod.splits if_splits)
qed simp

lemma listed_subseq:
  assumes "\<forall>e \<in> set es. trim e \<noteq> [] \<longrightarrow> parsed_id (trim e) \<noteq> None"
  shows "subseq (map Some (List.map_filter listed_id es)) (map parsed_id (filter (\<lambda>e. e \<noteq> []) (map trim es)))"
  using assms
proof (induction es)
  case (Cons e es)
  then have "subseq (map Some (List.map_filter listed_id es)) (map parsed_id (filter (\<lambda>e. e \<noteq> []) (map trim es)))" by simp
  then show ?case
    using listed_id_parsed [of e] by (cases "listed_id e") (auto simp: List.map_filter_simps)
qed (simp add: List.map_filter_simps)

lemma subseq_map_the: "subseq (map Some xs) (map Some ys) = subseq xs ys"
proof
  assume "subseq (map Some xs) (map Some ys)"
  from subseq_map [OF this, of the] show "subseq xs ys" by (simp add: o_def)
qed (rule subseq_map)

lemma map_of_map_filter: "map g (List.map_filter f xs) = List.map_filter (\<lambda>x. map_option g (f x)) xs"
  by (induction xs) (auto simp: List.map_filter_simps split: option.splits)

lemma metadata_nodes_ids:
  "map mn_node_id (metadata_nodes now config hint) = List.map_filter listed_id (split_char (CHR '','') (mc_cluster config))"
proof -
  have "(\<lambda>entry. map_option mn_node_id (case split_once (CHR '':'') entry of
         None \<Rightarrow> None
       | Some (node_id, addr) \<Rightarrow>
           (case parse_u64 node_id of
              None \<Rightarrow> None
            | Some node_id \<Rightarrow>
                Some \<lparr>mn_node_id = node_id, mn_addr = addr,
                      mn_raft_role = (if Some node_id = hint then ''Leader'' else ''Follower''),
                      mn_last_heartbeat = Some now, mn_status = node_status_i32 NodeOnline\<rparr>))) = listed_id"
    by (rule ext) (simp add: listed_id_def split: option.splits prod.splits)
  then show ?thesis unfolding metadata_nodes_def map_of_map_filter by simp
qed

lemma metadata_nodes_subseq:
  assumes "parse_cluster_nodes (mc_cluster config) = Inr ns"
  shows "subseq (map mn_node_id (metadata_nodes now config hint)) (map cn_node_id ns)"
proof -
  let ?es = "split_char (CHR '','') (mc_cluster config)"
  have "parse_entries (filter (\<lambda>e. e \<noteq> []) (map trim ?es)) [] [] [] = Inr ns"
    using assms by (auto simp: parse_cluster_nodes_def try_then_Inr split: if_splits)
  note ids = parse_entries_ids [OF this]
  have "parsed_id e \<noteq> None" if "e \<in> set (filter (\<lambda>e. e \<noteq> []) (map trim ?es))" for e
  proof -
    have "parsed_id e \<in> set (map (Some \<circ> cn_node_id) ns)" unfolding ids using that by simp
    then show ?thesis by auto
  qed
  then have "subseq (map Some (List.map_filter listed_id ?es)) (map parsed_id (filter (\<lambda>e. e \<noteq> []) (map trim ?es)))"
    by (intro listed_subseq) auto
  moreover have "map parsed_id (filter (\<lambda>e. e \<noteq> []) (map trim ?es)) = map Some (map cn_node_id ns)" using ids by simp
  ultimately show ?thesis unfolding metadata_nodes_ids by (simp only: subseq_map_the)
qed

lemma metadata_nodes_plain:
  assumes "ns \<noteq> []" and "\<And>n. n \<in> set ns \<Longrightarrow> printable_node n" and "mc_cluster config = show_cluster ns"
  shows "map (\<lambda>n. (mn_node_id n, mn_addr n)) (metadata_nodes now config hint) = map (\<lambda>n. (cn_node_id n, cn_listen n)) ns"
proof -
  have "CHR '','' \<notin> set s" if "s \<in> set (map show_node ns)" for s
    using that assms(2) by (auto simp: show_node_def printable_node_def show_word_no_comma)
  then have split: "split_char (CHR '','') (mc_cluster config) = map show_node ns"
    unfolding assms(3) show_cluster_def using assms(1) by (intro split_char_join) auto
  show ?thesis
    unfolding metadata_nodes_def split by (induction ns) (simp_all add: List.map_filter_simps split_show_node)
qed

text \<open>
  C29 (equivalence). The two readers of the cluster string agree: for every string with which the
  service starts, the cluster info reports only nodes that the start has parsed, each at most
  once and in their order, and only the leader as leader. When the string lists its nodes
  plainly, without white space and with normalised addresses, the info reports all of them, with
  their addresses. It may miss others: a node whose entry has a space in front is not reported.
\<close>

theorem cluster_info_lists_cluster:
  assumes "parse_cluster_nodes (mc_cluster (sv_config s)) = Inr ns"
  shows "\<exists>info. md_get_cluster_info e now s = Inr info \<and>
    subseq (map mn_node_id (ci_metadata_nodes info)) (map cn_node_id ns) \<and> distinct (map cn_node_id ns) \<and>
    (\<forall>n \<in> set (ci_metadata_nodes info). mn_raft_role n = ''Leader'' \<longleftrightarrow> Some (mn_node_id n) = ci_leader_id info) \<and>
    (mc_cluster (sv_config s) = show_cluster ns \<and> list_all printable_node ns \<longrightarrow>
      map (\<lambda>n. (mn_node_id n, mn_addr n)) (ci_metadata_nodes info) = map (\<lambda>n. (cn_node_id n, cn_listen n)) ns)"
proof -
  have ns: "ns \<noteq> []" "distinct (map cn_node_id ns)"
    using assms parse_entries_sound [of "filter (\<lambda>e. e \<noteq> []) (map trim (split_char (CHR '','') (mc_cluster (sv_config s))))" "[]" "[]" "[]" ns]
    by (auto simp: parse_cluster_nodes_def try_then_Inr split: if_splits)
  have role: "\<forall>n \<in> set (metadata_nodes now (sv_config s) hint). mn_raft_role n = ''Leader'' \<longleftrightarrow> Some (mn_node_id n) = hint" for hint
    by (auto simp: metadata_nodes_def List.map_filter_def split: option.splits prod.splits)
  have "list_all printable_node ns \<Longrightarrow> mc_cluster (sv_config s) = show_cluster ns \<Longrightarrow>
      map (\<lambda>n. (mn_node_id n, mn_addr n)) (metadata_nodes now (sv_config s) hint) = map (\<lambda>n. (cn_node_id n, cn_listen n)) ns" for hint
    using metadata_nodes_plain [OF ns(1)] by (auto simp: list_all_iff)
  then show ?thesis
    using ns(2) role metadata_nodes_subseq [OF assms]
    by (auto simp: md_get_cluster_info_def Let_def split: option.splits prod.splits)
qed

theorem cluster_info_lists_cluster_witness:
  "\<exists>info. md_get_cluster_info demo_env demo_time
      (listing_service\<lparr>sv_config := metadata_config_default\<lparr>mc_cluster := show_cluster demo_nodes\<rparr>\<rparr>) = Inr info \<and>
    map (\<lambda>n. (mn_node_id n, mn_addr n)) (ci_metadata_nodes info) = [(1, ''127.0.0.1:21001''), (2, ''127.0.0.1:21002'')]"
proof -
  let ?s = "listing_service\<lparr>sv_config := metadata_config_default\<lparr>mc_cluster := show_cluster demo_nodes\<rparr>\<rparr>"
  have "parse_cluster_nodes (mc_cluster (sv_config ?s)) = Inr demo_nodes" by (simp add: demo_nodes_parsed)
  moreover have "list_all printable_node demo_nodes" using demo_nodes_printable by (simp add: list_all_iff)
  ultimately show ?thesis
    using cluster_info_lists_cluster [of ?s demo_nodes demo_env demo_time] by (auto simp: demo_nodes_def)
qed

text \<open>
  They do not agree on white space: an entry with a space in front starts the
  service, and the cluster info does not list it.
\<close>

theorem padded_entry_not_listed:
  assumes "printable_node n"
  shows "parse_cluster_nodes (CHR '' '' # show_node n) = Inr [n] \<and>
    metadata_nodes now (config\<lparr>mc_cluster := CHR '' '' # show_node n\<rparr>) hint = []"
proof -
  have comma: "CHR '','' \<notin> set (CHR '' '' # show_node n)"
    using assms by (auto simp: show_node_def printable_node_def show_word_no_comma)
  have "trim (CHR '' '' # show_node n) = trim (show_node n)"
    by (simp add: trim_def is_space_def)
  moreover have "parse_entries [show_node n] [] [] [] = Inr [n]"
    using parse_entries_show [of "[n]" "[]" "[]" "[]"] assms by (simp del: parse_entries.simps)
  moreover have "show_node n \<noteq> []" by (simp add: show_node_def)
  ultimately have "parse_cluster_nodes (CHR '' '' # show_node n) = Inr [n]"
    unfolding parse_cluster_nodes_def split_char_single [OF comma]
    using show_node_trim [OF assms] by (simp del: parse_entries.simps)
  moreover have "split_once (CHR '':'') (CHR '' '' # show_node n) =
      Some (CHR '' '' # show_word (cn_node_id n), cn_listen n)"
    by (simp add: split_show_node)
  moreover have "parse_u64 (CHR '' '' # show_word (cn_node_id n)) = None"
    by (simp add: parse_u64_def parse_unsigned_def is_ascii_digit_def)
  ultimately show ?thesis
    by (simp add: metadata_nodes_def split_char_single [OF comma] List.map_filter_simps del: split_once.simps split_char.simps)
qed

theorem padded_entry_not_listed_witness:
  "printable_node (hd demo_nodes) \<and> parse_cluster_nodes (CHR '' '' # show_node (hd demo_nodes)) = Inr [hd demo_nodes] \<and>
   metadata_nodes demo_time (metadata_config_default\<lparr>mc_cluster := CHR '' '' # show_node (hd demo_nodes)\<rparr>) None = []"
proof -
  have "printable_node (hd demo_nodes)"
    by (rule demo_nodes_printable) (simp add: demo_nodes_def)
  with padded_entry_not_listed [OF this] show ?thesis by blast
qed

end
