(* ===== verification/Scheduler_Client.thy ===== *)
theory Scheduler_Client
  imports Tape_Service Metadata_Service Cache_Service
begin

text \<open>
  The services a scheduler worker calls, and its clients for the cache and the tape worker
  (\<open>crates/scheduler/src/service.rs\<close>, lines 88 to 603). The metadata, cache and tape
  services are operations on a world of any type, so that they may be the modelled services
  behind a network that fails, or anything else. The clock is part of the world: a reading
  is an operation of it. The reading of a day to come is taken to be in the range of the
  calendar library, some 262,000 years; the gateway asks for at most 365 days.
\<close>

section \<open>The world behind the clients\<close>

type_synonym ('w, 'a) rpc = "'w \<Rightarrow> 'a result \<times> 'w"

text \<open>The messages of a stream: each is a transport error or a message with an optional payload.\<close>

type_synonym 'p messages = "(status + 'p option) list"

record 'w services =
  now_timestamp :: "'w \<Rightarrow> timestamp \<times> 'w"
  days_from_now :: "u32 \<Rightarrow> 'w \<Rightarrow> timestamp \<times> 'w"
  m_list_buckets :: "('w, bucket_info list) rpc"
  m_create_bucket :: "bucket_info \<Rightarrow> ('w, unit) rpc"
  m_delete_bucket :: "string \<Rightarrow> ('w, unit) rpc"
  m_get_bucket :: "string \<Rightarrow> ('w, bucket_info) rpc"
  m_head_object :: "string \<Rightarrow> string \<Rightarrow> ('w, object_metadata) rpc"
  m_get_object :: "string \<Rightarrow> string \<Rightarrow> ('w, object_metadata) rpc"
  m_put_object :: "object_metadata \<Rightarrow> ('w, unit) rpc"
  m_delete_object :: "delete_object_request \<Rightarrow> ('w, unit) rpc"
  m_update_restore_status :: "update_restore_status_request \<Rightarrow> ('w, unit) rpc"
  m_list_objects :: "list_objects_request \<Rightarrow> ('w, list_objects_response) rpc"
  m_complete_archive_object :: "complete_archive_object_request \<Rightarrow> ('w, unit) rpc"
  m_put_archive_task :: "archive_task \<Rightarrow> ('w, unit) rpc"
  m_get_archive_task :: "string \<Rightarrow> ('w, archive_task) rpc"
  m_update_archive_task :: "archive_task \<Rightarrow> ('w, unit) rpc"
  m_put_recall_task :: "recall_task \<Rightarrow> ('w, unit) rpc"
  m_get_recall_task :: "string \<Rightarrow> ('w, recall_task) rpc"
  m_update_recall_task :: "recall_task \<Rightarrow> ('w, unit) rpc"
  m_list_pending_recall_tasks :: "('w, recall_task list) rpc"
  k_put_staging :: "put_staging_meta put_payload messages \<Rightarrow> ('w, string) rpc"
  k_get_staging :: "cache_key \<Rightarrow> ('w, get_staging_payload messages) rpc"
  k_delete_staging :: "cache_key \<Rightarrow> ('w, unit) rpc"
  k_list_staging_keys :: "u32 \<Rightarrow> string option \<Rightarrow> ('w, staging_key_entry list \<times> bool) rpc"
  k_put_restored :: "put_restored_meta put_payload messages \<Rightarrow> ('w, unit) rpc"
  k_get :: "cache_key \<Rightarrow> ('w, get_payload messages) rpc"
  k_delete :: "cache_key \<Rightarrow> ('w, unit) rpc"
  t_acquire_drive :: "acquire_drive_request \<Rightarrow> ('w, acquire_drive_response) rpc"
  t_release_drive :: "string \<Rightarrow> ('w, unit) rpc"
  t_load_tape :: "string \<Rightarrow> string \<Rightarrow> string option \<Rightarrow> ('w, unit) rpc"
  t_write_bundle :: "write_stream \<Rightarrow> ('w, write_bundle_response) rpc"
  t_read_bundle :: "read_bundle_request \<Rightarrow> ('w, read_payload messages) rpc"

section \<open>Checksums\<close>

text \<open>The digest is a parameter; its printing in lower-case hexadecimal is not.\<close>

definition hex_digit :: "nat \<Rightarrow> char" where
  "hex_digit n = ''0123456789abcdef'' ! n"

definition hex_byte :: "u8 \<Rightarrow> string" where
  "hex_byte b = [hex_digit (unat b div 16), hex_digit (unat b mod 16)]"

definition sha256_hex :: "(bytes \<Rightarrow> bytes) \<Rightarrow> bytes \<Rightarrow> string" where
  "sha256_hex sha body = concat (map hex_byte (sha body))"

definition checksum_matches :: "string \<Rightarrow> string \<Rightarrow> bool" where
  "checksum_matches expected computed_hex =
     (let expected = trim expected;
          expected = (case strip_prefix ''sha256:'' expected of
              Some rest \<Rightarrow> rest
            | None \<Rightarrow> (case strip_prefix ''SHA256:'' expected of Some rest \<Rightarrow> rest | None \<Rightarrow> expected))
      in eq_ignore_ascii_case expected computed_hex)"

section \<open>Streams\<close>

text \<open>
  The loop that the clients run on a stream: at most one metadata message, and the data
  messages are concatenated.
\<close>

fun collect_messages ::
  "status \<Rightarrow> status \<Rightarrow> ('p \<Rightarrow> 'm + bytes) \<Rightarrow> 'm option \<Rightarrow> bytes \<Rightarrow> 'p messages \<Rightarrow> ('m option \<times> bytes) result" where
  "collect_messages duplicate empty_chunk view meta data [] = Inr (meta, data)"
| "collect_messages duplicate empty_chunk view meta data (Inl err # ms) = Inl err"
| "collect_messages duplicate empty_chunk view meta data (Inr None # ms) = Inl empty_chunk"
| "collect_messages duplicate empty_chunk view meta data (Inr (Some p) # ms) =
     (case view p of
        Inl m \<Rightarrow> if meta \<noteq> None then Inl duplicate
                  else collect_messages duplicate empty_chunk view (Some m) data ms
      | Inr chunk \<Rightarrow> collect_messages duplicate empty_chunk view meta (data @ chunk) ms)"

section \<open>The cache client of the archive loop\<close>

record phase1_staged_object =
  sg_meta :: staging_object_meta
  sg_data :: bytes

record 'w archive_cache =
  ac_list_staging_keys :: "u32 \<Rightarrow> ('w, staging_key_entry list) rpc"
  ac_get_staging :: "string \<Rightarrow> string \<Rightarrow> string option \<Rightarrow> ('w, phase1_staged_object) rpc"
  ac_delete_staging :: "string \<Rightarrow> string \<Rightarrow> string option \<Rightarrow> ('w, unit) rpc"

definition archive_list_staging_keys :: "'w services \<Rightarrow> u32 \<Rightarrow> ('w, staging_key_entry list) rpc" where
  "archive_list_staging_keys sv limit w =
     try_st (k_list_staging_keys sv limit None w) (\<lambda>(entries, has_more) w. (Inr entries, w))"

fun staging_view :: "get_staging_payload \<Rightarrow> staging_object_meta + bytes" where
  "staging_view (StagingMeta m) = Inl m"
| "staging_view (StagingData chunk) = Inr chunk"

definition archive_get_staging ::
  "'w services \<Rightarrow> string \<Rightarrow> string \<Rightarrow> string option \<Rightarrow> ('w, phase1_staged_object) rpc" where
  "archive_get_staging sv bucket key version_id w =
     try_st (k_get_staging sv (bucket, key, version_id) w) (\<lambda>messages w.
       case collect_messages (Status InvalidArgument ''cache get_staging returned duplicate metadata'')
              (Status Internal ''cache get_staging returned empty chunk'') staging_view None [] messages of
         Inl err \<Rightarrow> (Inl err, w)
       | Inr (None, data) \<Rightarrow> (Inl (Status Internal ''cache get_staging stream ended without metadata''), w)
       | Inr (Some meta, data) \<Rightarrow> (Inr \<lparr>sg_meta = meta, sg_data = data\<rparr>, w))"

definition archive_delete_staging ::
  "'w services \<Rightarrow> string \<Rightarrow> string \<Rightarrow> string option \<Rightarrow> ('w, unit) rpc" where
  "archive_delete_staging sv bucket key version_id w =
     try_st (k_delete_staging sv (bucket, key, version_id) w) (\<lambda>_ w. (Inr (), w))"

definition cache_archive_client :: "'w services \<Rightarrow> 'w archive_cache" where
  "cache_archive_client sv =
     \<lparr>ac_list_staging_keys = archive_list_staging_keys sv, ac_get_staging = archive_get_staging sv,
      ac_delete_staging = archive_delete_staging sv\<rparr>"

section \<open>The cache client of the recall loop\<close>

type_synonym 'w restore_cache = "object_metadata \<Rightarrow> bytes \<Rightarrow> timestamp \<Rightarrow> ('w, unit) rpc"

definition cache_restore_client :: "(bytes \<Rightarrow> bytes) \<Rightarrow> 'w services \<Rightarrow> 'w restore_cache" where
  "cache_restore_client sha sv ob data expire_at w =
     try_st (k_put_restored sv
         [Inr (Some (PutMeta \<lparr>pr_bucket = om_bucket ob, pr_key = om_key ob,
            pr_version_id = om_version_id ob, pr_size = len_u64 data,
            pr_checksum = Some (sha256_hex sha data), pr_content_type = om_content_type ob,
            pr_etag = om_etag ob, pr_expire_at = Some expire_at\<rparr>)),
          Inr (Some (PutData data))] w)
       (\<lambda>_ w. (Inr (), w))"

section \<open>The tape clients\<close>

record tape_archive_write =
  aw_tape_id :: string
  aw_tape_set :: "string list"
  aw_filemark_start :: u32
  aw_filemark_end :: u32
  aw_bytes_written :: u64

type_synonym 'w tape_writer = "string \<Rightarrow> u32 \<Rightarrow> bytes \<Rightarrow> ('w, tape_archive_write) rpc"

type_synonym 'w tape_reader = "string \<Rightarrow> u32 \<Rightarrow> u64 \<Rightarrow> ('w, bytes) rpc"

record tape_archive_client =
  tac_drive_id :: string
  tac_tape_id :: string
  tac_tape_set :: "string list"
  tac_block_size :: u32

definition acquire_and_load_tape :: "'w services \<Rightarrow> string \<Rightarrow> string \<Rightarrow> ('w, string) rpc" where
  "acquire_and_load_tape sv preferred_drive_id tape_id w =
     try_st (t_acquire_drive sv \<lparr>aq_preferred_drive_id = Some preferred_drive_id, aq_required_tape_id = None,
         aq_priority = 0, aq_timeout_secs = 0\<rparr> w) (\<lambda>acquired w.
       let drive_id = (if ad_drive_id acquired = [] then preferred_drive_id else ad_drive_id acquired)
       in if ad_current_tape acquired \<noteq> Some tape_id
          then try_st (t_load_tape sv tape_id drive_id None w) (\<lambda>_ w. (Inr drive_id, w))
          else (Inr drive_id, w))"

definition release_drive_best_effort :: "'w services \<Rightarrow> string \<Rightarrow> 'w \<Rightarrow> 'w" where
  "release_drive_best_effort sv drive_id w = snd (t_release_drive sv drive_id w)"

definition tape_write_bundle :: "'w services \<Rightarrow> tape_archive_client \<Rightarrow> 'w tape_writer" where
  "tape_write_bundle sv c bundle_id object_count data w =
     try_st (acquire_and_load_tape sv (tac_drive_id c) (tac_tape_id c) w) (\<lambda>drive_id w.
       case t_write_bundle sv
           [Inr (Some (WriteMeta \<lparr>wm_drive_id = drive_id, wm_bundle_id = bundle_id, wm_total_size = len_u64 data,
              wm_object_count = object_count, wm_block_size = tac_block_size c\<rparr>)),
            Inr (Some (WriteData data))] w of
         (response, w) \<Rightarrow>
           (let w = release_drive_best_effort sv drive_id w
            in case response of
                 Inl err \<Rightarrow> (Inl err, w)
               | Inr r \<Rightarrow>
                   if \<not> wr_success r
                   then (Inl (Status Internal (''tape write_bundle failed for '' @ bundle_id @ '': '' @
                     (case wr_error r of Some e \<Rightarrow> e | None \<Rightarrow> ''unknown tape error''))), w)
                   else if wr_drive_id r \<noteq> drive_id
                   then (Inl (Status Internal (''tape write_bundle responded for drive '' @ wr_drive_id r @
                     '', expected '' @ drive_id)), w)
                   else if wr_bundle_id r \<noteq> bundle_id
                   then (Inl (Status Internal (''tape write_bundle responded for bundle '' @ wr_bundle_id r @
                     '', expected '' @ bundle_id)), w)
                   else (Inr \<lparr>aw_tape_id = tac_tape_id c, aw_tape_set = tac_tape_set c,
                     aw_filemark_start = wr_filemark_start r, aw_filemark_end = wr_filemark_end r,
                     aw_bytes_written = wr_bytes_written r\<rparr>, w)))"

fun read_view :: "read_payload \<Rightarrow> u64 + bytes" where
  "read_view (ReadMeta total_size checksum) = Inl total_size"
| "read_view (ReadData chunk) = Inr chunk"

definition collect_tape_read :: "read_payload messages \<Rightarrow> bytes result" where
  "collect_tape_read messages =
     (case collect_messages (Status Internal ''tape read returned duplicate metadata'')
             (Status Internal ''tape read returned empty chunk'') read_view None [] messages of
        Inl err \<Rightarrow> Inl err
      | Inr (None, data) \<Rightarrow> Inr data
      | Inr (Some expected_size, data) \<Rightarrow>
          if expected_size \<noteq> len_u64 data
          then Inl (Status DataLoss (''tape read returned '' @ nat_to_string (length data) @
            '' bytes, expected '' @ show_word expected_size))
          else Inr data)"

definition tape_read_bundle :: "'w services \<Rightarrow> string \<Rightarrow> 'w tape_reader" where
  "tape_read_bundle sv own_drive_id tape_id filemark len w =
     try_st (acquire_and_load_tape sv own_drive_id tape_id w) (\<lambda>drive_id w.
       case try_st (t_read_bundle sv \<lparr>rb_drive_id = drive_id, rb_location = Some (Location_Filemark filemark),
                rb_length = len\<rparr> w) (\<lambda>messages w. (collect_tape_read messages, w)) of
         (result, w) \<Rightarrow> (result, release_drive_best_effort sv drive_id w))"

end
