(* ===== verification/Scheduler_Backend.thy ===== *)
theory Scheduler_Backend
  imports Scheduler_Client
begin

text \<open>
  The backend of the scheduler that keeps its state in the metadata service
  (\<open>MetadataBackedSchedulerBackend\<close> in \<open>crates/scheduler/src/service.rs\<close>): the object and
  bucket operations, the archive loop that moves staged objects to tape, and the recall loop
  that moves archived objects into the restored part of the cache.
\<close>

section \<open>Identifiers and checks\<close>

definition with_version :: "string \<Rightarrow> string option \<Rightarrow> string" where
  "with_version base version_id =
     (case version_id of
        None \<Rightarrow> base
      | Some version \<Rightarrow> if version = [] then base else base @ ''#'' @ version)"

definition phase1_archive_item_key :: "string \<Rightarrow> string \<Rightarrow> string option \<Rightarrow> string" where
  "phase1_archive_item_key bucket key version_id = with_version (bucket @ ''/'' @ key) version_id"

definition phase1_bundle_id :: "string \<Rightarrow> string \<Rightarrow> string option \<Rightarrow> string" where
  "phase1_bundle_id bucket key version_id = with_version (''phase1-bundle:'' @ bucket @ ''/'' @ key) version_id"

definition phase1_recall_task_id :: "string \<Rightarrow> string \<Rightarrow> string option \<Rightarrow> string" where
  "phase1_recall_task_id bucket key version_id = with_version (''phase1-recall:'' @ bucket @ ''/'' @ key) version_id"

definition phase1_recall_task_key :: "recall_task \<Rightarrow> string" where
  "phase1_recall_task_key task = rt_id task"

definition CAPACITY_REJECT_PREFIX :: string where
  "CAPACITY_REJECT_PREFIX = ''capacity_reject:''"

definition capacity_reject_reason_of :: "string \<Rightarrow> string option" where
  "capacity_reject_reason_of message =
     (case strip_prefix CAPACITY_REJECT_PREFIX (trim message) of
        None \<Rightarrow> None
      | Some rest \<Rightarrow>
          (let reason = hd (split_char (CHR '':'') rest) in if reason = [] then None else Some reason))"

definition is_retriable_recall_processing_error :: "status \<Rightarrow> bool" where
  "is_retriable_recall_processing_error status =
     (case status_code status of
        Unavailable \<Rightarrow> True
      | ResourceExhausted \<Rightarrow> capacity_reject_reason_of (status_message status) \<in>
          {Some ''staging_budget_exceeded'', Some ''restored_budget_exceeded'', Some ''global_capacity_exceeded'',
           Some ''low_watermark_exceeded'', Some ''no_eviction_candidate''}
      | _ \<Rightarrow> False)"

definition restore_tier_rank :: "i32 \<Rightarrow> u8" where
  "restore_tier_rank tier =
     (case restore_tier_try_from tier of
        Some Expedited \<Rightarrow> 0
      | Some Standard \<Rightarrow> 1
      | Some Bulk \<Rightarrow> 2
      | _ \<Rightarrow> 3)"

definition is_pending_recall_task :: "recall_task \<Rightarrow> bool" where
  "is_pending_recall_task task \<longleftrightarrow>
     restore_status_try_from (rt_status task) \<in> {Some RestorePending, Some RestoreWaitingForMedia}"

text \<open>An optional string as \<open>{:?}\<close> prints it when it has nothing to escape.\<close>

definition debug_option :: "string option \<Rightarrow> string" where
  "debug_option v = (case v of None \<Rightarrow> ''None'' | Some s \<Rightarrow> ''Some(\"'' @ s @ ''\")'')"

definition validate_staged_object_matches_metadata ::
  "(bytes \<Rightarrow> bytes) \<Rightarrow> object_metadata \<Rightarrow> phase1_staged_object \<Rightarrow> unit result" where
  "validate_staged_object_matches_metadata sha ob staged =
     (let m = sg_meta staged; n = length (sg_data staged); name = om_bucket ob @ ''/'' @ om_key ob;
          computed_checksum = sha256_hex sha (sg_data staged); metadata_checksum = trim (om_checksum ob)
      in if so_bucket m \<noteq> om_bucket ob \<or> so_key m \<noteq> om_key ob \<or> so_version_id m \<noteq> om_version_id ob
         then Inl (Status DataLoss (''staging identity mismatch: cache returned '' @ so_bucket m @ ''/'' @ so_key m @
           ''#'' @ debug_option (so_version_id m) @ '' for metadata object '' @ name @ ''#'' @ debug_option (om_version_id ob)))
         else if so_size m \<noteq> len_u64 (sg_data staged)
         then Inl (Status DataLoss (''staging size mismatch for '' @ name @ '': meta='' @ show_word (so_size m) @
           '', bytes='' @ nat_to_string n))
         else if om_size ob \<noteq> len_u64 (sg_data staged)
         then Inl (Status DataLoss (''metadata size '' @ show_word (om_size ob) @ '' for '' @ name @
           '' does not match staging bytes '' @ nat_to_string n))
         else if (case so_checksum m of None \<Rightarrow> False
                  | Some c \<Rightarrow> trim c \<noteq> [] \<and> \<not> checksum_matches c computed_checksum)
         then Inl (Status DataLoss (''staging checksum mismatch for '' @ name))
         else if metadata_checksum \<noteq> [] \<and> \<not> checksum_matches metadata_checksum computed_checksum
         then Inl (Status DataLoss (''metadata checksum mismatch for '' @ name))
         else Inr ())"

section \<open>The state shared by the workers\<close>

text \<open>\<open>sst_cache\<close> and \<open>sst_tape\<close> say whether the optional clients are there.\<close>

record scheduler_state =
  sst_cache :: bool
  sst_tape :: bool
  sst_config :: scheduler_config
  sst_active_archive_keys :: "string set"
  sst_active_recall_tasks :: "string set"
  sst_tape_locks :: "(string, nat) hashmap"

definition acquire_archive_item :: "string \<Rightarrow> scheduler_state \<Rightarrow> bool \<times> scheduler_state" where
  "acquire_archive_item key st =
     (if key \<in> sst_active_archive_keys st then (False, st)
      else (True, st\<lparr>sst_active_archive_keys := insert key (sst_active_archive_keys st)\<rparr>))"

definition release_archive_item :: "string \<Rightarrow> scheduler_state \<Rightarrow> scheduler_state" where
  "release_archive_item key st = st\<lparr>sst_active_archive_keys := sst_active_archive_keys st - {key}\<rparr>"

definition acquire_recall_task :: "string \<Rightarrow> scheduler_state \<Rightarrow> bool \<times> scheduler_state" where
  "acquire_recall_task key st =
     (if key \<in> sst_active_recall_tasks st then (False, st)
      else (True, st\<lparr>sst_active_recall_tasks := insert key (sst_active_recall_tasks st)\<rparr>))"

definition release_recall_task :: "string \<Rightarrow> scheduler_state \<Rightarrow> scheduler_state" where
  "release_recall_task key st = st\<lparr>sst_active_recall_tasks := sst_active_recall_tasks st - {key}\<rparr>"

text \<open>
  A lease of a tape is the one permit of its semaphore, which is created on first use and
  never closed. A call holds its lease until it returns, so between calls every permit is
  there, and what remains of a lease is the entry of the table.
\<close>

definition acquire_tape_lease :: "string \<Rightarrow> scheduler_state \<Rightarrow> scheduler_state" where
  "acquire_tape_lease tape_id st =
     (if hm_contains_key (sst_tape_locks st) tape_id then st
      else st\<lparr>sst_tape_locks := hm_insert tape_id 1 (sst_tape_locks st)\<rparr>)"

section \<open>Calls of the cache\<close>

record staging_put =
  sp_bucket :: string
  sp_key :: string
  sp_version_id :: "string option"
  sp_data :: bytes
  sp_checksum :: string
  sp_content_type :: "string option"
  sp_etag :: string

text \<open>Whether the backend has a cache client is its flag \<open>cache\<close>.\<close>

definition cache_client :: "bool \<Rightarrow> unit result" where
  "cache_client cache =
     (if cache then Inr () else Inl (Status FailedPrecondition ''scheduler cache client is not configured''))"

definition put_staging_object :: "'w services \<Rightarrow> bool \<Rightarrow> staging_put \<Rightarrow> ('w, string) rpc" where
  "put_staging_object sv cache staging w =
     (case cache_client cache of
        Inl err \<Rightarrow> (Inl err, w)
      | Inr _ \<Rightarrow>
          k_put_staging sv
            [Inr (Some (PutMeta \<lparr>ps_bucket = sp_bucket staging, ps_key = sp_key staging,
               ps_version_id = sp_version_id staging, ps_size = len_u64 (sp_data staging),
               ps_checksum = Some (sp_checksum staging), ps_content_type = sp_content_type staging,
               ps_etag = Some (sp_etag staging)\<rparr>)),
             Inr (Some (PutData (sp_data staging)))] w)"

definition delete_staging_best_effort :: "'w services \<Rightarrow> bool \<Rightarrow> string \<Rightarrow> string \<Rightarrow> string option \<Rightarrow> 'w \<Rightarrow> 'w" where
  "delete_staging_best_effort sv cache bucket key version_id w =
     (if cache then snd (k_delete_staging sv (bucket, key, version_id) w) else w)"

definition delete_cached_object_best_effort ::
  "'w services \<Rightarrow> bool \<Rightarrow> string \<Rightarrow> string \<Rightarrow> string option \<Rightarrow> 'w \<Rightarrow> 'w" where
  "delete_cached_object_best_effort sv cache bucket key version_id w =
     (if cache
      then let w = snd (k_delete sv (bucket, key, version_id) w)
           in snd (k_delete_staging sv (bucket, key, version_id) w)
      else w)"

fun cached_view :: "get_payload \<Rightarrow> u64 + bytes" where
  "cached_view (GetMeta m) = Inl (co_size m)"
| "cached_view (GetData chunk) = Inr chunk"

definition collect_restored :: "object_metadata \<Rightarrow> get_payload messages \<Rightarrow> bytes result" where
  "collect_restored ob messages =
     (let name = om_bucket ob @ ''/'' @ om_key ob
      in case collect_messages (Status InvalidArgument ''cache get returned duplicate metadata'')
             (Status Internal ''cache get returned empty chunk'') cached_view None [] messages of
           Inl err \<Rightarrow> Inl err
         | Inr (None, data) \<Rightarrow> Inl (Status Internal ''cache get stream ended without metadata'')
         | Inr (Some expected_size, data) \<Rightarrow>
             if expected_size \<noteq> len_u64 data
             then Inl (Status DataLoss (''cache returned '' @ nat_to_string (length data) @ '' bytes for '' @ name @
               '', expected '' @ show_word expected_size))
             else if om_size ob \<noteq> len_u64 data
             then Inl (Status DataLoss (''metadata size '' @ show_word (om_size ob) @ '' for '' @ name @
               '' does not match restored cache bytes '' @ nat_to_string (length data)))
             else Inr data)"

definition read_restored_object :: "'w services \<Rightarrow> bool \<Rightarrow> object_metadata \<Rightarrow> ('w, bytes) rpc" where
  "read_restored_object sv cache ob w =
     (let name = om_bucket ob @ ''/'' @ om_key ob
      in if om_storage_class ob \<noteq> storage_class_i32 Cold
         then (Inl (Status FailedPrecondition (''object '' @ name @
           '' is not archived yet and cannot be read from restored cache'')), w)
         else if Option.bind (om_restore_status ob) restore_status_try_from \<noteq> Some RestoreCompleted
         then (Inl (Status FailedPrecondition (''object '' @ name @ '' must complete restore before GET'')), w)
         else case cache_client cache of
                Inl err \<Rightarrow> (Inl err, w)
              | Inr _ \<Rightarrow>
                  try_st (map_error (\<lambda>status. if status_code status = NotFound
                        then Status FailedPrecondition (''restored object '' @ name @ '' is not present in cache'')
                        else status) (k_get sv (om_bucket ob, om_key ob, om_version_id ob) w))
                    (\<lambda>messages w. (collect_restored ob messages, w)))"

section \<open>Archive tasks\<close>

definition phase1_archive_task :: "timestamp \<Rightarrow> string \<Rightarrow> string \<Rightarrow> u64 \<Rightarrow> archive_task" where
  "phase1_archive_task now bundle_id tape_id object_size =
     \<lparr>at_id = bundle_id, at_bundle_id = bundle_id, at_tape_id = tape_id, at_drive_id = None, at_object_count = 1,
      at_total_size = object_size, at_bytes_written = 0, at_status = archive_task_status_i32 ArchiveTaskPending,
      at_retry_count = 0, at_created_at = Some now, at_started_at = None, at_completed_at = None, at_error = None\<rparr>"

definition update_archive_task :: "'w services \<Rightarrow> archive_task \<Rightarrow> ('w, unit) rpc" where
  "update_archive_task sv task w = try_st (m_update_archive_task sv task w) (\<lambda>_ w. (Inr (), w))"

definition get_archive_task :: "'w services \<Rightarrow> string \<Rightarrow> ('w, archive_task) rpc" where
  "get_archive_task sv task_id w = try_st (m_get_archive_task sv task_id w) (\<lambda>task w. (Inr task, w))"

text \<open>Running on an error that is not the one that is tolerated.\<close>

definition tolerate :: "code \<Rightarrow> unit result \<times> 'w \<Rightarrow> ('w \<Rightarrow> 'a result \<times> 'w) \<Rightarrow> ('w \<Rightarrow> 'a result \<times> 'w) \<Rightarrow> 'a result \<times> 'w" where
  "tolerate tolerated r on_tolerated k =
     (case r of
        (Inl err, w) \<Rightarrow> if status_code err = tolerated then on_tolerated w else (Inl err, w)
      | (Inr _, w) \<Rightarrow> k w)"

text \<open>The claim of a task that is in the metadata, by whichever worker put it there.\<close>

definition start_archive_task :: "'w services \<Rightarrow> archive_task \<Rightarrow> archive_task \<Rightarrow> ('w, bool \<times> archive_task) rpc" where
  "start_archive_task sv task current w =
     (case now_timestamp sv w of
        (now, w) \<Rightarrow>
          (let current = current\<lparr>at_status := archive_task_status_i32 ArchiveTaskInProgress, at_error := None,
                 at_started_at := Some now\<rparr>
           in tolerate FailedPrecondition (m_update_archive_task sv current w)
                (\<lambda>w. (Inr (False, task), w)) (\<lambda>w. (Inr (True, current), w))))"

definition claim_stored_archive_task :: "'w services \<Rightarrow> archive_task \<Rightarrow> ('w, bool \<times> archive_task) rpc" where
  "claim_stored_archive_task sv task w =
     try_st (get_archive_task sv (at_id task) w) (\<lambda>current w.
       case archive_task_status_try_from (at_status current) of
         None \<Rightarrow> (Inl (Status Internal ''invalid archive task status''), w)
       | Some ArchiveTaskCompleted \<Rightarrow> (Inr (False, current), w)
       | Some ArchiveTaskFailed \<Rightarrow> (Inr (False, task), w)
       | Some ArchiveTaskInProgress \<Rightarrow> (Inr (False, current), w)
       | Some ArchiveTaskPending \<Rightarrow> start_archive_task sv task current w
       | _ \<Rightarrow> (Inl (Status FailedPrecondition ''invalid archive task state for claim''), w))"

definition claim_archive_task :: "'w services \<Rightarrow> archive_task \<Rightarrow> ('w, bool \<times> archive_task) rpc" where
  "claim_archive_task sv task w =
     tolerate AlreadyExists (m_put_archive_task sv task w)
       (claim_stored_archive_task sv task) (claim_stored_archive_task sv task)"

definition finalize_archive_task_success ::
  "'w services \<Rightarrow> archive_task \<Rightarrow> u64 \<Rightarrow> ('w, archive_task) rpc" where
  "finalize_archive_task_success sv task bytes_written w =
     try_st (get_archive_task sv (at_id task) w) (\<lambda>current w.
       case archive_task_status_try_from (at_status current) of
         None \<Rightarrow> (Inl (Status Internal ''invalid archive task status''), w)
       | Some ArchiveTaskCompleted \<Rightarrow> (Inr task, w)
       | Some _ \<Rightarrow>
           (case now_timestamp sv w of
              (now, w) \<Rightarrow>
                (let current = current\<lparr>at_status := archive_task_status_i32 ArchiveTaskCompleted,
                       at_bytes_written := bytes_written, at_error := None, at_completed_at := Some now\<rparr>
                 in tolerate FailedPrecondition (update_archive_task sv current w)
                      (\<lambda>w. (Inr task, w)) (\<lambda>w. (Inr current, w)))))"

definition mark_archive_task_failed :: "'w services \<Rightarrow> archive_task \<Rightarrow> string \<Rightarrow> ('w, unit) rpc" where
  "mark_archive_task_failed sv task err w =
     try_st (get_archive_task sv (at_id task) w) (\<lambda>current w.
       case archive_task_status_try_from (at_status current) of
         None \<Rightarrow> (Inl (Status Internal ''invalid archive task status''), w)
       | Some ArchiveTaskCompleted \<Rightarrow> (Inr (), w)
       | Some ArchiveTaskFailed \<Rightarrow> (Inr (), w)
       | Some _ \<Rightarrow>
           (case now_timestamp sv w of
              (now, w) \<Rightarrow>
                update_archive_task sv (current\<lparr>at_status := archive_task_status_i32 ArchiveTaskFailed,
                  at_error := Some err, at_completed_at := Some now,
                  at_retry_count := sat_add (at_retry_count current) 1\<rparr>) w))"

section \<open>The archive loop\<close>

record archive_batch_result =
  abr_archived_objects :: u32
  abr_bytes_written :: u64
  abr_bundle_ids :: "string list"

text \<open>
  The work on one staged entry. An error comes with the task that has to be marked as
  failed, if there is one yet, and a success with the bytes written when the object was
  archived.
\<close>

definition archived_bundle :: "timestamp \<Rightarrow> string \<Rightarrow> staging_key_entry \<Rightarrow> bytes \<Rightarrow> string \<Rightarrow> tape_archive_write \<Rightarrow> archive_bundle" where
  "archived_bundle now bundle_id entry data checksum written =
     \<lparr>ab_id = bundle_id, ab_tape_id = aw_tape_id written, ab_tape_set = aw_tape_set written,
      ab_entries = [\<lparr>be_bucket = sk_bucket entry, be_key = sk_key entry, be_version_id = sk_version_id entry,
        be_size = len_u64 data, be_offset_in_bundle = 0, be_tape_block_offset = ucast (aw_filemark_start written),
        be_checksum = checksum\<rparr>],
      ab_total_size = aw_bytes_written written, ab_filemark_start = aw_filemark_start written,
      ab_filemark_end = aw_filemark_end written, ab_checksum = Some checksum,
      ab_status = archive_bundle_status_i32 BundleCompleted, ab_created_at = Some now, ab_completed_at = Some now\<rparr>"

definition completion_request ::
  "staging_key_entry \<Rightarrow> object_metadata \<Rightarrow> archive_bundle \<Rightarrow> tape_archive_write \<Rightarrow> complete_archive_object_request" where
  "completion_request entry current_object b written =
     \<lparr>cao_bucket = sk_bucket entry, cao_key = sk_key entry, cao_version_id = om_version_id current_object,
      cao_expected_size = Some (om_size current_object), cao_expected_checksum = Some (om_checksum current_object),
      cao_expected_storage_class = Some (om_storage_class current_object),
      cao_expected_updated_at = om_updated_at current_object, cao_bundle = Some b,
      cao_tape_block_offset = ucast (aw_filemark_start written), cao_storage_class = storage_class_i32 Cold\<rparr>"

definition write_staged_object ::
  "(bytes \<Rightarrow> bytes) \<Rightarrow> 'w services \<Rightarrow> 'w archive_cache \<Rightarrow> 'w tape_writer \<Rightarrow> staging_key_entry \<Rightarrow> string \<Rightarrow>
   object_metadata \<Rightarrow> archive_task \<Rightarrow> ('w, u64) rpc" where
  "write_staged_object sha sv ac tape entry bundle_id ob task w =
     try_st (ac_get_staging ac (sk_bucket entry) (sk_key entry) (sk_version_id entry) w) (\<lambda>staged w.
     try_st (validate_staged_object_matches_metadata sha ob staged, w) (\<lambda>_ w.
     let data = sg_data staged; checksum = sha256_hex sha data
     in try_st (tape bundle_id 1 data w) (\<lambda>written w.
        if aw_bytes_written written \<noteq> len_u64 data
        then (Inl (Status Internal (''tape writer reported '' @ show_word (aw_bytes_written written) @ '' bytes for '' @
                bundle_id @ '', expected '' @ nat_to_string (length data))), w)
        else try_st (m_head_object sv (sk_bucket entry) (sk_key entry) w) (\<lambda>current_object w.
          if om_storage_class current_object \<noteq> storage_class_i32 ColdPending
          then (Inl (Status FailedPrecondition (''object '' @ sk_bucket entry @ ''/'' @ sk_key entry @
                  '' changed storage class during archive'')), w)
          else try_st (validate_staged_object_matches_metadata sha current_object staged, w) (\<lambda>_ w.
            case now_timestamp sv w of
              (now, w) \<Rightarrow>
                try_st (m_complete_archive_object sv (completion_request entry current_object
                    (archived_bundle now bundle_id entry data checksum written) written) w) (\<lambda>_ w.
                try_st (ac_delete_staging ac (sk_bucket entry) (sk_key entry) (sk_version_id entry) w) (\<lambda>_ w.
                try_st (finalize_archive_task_success sv task (aw_bytes_written written) w) (\<lambda>_ w.
                  (Inr (aw_bytes_written written), w)))))))))"

definition process_archive_entry ::
  "(bytes \<Rightarrow> bytes) \<Rightarrow> 'w services \<Rightarrow> bool \<Rightarrow> 'w archive_cache \<Rightarrow> 'w tape_writer \<Rightarrow> string \<Rightarrow> staging_key_entry \<Rightarrow>
   'w \<Rightarrow> ((status \<times> archive_task option) + u64 option) \<times> 'w" where
  "process_archive_entry sha sv cache ac tape config_tape_id entry w =
     try_st (map_error (\<lambda>status. (status, None)) (m_head_object sv (sk_bucket entry) (sk_key entry) w)) (\<lambda>ob w.
       case now_timestamp sv w of
         (now, w) \<Rightarrow>
           (let bundle_id = phase1_bundle_id (sk_bucket entry) (sk_key entry) (sk_version_id entry);
                task = phase1_archive_task now bundle_id config_tape_id (om_size ob)
            in if om_storage_class ob \<noteq> storage_class_i32 ColdPending
               then (Inr None, delete_staging_best_effort sv cache (sk_bucket entry) (sk_key entry) (sk_version_id entry) w)
               else try_st (map_error (\<lambda>status. (status, Some task)) (claim_archive_task sv task w)) (\<lambda>(claimed, task) w.
                 if \<not> claimed then (Inr None, w)
                 else try_st (map_error (\<lambda>status. (status, Some task))
                          (write_staged_object sha sv ac tape entry bundle_id ob task w))
                        (\<lambda>bytes_written w. (Inr (Some bytes_written), w)))))"

fun archive_entry_loop ::
  "(bytes \<Rightarrow> bytes) \<Rightarrow> 'w services \<Rightarrow> bool \<Rightarrow> 'w archive_cache \<Rightarrow> 'w tape_writer \<Rightarrow> staging_key_entry list \<Rightarrow>
   archive_batch_result \<Rightarrow> scheduler_state \<times> 'w \<Rightarrow> archive_batch_result result \<times> (scheduler_state \<times> 'w)" where
  "archive_entry_loop sha sv cache ac tape [] result s = (Inr result, s)"
| "archive_entry_loop sha sv cache ac tape (entry # entries) result (st, w) =
     (let item_key = phase1_archive_item_key (sk_bucket entry) (sk_key entry) (sk_version_id entry)
      in case acquire_archive_item item_key st of
           (False, st) \<Rightarrow> archive_entry_loop sha sv cache ac tape entries result (st, w)
         | (True, st) \<Rightarrow>
             (case process_archive_entry sha sv cache ac tape (asc_tape_id (sc_archive (sst_config st))) entry w of
                (Inr None, w) \<Rightarrow>
                  archive_entry_loop sha sv cache ac tape entries result (release_archive_item item_key st, w)
              | (Inr (Some bytes_written), w) \<Rightarrow>
                  archive_entry_loop sha sv cache ac tape entries
                    \<lparr>abr_archived_objects = abr_archived_objects result + 1,
                     abr_bytes_written = abr_bytes_written result + bytes_written,
                     abr_bundle_ids = abr_bundle_ids result @
                       [phase1_bundle_id (sk_bucket entry) (sk_key entry) (sk_version_id entry)]\<rparr>
                    (release_archive_item item_key st, w)
              | (Inl (status, maybe_task), w) \<Rightarrow>
                  (let w = (case maybe_task of
                       None \<Rightarrow> w
                     | Some task \<Rightarrow> snd (mark_archive_task_failed sv task (status_message status) w))
                   in (Inl status, (release_archive_item item_key st, w)))))"

definition archive_staging_batch ::
  "(bytes \<Rightarrow> bytes) \<Rightarrow> 'w services \<Rightarrow> bool \<Rightarrow> 'w archive_cache \<Rightarrow> 'w tape_writer \<Rightarrow> u32 \<Rightarrow>
   scheduler_state \<times> 'w \<Rightarrow> archive_batch_result result \<times> (scheduler_state \<times> 'w)" where
  "archive_staging_batch sha sv cache ac tape limit s =
     (case s of (st, w) \<Rightarrow>
        (case ac_list_staging_keys ac limit w of
           (Inl err, w) \<Rightarrow> (Inl err, (st, w))
         | (Inr entries, w) \<Rightarrow>
             archive_entry_loop sha sv cache ac tape entries
               \<lparr>abr_archived_objects = 0, abr_bytes_written = 0, abr_bundle_ids = []\<rparr> (st, w)))"

section \<open>Recall tasks\<close>

definition update_recall_task :: "'w services \<Rightarrow> recall_task \<Rightarrow> ('w, unit) rpc" where
  "update_recall_task sv task w = try_st (m_update_recall_task sv task w) (\<lambda>_ w. (Inr (), w))"

definition get_recall_task :: "'w services \<Rightarrow> string \<Rightarrow> ('w, recall_task) rpc" where
  "get_recall_task sv task_id w = try_st (m_get_recall_task sv task_id w) (\<lambda>task w. (Inr task, w))"

definition update_object_restore_status ::
  "'w services \<Rightarrow> string \<Rightarrow> string \<Rightarrow> restore_status \<Rightarrow> timestamp option \<Rightarrow> ('w, unit) rpc" where
  "update_object_restore_status sv bucket key status expire_at w =
     try_st (m_update_restore_status sv \<lparr>urs_bucket = bucket, urs_key = key, urs_status = restore_status_i32 status,
         urs_expire_at = expire_at\<rparr> w) (\<lambda>_ w. (Inr (), w))"

definition start_recall_task :: "'w services \<Rightarrow> recall_task \<Rightarrow> recall_task \<Rightarrow> ('w, bool \<times> recall_task) rpc" where
  "start_recall_task sv task current w =
     (case now_timestamp sv w of
        (now, w) \<Rightarrow>
          (let current = current\<lparr>rt_status := restore_status_i32 RestoreInProgress, rt_error := None,
                 rt_started_at := Some now\<rparr>
           in tolerate FailedPrecondition (m_update_recall_task sv current w)
                (\<lambda>w. (Inr (False, task), w))
                (\<lambda>w. try_st (update_object_restore_status sv (rt_bucket current) (rt_key current)
                       RestoreInProgress (rt_expire_at current) w)
                     (\<lambda>_ w. (Inr (True, current), w)))))"

definition claim_stored_recall_task :: "'w services \<Rightarrow> recall_task \<Rightarrow> ('w, bool \<times> recall_task) rpc" where
  "claim_stored_recall_task sv task w =
     try_st (get_recall_task sv (rt_id task) w) (\<lambda>current w.
       case restore_status_try_from (rt_status current) of
         None \<Rightarrow> (Inl (Status Internal ''invalid restore task status''), w)
       | Some RestoreUnspecified \<Rightarrow> (Inr (False, task), w)
       | Some status \<Rightarrow>
           if status \<in> {RestorePending, RestoreWaitingForMedia} then start_recall_task sv task current w
           else (Inr (False, current), w))"

definition claim_recall_task :: "'w services \<Rightarrow> recall_task \<Rightarrow> ('w, bool \<times> recall_task) rpc" where
  "claim_recall_task sv task w =
     tolerate AlreadyExists (m_put_recall_task sv task w)
       (claim_stored_recall_task sv task) (claim_stored_recall_task sv task)"

definition mark_recall_failed :: "'w services \<Rightarrow> recall_task \<Rightarrow> string \<Rightarrow> ('w, unit) rpc" where
  "mark_recall_failed sv task err w =
     try_st (get_recall_task sv (rt_id task) w) (\<lambda>current w.
       case restore_status_try_from (rt_status current) of
         None \<Rightarrow> (Inl (Status Internal ''invalid restore task status''), w)
       | Some status \<Rightarrow>
           if status \<in> {RestoreCompleted, RestoreFailed} then (Inr (), w)
           else case now_timestamp sv w of
                  (now, w) \<Rightarrow>
                    (let current = current\<lparr>rt_status := restore_status_i32 RestoreFailed,
                           rt_retry_count := sat_add (rt_retry_count current) 1, rt_completed_at := Some now,
                           rt_error := Some err\<rparr>;
                         finish = (\<lambda>w. update_object_restore_status sv (rt_bucket current) (rt_key current)
                           RestoreFailed None w)
                     in tolerate FailedPrecondition (update_recall_task sv current w) finish finish))"

definition retry_recall_task_later :: "'w services \<Rightarrow> recall_task \<Rightarrow> string \<Rightarrow> ('w, unit) rpc" where
  "retry_recall_task_later sv task err w =
     try_st (get_recall_task sv (rt_id task) w) (\<lambda>current w.
       case restore_status_try_from (rt_status current) of
         None \<Rightarrow> (Inl (Status Internal ''invalid recall task status''), w)
       | Some status \<Rightarrow>
           if status \<noteq> RestoreInProgress then (Inr (), w)
           else let current = current\<lparr>rt_status := restore_status_i32 RestoreWaitingForMedia, rt_error := Some err,
                      rt_started_at := None, rt_retry_count := sat_add (rt_retry_count current) 1\<rparr>
                in try_st (update_recall_task sv current w) (\<lambda>_ w.
                     update_object_restore_status sv (rt_bucket current) (rt_key current)
                       RestoreWaitingForMedia (rt_expire_at current) w))"

section \<open>The recall loop\<close>

record recall_batch_result =
  rbr_restored_objects :: u32
  rbr_bytes_read :: u64
  rbr_task_ids :: "string list"

definition process_recall_task ::
  "(bytes \<Rightarrow> bytes) \<Rightarrow> 'w services \<Rightarrow> 'w restore_cache \<Rightarrow> 'w tape_reader \<Rightarrow> recall_task \<Rightarrow> ('w, u64) rpc" where
  "process_recall_task sha sv rc tape task w =
     try_st (m_head_object sv (rt_bucket task) (rt_key task) w) (\<lambda>ob w.
       if om_storage_class ob \<noteq> storage_class_i32 Cold
       then (Inl (Status FailedPrecondition (''recall task '' @ rt_id task @ '' requires a COLD object'')), w)
       else if om_archive_id ob \<noteq> Some (rt_archive_id task)
       then (Inl (Status FailedPrecondition (''recall task '' @ rt_id task @
              '' archive_id does not match current object metadata'')), w)
       else if unat (rt_tape_block_offset task) \<ge> 2 ^ 32
       then (Inl (Status InvalidArgument ''recall tape offset does not fit filemark''), w)
       else try_st (tape (rt_tape_id task) (ucast (rt_tape_block_offset task)) (rt_object_size task) w) (\<lambda>data w.
         if len_u64 data \<noteq> rt_object_size task
         then (Inl (Status DataLoss (''recall task '' @ rt_id task @ '' read '' @ nat_to_string (length data) @
                '' bytes, expected '' @ show_word (rt_object_size task))), w)
         else if sha256_hex sha data \<noteq> rt_checksum task
         then (Inl (Status DataLoss (''recall task '' @ rt_id task @ '' checksum mismatch'')), w)
         else case (case rt_expire_at task of Some t \<Rightarrow> (t, w) | None \<Rightarrow> days_from_now sv 1 w) of
                (expire_at, w) \<Rightarrow>
                  try_st (rc ob data expire_at w) (\<lambda>_ w.
                    case now_timestamp sv w of
                      (now, w) \<Rightarrow>
                        try_st (update_recall_task sv (task\<lparr>rt_status := restore_status_i32 RestoreCompleted,
                            rt_completed_at := Some now, rt_error := None\<rparr>) w) (\<lambda>_ w.
                        try_st (update_object_restore_status sv (rt_bucket task) (rt_key task) RestoreCompleted
                            (Some expire_at) w) (\<lambda>_ w. (Inr (rt_object_size task), w))))))"

text \<open>
  One task of the batch: it is skipped when another worker has it or when it cannot be
  claimed, and a failed restore is retried later or marked as failed. \<open>Inr None\<close> stands for a
  task that was not restored, an error for one that ends the batch.
\<close>

definition recall_one ::
  "(bytes \<Rightarrow> bytes) \<Rightarrow> 'w services \<Rightarrow> 'w restore_cache \<Rightarrow> 'w tape_reader \<Rightarrow> recall_task \<Rightarrow>
   'w \<Rightarrow> (u64 \<times> string) option result \<times> 'w" where
  "recall_one sha sv rc tape task w =
     try_st (claim_recall_task sv task w) (\<lambda>(claimed, claimed_task) w.
       if \<not> claimed then (Inr None, w)
       else case process_recall_task sha sv rc tape claimed_task w of
              (Inr bytes_read, w) \<Rightarrow> (Inr (Some (bytes_read, rt_id claimed_task)), w)
            | (Inl status, w) \<Rightarrow>
                try_st (if is_retriable_recall_processing_error status
                        then retry_recall_task_later sv claimed_task (status_message status) w
                        else mark_recall_failed sv claimed_task (status_message status) w)
                  (\<lambda>_ w. (Inr None, w)))"

fun recall_task_loop ::
  "(bytes \<Rightarrow> bytes) \<Rightarrow> 'w services \<Rightarrow> 'w restore_cache \<Rightarrow> 'w tape_reader \<Rightarrow> recall_task list \<Rightarrow> recall_batch_result \<Rightarrow>
   scheduler_state \<times> 'w \<Rightarrow> recall_batch_result result \<times> (scheduler_state \<times> 'w)" where
  "recall_task_loop sha sv rc tape [] result s = (Inr result, s)"
| "recall_task_loop sha sv rc tape (task # tasks) result (st, w) =
     (let task_key = phase1_recall_task_key task
      in case acquire_recall_task task_key st of
           (False, st) \<Rightarrow> recall_task_loop sha sv rc tape tasks result (st, w)
         | (True, st) \<Rightarrow>
             (let st = acquire_tape_lease (rt_tape_id task) st
              in case recall_one sha sv rc tape task w of
                   (Inl status, w) \<Rightarrow> (Inl status, (release_recall_task task_key st, w))
                 | (Inr None, w) \<Rightarrow> recall_task_loop sha sv rc tape tasks result (release_recall_task task_key st, w)
                 | (Inr (Some (bytes_read, task_id)), w) \<Rightarrow>
                     recall_task_loop sha sv rc tape tasks
                       \<lparr>rbr_restored_objects = rbr_restored_objects result + 1,
                        rbr_bytes_read = rbr_bytes_read result + bytes_read,
                        rbr_task_ids = rbr_task_ids result @ [task_id]\<rparr>
                       (release_recall_task task_key st, w)))"

definition recall_order :: "recall_task \<Rightarrow> u8 \<times> string \<times> u64 \<times> i64 option" where
  "recall_order task = (restore_tier_rank (rt_tier task), rt_tape_id task, rt_tape_block_offset task,
     map_option ts_seconds (rt_created_at task))"

definition recall_pending_batch ::
  "(bytes \<Rightarrow> bytes) \<Rightarrow> 'w services \<Rightarrow> 'w restore_cache \<Rightarrow> 'w tape_reader \<Rightarrow> usize \<Rightarrow>
   scheduler_state \<times> 'w \<Rightarrow> recall_batch_result result \<times> (scheduler_state \<times> 'w)" where
  "recall_pending_batch sha sv rc tape limit s =
     (case s of (st, w) \<Rightarrow>
        (case m_list_pending_recall_tasks sv w of
           (Inl err, w) \<Rightarrow> (Inl err, (st, w))
         | (Inr tasks, w) \<Rightarrow>
             recall_task_loop sha sv rc tape (take limit (sort_key recall_order (filter is_pending_recall_task tasks)))
               \<lparr>rbr_restored_objects = 0, rbr_bytes_read = 0, rbr_task_ids = []\<rparr> (st, w)))"

end
