(* ===== verification/Scheduler_Service.thy ===== *)
theory Scheduler_Service
  imports Scheduler_Backend
begin

text \<open>
  The bucket and object operations of the scheduler's backend
  (\<open>impl Phase1SchedulerBackend for MetadataBackedSchedulerBackend\<close>), the gRPC handlers on
  top of them (\<open>impl SchedulerService for SchedulerServiceImpl\<close>), one pass of the archive and
  of the recall loop, and the start of the worker (\<open>crates/scheduler/src/lib.rs\<close>). An
  operation of the backend has the prefix \<open>sb_\<close>, a handler the prefix \<open>ss_\<close>.
\<close>

section \<open>Messages\<close>

record put_object_meta =
  po_bucket :: string
  po_key :: string
  po_content_length :: u64
  po_content_type :: "string option"
  po_checksum_sha256 :: "string option"

datatype put_object_payload = PutObjectMeta put_object_meta | PutObjectData bytes

record put_object_response =
  por_etag :: string
  por_version_id :: string

record get_object_meta =
  gm_content_length :: u64
  gm_content_type :: "string option"
  gm_etag :: string
  gm_storage_class :: i32
  gm_restore_info :: "string option"
  gm_last_modified :: "timestamp option"

datatype get_object_payload = GetObjectMeta get_object_meta | GetObjectData bytes

record head_object_response =
  ho_content_length :: u64
  ho_content_type :: "string option"
  ho_etag :: string
  ho_storage_class :: i32
  ho_restore_info :: "string option"
  ho_last_modified :: "timestamp option"

record restore_object_request =
  ror_bucket :: string
  ror_key :: string
  ror_version_id :: "string option"
  ror_days :: u32
  ror_tier :: i32

record scheduler_list_request =
  sl_bucket :: string
  sl_prefix :: "string option"
  sl_marker :: "string option"
  sl_delimiter :: "string option"
  sl_max_keys :: u32

record object_entry =
  oe_key :: string
  oe_last_modified :: "timestamp option"
  oe_etag :: string
  oe_size :: u64
  oe_storage_class :: string

record scheduler_list_response =
  lr_bucket :: string
  lr_prefix :: "string option"
  lr_marker :: "string option"
  lr_next_marker :: "string option"
  lr_max_keys :: u32
  lr_is_truncated :: bool
  lr_contents :: "object_entry list"
  lr_common_prefixes :: "string list"

record bucket_entry =
  bk_name :: string
  bk_creation_date :: "timestamp option"

section \<open>Responses\<close>

definition show_int :: "int \<Rightarrow> string" where
  "show_int i = (if i < 0 then CHR ''-'' # nat_to_string (nat (- i)) else nat_to_string (nat i))"

text \<open>
  The calendar is a parameter: \<open>http_date seconds nanos\<close> is the date in the format of HTTP
  when the instant is in the range of the calendar.
\<close>

type_synonym http_date = "i64 \<Rightarrow> u32 \<Rightarrow> string option"

definition restore_expiry_http_date :: "http_date \<Rightarrow> timestamp \<Rightarrow> string" where
  "restore_expiry_http_date http_date expire_at =
     (case http_date (ts_seconds expire_at) (word_of_int (ts_nanos expire_at)) of
        Some date \<Rightarrow> date
      | None \<Rightarrow> show_int (ts_seconds expire_at))"

definition build_restore_info :: "http_date \<Rightarrow> i32 option \<Rightarrow> timestamp option \<Rightarrow> string option" where
  "build_restore_info http_date restore_status restore_expire_at =
     (case Option.bind restore_status restore_status_try_from of
        Some status \<Rightarrow>
          if status \<in> {RestoreInProgress, RestorePending, RestoreWaitingForMedia}
          then Some ''ongoing-request=\"true\"''
          else if status = RestoreCompleted
          then (case restore_expire_at of
                  Some expire_at \<Rightarrow> Some (''ongoing-request=\"false\", expiry-date=\"'' @
                    restore_expiry_http_date http_date expire_at @ ''\"'')
                | None \<Rightarrow> Some ''ongoing-request=\"false\"'')
          else None
      | None \<Rightarrow> None)"

definition unwrap_or_default :: "string option \<Rightarrow> string" where
  "unwrap_or_default v = (case v of None \<Rightarrow> [] | Some s \<Rightarrow> s)"

definition build_head_object_response :: "http_date \<Rightarrow> object_metadata \<Rightarrow> head_object_response" where
  "build_head_object_response http_date ob =
     \<lparr>ho_content_length = om_size ob, ho_content_type = om_content_type ob, ho_etag = unwrap_or_default (om_etag ob),
      ho_storage_class = om_storage_class ob,
      ho_restore_info = build_restore_info http_date (om_restore_status ob) (om_restore_expire_at ob),
      ho_last_modified = om_updated_at ob\<rparr>"

definition build_get_object_meta :: "http_date \<Rightarrow> object_metadata \<Rightarrow> get_object_meta" where
  "build_get_object_meta http_date ob =
     \<lparr>gm_content_length = om_size ob, gm_content_type = om_content_type ob, gm_etag = unwrap_or_default (om_etag ob),
      gm_storage_class = om_storage_class ob,
      gm_restore_info = build_restore_info http_date (om_restore_status ob) (om_restore_expire_at ob),
      gm_last_modified = om_updated_at ob\<rparr>"

definition storage_class_label :: "i32 \<Rightarrow> string" where
  "storage_class_label storage_class =
     (case storage_class_try_from storage_class of
        Some ColdPending \<Rightarrow> ''COLD_PENDING''
      | Some Cold \<Rightarrow> ''COLD''
      | _ \<Rightarrow> ''UNKNOWN'')"

definition build_object_entry :: "object_metadata \<Rightarrow> object_entry" where
  "build_object_entry ob =
     \<lparr>oe_key = om_key ob, oe_last_modified = om_updated_at ob, oe_etag = unwrap_or_default (om_etag ob),
      oe_size = om_size ob, oe_storage_class = storage_class_label (om_storage_class ob)\<rparr>"

definition build_bucket_entry :: "bucket_info \<Rightarrow> bucket_entry" where
  "build_bucket_entry b = \<lparr>bk_name = bi_name b, bk_creation_date = bi_created_at b\<rparr>"

section \<open>Pages of a listing\<close>

record listing_page =
  pg_objects :: "object_metadata list"
  pg_common_prefixes :: "string list"
  pg_next_marker :: "string option"
  pg_is_truncated :: bool

text \<open>The prefix up to the first delimiter after the prefix asked for, if there is one.\<close>

definition candidate_prefix :: "string \<Rightarrow> string \<Rightarrow> string \<Rightarrow> string option" where
  "candidate_prefix pre delimiter key =
     (if delimiter = [] then None
      else case strip_prefix pre key of
             None \<Rightarrow> None
           | Some rest \<Rightarrow>
               map_option (\<lambda>pos. pre @ take (pos + length delimiter) rest) (str_find delimiter rest))"

text \<open>
  The loop over the objects. The result is the objects, the common prefixes, the last key
  emitted, and whether the loop stopped at the limit with an object left.
\<close>

fun page_loop ::
  "string \<Rightarrow> string \<Rightarrow> usize \<Rightarrow> object_metadata list \<Rightarrow> usize \<Rightarrow> object_metadata list \<Rightarrow> string list \<Rightarrow> string option \<Rightarrow>
   object_metadata list \<times> string list \<times> string option \<times> bool" where
  "page_loop pre delimiter limit [] emitted contents common_prefixes last_emitted_key =
     (contents, common_prefixes, last_emitted_key, False)"
| "page_loop pre delimiter limit (ob # objects) emitted contents common_prefixes last_emitted_key =
     (if emitted \<ge> limit then (contents, common_prefixes, last_emitted_key, True)
      else case candidate_prefix pre delimiter (om_key ob) of
             Some candidate \<Rightarrow>
               if candidate \<in> set common_prefixes
               then page_loop pre delimiter limit objects emitted contents common_prefixes last_emitted_key
               else page_loop pre delimiter limit objects (emitted + 1) contents (common_prefixes @ [candidate])
                      (Some candidate)
           | None \<Rightarrow>
               page_loop pre delimiter limit objects (emitted + 1) (contents @ [ob]) common_prefixes
                 (Some (om_key ob)))"

definition build_list_objects_page ::
  "string \<Rightarrow> object_metadata list \<Rightarrow> string option \<Rightarrow> string option \<Rightarrow> string option \<Rightarrow> u32 \<Rightarrow> listing_page" where
  "build_list_objects_page bucket objects pre marker delimiter max_keys =
     (let pre = unwrap_or_default pre; marker = unwrap_or_default marker; delimiter = unwrap_or_default delimiter;
          limit = (if max_keys = 0 then usize_MAX else unat max_keys);
          enforce_limit = (limit \<noteq> usize_MAX);
          filtered = sort_key (\<lambda>ob. (om_key ob, om_version_id ob))
            (filter (\<lambda>ob. starts_with pre (om_key ob) \<and> om_key ob > marker)
              (filter (\<lambda>ob. om_bucket ob = bucket) objects))
      in case page_loop pre delimiter limit filtered 0 [] [] None of
           (contents, common_prefixes, last_emitted_key, is_truncated) \<Rightarrow>
             \<lparr>pg_objects = contents, pg_common_prefixes = common_prefixes,
              pg_next_marker = (if is_truncated \<and> enforce_limit then last_emitted_key else None),
              pg_is_truncated = is_truncated\<rparr>)"

section \<open>The operations of the backend\<close>

definition sb_list_buckets :: "'w services \<Rightarrow> ('w, bucket_info list) rpc" where
  "sb_list_buckets sv w = m_list_buckets sv w"

definition sb_create_bucket :: "'w services \<Rightarrow> string \<Rightarrow> ('w, unit) rpc" where
  "sb_create_bucket sv bucket w =
     (case now_timestamp sv w of
        (now, w) \<Rightarrow>
          m_create_bucket sv \<lparr>bi_name = bucket, bi_created_at = Some now, bi_owner = None,
            bi_versioning_enabled = False, bi_object_count = 0, bi_total_size = 0\<rparr> w)"

definition sb_delete_bucket :: "'w services \<Rightarrow> string \<Rightarrow> ('w, unit) rpc" where
  "sb_delete_bucket sv bucket w = m_delete_bucket sv bucket w"

definition sb_head_bucket :: "'w services \<Rightarrow> string \<Rightarrow> ('w, unit) rpc" where
  "sb_head_bucket sv bucket w = try_st (m_get_bucket sv bucket w) (\<lambda>_ w. (Inr (), w))"

definition sb_head_object :: "'w services \<Rightarrow> string \<Rightarrow> string \<Rightarrow> ('w, object_metadata) rpc" where
  "sb_head_object sv bucket key w = m_head_object sv bucket key w"

definition sb_get_object :: "'w services \<Rightarrow> bool \<Rightarrow> string \<Rightarrow> string \<Rightarrow> ('w, object_metadata \<times> bytes) rpc" where
  "sb_get_object sv cache bucket key w =
     try_st (sb_head_object sv bucket key w) (\<lambda>ob w.
     try_st (read_restored_object sv cache ob w) (\<lambda>data w. (Inr (ob, data), w)))"

definition new_object :: "timestamp \<Rightarrow> string \<Rightarrow> string \<Rightarrow> u64 \<Rightarrow> string \<Rightarrow> string option \<Rightarrow> object_metadata" where
  "new_object now bucket key size' checksum content_type =
     \<lparr>om_bucket = bucket, om_key = key, om_version_id = None, om_size = size', om_checksum = checksum,
      om_content_type = content_type, om_etag = Some checksum, om_storage_class = storage_class_i32 ColdPending,
      om_archive_id = None, om_tape_id = None, om_tape_set = [], om_tape_block_offset = None,
      om_restore_status = None, om_restore_expire_at = None, om_created_at = Some now, om_updated_at = Some now\<rparr>"

definition sb_put_object ::
  "(bytes \<Rightarrow> bytes) \<Rightarrow> 'w services \<Rightarrow> bool \<Rightarrow> string \<Rightarrow> string \<Rightarrow> bytes \<Rightarrow> string option \<Rightarrow> ('w, put_object_response) rpc" where
  "sb_put_object sha sv cache bucket key body content_type w =
     (let checksum = sha256_hex sha body
      in try_st (put_staging_object sv cache \<lparr>sp_bucket = bucket, sp_key = key, sp_version_id = None, sp_data = body,
             sp_checksum = checksum, sp_content_type = content_type, sp_etag = checksum\<rparr> w) (\<lambda>_ w.
           case now_timestamp sv w of
             (now, w) \<Rightarrow>
               (case m_put_object sv (new_object now bucket key (len_u64 body) checksum content_type) w of
                  (Inl status, w) \<Rightarrow> (Inl status, delete_staging_best_effort sv cache bucket key None w)
                | (Inr _, w) \<Rightarrow> (Inr \<lparr>por_etag = checksum, por_version_id = []\<rparr>, w))))"

definition sb_delete_object :: "'w services \<Rightarrow> bool \<Rightarrow> string \<Rightarrow> string \<Rightarrow> ('w, unit) rpc" where
  "sb_delete_object sv cache bucket key w =
     try_st (m_delete_object sv \<lparr>dor_bucket = bucket, dor_key = key\<rparr> w) (\<lambda>_ w.
       (Inr (), delete_cached_object_best_effort sv cache bucket key None w))"

definition pending_recall_task ::
  "string \<Rightarrow> string \<Rightarrow> object_metadata \<Rightarrow> string \<Rightarrow> string \<Rightarrow> u64 \<Rightarrow> restore_tier \<Rightarrow> u32 \<Rightarrow> timestamp \<Rightarrow> timestamp \<Rightarrow> recall_task" where
  "pending_recall_task bucket key ob archive_id tape_id tape_block_offset tier days expire_at now =
     \<lparr>rt_id = phase1_recall_task_id bucket key (om_version_id ob), rt_bucket = bucket, rt_key = key,
      rt_version_id = om_version_id ob, rt_archive_id = archive_id, rt_tape_id = tape_id, rt_tape_set = om_tape_set ob,
      rt_tape_block_offset = tape_block_offset, rt_object_size = om_size ob, rt_checksum = om_checksum ob,
      rt_tier = restore_tier_i32 tier, rt_days = max days 1, rt_expire_at = Some expire_at,
      rt_status = restore_status_i32 RestorePending, rt_drive_id = None, rt_retry_count = 0, rt_created_at = Some now,
      rt_started_at = None, rt_completed_at = None, rt_error = None\<rparr>"

definition open_restore ::
  "'w services \<Rightarrow> string \<Rightarrow> string \<Rightarrow> u32 \<Rightarrow> restore_tier \<Rightarrow> object_metadata \<Rightarrow> ('w, u32) rpc" where
  "open_restore sv bucket key days tier ob w =
     (case om_archive_id ob of
        None \<Rightarrow> (Inl (Status FailedPrecondition ''restore_object requires archive_id metadata''), w)
      | Some archive_id \<Rightarrow>
          (case om_tape_id ob of
             None \<Rightarrow> (Inl (Status FailedPrecondition ''restore_object requires tape_id metadata''), w)
           | Some tape_id \<Rightarrow>
               (case om_tape_block_offset ob of
                  None \<Rightarrow> (Inl (Status FailedPrecondition ''restore_object requires tape_block_offset metadata''), w)
                | Some tape_block_offset \<Rightarrow>
                    (case days_from_now sv (max days 1) w of
                       (expire_at, w) \<Rightarrow>
                         try_st (m_update_restore_status sv \<lparr>urs_bucket = bucket, urs_key = key,
                             urs_status = restore_status_i32 RestorePending, urs_expire_at = Some expire_at\<rparr> w) (\<lambda>_ w.
                           case now_timestamp sv w of
                             (now, w) \<Rightarrow>
                               (case m_put_recall_task sv (pending_recall_task bucket key ob archive_id tape_id
                                   tape_block_offset tier days expire_at now) w of
                                  (Inl status, w) \<Rightarrow>
                                    (Inl status, snd (update_object_restore_status sv bucket key RestoreFailed None w))
                                | (Inr _, w) \<Rightarrow> (Inr 202, w)))))))"

definition sb_restore_object ::
  "'w services \<Rightarrow> string \<Rightarrow> string \<Rightarrow> u32 \<Rightarrow> restore_tier \<Rightarrow> ('w, u32) rpc" where
  "sb_restore_object sv bucket key days tier w =
     try_st (m_get_object sv bucket key w) (\<lambda>ob w.
       if om_storage_class ob \<noteq> storage_class_i32 Cold
       then (Inl (Status FailedPrecondition
              ''restore_object requires an archived COLD object in phase-1 metadata-backed mode''), w)
       else if tier = Expedited
       then (Inl (Status Unavailable ''glacier expedited retrieval is not available in this environment''), w)
       else case Option.bind (om_restore_status ob) restore_status_try_from of
              Some RestoreUnspecified \<Rightarrow> open_restore sv bucket key days tier ob w
            | None \<Rightarrow> open_restore sv bucket key days tier ob w
            | Some RestoreCompleted \<Rightarrow> (Inr 200, w)
            | Some status \<Rightarrow>
                if status \<in> {RestorePending, RestoreWaitingForMedia, RestoreInProgress} then (Inr 409, w)
                else (Inl (Status FailedPrecondition
                  ''restore_object cannot reopen expired or failed restores in phase-1 metadata-backed mode''), w))"

definition sb_list_objects :: "'w services \<Rightarrow> scheduler_list_request \<Rightarrow> ('w, listing_page) rpc" where
  "sb_list_objects sv r w =
     try_st (m_list_objects sv \<lparr>lor_bucket = sl_bucket r, lor_prefix = sl_prefix r, lor_marker = sl_marker r,
         lor_max_keys = sl_max_keys r\<rparr> w) (\<lambda>response w.
       (Inr (build_list_objects_page (sl_bucket r) (lop_objects response) (sl_prefix r) (sl_marker r) (sl_delimiter r)
          (sl_max_keys r)), w))"

section \<open>The handlers\<close>

fun read_put_stream ::
  "put_object_meta option \<Rightarrow> bytes \<Rightarrow> put_object_payload messages \<Rightarrow> (put_object_meta option \<times> bytes) result" where
  "read_put_stream meta body [] = Inr (meta, body)"
| "read_put_stream meta body (Inl err # ms) = Inl err"
| "read_put_stream meta body (Inr None # ms) = Inl (Status InvalidArgument ''empty put_object chunk'')"
| "read_put_stream meta body (Inr (Some (PutObjectMeta m)) # ms) = read_put_stream (Some m) body ms"
| "read_put_stream meta body (Inr (Some (PutObjectData chunk)) # ms) = read_put_stream meta (body @ chunk) ms"

definition ss_put_object ::
  "(bytes \<Rightarrow> bytes) \<Rightarrow> 'w services \<Rightarrow> bool \<Rightarrow> put_object_payload messages \<Rightarrow> ('w, put_object_response) rpc" where
  "ss_put_object sha sv cache messages w =
     (case read_put_stream None [] messages of
        Inl err \<Rightarrow> (Inl err, w)
      | Inr (None, body) \<Rightarrow> (Inl (Status InvalidArgument ''missing put_object metadata''), w)
      | Inr (Some meta, body) \<Rightarrow>
          if po_content_length meta \<noteq> len_u64 body
          then (Inl (Status InvalidArgument ''content_length does not match body size''), w)
          else sb_put_object sha sv cache (po_bucket meta) (po_key meta) body (po_content_type meta) w)"

definition ss_get_object ::
  "http_date \<Rightarrow> 'w services \<Rightarrow> bool \<Rightarrow> string \<Rightarrow> string \<Rightarrow> ('w, get_object_payload messages) rpc" where
  "ss_get_object http_date sv cache bucket key w =
     try_st (sb_get_object sv cache bucket key w) (\<lambda>(ob, data) w.
       (Inr [Inr (Some (GetObjectMeta (build_get_object_meta http_date ob))), Inr (Some (GetObjectData data))], w))"

definition ss_head_object :: "http_date \<Rightarrow> 'w services \<Rightarrow> string \<Rightarrow> string \<Rightarrow> ('w, head_object_response) rpc" where
  "ss_head_object http_date sv bucket key w =
     try_st (sb_head_object sv bucket key w) (\<lambda>ob w. (Inr (build_head_object_response http_date ob), w))"

definition ss_delete_object :: "'w services \<Rightarrow> bool \<Rightarrow> string \<Rightarrow> string \<Rightarrow> ('w, unit) rpc" where
  "ss_delete_object sv cache bucket key w = try_st (sb_delete_object sv cache bucket key w) (\<lambda>_ w. (Inr (), w))"

definition ss_restore_object :: "'w services \<Rightarrow> restore_object_request \<Rightarrow> ('w, u32) rpc" where
  "ss_restore_object sv r w =
     (case restore_tier_try_from (ror_tier r) of
        None \<Rightarrow> (Inl (Status InvalidArgument ''invalid restore tier''), w)
      | Some tier \<Rightarrow> sb_restore_object sv (ror_bucket r) (ror_key r) (ror_days r) tier w)"

definition ss_list_objects :: "'w services \<Rightarrow> scheduler_list_request \<Rightarrow> ('w, scheduler_list_response) rpc" where
  "ss_list_objects sv r w =
     try_st (sb_list_objects sv r w) (\<lambda>page w.
       (Inr \<lparr>lr_bucket = sl_bucket r, lr_prefix = sl_prefix r, lr_marker = sl_marker r,
          lr_next_marker = pg_next_marker page, lr_max_keys = sl_max_keys r, lr_is_truncated = pg_is_truncated page,
          lr_contents = map build_object_entry (pg_objects page), lr_common_prefixes = pg_common_prefixes page\<rparr>, w))"

definition ss_create_bucket :: "'w services \<Rightarrow> string \<Rightarrow> ('w, unit) rpc" where
  "ss_create_bucket sv bucket w = try_st (sb_create_bucket sv bucket w) (\<lambda>_ w. (Inr (), w))"

definition ss_delete_bucket :: "'w services \<Rightarrow> string \<Rightarrow> ('w, unit) rpc" where
  "ss_delete_bucket sv bucket w = try_st (sb_delete_bucket sv bucket w) (\<lambda>_ w. (Inr (), w))"

definition ss_head_bucket :: "'w services \<Rightarrow> string \<Rightarrow> ('w, unit) rpc" where
  "ss_head_bucket sv bucket w = try_st (sb_head_bucket sv bucket w) (\<lambda>_ w. (Inr (), w))"

definition ss_list_buckets :: "'w services \<Rightarrow> ('w, bucket_entry list) rpc" where
  "ss_list_buckets sv w =
     try_st (sb_list_buckets sv w) (\<lambda>buckets w. (Inr (map build_bucket_entry buckets), w))"

section \<open>One pass of the background loops\<close>

definition archive_tape_set :: "archive_scheduler_config \<Rightarrow> string list" where
  "archive_tape_set c = (if asc_tape_set c = [] then [asc_tape_id c] else asc_tape_set c)"

definition archive_staging_once ::
  "(bytes \<Rightarrow> bytes) \<Rightarrow> 'w services \<Rightarrow> scheduler_state \<times> 'w \<Rightarrow> archive_batch_result result \<times> (scheduler_state \<times> 'w)" where
  "archive_staging_once sha sv s =
     (case s of (st, w) \<Rightarrow>
        if \<not> sst_cache st then (Inl (Status FailedPrecondition ''scheduler cache client is not configured''), (st, w))
        else if \<not> sst_tape st then (Inl (Status FailedPrecondition ''scheduler tape client is not configured''), (st, w))
        else let c = sc_archive (sst_config st); tape_set = archive_tape_set c;
                 tape_id = (case tape_set of t # _ \<Rightarrow> t | [] \<Rightarrow> asc_tape_id c);
                 st = acquire_tape_lease tape_id st
             in archive_staging_batch sha sv True (cache_archive_client sv)
                  (tape_write_bundle sv \<lparr>tac_drive_id = asc_drive_id c, tac_tape_id = asc_tape_id c,
                     tac_tape_set = tape_set, tac_block_size = asc_block_size c\<rparr>)
                  (word_of_nat (min (asc_batch_size c) (2 ^ 32 - 1))) (st, w))"

definition recall_pending_once ::
  "(bytes \<Rightarrow> bytes) \<Rightarrow> 'w services \<Rightarrow> usize \<Rightarrow> scheduler_state \<times> 'w \<Rightarrow> recall_batch_result result \<times> (scheduler_state \<times> 'w)" where
  "recall_pending_once sha sv max_tasks s =
     (case s of (st, w) \<Rightarrow>
        if \<not> sst_cache st then (Inl (Status FailedPrecondition ''scheduler cache client is not configured''), (st, w))
        else if \<not> sst_tape st then (Inl (Status FailedPrecondition ''scheduler tape client is not configured''), (st, w))
        else let c = sc_recall (sst_config st)
             in recall_pending_batch sha sv (cache_restore_client sha sv) (tape_read_bundle sv (rsc_drive_id c))
                  (min max_tasks (rsc_max_concurrent_restores c)) (st, w))"

text \<open>A tick of an agent: the outcome is only logged.\<close>

definition archive_agent_tick :: "(bytes \<Rightarrow> bytes) \<Rightarrow> 'w services \<Rightarrow> scheduler_state \<times> 'w \<Rightarrow> scheduler_state \<times> 'w" where
  "archive_agent_tick sha sv s = snd (archive_staging_once sha sv s)"

definition recall_agent_tick :: "(bytes \<Rightarrow> bytes) \<Rightarrow> 'w services \<Rightarrow> scheduler_state \<times> 'w \<Rightarrow> scheduler_state \<times> 'w" where
  "recall_agent_tick sha sv s =
     snd (recall_pending_once sha sv (max (rsc_max_concurrent_restores (sc_recall (sst_config (fst s)))) 1) s)"

definition spawn_background_loops :: "scheduler_config \<Rightarrow> usize \<times> usize" where
  "spawn_background_loops c =
     (if asc_enabled (sc_archive c) then max (asc_max_workers (sc_archive c)) 1 else 0,
      if rsc_enabled (sc_recall c) then max (rsc_max_workers (sc_recall c)) 1 else 0)"

section \<open>The start of the worker\<close>

text \<open>
  A connection attempt is an operation on the state of the network. The loop makes at most
  thirty of them; the error that remains is the last one.
\<close>

fun connect_attempts ::
  "nat \<Rightarrow> (string \<Rightarrow> 'n \<Rightarrow> (string + 'c) \<times> 'n) \<Rightarrow> string \<Rightarrow> string option \<Rightarrow> string \<Rightarrow> 'n \<Rightarrow> (string + 'c) \<times> 'n" where
  "connect_attempts 0 connect none last_error addr n =
     (Inl (case last_error of Some err \<Rightarrow> err | None \<Rightarrow> none), n)"
| "connect_attempts (Suc attempts) connect none last_error addr n =
     (case connect addr n of
        (Inr client, n) \<Rightarrow> (Inr client, n)
      | (Inl err, n) \<Rightarrow> connect_attempts attempts connect none (Some err) addr n)"

definition connect_metadata_with_retry :: "(string \<Rightarrow> 'n \<Rightarrow> (string + 'c) \<times> 'n) \<Rightarrow> string \<Rightarrow> 'n \<Rightarrow> (string + 'c) \<times> 'n" where
  "connect_metadata_with_retry connect addr n =
     connect_attempts 30 connect ''metadata connection retry loop did not run'' None addr n"

definition connect_cache_with_retry :: "(string \<Rightarrow> 'n \<Rightarrow> (string + 'c) \<times> 'n) \<Rightarrow> string \<Rightarrow> 'n \<Rightarrow> (string + 'c) \<times> 'n" where
  "connect_cache_with_retry connect addr n =
     connect_attempts 30 connect ''cache connection retry loop did not run'' None addr n"

definition connect_tape_with_retry :: "(string \<Rightarrow> 'n \<Rightarrow> (string + 'c) \<times> 'n) \<Rightarrow> string \<Rightarrow> 'n \<Rightarrow> (string + 'c) \<times> 'n" where
  "connect_tape_with_retry connect addr n =
     connect_attempts 30 connect ''tape connection retry loop did not run'' None addr n"

text \<open>
  The state a worker starts with. \<open>None\<close> stands for the panic on an empty list of metadata
  addresses. The parsing of the listen address is a parameter: its error, if it has one.
\<close>

definition scheduler_start ::
  "(string \<Rightarrow> string option) \<Rightarrow> (string \<Rightarrow> 'n \<Rightarrow> (string + 'm) \<times> 'n) \<Rightarrow> (string \<Rightarrow> 'n \<Rightarrow> (string + 'k) \<times> 'n) \<Rightarrow>
   (string \<Rightarrow> 'n \<Rightarrow> (string + 't) \<times> 'n) \<Rightarrow> scheduler_config \<Rightarrow> 'n \<Rightarrow>
   (string + ('m \<times> 'k \<times> 't option \<times> scheduler_state)) option \<times> 'n" where
  "scheduler_start addr_error connect_metadata connect_cache connect_tape c n =
     (case addr_error (sc_listen c) of
        Some err \<Rightarrow> (Some (Inl err), n)
      | None \<Rightarrow>
          (case sc_metadata_addrs c of
             [] \<Rightarrow> (None, n)
           | metadata_addr # _ \<Rightarrow>
               (case connect_metadata_with_retry connect_metadata (''http://'' @ metadata_addr) n of
                  (Inl err, n) \<Rightarrow> (Some (Inl err), n)
                | (Inr metadata, n) \<Rightarrow>
                    (case sc_cache_addrs c of
                       [] \<Rightarrow> (Some (Inl ''scheduler requires at least one cache address''), n)
                     | cache_addr # _ \<Rightarrow>
                         (case connect_cache_with_retry connect_cache (''http://'' @ cache_addr) n of
                            (Inl err, n) \<Rightarrow> (Some (Inl err), n)
                          | (Inr cache, n) \<Rightarrow>
                              (let start = (\<lambda>tape. Inr (metadata, cache, tape,
                                   \<lparr>sst_cache = True, sst_tape = (tape \<noteq> None), sst_config = c,
                                    sst_active_archive_keys = {}, sst_active_recall_tasks = {}, sst_tape_locks = []\<rparr>))
                               in if asc_enabled (sc_archive c) \<or> rsc_enabled (sc_recall c)
                                  then case sc_tape_addrs c of
                                         [] \<Rightarrow> (Some (Inl ''scheduler requires at least one tape address''), n)
                                       | tape_addr # _ \<Rightarrow>
                                           (case connect_tape_with_retry connect_tape (''http://'' @ tape_addr) n of
                                              (Inl err, n) \<Rightarrow> (Some (Inl err), n)
                                            | (Inr tape, n) \<Rightarrow> (Some (start (Some tape)), n))
                                  else (Some (start None), n)))))))"

end
