(* ===== verification/Gateway_Protocol.thy ===== *)
theory Gateway_Protocol
  imports Scheduler_Service
begin

text \<open>
  The protocol layer of the S3 gateway (\<open>crates/gateway/src/protocol.rs\<close>): the error codes
  and their XML, the restore header, and the parsing of restore requests. Strings are their
  UTF-8 bytes; white space and letter case are the ASCII ones.
\<close>

section \<open>Errors\<close>

datatype s3_error_code =
    S3_InvalidObjectState | S3_InvalidArgument | S3_RestoreAlreadyInProgress
  | S3_GlacierExpeditedRetrievalNotAvailable | S3_SlowDown | S3_ServiceUnavailable | S3_TooManyRequests
  | S3_NoSuchKey | S3_NoSuchBucket | S3_PreconditionFailed | S3_NotModified | S3_NotImplemented

primrec as_str :: "s3_error_code \<Rightarrow> string" where
  "as_str S3_InvalidObjectState = ''InvalidObjectState''"
| "as_str S3_InvalidArgument = ''InvalidArgument''"
| "as_str S3_RestoreAlreadyInProgress = ''RestoreAlreadyInProgress''"
| "as_str S3_GlacierExpeditedRetrievalNotAvailable = ''GlacierExpeditedRetrievalNotAvailable''"
| "as_str S3_SlowDown = ''SlowDown''"
| "as_str S3_ServiceUnavailable = ''ServiceUnavailable''"
| "as_str S3_TooManyRequests = ''TooManyRequests''"
| "as_str S3_NoSuchKey = ''NoSuchKey''"
| "as_str S3_NoSuchBucket = ''NoSuchBucket''"
| "as_str S3_PreconditionFailed = ''PreconditionFailed''"
| "as_str S3_NotModified = ''NotModified''"
| "as_str S3_NotImplemented = ''NotImplemented''"

primrec http_status :: "s3_error_code \<Rightarrow> nat" where
  "http_status S3_InvalidObjectState = 403"
| "http_status S3_InvalidArgument = 400"
| "http_status S3_RestoreAlreadyInProgress = 409"
| "http_status S3_GlacierExpeditedRetrievalNotAvailable = 503"
| "http_status S3_SlowDown = 503"
| "http_status S3_ServiceUnavailable = 503"
| "http_status S3_TooManyRequests = 429"
| "http_status S3_NoSuchKey = 404"
| "http_status S3_NoSuchBucket = 404"
| "http_status S3_PreconditionFailed = 412"
| "http_status S3_NotModified = 304"
| "http_status S3_NotImplemented = 501"

definition escape_xml :: "string \<Rightarrow> string" where
  "escape_xml v =
     (let v = replace_char (CHR ''&'') ''&amp;'' v;
          v = replace_char (CHR ''<'') ''&lt;'' v;
          v = replace_char (CHR ''>'') ''&gt;'' v;
          v = replace_char (CHR 0x22) ''&quot;'' v
      in replace_char (CHR 0x27) ''&apos;'' v)"

record s3_error_response =
  er_code :: s3_error_code
  er_message :: string
  er_resource :: string

definition to_xml :: "s3_error_response \<Rightarrow> string" where
  "to_xml e =
     ''<?xml version=\"1.0\" encoding=\"UTF-8\"?><Error><Code>'' @ as_str (er_code e) @ ''</Code><Message>'' @
     escape_xml (er_message e) @ ''</Message><Resource>'' @ escape_xml (er_resource e) @ ''</Resource></Error>''"

section \<open>Restore requests\<close>

definition MAX_RESTORE_DAYS :: u32 where
  "MAX_RESTORE_DAYS = 365"

definition format_restore_header :: "bool \<Rightarrow> string option \<Rightarrow> string" where
  "format_restore_header ongoing expiry_date =
     (if ongoing then ''ongoing-request=\"true\"''
      else case expiry_date of
             Some date \<Rightarrow> ''ongoing-request=\"false\", expiry-date=\"'' @ date @ ''\"''
           | None \<Rightarrow> ''ongoing-request=\"false\"'')"

definition is_restore_request :: "string option \<Rightarrow> bool" where
  "is_restore_request query \<longleftrightarrow>
     (\<exists>item \<in> set (split_char (CHR ''&'') (unwrap_or_default query)). item = ''restore'' \<or> starts_with ''restore='' item)"

record restore_request =
  rr_days :: u32
  rr_tier :: restore_tier

datatype restore_parse_error = InvalidBody | InvalidDays | InvalidTier

definition find_xml_value :: "string \<Rightarrow> string \<Rightarrow> string option" where
  "find_xml_value source tag =
     (let opening = ''<'' @ tag @ ''>''; closing = ''</'' @ tag @ ''>''
      in case str_find opening source of
           None \<Rightarrow> None
         | Some open_pos \<Rightarrow>
             (let rest = drop (open_pos + length opening) source
              in map_option (\<lambda>value_end. trim (take value_end rest)) (str_find closing rest)))"

definition parse_tier :: "string \<Rightarrow> restore_tier option" where
  "parse_tier raw =
     (let t = to_lowercase (trim raw)
      in if t = ''expedited'' then Some Expedited
         else if t = ''standard'' then Some Standard
         else if t = ''bulk'' then Some Bulk
         else None)"

text \<open>\<open>str::from_utf8\<close>: the well-formed sequences of one to four bytes.\<close>

definition utf8_cont :: "u8 \<Rightarrow> bool" where
  "utf8_cont b \<longleftrightarrow> 0x80 \<le> b \<and> b \<le> 0xBF"

definition utf8_lead3 :: "u8 \<Rightarrow> u8 \<Rightarrow> bool" where
  "utf8_lead3 a b \<longleftrightarrow>
     (a = 0xE0 \<and> 0xA0 \<le> b \<and> b \<le> 0xBF) \<or> (0xE1 \<le> a \<and> a \<le> 0xEC \<and> utf8_cont b) \<or>
     (a = 0xED \<and> 0x80 \<le> b \<and> b \<le> 0x9F) \<or> (0xEE \<le> a \<and> a \<le> 0xEF \<and> utf8_cont b)"

definition utf8_lead4 :: "u8 \<Rightarrow> u8 \<Rightarrow> bool" where
  "utf8_lead4 a b \<longleftrightarrow>
     (a = 0xF0 \<and> 0x90 \<le> b \<and> b \<le> 0xBF) \<or> (0xF1 \<le> a \<and> a \<le> 0xF3 \<and> utf8_cont b) \<or>
     (a = 0xF4 \<and> 0x80 \<le> b \<and> b \<le> 0x8F)"

fun utf8_valid :: "bytes \<Rightarrow> bool" where
  "utf8_valid [] = True"
| "utf8_valid [a] = (a < 0x80)"
| "utf8_valid [a, b] = (if a < 0x80 then utf8_valid [b] else 0xC2 \<le> a \<and> a \<le> 0xDF \<and> utf8_cont b)"
| "utf8_valid [a, b, c] =
     (if a < 0x80 then utf8_valid [b, c]
      else if 0xC2 \<le> a \<and> a \<le> 0xDF then utf8_cont b \<and> utf8_valid [c]
      else utf8_lead3 a b \<and> utf8_cont c)"
| "utf8_valid (a # b # c # d # bs) =
     (if a < 0x80 then utf8_valid (b # c # d # bs)
      else if 0xC2 \<le> a \<and> a \<le> 0xDF then utf8_cont b \<and> utf8_valid (c # d # bs)
      else if 0xE0 \<le> a \<and> a \<le> 0xEF then utf8_lead3 a b \<and> utf8_cont c \<and> utf8_valid (d # bs)
      else utf8_lead4 a b \<and> utf8_cont c \<and> utf8_cont d \<and> utf8_valid bs)"

definition from_utf8 :: "bytes \<Rightarrow> string option" where
  "from_utf8 bs = (if utf8_valid bs then Some (map (\<lambda>b. char_of (unat b)) bs) else None)"

definition checked_days :: "u32 option \<Rightarrow> restore_parse_error + u32" where
  "checked_days parsed =
     (case parsed of
        None \<Rightarrow> Inl InvalidDays
      | Some days \<Rightarrow> if days = 0 \<or> days > MAX_RESTORE_DAYS then Inl InvalidDays else Inr days)"

definition parse_restore_request ::
  "(string, string) hashmap \<Rightarrow> bytes \<Rightarrow> restore_parse_error + restore_request" where
  "parse_restore_request query body =
     try_then (if body = [] then Inr None
               else case from_utf8 body of None \<Rightarrow> Inl InvalidBody | Some xml \<Rightarrow> Inr (Some xml)) (\<lambda>body_xml.
     try_then (case Option.bind body_xml (\<lambda>xml. find_xml_value xml ''Days'') of
                 Some days_raw \<Rightarrow> checked_days (parse_u32 days_raw)
               | None \<Rightarrow>
                   checked_days (case hm_get query ''days'' of None \<Rightarrow> Some 1 | Some days \<Rightarrow> parse_u32 days)) (\<lambda>days.
     try_then (case (case Option.bind body_xml (\<lambda>xml. find_xml_value xml ''Tier'') of
                       Some raw_tier \<Rightarrow> parse_tier raw_tier
                     | None \<Rightarrow> parse_tier (case hm_get query ''tier'' of Some t \<Rightarrow> t | None \<Rightarrow> ''Standard'')) of
                 None \<Rightarrow> Inl InvalidTier
               | Some tier \<Rightarrow> Inr tier) (\<lambda>tier.
     Inr \<lparr>rr_days = days, rr_tier = tier\<rparr>)))"

end
