(* ===== verification/Gateway_Backend.thy ===== *)
theory Gateway_Backend
  imports Gateway_Protocol
begin

text \<open>
  The backend of the gateway (\<open>crates/gateway/src/lib.rs\<close>): a client that connects to one
  of a fleet of scheduler workers for each request, starting at the next address of the
  list, and passes the request on.
\<close>

section \<open>The interfaces\<close>

text \<open>The calls a connected client offers.\<close>

record 'w scheduler_client =
  cl_list_buckets :: "('w, bucket_entry list) rpc"
  cl_create_bucket :: "string \<Rightarrow> ('w, unit) rpc"
  cl_delete_bucket :: "string \<Rightarrow> ('w, unit) rpc"
  cl_head_bucket :: "string \<Rightarrow> ('w, unit) rpc"
  cl_list_objects :: "scheduler_list_request \<Rightarrow> ('w, scheduler_list_response) rpc"
  cl_put_object :: "put_object_payload messages \<Rightarrow> ('w, put_object_response) rpc"
  cl_get_object :: "string \<Rightarrow> string \<Rightarrow> ('w, get_object_payload messages) rpc"
  cl_delete_object :: "string \<Rightarrow> string \<Rightarrow> ('w, unit) rpc"
  cl_head_object :: "string \<Rightarrow> string \<Rightarrow> ('w, head_object_response) rpc"
  cl_restore_object :: "restore_object_request \<Rightarrow> ('w, u32) rpc"

record downloaded_object =
  do_head :: head_object_response
  do_body :: bytes

text \<open>The trait the HTTP handlers use.\<close>

record 'w gateway_backend =
  gb_list_buckets :: "('w, bucket_entry list) rpc"
  gb_create_bucket :: "string \<Rightarrow> ('w, unit) rpc"
  gb_delete_bucket :: "string \<Rightarrow> ('w, unit) rpc"
  gb_head_bucket :: "string \<Rightarrow> ('w, unit) rpc"
  gb_list_objects :: "scheduler_list_request \<Rightarrow> ('w, scheduler_list_response) rpc"
  gb_put_object :: "string \<Rightarrow> string \<Rightarrow> bytes \<Rightarrow> string option \<Rightarrow> ('w, put_object_response) rpc"
  gb_get_object :: "string \<Rightarrow> string \<Rightarrow> ('w, downloaded_object) rpc"
  gb_delete_object :: "string \<Rightarrow> string \<Rightarrow> ('w, unit) rpc"
  gb_head_object :: "string \<Rightarrow> string \<Rightarrow> ('w, head_object_response) rpc"
  gb_restore_object :: "string \<Rightarrow> string \<Rightarrow> u32 \<Rightarrow> restore_tier \<Rightarrow> ('w, u32) rpc"

section \<open>Connecting\<close>

definition normalize_scheduler_addr :: "string \<Rightarrow> string" where
  "normalize_scheduler_addr addr =
     (if starts_with ''http://'' addr \<or> starts_with ''https://'' addr then addr else ''http://'' @ addr)"

text \<open>
  A connection attempt is an operation of the world, with the message of the transport error
  when it fails. The counter \<open>next_addr\<close> is part of the state and wraps at the word size.
\<close>

type_synonym 'w connector = "string \<Rightarrow> 'w \<Rightarrow> (string + 'w scheduler_client) \<times> 'w"

fun connect_from ::
  "'w connector \<Rightarrow> string list \<Rightarrow> usize \<Rightarrow> status option \<Rightarrow> usize list \<Rightarrow> 'w \<Rightarrow> 'w scheduler_client result \<times> 'w" where
  "connect_from connect addrs base last_error [] w =
     (Inl (case last_error of Some err \<Rightarrow> err
           | None \<Rightarrow> Status Unavailable ''all scheduler addresses are unavailable''), w)"
| "connect_from connect addrs base last_error (offset # offsets) w =
     (let index = (base + offset) mod (usize_MAX + 1) mod length addrs
      in case connect (normalize_scheduler_addr (addrs ! index)) w of
           (Inr client, w) \<Rightarrow> (Inr client, w)
         | (Inl err, w) \<Rightarrow> connect_from connect addrs base (Some (Status Unavailable err)) offsets w)"

definition grpc_connect ::
  "'w connector \<Rightarrow> string list \<Rightarrow> usize \<times> 'w \<Rightarrow> 'w scheduler_client result \<times> (usize \<times> 'w)" where
  "grpc_connect connect addrs s =
     (case s of (next_addr, w) \<Rightarrow>
        if addrs = [] then (Inl (Status Unavailable ''no scheduler addresses configured''), (next_addr, w))
        else case connect_from connect addrs next_addr None [0..<length addrs] w of
               (r, w) \<Rightarrow> (r, ((next_addr + 1) mod (usize_MAX + 1), w)))"

definition with_client ::
  "'w connector \<Rightarrow> string list \<Rightarrow> ('w scheduler_client \<Rightarrow> ('w, 'a) rpc) \<Rightarrow> (usize \<times> 'w, 'a) rpc" where
  "with_client connect addrs call s =
     try_st (grpc_connect connect addrs s) (\<lambda>client (next_addr, w).
       case call client w of (r, w) \<Rightarrow> (r, (next_addr, w)))"

section \<open>The operations\<close>

definition grpc_put_object ::
  "'w connector \<Rightarrow> string list \<Rightarrow> string \<Rightarrow> string \<Rightarrow> bytes \<Rightarrow> string option \<Rightarrow> (usize \<times> 'w, put_object_response) rpc" where
  "grpc_put_object connect addrs bucket key body content_type =
     with_client connect addrs (\<lambda>client.
       cl_put_object client
         [Inr (Some (PutObjectMeta \<lparr>po_bucket = bucket, po_key = key, po_content_length = len_u64 body,
            po_content_type = content_type, po_checksum_sha256 = None\<rparr>)),
          Inr (Some (PutObjectData body))])"

text \<open>
  The download: the first message has to be the metadata, the data messages that follow are
  concatenated, and any other message is skipped.
\<close>

fun read_body :: "bytes \<Rightarrow> get_object_payload messages \<Rightarrow> bytes result" where
  "read_body body [] = Inr body"
| "read_body body (Inl err # ms) = Inl err"
| "read_body body (Inr (Some (GetObjectData chunk)) # ms) = read_body (body @ chunk) ms"
| "read_body body (Inr other # ms) = read_body body ms"

definition head_of_meta :: "get_object_meta \<Rightarrow> head_object_response" where
  "head_of_meta m =
     \<lparr>ho_content_length = gm_content_length m, ho_content_type = gm_content_type m, ho_etag = gm_etag m,
      ho_storage_class = gm_storage_class m, ho_restore_info = gm_restore_info m,
      ho_last_modified = gm_last_modified m\<rparr>"

definition read_download :: "get_object_payload messages \<Rightarrow> downloaded_object result" where
  "read_download messages =
     (case messages of
        [] \<Rightarrow> Inl (Status Internal ''missing object metadata chunk'')
      | Inl err # ms \<Rightarrow> Inl err
      | Inr (Some (GetObjectMeta m)) # ms \<Rightarrow>
          try_then (read_body [] ms) (\<lambda>body. Inr \<lparr>do_head = head_of_meta m, do_body = body\<rparr>)
      | _ \<Rightarrow> Inl (Status Internal ''first object chunk was not metadata''))"

definition grpc_get_object ::
  "'w connector \<Rightarrow> string list \<Rightarrow> string \<Rightarrow> string \<Rightarrow> (usize \<times> 'w, downloaded_object) rpc" where
  "grpc_get_object connect addrs bucket key =
     with_client connect addrs (\<lambda>client w.
       try_st (cl_get_object client bucket key w) (\<lambda>messages w. (read_download messages, w)))"

definition grpc_restore_object ::
  "'w connector \<Rightarrow> string list \<Rightarrow> string \<Rightarrow> string \<Rightarrow> u32 \<Rightarrow> restore_tier \<Rightarrow> (usize \<times> 'w, u32) rpc" where
  "grpc_restore_object connect addrs bucket key days tier =
     with_client connect addrs (\<lambda>client.
       cl_restore_object client \<lparr>ror_bucket = bucket, ror_key = key, ror_version_id = None, ror_days = days,
         ror_tier = restore_tier_i32 tier\<rparr>)"

definition grpc_gateway_backend :: "'w connector \<Rightarrow> string list \<Rightarrow> (usize \<times> 'w) gateway_backend" where
  "grpc_gateway_backend connect addrs =
     \<lparr>gb_list_buckets = with_client connect addrs cl_list_buckets,
      gb_create_bucket = (\<lambda>bucket. with_client connect addrs (\<lambda>client. cl_create_bucket client bucket)),
      gb_delete_bucket = (\<lambda>bucket. with_client connect addrs (\<lambda>client. cl_delete_bucket client bucket)),
      gb_head_bucket = (\<lambda>bucket. with_client connect addrs (\<lambda>client. cl_head_bucket client bucket)),
      gb_list_objects = (\<lambda>request. with_client connect addrs (\<lambda>client. cl_list_objects client request)),
      gb_put_object = grpc_put_object connect addrs,
      gb_get_object = grpc_get_object connect addrs,
      gb_delete_object = (\<lambda>bucket key. with_client connect addrs (\<lambda>client. cl_delete_object client bucket key)),
      gb_head_object = (\<lambda>bucket key. with_client connect addrs (\<lambda>client. cl_head_object client bucket key)),
      gb_restore_object = grpc_restore_object connect addrs\<rparr>"

text \<open>The addresses the gateway starts with.\<close>

definition gateway_start :: "gateway_config \<Rightarrow> string + string list" where
  "gateway_start c =
     (if gc_scheduler_addrs c = [] then Inl ''gateway requires at least one scheduler address''
      else Inr (map normalize_scheduler_addr (gc_scheduler_addrs c)))"

section \<open>A scheduler worker behind the connection\<close>

text \<open>
  The calls of a client whose channel does not fail: the handlers of a scheduler worker on
  the services behind it.
\<close>

definition scheduler_handlers :: "(bytes \<Rightarrow> bytes) \<Rightarrow> http_date \<Rightarrow> 'w services \<Rightarrow> bool \<Rightarrow> 'w scheduler_client" where
  "scheduler_handlers sha http_date sv cache =
     \<lparr>cl_list_buckets = ss_list_buckets sv, cl_create_bucket = ss_create_bucket sv,
      cl_delete_bucket = ss_delete_bucket sv, cl_head_bucket = ss_head_bucket sv,
      cl_list_objects = ss_list_objects sv, cl_put_object = ss_put_object sha sv cache,
      cl_get_object = ss_get_object http_date sv cache, cl_delete_object = ss_delete_object sv cache,
      cl_head_object = ss_head_object http_date sv, cl_restore_object = ss_restore_object sv\<rparr>"

end
