(* ===== verification/Gateway_Handler.thy ===== *)
theory Gateway_Handler
  imports Gateway_Backend
begin

text \<open>
  The HTTP handlers of the gateway (\<open>crates/gateway/src/handler.rs\<close>). A request has been
  routed and its query decoded by the HTTP library. A header value is its string, or
  \<open>None\<close> when it is not printable ASCII and \<open>to_str\<close> fails. What makes a string a valid
  header value is the parameter \<open>hv\<close>, dates are read by the calendar library (the record
  \<open>date_parsers\<close>) and printed by \<open>http_date\<close>. A handler returns \<open>None\<close> where the code
  panics.
\<close>

section \<open>Responses\<close>

record http_response =
  rs_status :: nat
  rs_headers :: "(string, string) hashmap"
  rs_body :: bytes

type_synonym headers = "(string, string option) hashmap"

definition empty_response :: "nat \<Rightarrow> http_response" where
  "empty_response status = \<lparr>rs_status = status, rs_headers = [], rs_body = []\<rparr>"

definition insert_header :: "string \<Rightarrow> string \<Rightarrow> http_response \<Rightarrow> http_response" where
  "insert_header name v r = r\<lparr>rs_headers := hm_insert name v (rs_headers r)\<rparr>"

definition s3_xml_response :: "nat \<Rightarrow> string \<Rightarrow> http_response" where
  "s3_xml_response status body =
     insert_header ''content-type'' ''application/xml'' \<lparr>rs_status = status, rs_headers = [], rs_body = ascii body\<rparr>"

definition xml_response :: "nat \<Rightarrow> string \<Rightarrow> http_response" where
  "xml_response status body = s3_xml_response status body"

definition bad_request_response_with_code :: "s3_error_code \<Rightarrow> string \<Rightarrow> string \<Rightarrow> http_response" where
  "bad_request_response_with_code c message resource =
     s3_xml_response 400 (to_xml \<lparr>er_code = c, er_message = message, er_resource = resource\<rparr>)"

definition bad_request_response :: "string \<Rightarrow> string \<Rightarrow> http_response" where
  "bad_request_response operation resource =
     bad_request_response_with_code S3_NotImplemented (''unsupported POST action for '' @ operation) resource"

definition precondition_failed_response :: "string \<Rightarrow> string \<Rightarrow> http_response" where
  "precondition_failed_response message resource =
     s3_xml_response 412 (to_xml \<lparr>er_code = S3_PreconditionFailed, er_message = message, er_resource = resource\<rparr>)"

definition not_modified_response :: "(string \<Rightarrow> bool) \<Rightarrow> string \<Rightarrow> string \<Rightarrow> http_response" where
  "not_modified_response hv resource etag =
     insert_header ''x-amz-request-id'' (if hv resource then resource else ''-'')
       (insert_header ''etag'' (if hv etag then etag else [CHR 0x22, CHR 0x22]) (empty_response 304))"

definition range_not_satisfiable_response :: "u64 \<Rightarrow> http_response" where
  "range_not_satisfiable_response body_size =
     insert_header ''content-range'' (''bytes */'' @ show_word body_size) (empty_response 416)"

section \<open>Errors of the backend\<close>

datatype cache_reject_status = Backpressure | RateLimited | InvalidRequest

definition cache_reject_status_hint :: "string \<Rightarrow> cache_reject_status option" where
  "cache_reject_status_hint message =
     (let message = trim message
      in if \<not> starts_with ''capacity_reject:'' message then None
         else let reason = hd (split_char (CHR '':'') (drop (length ''capacity_reject:'') message))
              in if reason = ''incoming_larger_than_capacity'' then Some InvalidRequest
                 else if reason \<in> {''client_rate_limited'', ''concurrency_limit_exceeded'', ''request_rate_exceeded''}
                 then Some RateLimited
                 else if reason \<in> {''staging_budget_exceeded'', ''restored_budget_exceeded'', ''global_capacity_exceeded'',
                   ''low_watermark_exceeded'', ''no_eviction_candidate'', ''zero_capacity''}
                 then Some Backpressure
                 else None)"

definition error_mapping :: "status \<Rightarrow> string \<Rightarrow> s3_error_code \<times> nat \<times> nat option" where
  "error_mapping status resource =
     (case status_code status of
        AlreadyExists \<Rightarrow> (S3_RestoreAlreadyInProgress, 409, None)
      | NotFound \<Rightarrow>
          (if length (filter (\<lambda>c. c = CHR ''/'') resource) > 1 then S3_NoSuchKey else S3_NoSuchBucket, 404, None)
      | InvalidArgument \<Rightarrow> (S3_InvalidArgument, 400, None)
      | FailedPrecondition \<Rightarrow> (S3_InvalidObjectState, 403, None)
      | Unavailable \<Rightarrow>
          if str_contains ''glacier expedited retrieval is not available'' (to_lowercase (status_message status))
          then (S3_GlacierExpeditedRetrievalNotAvailable, 503, Some 1)
          else (S3_ServiceUnavailable, 503, Some 1)
      | ResourceExhausted \<Rightarrow>
          (case cache_reject_status_hint (status_message status) of
             Some Backpressure \<Rightarrow> (S3_SlowDown, 503, Some 1)
           | Some RateLimited \<Rightarrow> (S3_SlowDown, 503, Some 1)
           | Some InvalidRequest \<Rightarrow> (S3_InvalidArgument, 400, None)
           | None \<Rightarrow> (S3_SlowDown, 503, Some 1))
      | Unimplemented \<Rightarrow> (S3_NotImplemented, 501, None)
      | _ \<Rightarrow> (S3_NotImplemented, 502, None))"

definition grpc_status_to_s3_response :: "status \<Rightarrow> string \<Rightarrow> http_response" where
  "grpc_status_to_s3_response status resource =
     (case error_mapping status resource of
        (c, http, retry_after) \<Rightarrow>
          (let response = s3_xml_response http
                 (to_xml \<lparr>er_code = c, er_message = status_message status, er_resource = resource\<rparr>)
           in case retry_after of
                None \<Rightarrow> response
              | Some seconds \<Rightarrow> insert_header ''retry-after'' (nat_to_string seconds) response))"

section \<open>Byte ranges\<close>

datatype byte_range_parse_error = Malformed | Unsatisfiable

definition parse_byte_range :: "string \<Rightarrow> usize \<Rightarrow> byte_range_parse_error + (usize \<times> usize) option" where
  "parse_byte_range raw_range object_size =
     (case split_once (CHR ''='') (trim raw_range) of
        None \<Rightarrow> Inl Malformed
      | Some (unit', spec) \<Rightarrow>
          if \<not> eq_ignore_ascii_case unit' ''bytes'' then Inl Malformed
          else if spec = [] then Inl Malformed
          else if object_size = 0 then Inl Unsatisfiable
          else if CHR '','' \<in> set spec then Inl Malformed
          else case split_once (CHR ''-'') spec of
                 None \<Rightarrow> Inl Malformed
               | Some (start_raw, end_raw) \<Rightarrow>
                   if start_raw = []
                   then case parse_usize end_raw of
                          None \<Rightarrow> Inl Malformed
                        | Some suffix_len \<Rightarrow>
                            if suffix_len = 0 then Inl Malformed
                            else Inr (Some (object_size - suffix_len, object_size - 1))
                   else case parse_usize start_raw of
                          None \<Rightarrow> Inl Malformed
                        | Some start \<Rightarrow>
                            if start \<ge> object_size then Inl Unsatisfiable
                            else case (if end_raw = [] then Some (object_size - 1) else parse_usize end_raw) of
                                   None \<Rightarrow> Inl Malformed
                                 | Some last_byte \<Rightarrow>
                                     if last_byte < start then Inl Unsatisfiable
                                     else Inr (Some (start, if last_byte \<ge> object_size then object_size - 1 else last_byte)))"

definition parse_range_header :: "string \<Rightarrow> usize \<Rightarrow> http_response + (usize \<times> usize) option" where
  "parse_range_header raw_range body_length =
     (case parse_byte_range raw_range body_length of
        Inr r \<Rightarrow> Inr r
      | Inl Malformed \<Rightarrow> Inl (bad_request_response_with_code S3_InvalidArgument ''invalid range syntax'' ''Range'')
      | Inl Unsatisfiable \<Rightarrow> Inl (range_not_satisfiable_response (word_of_nat body_length)))"

text \<open>The slice \<open>xs[start..=last]\<close>, which panics out of range.\<close>

definition slice_inclusive :: "'a list \<Rightarrow> usize \<Rightarrow> usize \<Rightarrow> 'a list option" where
  "slice_inclusive xs start last' =
     (if start \<le> last' + 1 \<and> last' < length xs then Some (take (last' + 1 - start) (drop start xs)) else None)"

section \<open>Preconditions\<close>

record date_parsers =
  parse_from_str :: "string \<Rightarrow> string \<Rightarrow> i64 option"
  parse_from_rfc2822 :: "string \<Rightarrow> i64 option"

definition RFC_1123_HTTP_DATE :: string where
  "RFC_1123_HTTP_DATE = ''%a, %d %b %Y %H:%M:%S GMT''"

definition RFC_850_HTTP_DATE :: string where
  "RFC_850_HTTP_DATE = ''%A, %d-%b-%y %H:%M:%S GMT''"

definition ANSI_C_DATE :: string where
  "ANSI_C_DATE = ''%a %b %e %H:%M:%S %Y''"

definition parse_http_datetime :: "date_parsers \<Rightarrow> string \<Rightarrow> string + i64 option" where
  "parse_http_datetime dp v =
     (let v = trim v
      in if v = [] then Inr None
         else case List.find (\<lambda>fmt. parse_from_str dp v fmt \<noteq> None) [RFC_1123_HTTP_DATE, RFC_850_HTTP_DATE, ANSI_C_DATE] of
                Some fmt \<Rightarrow> Inr (parse_from_str dp v fmt)
              | None \<Rightarrow>
                  (case parse_from_rfc2822 dp v of
                     Some time \<Rightarrow> Inr (Some time)
                   | None \<Rightarrow> Inl ''unable to parse HTTP date''))"

definition etag_header_matches :: "string \<Rightarrow> string \<Rightarrow> bool" where
  "etag_header_matches header_value etag \<longleftrightarrow>
     (\<exists>token \<in> set (map (trim_chars [CHR 0x22]) (map trim (split_char (CHR '','') header_value))).
        token = ''*'' \<or> token = etag \<or> token = ''W/'' @ [CHR 0x22] @ etag @ [CHR 0x22])"

text \<open>A header that is there and printable.\<close>

definition header_str :: "headers \<Rightarrow> string \<Rightarrow> string option" where
  "header_str headers name = (case hm_get headers name of Some v \<Rightarrow> v | None \<Rightarrow> None)"

definition date_header :: "date_parsers \<Rightarrow> headers \<Rightarrow> string \<Rightarrow> string \<Rightarrow> i64 option result" where
  "date_header dp headers name err =
     (case header_str headers name of
        None \<Rightarrow> Inr None
      | Some v \<Rightarrow> (case parse_http_datetime dp v of Inl _ \<Rightarrow> Inl (Status InvalidArgument err) | Inr t \<Rightarrow> Inr t))"

definition evaluate_preconditions ::
  "(string \<Rightarrow> bool) \<Rightarrow> string \<Rightarrow> string option \<Rightarrow> i64 option \<Rightarrow> string option \<Rightarrow> i64 option \<Rightarrow>
   head_object_response \<Rightarrow> http_response option result" where
  "evaluate_preconditions hv resource if_match if_unmodified_since if_none_match if_modified_since head =
     (let etag = ho_etag head; modified_at = map_option ts_seconds (ho_last_modified head)
      in if (case if_match of Some v \<Rightarrow> \<not> etag_header_matches v etag | None \<Rightarrow> False)
         then Inr (Some (precondition_failed_response ''If-Match'' resource))
         else if if_unmodified_since \<noteq> None \<and> modified_at = None
         then Inl (Status FailedPrecondition ''If-Unmodified-Since requires Last-Modified'')
         else if if_unmodified_since \<noteq> None \<and> the modified_at > the if_unmodified_since
         then Inr (Some (precondition_failed_response ''If-Unmodified-Since failed'' resource))
         else if (case if_none_match of Some v \<Rightarrow> etag_header_matches v etag | None \<Rightarrow> False)
         then Inr (Some (not_modified_response hv resource etag))
         else if if_modified_since \<noteq> None \<and> modified_at = None
         then Inl (Status FailedPrecondition ''If-Modified-Since requires Last-Modified'')
         else if if_modified_since \<noteq> None \<and> the modified_at \<le> the if_modified_since
         then Inr (Some (not_modified_response hv resource etag))
         else Inr None)"

definition check_read_preconditions ::
  "(string \<Rightarrow> bool) \<Rightarrow> date_parsers \<Rightarrow> 'w gateway_backend \<Rightarrow> string \<Rightarrow> string \<Rightarrow> headers \<Rightarrow> string \<Rightarrow>
   ('w, http_response option) rpc" where
  "check_read_preconditions hv dp gb bucket key headers resource w =
     (let if_match = header_str headers ''if-match''; if_none_match = header_str headers ''if-none-match''
      in case date_header dp headers ''if-modified-since'' ''invalid If-Modified-Since header'' of
           Inl err \<Rightarrow> (Inl err, w)
         | Inr if_modified_since \<Rightarrow>
             (case date_header dp headers ''if-unmodified-since'' ''invalid If-Unmodified-Since header'' of
                Inl err \<Rightarrow> (Inl err, w)
              | Inr if_unmodified_since \<Rightarrow>
                  if if_match = None \<and> if_none_match = None \<and> if_modified_since = None \<and> if_unmodified_since = None
                  then (Inr None, w)
                  else try_st (gb_head_object gb bucket key w) (\<lambda>head w.
                    (evaluate_preconditions hv resource if_match if_unmodified_since if_none_match if_modified_since head,
                     w))))"

section \<open>Object headers\<close>

definition normalize_restore_info :: "string \<Rightarrow> string" where
  "normalize_restore_info restore_info =
     (let restore_info = trim restore_info
      in case strip_prefix ''ongoing-request=\"false\", expiry-date=\"'' restore_info of
           Some expiry \<Rightarrow> format_restore_header False (Some (trim_end_chars [CHR 0x22] expiry))
         | None \<Rightarrow>
             (case strip_prefix ''ongoing-request=\"false\", expiry-ts=\"'' restore_info of
                Some expiry \<Rightarrow> format_restore_header False (Some (trim_end_chars [CHR 0x22] expiry))
              | None \<Rightarrow>
                  if starts_with ''ongoing-request=\"false\"'' restore_info then format_restore_header False None
                  else format_restore_header True None))"

definition apply_object_headers ::
  "(string \<Rightarrow> bool) \<Rightarrow> http_date \<Rightarrow> head_object_response \<Rightarrow> http_response \<Rightarrow> http_response option" where
  "apply_object_headers hv http_date head r =
     (let len = show_word (ho_content_length head);
          r = insert_header ''content-length'' (if hv len then len else ''0'') r
      in case (case ho_content_type head of
                 None \<Rightarrow> Some r
               | Some ct \<Rightarrow> if hv ct then Some (insert_header ''content-type'' ct r) else None) of
           None \<Rightarrow> None
         | Some r \<Rightarrow>
             if \<not> hv (ho_etag head) then None
             else let r = insert_header ''etag'' (ho_etag head) r
                  in case (case ho_restore_info head of
                             None \<Rightarrow> Some r
                           | Some info \<Rightarrow>
                               (let v = normalize_restore_info info
                                in if hv v then Some (insert_header ''x-amz-restore'' v r) else None)) of
                       None \<Rightarrow> None
                     | Some r \<Rightarrow>
                         Some (case ho_last_modified head of
                             None \<Rightarrow> r
                           | Some last_modified \<Rightarrow>
                               (case http_date (ts_seconds last_modified) 0 of
                                  None \<Rightarrow> r
                                | Some date \<Rightarrow> insert_header ''last-modified'' (if hv date then date else []) r)))"

section \<open>Listings\<close>

definition list_buckets_xml_response :: "bucket_entry list \<Rightarrow> http_response" where
  "list_buckets_xml_response buckets =
     xml_response 200
       (''<?xml version=\"1.0\" encoding=\"UTF-8\"?><ListAllMyBucketsResult><Buckets>'' @
        concat (map (\<lambda>b. ''<Bucket><Name>'' @ escape_xml (bk_name b) @ ''</Name></Bucket>'') buckets) @
        ''</Buckets></ListAllMyBucketsResult>'')"

definition show_bool :: "bool \<Rightarrow> string" where
  "show_bool b = (if b then ''true'' else ''false'')"

definition contents_xml :: "object_entry \<Rightarrow> string" where
  "contents_xml e =
     ''<Contents><Key>'' @ escape_xml (oe_key e) @ ''</Key><ETag>'' @ escape_xml (oe_etag e) @ ''</ETag><Size>'' @
     show_word (oe_size e) @ ''</Size><StorageClass>'' @ escape_xml (oe_storage_class e) @ ''</StorageClass></Contents>''"

definition list_objects_xml_response :: "scheduler_list_response \<Rightarrow> http_response" where
  "list_objects_xml_response r =
     xml_response 200
       (''<?xml version=\"1.0\" encoding=\"UTF-8\"?><ListBucketResult><Name>'' @ escape_xml (lr_bucket r) @
        ''</Name><Prefix>'' @ escape_xml (unwrap_or_default (lr_prefix r)) @
        ''</Prefix><Marker>'' @ escape_xml (unwrap_or_default (lr_marker r)) @
        ''</Marker><NextMarker>'' @ escape_xml (unwrap_or_default (lr_next_marker r)) @
        ''</NextMarker><MaxKeys>'' @ show_word (lr_max_keys r) @
        ''</MaxKeys><IsTruncated>'' @ show_bool (lr_is_truncated r) @ ''</IsTruncated>'' @
        concat (map contents_xml (lr_contents r)) @
        concat (map (\<lambda>p. ''<CommonPrefixes><Prefix>'' @ escape_xml p @ ''</Prefix></CommonPrefixes>'')
          (lr_common_prefixes r)) @
        ''</ListBucketResult>'')"

definition DEFAULT_LIST_MAX_KEYS :: u32 where
  "DEFAULT_LIST_MAX_KEYS = 1000"

definition MAX_LIST_MAX_KEYS :: u32 where
  "MAX_LIST_MAX_KEYS = 1000"

definition parse_list_max_keys :: "string option \<Rightarrow> http_response + u32" where
  "parse_list_max_keys v =
     (let raw = unwrap_or_default v;
          bad = bad_request_response_with_code S3_InvalidArgument ''max-keys must be an integer between 1 and 1000'' ''/''
      in case (if raw = [] then Some DEFAULT_LIST_MAX_KEYS else parse_u32 raw) of
           None \<Rightarrow> Inl bad
         | Some max_keys \<Rightarrow> if 1 \<le> max_keys \<and> max_keys \<le> MAX_LIST_MAX_KEYS then Inr max_keys else Inl bad)"

section \<open>The handlers\<close>

text \<open>A handler from the outcome of one call of the backend.\<close>

definition respond :: "string \<Rightarrow> ('a \<Rightarrow> http_response option) \<Rightarrow> 'a result \<times> 'w \<Rightarrow> http_response option \<times> 'w" where
  "respond resource ok r =
     (case r of
        (Inr x, w) \<Rightarrow> (ok x, w)
      | (Inl status, w) \<Rightarrow> (Some (grpc_status_to_s3_response status resource), w))"

definition gw_list_buckets :: "'w gateway_backend \<Rightarrow> 'w \<Rightarrow> http_response option \<times> 'w" where
  "gw_list_buckets gb w = respond ''/'' (\<lambda>buckets. Some (list_buckets_xml_response buckets)) (gb_list_buckets gb w)"

definition gw_create_bucket :: "'w gateway_backend \<Rightarrow> string \<Rightarrow> 'w \<Rightarrow> http_response option \<times> 'w" where
  "gw_create_bucket gb bucket w = respond (''/'' @ bucket) (\<lambda>_. Some (empty_response 200)) (gb_create_bucket gb bucket w)"

definition gw_delete_bucket :: "'w gateway_backend \<Rightarrow> string \<Rightarrow> 'w \<Rightarrow> http_response option \<times> 'w" where
  "gw_delete_bucket gb bucket w = respond (''/'' @ bucket) (\<lambda>_. Some (empty_response 204)) (gb_delete_bucket gb bucket w)"

definition gw_head_bucket :: "'w gateway_backend \<Rightarrow> string \<Rightarrow> 'w \<Rightarrow> http_response option \<times> 'w" where
  "gw_head_bucket gb bucket w = respond (''/'' @ bucket) (\<lambda>_. Some (empty_response 200)) (gb_head_bucket gb bucket w)"

definition gw_list_objects ::
  "'w gateway_backend \<Rightarrow> string \<Rightarrow> (string, string) hashmap \<Rightarrow> 'w \<Rightarrow> http_response option \<times> 'w" where
  "gw_list_objects gb bucket query w =
     (case parse_list_max_keys (hm_get query ''max-keys'') of
        Inl response \<Rightarrow> (Some response, w)
      | Inr max_keys \<Rightarrow>
          respond (''/'' @ bucket) (\<lambda>r. Some (list_objects_xml_response r))
            (gb_list_objects gb \<lparr>sl_bucket = bucket, sl_prefix = hm_get query ''prefix'', sl_marker = hm_get query ''marker'',
               sl_delimiter = hm_get query ''delimiter'', sl_max_keys = max_keys\<rparr> w))"

definition object_resource :: "string \<Rightarrow> string \<Rightarrow> string" where
  "object_resource bucket key = ''/'' @ bucket @ ''/'' @ key"

definition partial_content_response ::
  "(string \<Rightarrow> bool) \<Rightarrow> http_date \<Rightarrow> downloaded_object \<Rightarrow> usize \<Rightarrow> usize \<Rightarrow> http_response option" where
  "partial_content_response hv http_date ob start last' =
     (case slice_inclusive (do_body ob) start last' of
        None \<Rightarrow> None
      | Some body \<Rightarrow>
          (case apply_object_headers hv http_date (do_head ob) \<lparr>rs_status = 206, rs_headers = [], rs_body = body\<rparr> of
             None \<Rightarrow> None
           | Some r \<Rightarrow>
               (let len = nat_to_string (min (last' - start + 1) usize_MAX);
                    content_range = ''bytes '' @ nat_to_string start @ ''-'' @ nat_to_string last' @ ''/'' @
                      nat_to_string (length (do_body ob))
                in if \<not> hv len then None
                   else Some (insert_header ''content-range'' (if hv content_range then content_range else ''bytes */*'')
                     (insert_header ''accept-ranges'' ''bytes'' (insert_header ''content-length'' len r))))))"

definition download_response ::
  "(string \<Rightarrow> bool) \<Rightarrow> http_date \<Rightarrow> headers \<Rightarrow> string \<Rightarrow> downloaded_object \<Rightarrow> http_response option" where
  "download_response hv http_date headers resource ob =
     (case hm_get headers ''range'' of
        None \<Rightarrow>
          apply_object_headers hv http_date (do_head ob)
            (insert_header ''accept-ranges'' ''bytes'' \<lparr>rs_status = 200, rs_headers = [], rs_body = do_body ob\<rparr>)
      | Some None \<Rightarrow> Some (bad_request_response_with_code S3_InvalidArgument ''invalid Range header'' resource)
      | Some (Some raw_range) \<Rightarrow>
          (case parse_range_header raw_range (length (do_body ob)) of
             Inl response \<Rightarrow> Some response
           | Inr None \<Rightarrow> Some (bad_request_response_with_code S3_InvalidArgument ''invalid Range header'' resource)
           | Inr (Some (start, last')) \<Rightarrow> partial_content_response hv http_date ob start last'))"

definition gw_get_object ::
  "(string \<Rightarrow> bool) \<Rightarrow> date_parsers \<Rightarrow> http_date \<Rightarrow> 'w gateway_backend \<Rightarrow> string \<Rightarrow> string \<Rightarrow> headers \<Rightarrow>
   'w \<Rightarrow> http_response option \<times> 'w" where
  "gw_get_object hv dp http_date gb bucket key headers w =
     (let resource = object_resource bucket key
      in case check_read_preconditions hv dp gb bucket key headers resource w of
           (Inl status, w) \<Rightarrow> (Some (grpc_status_to_s3_response status resource), w)
         | (Inr (Some response), w) \<Rightarrow> (Some response, w)
         | (Inr None, w) \<Rightarrow>
             respond resource (download_response hv http_date headers resource) (gb_get_object gb bucket key w))"

definition put_object_success_response :: "(string \<Rightarrow> bool) \<Rightarrow> put_object_response \<Rightarrow> http_response option" where
  "put_object_success_response hv r =
     (if hv (por_etag r) then Some (insert_header ''etag'' (por_etag r) (empty_response 200)) else None)"

definition gw_put_object ::
  "(string \<Rightarrow> bool) \<Rightarrow> 'w gateway_backend \<Rightarrow> string \<Rightarrow> string \<Rightarrow> headers \<Rightarrow> bytes \<Rightarrow> 'w \<Rightarrow> http_response option \<times> 'w" where
  "gw_put_object hv gb bucket key headers body w =
     respond (object_resource bucket key) (put_object_success_response hv)
       (gb_put_object gb bucket key body (header_str headers ''content-type'') w)"

definition gw_delete_object :: "'w gateway_backend \<Rightarrow> string \<Rightarrow> string \<Rightarrow> 'w \<Rightarrow> http_response option \<times> 'w" where
  "gw_delete_object gb bucket key w =
     respond (object_resource bucket key) (\<lambda>_. Some (empty_response 204)) (gb_delete_object gb bucket key w)"

definition head_object_success_response ::
  "(string \<Rightarrow> bool) \<Rightarrow> http_date \<Rightarrow> head_object_response \<Rightarrow> http_response option" where
  "head_object_success_response hv http_date head =
     apply_object_headers hv http_date head (empty_response 200)"

definition gw_head_object ::
  "(string \<Rightarrow> bool) \<Rightarrow> date_parsers \<Rightarrow> http_date \<Rightarrow> 'w gateway_backend \<Rightarrow> string \<Rightarrow> string \<Rightarrow> headers \<Rightarrow>
   'w \<Rightarrow> http_response option \<times> 'w" where
  "gw_head_object hv dp http_date gb bucket key headers w =
     (let resource = object_resource bucket key
      in case check_read_preconditions hv dp gb bucket key headers resource w of
           (Inl status, w) \<Rightarrow> (Some (grpc_status_to_s3_response status resource), w)
         | (Inr (Some response), w) \<Rightarrow> (Some response, w)
         | (Inr None, w) \<Rightarrow>
             respond resource (head_object_success_response hv http_date) (gb_head_object gb bucket key w))"

text \<open>\<open>join\<close> of the pairs of the query, in the order the hash map gives them.\<close>

fun join_with :: "string \<Rightarrow> string list \<Rightarrow> string" where
  "join_with sep [] = []"
| "join_with sep [x] = x"
| "join_with sep (x # y # xs) = x @ sep @ join_with sep (y # xs)"

definition raw_query :: "(string, string) hashmap \<Rightarrow> string option" where
  "raw_query query =
     (if query = [] then None
      else Some (join_with ''&'' (map (\<lambda>(k, v). if v = [] then k else k @ ''='' @ v) query)))"

definition gw_post_object ::
  "'w gateway_backend \<Rightarrow> string \<Rightarrow> string \<Rightarrow> (string, string) hashmap \<Rightarrow> bytes \<Rightarrow> 'w \<Rightarrow> http_response option \<times> 'w" where
  "gw_post_object gb bucket key query body w =
     (let resource = object_resource bucket key
      in if \<not> is_restore_request (raw_query query)
         then (Some (bad_request_response ''UnsupportedPostAction'' resource), w)
         else case parse_restore_request query body of
                Inl _ \<Rightarrow>
                  (Some (bad_request_response_with_code S3_InvalidArgument ''invalid restore request payload'' resource), w)
              | Inr request \<Rightarrow>
                  respond resource
                    (\<lambda>status. Some (empty_response (if status = 200 then 200 else if status = 202 then 202
                        else if status = 409 then 409 else 202)))
                    (gb_restore_object gb bucket key (rr_days request) (rr_tier request) w))"

section \<open>Routes\<close>

datatype http_method = GET | PUT | DELETE | HEAD | POST

datatype route = Health | Root | Bucket_Route string | Object_Route string string

record http_request =
  rq_method :: http_method
  rq_route :: route
  rq_query :: "(string, string) hashmap"
  rq_headers :: headers
  rq_body :: bytes

text \<open>
  The table of \<open>build_router\<close>. A method that a route does not have is answered by the
  library with status 405; a route with a GET handler only also answers HEAD, without the
  body.
\<close>

definition health_response :: "string \<Rightarrow> http_response" where
  "health_response body =
     \<lparr>rs_status = 200, rs_headers = [(''content-type'', ''text/plain; charset=utf-8'')], rs_body = ascii body\<rparr>"

definition dispatch ::
  "(string \<Rightarrow> bool) \<Rightarrow> date_parsers \<Rightarrow> http_date \<Rightarrow> 'w gateway_backend \<Rightarrow> http_request \<Rightarrow> 'w \<Rightarrow> http_response option \<times> 'w" where
  "dispatch hv dp http_date gb r w =
     (case (rq_route r, rq_method r) of
        (Health, GET) \<Rightarrow> (Some (health_response ''OK''), w)
      | (Health, HEAD) \<Rightarrow> (Some (health_response []), w)
      | (Root, GET) \<Rightarrow> gw_list_buckets gb w
      | (Root, HEAD) \<Rightarrow> map_prod (map_option (\<lambda>r. r\<lparr>rs_body := []\<rparr>)) id (gw_list_buckets gb w)
      | (Bucket_Route bucket, GET) \<Rightarrow> gw_list_objects gb bucket (rq_query r) w
      | (Bucket_Route bucket, PUT) \<Rightarrow> gw_create_bucket gb bucket w
      | (Bucket_Route bucket, DELETE) \<Rightarrow> gw_delete_bucket gb bucket w
      | (Bucket_Route bucket, HEAD) \<Rightarrow> gw_head_bucket gb bucket w
      | (Object_Route bucket key, GET) \<Rightarrow> gw_get_object hv dp http_date gb bucket key (rq_headers r) w
      | (Object_Route bucket key, PUT) \<Rightarrow> gw_put_object hv gb bucket key (rq_headers r) (rq_body r) w
      | (Object_Route bucket key, DELETE) \<Rightarrow> gw_delete_object gb bucket key w
      | (Object_Route bucket key, HEAD) \<Rightarrow> gw_head_object hv dp http_date gb bucket key (rq_headers r) w
      | (Object_Route bucket key, POST) \<Rightarrow> gw_post_object gb bucket key (rq_query r) (rq_body r) w
      | _ \<Rightarrow> (Some (empty_response 405), w))"

end
