(* ===== verification/Gateway_Properties.thy ===== *)
theory Gateway_Properties
  imports Gateway_Handler
begin

text \<open>
  The correctness of the gateway: byte ranges, the XML of errors, restore requests, the
  rotation over the scheduler fleet, and its agreement with the scheduler and the cache on
  the restore header and on capacity errors.
\<close>

section \<open>Byte ranges\<close>




lemma rs_insert_header [simp]:
  "rs_status (insert_header name v r) = rs_status r" "rs_body (insert_header name v r) = rs_body r"
  by (simp_all add: insert_header_def)









lemma trim_id: "s \<noteq> [] \<Longrightarrow> \<not> is_space (hd s) \<Longrightarrow> \<not> is_space (last s) \<Longrightarrow> trim s = s"
  by (simp add: trim_def dropWhile_eq_self_iff [THEN iffD2] hd_rev)
















section \<open>The XML of an error\<close>

text \<open>What an XML parser makes of the five entities.\<close>

fun unescape_xml :: "string \<Rightarrow> string" where
  "unescape_xml [] = []"
| "unescape_xml (c # s) =
     (if c = CHR ''&'' then
        (case strip_prefix ''amp;'' s of Some r \<Rightarrow> CHR ''&'' # unescape_xml (drop 4 s) | None \<Rightarrow>
        (case strip_prefix ''lt;'' s of Some r \<Rightarrow> CHR ''<'' # unescape_xml (drop 3 s) | None \<Rightarrow>
        (case strip_prefix ''gt;'' s of Some r \<Rightarrow> CHR ''>'' # unescape_xml (drop 3 s) | None \<Rightarrow>
        (case strip_prefix ''quot;'' s of Some r \<Rightarrow> CHR 0x22 # unescape_xml (drop 5 s) | None \<Rightarrow>
        (case strip_prefix ''apos;'' s of Some r \<Rightarrow> CHR 0x27 # unescape_xml (drop 5 s) | None \<Rightarrow>
         c # unescape_xml s)))))
      else c # unescape_xml s)"

lemma escape_xml_Nil [simp]: "escape_xml [] = []"
  by (simp add: escape_xml_def)

lemma escape_xml_Cons:
  "escape_xml (c # s) =
     (if c = CHR ''&'' then ''&amp;'' else if c = CHR ''<'' then ''&lt;'' else if c = CHR ''>'' then ''&gt;''
      else if c = CHR 0x22 then ''&quot;'' else if c = CHR 0x27 then ''&apos;'' else [c]) @ escape_xml s"
  by (simp add: escape_xml_def replace_char_Cons replace_char_append)

lemma unescape_escape_xml: "unescape_xml (escape_xml s) = s"
  by (induction s) (simp_all add: escape_xml_Cons strip_prefix_def starts_with_def)

lemma escape_xml_no_markup: "CHR ''<'' \<notin> set (escape_xml s)"
  by (induction s) (simp_all add: escape_xml_Cons)

lemma str_find_skip:
  assumes "c \<notin> set u"
  shows "str_find (c # p) (u @ v) = map_option ((+) (length u)) (str_find (c # p) v)"
  using assms
proof (induction u)
  case Nil
  then show ?case by (cases "str_find (c # p) v") simp_all
next
  case (Cons a u)
  then show ?case by (cases "str_find (c # p) v") (auto simp: starts_with_def)
qed

lemma str_find_here: "str_find p (p @ v) = Some 0"
proof (cases "p @ v")
  case (Cons a w)
  then have "starts_with p (a # w)" using starts_with_append [of p v] by simp
  then show ?thesis using Cons by simp
qed simp

lemma is_space_entities: "is_space c \<Longrightarrow> escape_xml (c # s) = c # escape_xml s"
  by (auto simp: is_space_def escape_xml_Cons)

lemma escape_xml_append: "escape_xml (s @ t) = escape_xml s @ escape_xml t"
  by (induction s) (simp_all add: escape_xml_Cons)

lemma hd_escape_not_space: "\<not> is_space c \<Longrightarrow> escape_xml [c] \<noteq> [] \<and> \<not> is_space (hd (escape_xml [c])) \<and> \<not> is_space (last (escape_xml [c]))"
  by (simp add: escape_xml_Cons is_space_def)

lemma dropWhile_space_escape: "dropWhile is_space (escape_xml s) = escape_xml (dropWhile is_space s)"
proof (induction s)
  case (Cons c s)
  show ?case
  proof (cases "is_space c")
    case True
    then show ?thesis using Cons is_space_entities [OF True, of s] by simp
  next
    case False
    obtain d r where dr: "escape_xml [c] = d # r" and d: "\<not> is_space d"
      using hd_escape_not_space [OF False] by (cases "escape_xml [c]") auto
    have "escape_xml (c # s) = d # r @ escape_xml s"
      using escape_xml_append [of "[c]" s] dr by simp
    then show ?thesis using False d by simp
  qed
qed simp

lemma dropWhile_space_rev_escape: "dropWhile is_space (rev (escape_xml s)) = rev (escape_xml (rev (dropWhile is_space (rev s))))"
proof (induction s rule: rev_induct)
  case (snoc c s)
  show ?case
  proof (cases "is_space c")
    case True
    then show ?thesis using snoc is_space_entities [OF True, of "[]"] by (simp add: escape_xml_append)
  next
    case False
    obtain d r where dr: "escape_xml [c] = r @ [d]" and d: "\<not> is_space d"
      using hd_escape_not_space [OF False] by (cases "escape_xml [c]" rule: rev_cases) auto
    then show ?thesis using False by (simp add: escape_xml_append)
  qed
qed simp

lemma trim_escape_xml: "trim (escape_xml s) = escape_xml (trim s)"
  by (simp add: trim_def dropWhile_space_escape dropWhile_space_rev_escape)

text \<open>How \<open>find_xml_value\<close> passes text, passes a tag, and stops at the tag it looks for.\<close>

lemma find_xml_value_text:
  assumes "CHR ''<'' \<notin> set u"
  shows "find_xml_value (u @ v) tag = find_xml_value v tag"
  using assms str_find_skip [of "CHR ''<''" u "tag @ ''>''" v]
  by (cases "str_find (CHR ''<'' # tag @ ''>'') v") (simp_all add: find_xml_value_def Let_def)

lemma find_xml_value_tag:
  assumes "CHR ''<'' \<notin> set u" and "\<not> starts_with (''<'' @ tag @ ''>'') (CHR ''<'' # u @ v)"
  shows "find_xml_value (CHR ''<'' # u @ v) tag = find_xml_value v tag"
  using assms str_find_skip [of "CHR ''<''" u "tag @ ''>''" v]
  by (cases "str_find (CHR ''<'' # tag @ ''>'') v") (simp_all add: find_xml_value_def Let_def)

lemma find_xml_value_element:
  assumes "CHR ''<'' \<notin> set v" and "CHR ''<'' \<notin> set t"
    and "\<not> starts_with (tag @ ''>'') (t @ ''>'' @ v @ ''</'' @ t @ ''>'' @ rest)"
    and "\<not> starts_with tag (''/'' @ t @ ''>'' @ rest)"
  shows "find_xml_value (''<'' @ t @ ''>'' @ v @ ''</'' @ t @ ''>'' @ rest) tag = find_xml_value rest tag"
proof -
  have "find_xml_value (CHR ''<'' # (t @ ''>'') @ v @ CHR ''<'' # (''/'' @ t @ ''>'') @ rest) tag =
      find_xml_value (v @ CHR ''<'' # (''/'' @ t @ ''>'') @ rest) tag"
    by (rule find_xml_value_tag) (use assms in \<open>auto simp: starts_with_def\<close>)
  also have "\<dots> = find_xml_value (CHR ''<'' # (''/'' @ t @ ''>'') @ rest) tag"
    by (rule find_xml_value_text) (use assms in auto)
  also have "\<dots> = find_xml_value rest tag"
    by (rule find_xml_value_tag) (use assms in \<open>auto simp: starts_with_iff\<close>)
  finally show ?thesis by simp
qed

lemma find_xml_value_here:
  assumes "CHR ''<'' \<notin> set v"
  shows "find_xml_value (''<'' @ tag @ ''>'' @ v @ ''</'' @ tag @ ''>'' @ rest) tag = Some (trim v)"
  using assms str_find_skip [of "CHR ''<''" v "''/'' @ tag @ ''>''" "''</'' @ tag @ ''>'' @ rest"]
    str_find_here [of "''</'' @ tag @ ''>''" rest] str_find_here [of "''<'' @ tag @ ''>''" "v @ ''</'' @ tag @ ''>'' @ rest"]
  by (simp add: find_xml_value_def Let_def)

lemma as_str_text: "CHR ''<'' \<notin> set (as_str c)" "trim (as_str c) = as_str c"
  by (cases c; simp add: trim_def is_space_def)+

text \<open>
  C35 (roundtrip). No message and no resource can forge an element of an error document: the
  value of each of its elements, with the entities replaced, is the error code, the message
  and the resource the document was made from, up to white space at the ends.
\<close>

theorem error_document_read_back:
  "find_xml_value (to_xml e) ''Code'' = Some (as_str (er_code e)) \<and>
   map_option unescape_xml (find_xml_value (to_xml e) ''Message'') = Some (trim (er_message e)) \<and>
   map_option unescape_xml (find_xml_value (to_xml e) ''Resource'') = Some (trim (er_resource e))"
proof -
  let ?m = "escape_xml (er_message e)" and ?r = "escape_xml (er_resource e)" and ?c = "as_str (er_code e)"
  let ?res = "''<'' @ ''Resource'' @ ''>'' @ ?r @ ''</'' @ ''Resource'' @ ''>'' @ ''</Error>''"
  let ?msg = "''<'' @ ''Message'' @ ''>'' @ ?m @ ''</'' @ ''Message'' @ ''>'' @ ?res"
  let ?code = "''<'' @ ''Code'' @ ''>'' @ ?c @ ''</'' @ ''Code'' @ ''>'' @ ?msg"
  have doc: "to_xml e = CHR ''<'' # ''?xml version=\"1.0\" encoding=\"UTF-8\"?>'' @ CHR ''<'' # ''Error>'' @ ?code"
    by (simp add: to_xml_def)
  have start: "find_xml_value (to_xml e) tag = find_xml_value ?code tag" if "tag \<in> {''Code'', ''Message'', ''Resource''}" for tag
    using that unfolding doc
    by (auto simp: starts_with_def find_xml_value_tag simp del: append.simps)
  have code: "find_xml_value ?code tag = find_xml_value ?msg tag" if "tag \<in> {''Message'', ''Resource''}" for tag
    by (rule find_xml_value_element) (use that as_str_text in \<open>auto simp: starts_with_def\<close>)
  have msg: "find_xml_value ?msg ''Resource'' = find_xml_value ?res ''Resource''"
    by (rule find_xml_value_element) (simp_all add: escape_xml_no_markup starts_with_def)
  show ?thesis
    using find_xml_value_here [of ?c "''Code''" ?msg] find_xml_value_here [of ?m "''Message''" ?res]
      find_xml_value_here [of ?r "''Resource''" "''</Error>''"] start code msg
    by (simp add: as_str_text escape_xml_no_markup trim_escape_xml unescape_escape_xml)
qed

section \<open>Restore requests\<close>

lemma checked_days_bounds: "checked_days d = Inr n \<Longrightarrow> 1 \<le> n \<and> n \<le> MAX_RESTORE_DAYS"
  by (auto simp: checked_days_def word_le_nat_alt word_less_nat_alt unat_gt_0 Suc_le_eq split: option.splits if_splits)

lemma parse_tier_specified: "parse_tier raw = Some t \<Longrightarrow> t \<noteq> TierUnspecified"
  by (auto simp: parse_tier_def Let_def split: if_splits)

text \<open>
  C36 (type). A restore request that the gateway accepts asks for 1 to 365 days and a tier, and
  the scheduler decodes the tier it is sent to the same tier.
\<close>

theorem accepted_restore_request_valid:
  assumes "parse_restore_request query body = Inr r"
  shows "1 \<le> rr_days r \<and> rr_days r \<le> 365 \<and> rr_tier r \<noteq> TierUnspecified \<and>
    restore_tier_try_from (restore_tier_i32 (rr_tier r)) = Some (rr_tier r)"
proof -
  obtain days tier d raw where "checked_days d = Inr days" and "parse_tier raw = Some tier" and "r = \<lparr>rr_days = days, rr_tier = tier\<rparr>"
    using assms unfolding parse_restore_request_def by (fastforce simp: try_then_Inr split: option.splits if_splits)
  then show ?thesis using checked_days_bounds [of d days] parse_tier_specified [of raw tier] by (simp add: MAX_RESTORE_DAYS_def)
qed

lemma digit_7: "digit_char 7 = CHR ''7''"
  by code_simp

theorem accepted_restore_request_valid_witness:
  "parse_restore_request [(''days'', ''7''), (''tier'', ''Bulk'')] [] = Inr \<lparr>rr_days = 7, rr_tier = Bulk\<rparr> \<and> (7::u32) \<le> 365"
proof -
  have 1: "parse_u32 ''7'' = Some 7"
    using parse_u32_show [of 7] nat_to_string.simps [of 7] digit_7 by simp
  have 2: "parse_tier ''Bulk'' = Some Bulk"
    by code_simp
  have "parse_restore_request [(''days'', ''7''), (''tier'', ''Bulk'')] [] = Inr \<lparr>rr_days = 7, rr_tier = Bulk\<rparr>"
    by (simp add: parse_restore_request_def 1 2 checked_days_def MAX_RESTORE_DAYS_def)
  then show ?thesis using accepted_restore_request_valid [of "[(''days'', ''7''), (''tier'', ''Bulk'')]" "[]"] by simp
qed

section \<open>The restore header\<close>

lemma trim_end_quote: "d = [] \<or> last d \<noteq> CHR 0x22 \<Longrightarrow> trim_end_chars [CHR 0x22] (d @ [CHR 0x22]) = d"
  by (cases d rule: rev_cases) (auto simp: trim_end_chars_def)

text \<open>
  C37 (equivalence). The gateway passes the restore header the scheduler builds on unchanged, for
  every restore status and expiry, as long as a date does not end in a quotation mark.
\<close>

theorem restore_header_unchanged:
  assumes "build_restore_info http_date restore_status restore_expire_at = Some info"
    and "\<And>t. last (restore_expiry_http_date http_date t) \<noteq> CHR 0x22"
  shows "normalize_restore_info info = info"
proof -
  consider (ongoing) "info = ''ongoing-request=\"true\"''" | (finished) "info = ''ongoing-request=\"false\"''"
    | (date) t where "info = ''ongoing-request=\"false\", expiry-date=\"'' @ restore_expiry_http_date http_date t @ ''\"''"
    using assms(1) by (auto simp: build_restore_info_def split: option.splits if_splits)
  then show ?thesis
  proof cases
    case ongoing
    then show ?thesis by (simp add: normalize_restore_info_def trim_def is_space_def strip_prefix_def starts_with_def format_restore_header_def)
  next
    case finished
    then show ?thesis by (simp add: normalize_restore_info_def trim_def is_space_def strip_prefix_def starts_with_def format_restore_header_def)
  next
    case date
    let ?p = "''ongoing-request=\"false\", expiry-date=\"''" and ?d = "restore_expiry_http_date http_date t"
    have "trim info = ?p @ (?d @ ''\"'')" using trim_id [of info] date by (simp add: is_space_def)
    then have "strip_prefix ?p (trim info) = Some (?d @ ''\"'')" using strip_prefix_append [of ?p "?d @ ''\"''"] by simp
    moreover have "trim_end_chars [CHR 0x22] (?d @ ''\"'') = ?d" using trim_end_quote [of ?d] assms(2) by simp
    ultimately show ?thesis using date by (simp add: normalize_restore_info_def format_restore_header_def del: append.simps)
  qed
qed

theorem restore_header_unchanged_witness:
  "build_restore_info (\<lambda>s n. Some ''Thu, 01 Jan 1970 00:00:00 GMT'') (Some (restore_status_i32 RestoreCompleted))
     (Some \<lparr>ts_seconds = 0, ts_nanos = 0\<rparr>) =
       Some ''ongoing-request=\"false\", expiry-date=\"Thu, 01 Jan 1970 00:00:00 GMT\"'' \<and>
   normalize_restore_info ''ongoing-request=\"false\", expiry-date=\"Thu, 01 Jan 1970 00:00:00 GMT\"'' =
     ''ongoing-request=\"false\", expiry-date=\"Thu, 01 Jan 1970 00:00:00 GMT\"''"
  (is "?built = Some ?info \<and> _")
proof -
  have 1: "?built = Some ?info"
    by (simp add: build_restore_info_def restore_expiry_http_date_def restore_status_try_from_def)
  have 2: "normalize_restore_info ?info = ?info"
    by (rule restore_header_unchanged [OF 1]) (simp add: restore_expiry_http_date_def)
  show ?thesis using 1 2 by blast
qed

section \<open>Entity tags\<close>

lemma split_char_free_id: "c \<notin> set s \<Longrightarrow> split_char c s = [s]"
  by (induction s) auto

text \<open>
  A conditional request with the entity tag in quotation marks, the way clients send it, finds
  its object. A weak tag never does: the closing quotation mark is trimmed and the comparison
  still expects it.
\<close>

lemma quoted_etag_matches:
  assumes "CHR '','' \<notin> set etag" and "CHR 0x22 \<notin> set etag"
  shows "etag_header_matches ([CHR 0x22] @ etag @ [CHR 0x22]) etag"
proof -
  have "trim ([CHR 0x22] @ etag @ [CHR 0x22]) = [CHR 0x22] @ etag @ [CHR 0x22]"
    by (rule trim_id) (simp_all add: is_space_def)
  moreover have "trim_start_chars [CHR 0x22] ([CHR 0x22] @ etag @ [CHR 0x22]) = (if etag = [] then [] else etag @ [CHR 0x22])"
    using assms(2) by (cases etag) (auto simp: trim_start_chars_def)
  moreover have "trim_end_chars [CHR 0x22] (etag @ [CHR 0x22]) = etag"
    using assms(2) by (intro trim_end_quote) (metis last_in_set)
  ultimately show ?thesis
    using assms(1) by (auto simp: etag_header_matches_def split_char_free_id trim_chars_def trim_end_chars_def)
qed

theorem weak_etag_never_matches:
  assumes "CHR '','' \<notin> set etag" and "CHR 0x22 \<notin> set etag"
  shows "\<not> etag_header_matches (''W/'' @ [CHR 0x22] @ etag @ [CHR 0x22]) etag"
proof -
  let ?v = "''W/'' @ [CHR 0x22] @ etag @ [CHR 0x22]"
  have 1: "trim ?v = ?v" by (rule trim_id) (simp_all add: is_space_def)
  have 2: "trim_start_chars [CHR 0x22] ?v = ?v" by (simp add: trim_start_chars_def)
  have 3: "trim_end_chars [CHR 0x22] ?v = (if etag = [] then ''W/'' else ''W/'' @ [CHR 0x22] @ etag)"
    using assms(2) by (cases etag rule: rev_cases) (auto simp: trim_end_chars_def)
  have token: "trim_chars [CHR 0x22] (trim ?v) = (if etag = [] then ''W/'' else ''W/'' @ [CHR 0x22] @ etag)"
    unfolding trim_chars_def 1 2 3 ..
  have "CHR '','' \<notin> set ?v" using assms(1) by simp
  then have "split_char (CHR '','') ?v = [?v]" by (rule split_char_free_id)
  moreover have "length (''W/'' @ [CHR 0x22] @ etag) \<noteq> length etag" by simp
  then have "''W/'' @ [CHR 0x22] @ etag \<noteq> etag" by metis
  ultimately show ?thesis unfolding etag_header_matches_def using token by auto
qed

section \<open>Capacity errors\<close>




section \<open>The scheduler fleet\<close>

lemma rotated_addresses:
  assumes "base + length addrs \<le> usize_MAX + 1"
  shows "map (\<lambda>offset. addrs ! ((base + offset) mod (usize_MAX + 1) mod length addrs)) [0..<length addrs] = rotate base addrs"
  using assms by (intro nth_equalityI) (simp_all add: nth_rotate)

text \<open>
  The state of the world after the addresses \<open>as\<close> have been tried one after the other, and whether
  the try of the next address fails there.
\<close>

definition after_tries :: "'w connector \<Rightarrow> string list \<Rightarrow> 'w \<Rightarrow> 'w" where
  "after_tries connect as w = fold (\<lambda>a w. snd (connect a w)) as w"

definition try_fails :: "'w connector \<Rightarrow> string list \<Rightarrow> nat \<Rightarrow> 'w \<Rightarrow> bool" where
  "try_fails connect as i w = (case fst (connect (as ! i) (after_tries connect (take i as) w)) of Inl _ \<Rightarrow> True | Inr _ \<Rightarrow> False)"

lemma tries_Cons [simp]:
  "after_tries connect [] w = w" "after_tries connect (a # as) w = after_tries connect as (snd (connect a w))"
  "try_fails connect (a # as) 0 w \<longleftrightarrow> (\<exists>err. fst (connect a w) = Inl err)"
  "try_fails connect (a # as) (Suc j) w = try_fails connect as j (snd (connect a w))"
  by (simp_all add: after_tries_def try_fails_def split: sum.splits)

text \<open>The first address that takes the connection, with the world in which it does.\<close>

definition first_answer :: "'w connector \<Rightarrow> string list \<Rightarrow> 'w \<Rightarrow> nat \<Rightarrow> 'w scheduler_client \<Rightarrow> 'w \<Rightarrow> bool" where
  "first_answer connect as w i c w' \<longleftrightarrow> i < length as \<and> (\<forall>j<i. try_fails connect as j w) \<and>
     connect (as ! i) (after_tries connect (take i as) w) = (Inr c, w')"

lemma first_answer_Cons:
  "connect a w = (Inr c, w') \<Longrightarrow> first_answer connect (a # as) w 0 c w'"
  "connect a w = (Inl err, w1) \<Longrightarrow> first_answer connect (a # as) w (Suc i) c w' \<longleftrightarrow> first_answer connect as w1 i c w'"
  by (auto simp: first_answer_def less_Suc_eq_0_disj)

lemma connect_from_tries:
  fixes addrs base offsets
  defines "as \<equiv> map (\<lambda>offset. normalize_scheduler_addr (addrs ! ((base + offset) mod (usize_MAX + 1) mod length addrs))) offsets"
  shows "(\<exists>i c w'. first_answer connect as w i c w' \<and> connect_from connect addrs base last_error offsets w = (Inr c, w')) \<or>
    ((\<forall>j<length as. try_fails connect as j w) \<and>
     connect_from connect addrs base last_error offsets w =
       (Inl (if as = [] then (case last_error of Some e \<Rightarrow> e | None \<Rightarrow> Status Unavailable ''all scheduler addresses are unavailable'')
         else Status Unavailable (projl (fst (connect (last as) (after_tries connect (butlast as) w))))),
        after_tries connect as w))"
  unfolding as_def
proof (induction offsets arbitrary: last_error w)
  case (Cons offset offsets)
  let ?a = "normalize_scheduler_addr (addrs ! ((base + offset) mod (usize_MAX + 1) mod length addrs))"
  obtain r w1 where r: "connect ?a w = (r, w1)" by fastforce
  show ?case
  proof (cases r)
    case (Inl err)
    with r Cons.IH [of w1 "Some (Status Unavailable err)"] show ?thesis
      by (auto simp: Let_def less_Suc_eq_0_disj first_answer_Cons(2) intro: exI [of _ "Suc _"])
  next
    case (Inr c)
    with r first_answer_Cons(1) [of connect ?a w c w1] show ?thesis by (fastforce simp: Let_def)
  qed
qed simp

text \<open>
  C39 (liveness). A call of the gateway is made on the first scheduler that takes the connection,
  in the order of the configured addresses from the next one on, whatever the attempts do to the
  world; only when none of them takes it the call fails without having been made, with the error
  of the last attempt. The call is made once, and its result, good or bad, is the result. The
  request after it starts one address further. The counter of requests is taken not to wrap
  around on the way.
\<close>

theorem gateway_reaches_live_scheduler:
  assumes "addrs \<noteq> []" and "next_addr + length addrs \<le> usize_MAX"
    and "as = map normalize_scheduler_addr (rotate next_addr addrs)"
  shows "(\<exists>i c w'. first_answer connect as w i c w' \<and>
      with_client connect addrs call (next_addr, w) = (fst (call c w'), (next_addr + 1, snd (call c w')))) \<or>
    ((\<forall>j<length as. try_fails connect as j w) \<and>
      with_client connect addrs call (next_addr, w) =
        (Inl (Status Unavailable (projl (fst (connect (last as) (after_tries connect (butlast as) w))))),
         (next_addr + 1, after_tries connect as w)))"
proof -
  let ?tried = "map (\<lambda>offset. normalize_scheduler_addr (addrs ! ((next_addr + offset) mod (usize_MAX + 1) mod length addrs)))
    [0..<length addrs]"
  have "?tried = map normalize_scheduler_addr
      (map (\<lambda>offset. addrs ! ((next_addr + offset) mod (usize_MAX + 1) mod length addrs)) [0..<length addrs])"
    by simp
  also have "\<dots> = as" using rotated_addresses [of next_addr addrs] assms(2,3) by simp
  finally have tried: "?tried = as" .
  have step: "Suc next_addr mod Suc usize_MAX = Suc next_addr" using assms(1,2) by (cases addrs) simp_all
  have "as \<noteq> []" using assms(1,3) by simp
  consider i c w' where "first_answer connect as w i c w'"
      "connect_from connect addrs next_addr None [0..<length addrs] w = (Inr c, w')"
    | "\<forall>j<length as. try_fails connect as j w"
      "connect_from connect addrs next_addr None [0..<length addrs] w =
        (Inl (Status Unavailable (projl (fst (connect (last as) (after_tries connect (butlast as) w))))), after_tries connect as w)"
    using connect_from_tries [of connect addrs next_addr "[0..<length addrs]" w None, unfolded tried] \<open>as \<noteq> []\<close> by auto
  then show ?thesis
  proof cases
    case (1 i c w')
    then have "with_client connect addrs call (next_addr, w) = (fst (call c w'), (next_addr + 1, snd (call c w')))"
      using assms(1) step by (simp add: with_client_def grpc_connect_def split: prod.splits)
    with 1(1) show ?thesis by blast
  next
    case 2
    with assms(1) step show ?thesis by (simp add: with_client_def grpc_connect_def)
  qed
qed

theorem gateway_reaches_live_scheduler_witness:
  "\<forall>c :: nat scheduler_client.
     with_client (\<lambda>a n. if a = ''http://b'' then (Inr c, n + 1) else (Inl ''refused'', n + 1)) [''a'', ''b'', ''c'']
       (\<lambda>c n. (Inr n, n)) (2, 0) = (Inr 3, (3, 3))"
proof
  fix c :: "nat scheduler_client"
  let ?connect = "\<lambda>a n. if a = ''http://b'' then (Inr c, n + 1) else (Inl ''refused'', n + 1 :: nat)"
  let ?as = "map normalize_scheduler_addr (rotate 2 [''a'', ''b'', ''c''])"
  have as: "?as = [''http://c'', ''http://a'', ''http://b'']"
    by (simp add: normalize_scheduler_addr_def starts_with_def eval_nat_numeral)
  have "[''a'', ''b'', ''c''] \<noteq> []" "2 + length [''a'', ''b'', ''c''] \<le> usize_MAX" by (simp_all add: usize_MAX_def)
  from gateway_reaches_live_scheduler [OF this refl, of ?connect 0 "\<lambda>c n. (Inr n, n)", unfolded as]
  show "with_client ?connect [''a'', ''b'', ''c''] (\<lambda>c n. (Inr n, n)) (2, 0) = (Inr 3, (3, 3))"
    by (auto simp: first_answer_def try_fails_def after_tries_def less_Suc_eq eval_nat_numeral)
qed

end
