(* ===== verification/Vtl_Tools.thy ===== *)
theory Vtl_Tools
  imports Vtl_Model
begin

text \<open>
  The command-line side of the virtual tape library crate: the commands of the \<open>mhvtl\<close> tools
  (\<open>crates/vtl/src/mhvtl.rs\<close>), how a command is run and printed (\<open>command.rs\<close>) and the parser
  of the output of \<open>lsscsi -g\<close> (\<open>discover.rs\<close>). A command runner is an operation of a state
  of its own; running a process of the system is a parameter.
\<close>

section \<open>Commands\<close>

record command_spec =
  cmd_program :: string
  cmd_args :: "string list"

definition command_new :: "string \<Rightarrow> command_spec" where
  "command_new program = \<lparr>cmd_program = program, cmd_args = []\<rparr>"

definition command_arg :: "string \<Rightarrow> command_spec \<Rightarrow> command_spec" where
  "command_arg a c = c\<lparr>cmd_args := cmd_args c @ [a]\<rparr>"

definition command_args :: "string list \<Rightarrow> command_spec \<Rightarrow> command_spec" where
  "command_args as c = c\<lparr>cmd_args := cmd_args c @ as\<rparr>"

definition argv :: "command_spec \<Rightarrow> string list" where
  "argv c = cmd_program c # cmd_args c"

definition is_ascii_alphanumeric :: "char \<Rightarrow> bool" where
  "is_ascii_alphanumeric c \<longleftrightarrow>
     (let n = (of_char c :: nat) in (48 \<le> n \<and> n \<le> 57) \<or> (65 \<le> n \<and> n \<le> 90) \<or> (97 \<le> n \<and> n \<le> 122))"

definition plain_char :: "char \<Rightarrow> bool" where
  "plain_char c \<longleftrightarrow> is_ascii_alphanumeric c \<or> c \<in> set ''/_-.:=''"

definition shell_quote :: "string \<Rightarrow> string" where
  "shell_quote v =
     (if \<forall>c \<in> set v. plain_char c then v
      else [CHR 0x27] @ replace_char (CHR 0x27) [CHR 0x27, CHR 0x5C, CHR 0x27, CHR 0x27] v @ [CHR 0x27])"

definition display_command :: "command_spec \<Rightarrow> string" where
  "display_command c =
     shell_quote (cmd_program c) @ concat (map (\<lambda>a. '' '' @ shell_quote a) (cmd_args c))"

record command_output =
  co_status :: i32
  co_stdout :: string
  co_stderr :: string

definition output_success :: "string \<Rightarrow> command_output" where
  "output_success stdout = \<lparr>co_status = 0, co_stdout = stdout, co_stderr = []\<rparr>"

definition output_default :: command_output where
  "output_default = \<lparr>co_status = 0, co_stdout = [], co_stderr = []\<rparr>"

type_synonym 's command_runner = "command_spec \<Rightarrow> 's \<Rightarrow> (vtl_error + command_output) \<times> 's"

definition run_checked :: "'s command_runner \<Rightarrow> 's command_runner" where
  "run_checked run c s =
     try_st (run c s) (\<lambda>output s.
       if co_status output = 0 then (Inr output, s)
       else (Inl (CommandFailed (display_command c) (co_status output) (co_stderr output)), s))"

text \<open>
  A process of the system: \<open>exec\<close> starts it and returns its exit code, \<open>None\<close> when a signal
  ended it, and its output.
\<close>

definition system_run ::
  "(string \<Rightarrow> string list \<Rightarrow> 's \<Rightarrow> (string + (i32 option \<times> string \<times> string)) \<times> 's) \<Rightarrow> 's command_runner" where
  "system_run exec c s =
     try_st (map_error Io (exec (cmd_program c) (cmd_args c) s)) (\<lambda>(status, stdout, stderr) s.
       (Inr \<lparr>co_status = (case status of Some n \<Rightarrow> n | None \<Rightarrow> - 1), co_stdout = stdout, co_stderr = stderr\<rparr>, s))"

record recorded_runner =
  rec_commands :: "command_spec list"
  rec_responses :: "command_output list"

definition push_response :: "command_output \<Rightarrow> recorded_runner \<Rightarrow> recorded_runner" where
  "push_response r s = s\<lparr>rec_responses := rec_responses s @ [r]\<rparr>"

definition push_stdout :: "string \<Rightarrow> recorded_runner \<Rightarrow> recorded_runner" where
  "push_stdout stdout s = push_response (output_success stdout) s"

definition recorded_run :: "recorded_runner command_runner" where
  "recorded_run c s =
     (let s = s\<lparr>rec_commands := rec_commands s @ [c]\<rparr>
      in case rec_responses s of
           [] \<Rightarrow> (Inr output_default, s)
         | r # rs \<Rightarrow> (Inr r, s\<lparr>rec_responses := rs\<rparr>))"

section \<open>The devices that lsscsi lists\<close>

datatype scsi_device_kind = TapeDriveKind | MediumChangerKind | DiskKind | CdDvdKind | OtherKind

definition from_lsscsi :: "string \<Rightarrow> scsi_device_kind" where
  "from_lsscsi v =
     (if v = ''tape'' then TapeDriveKind
      else if v = ''mediumx'' then MediumChangerKind
      else if v = ''disk'' then DiskKind
      else if v = ''cd/dvd'' then CdDvdKind
      else OtherKind)"

record scsi_device =
  sd_hctl :: string
  sd_kind :: scsi_device_kind
  sd_vendor :: string
  sd_product :: string
  sd_revision :: string
  sd_primary_device :: "string option"
  sd_sg_device :: "string option"
  sd_non_rewinding_device :: "string option"

definition tape_drives :: "scsi_device list \<Rightarrow> scsi_device list" where
  "tape_drives ds = filter (\<lambda>d. sd_kind d = TapeDriveKind) ds"

definition medium_changers :: "scsi_device list \<Rightarrow> scsi_device list" where
  "medium_changers ds = filter (\<lambda>d. sd_kind d = MediumChangerKind) ds"

definition non_rewinding_tape_device :: "string \<Rightarrow> string option" where
  "non_rewinding_tape_device path =
     (case strip_prefix ''/dev/st'' path of
        None \<Rightarrow> None
      | Some rest \<Rightarrow> if \<forall>c \<in> set rest. is_ascii_digit c then Some (''/dev/nst'' @ rest) else None)"

definition token_at :: "string list \<Rightarrow> nat \<Rightarrow> string option" where
  "token_at tokens i = (if i < length tokens then Some (tokens ! i) else None)"

definition keep_if :: "('a \<Rightarrow> bool) \<Rightarrow> 'a option \<Rightarrow> 'a option" where
  "keep_if P v = (case v of Some x \<Rightarrow> if P x then Some x else None | None \<Rightarrow> None)"

definition parse_lsscsi_line :: "string \<Rightarrow> vtl_error + scsi_device" where
  "parse_lsscsi_line line =
     (case str_find '']'' line of
        None \<Rightarrow> Inl (InvalidLsscsiLine line)
      | Some close \<Rightarrow>
          (case strip_prefix ''['' line of
             None \<Rightarrow> Inl (InvalidLsscsiLine line)
           | Some rest \<Rightarrow>
               (let hctl = take (close - 1) rest; tokens = split_whitespace (drop (close + 1) line)
                in if length tokens < 4 then Inl (InvalidLsscsiLine line)
                   else let primary_device = keep_if (starts_with ''/dev/'') (token_at tokens 4);
                            sg_device = (case keep_if (starts_with ''/dev/sg'') (token_at tokens 5) of
                                Some d \<Rightarrow> Some d
                              | None \<Rightarrow> List.find (starts_with ''/dev/sg'') tokens)
                        in Inr \<lparr>sd_hctl = hctl, sd_kind = from_lsscsi (tokens ! 0), sd_vendor = tokens ! 1,
                             sd_product = tokens ! 2, sd_revision = tokens ! 3, sd_primary_device = primary_device,
                             sd_sg_device = sg_device,
                             sd_non_rewinding_device = Option.bind primary_device non_rewinding_tape_device\<rparr>)))"

fun parse_lsscsi_lines :: "string list \<Rightarrow> vtl_error + scsi_device list" where
  "parse_lsscsi_lines [] = Inr []"
| "parse_lsscsi_lines (line # ls) =
     try_then (parse_lsscsi_line line) (\<lambda>d. try_then (parse_lsscsi_lines ls) (\<lambda>ds. Inr (d # ds)))"

definition parse_lsscsi :: "string \<Rightarrow> vtl_error + scsi_device list" where
  "parse_lsscsi output =
     parse_lsscsi_lines (filter (\<lambda>l. l \<noteq> []) (map trim (split_char (CHR 0x0A) output)))"

section \<open>The commands of the tools\<close>

record tool_paths =
  tp_lsscsi :: string
  tp_mtx :: string
  tp_mt :: string
  tp_dd :: string
  tp_sg_inq :: string
  tp_sg_turs :: string
  tp_sg_logs :: string
  tp_sg_modes :: string
  tp_vtlcmd :: string

definition tool_paths_default :: tool_paths where
  "tool_paths_default =
     \<lparr>tp_lsscsi = ''lsscsi'', tp_mtx = ''mtx'', tp_mt = ''mt'', tp_dd = ''dd'', tp_sg_inq = ''sg_inq'',
      tp_sg_turs = ''sg_turs'', tp_sg_logs = ''sg_logs'', tp_sg_modes = ''sg_modes'', tp_vtlcmd = ''vtlcmd''\<rparr>"

definition discover_command :: "tool_paths \<Rightarrow> command_spec" where
  "discover_command p = command_arg ''-g'' (command_new (tp_lsscsi p))"

definition library_status_command :: "tool_paths \<Rightarrow> string \<Rightarrow> command_spec" where
  "library_status_command p changer_sg = command_args [''-f'', changer_sg, ''status''] (command_new (tp_mtx p))"

definition move_medium_command :: "tool_paths \<Rightarrow> string \<Rightarrow> element_address \<Rightarrow> element_address \<Rightarrow> command_spec" where
  "move_medium_command p changer_sg from' to' =
     command_args [''-f'', changer_sg, ''transfer'', show_word (mtx_address from'), show_word (mtx_address to')]
       (command_new (tp_mtx p))"

definition load_command :: "tool_paths \<Rightarrow> string \<Rightarrow> element_address \<Rightarrow> element_address \<Rightarrow> command_spec" where
  "load_command p changer_sg slot drive =
     command_args [''-f'', changer_sg, ''load'', show_word (mtx_address slot), show_word (mtx_address drive)]
       (command_new (tp_mtx p))"

definition unload_command :: "tool_paths \<Rightarrow> string \<Rightarrow> element_address \<Rightarrow> element_address \<Rightarrow> command_spec" where
  "unload_command p changer_sg slot drive =
     command_args [''-f'', changer_sg, ''unload'', show_word (mtx_address slot), show_word (mtx_address drive)]
       (command_new (tp_mtx p))"

definition tape_status_command :: "tool_paths \<Rightarrow> string \<Rightarrow> command_spec" where
  "tape_status_command p tape_device = command_args [''-f'', tape_device, ''status''] (command_new (tp_mt p))"

definition rewind_command :: "tool_paths \<Rightarrow> string \<Rightarrow> command_spec" where
  "rewind_command p tape_device = command_args [''-f'', tape_device, ''rewind''] (command_new (tp_mt p))"

definition offline_command :: "tool_paths \<Rightarrow> string \<Rightarrow> command_spec" where
  "offline_command p tape_device = command_args [''-f'', tape_device, ''offline''] (command_new (tp_mt p))"

definition write_filemark_command :: "tool_paths \<Rightarrow> string \<Rightarrow> u32 \<Rightarrow> command_spec" where
  "write_filemark_command p tape_device n =
     command_args [''-f'', tape_device, ''weof'', show_word n] (command_new (tp_mt p))"

definition seek_filemark_command :: "tool_paths \<Rightarrow> string \<Rightarrow> u32 \<Rightarrow> command_spec" where
  "seek_filemark_command p tape_device n =
     command_args [''-f'', tape_device, ''fsf'', show_word n] (command_new (tp_mt p))"

definition write_tape_command :: "tool_paths \<Rightarrow> string \<Rightarrow> string \<Rightarrow> u32 \<Rightarrow> command_spec" where
  "write_tape_command p input_path tape_device block_size =
     command_args [''if='' @ input_path, ''of='' @ tape_device, ''bs='' @ show_word block_size, ''status=none'']
       (command_new (tp_dd p))"

definition read_tape_command :: "tool_paths \<Rightarrow> string \<Rightarrow> string \<Rightarrow> u32 \<Rightarrow> u32 \<Rightarrow> command_spec" where
  "read_tape_command p tape_device output_path block_size n =
     command_args [''if='' @ tape_device, ''of='' @ output_path, ''bs='' @ show_word block_size,
       ''count='' @ show_word n, ''iflag=fullblock'', ''status=none''] (command_new (tp_dd p))"

definition inquiry_command :: "tool_paths \<Rightarrow> string \<Rightarrow> command_spec" where
  "inquiry_command p sg_device = command_arg sg_device (command_new (tp_sg_inq p))"

definition test_unit_ready_command :: "tool_paths \<Rightarrow> string \<Rightarrow> command_spec" where
  "test_unit_ready_command p sg_device = command_arg sg_device (command_new (tp_sg_turs p))"

definition sg_logs_command :: "tool_paths \<Rightarrow> string \<Rightarrow> command_spec" where
  "sg_logs_command p sg_device = command_arg sg_device (command_new (tp_sg_logs p))"

definition sg_modes_command :: "tool_paths \<Rightarrow> string \<Rightarrow> command_spec" where
  "sg_modes_command p sg_device = command_arg sg_device (command_new (tp_sg_modes p))"

definition vtlcmd_command :: "tool_paths \<Rightarrow> string list \<Rightarrow> command_spec" where
  "vtlcmd_command p as = command_args as (command_new (tp_vtlcmd p))"

definition discover :: "tool_paths \<Rightarrow> 's command_runner \<Rightarrow> 's \<Rightarrow> (vtl_error + scsi_device list) \<times> 's" where
  "discover p run s =
     try_st (run_checked run (discover_command p) s) (\<lambda>output s. (parse_lsscsi (co_stdout output), s))"

definition run_library_status :: "tool_paths \<Rightarrow> 's command_runner \<Rightarrow> string \<Rightarrow> 's \<Rightarrow> (vtl_error + command_output) \<times> 's" where
  "run_library_status p run changer_sg s = run_checked run (library_status_command p changer_sg) s"

definition run_test_unit_ready :: "tool_paths \<Rightarrow> 's command_runner \<Rightarrow> string \<Rightarrow> 's \<Rightarrow> (vtl_error + command_output) \<times> 's" where
  "run_test_unit_ready p run sg_device s = run_checked run (test_unit_ready_command p sg_device) s"

section \<open>What a shell makes of a printed command\<close>

text \<open>
  The word splitting of a POSIX shell, for the characters that a printed command has: blanks
  separate words, a backslash takes the next character as it is, and between single quotes
  every character stands for itself. The arguments are the words read so far, the word being
  read, if one has begun, and whether the text is inside quotes.
\<close>

definition unwrap_word :: "string option \<Rightarrow> string" where
  "unwrap_word w = (case w of None \<Rightarrow> [] | Some t \<Rightarrow> t)"

fun shell_words :: "bool \<Rightarrow> string option \<Rightarrow> string \<Rightarrow> string list" where
  "shell_words quoted w [] = (case w of None \<Rightarrow> [] | Some t \<Rightarrow> [t])"
| "shell_words True w (c # s) =
     (if c = CHR 0x27 then shell_words False (Some (unwrap_word w)) s
      else shell_words True (Some (unwrap_word w @ [c])) s)"
| "shell_words False w (c # s) =
     (if c = CHR '' '' then (case w of None \<Rightarrow> shell_words False None s | Some t \<Rightarrow> t # shell_words False None s)
      else if c = CHR 0x27 then shell_words True (Some (unwrap_word w)) s
      else if c = CHR 0x5C then (case s of [] \<Rightarrow> shell_words False w [] | d # s' \<Rightarrow> shell_words False (Some (unwrap_word w @ [d])) s')
      else shell_words False (Some (unwrap_word w @ [c])) s)"

lemma unwrap_word_simps [simp]: "unwrap_word None = []" "unwrap_word (Some t) = t"
  by (simp_all add: unwrap_word_def)

lemma shell_words_plain:
  assumes "\<forall>c \<in> set v. plain_char c"
  shows "shell_words False w (v @ rest) = (if v = [] then shell_words False w rest
    else shell_words False (Some (unwrap_word w @ v)) rest)"
  using assms
proof (induction v arbitrary: w)
  case (Cons c v)
  have "c \<noteq> CHR '' ''" "c \<noteq> CHR 0x27" "c \<noteq> CHR 0x5C"
    using Cons.prems by (auto simp: plain_char_def is_ascii_alphanumeric_def)
  then show ?case using Cons by (simp add: plain_char_def)
qed simp

lemma shell_words_quoted:
  "shell_words True (Some t) (replace_char (CHR 0x27) [CHR 0x27, CHR 0x5C, CHR 0x27, CHR 0x27] v @ CHR 0x27 # rest) =
     shell_words False (Some (t @ v)) rest"
  by (induction v arbitrary: t) (simp_all add: replace_char_def)

lemma shell_words_shell_quote:
  assumes "v \<noteq> []"
  shows "shell_words False None (shell_quote v @ rest) = shell_words False (Some v) rest"
  using assms shell_words_plain [of v None rest] shell_words_quoted [of "[]" v rest]
  by (simp add: shell_quote_def)

lemma shell_words_args:
  assumes "[] \<notin> set as"
  shows "shell_words False (Some t) (concat (map (\<lambda>a. '' '' @ shell_quote a) as)) = t # as"
  using assms
proof (induction as arbitrary: t)
  case (Cons a as)
  then have "a \<noteq> []" by auto
  then show ?case using Cons shell_words_shell_quote [of a] by simp
qed simp

text \<open>
  An empty argument prints as nothing, so that the printed command has one word less.
\<close>

theorem printed_empty_argument_vanishes:
  "shell_words False None (display_command \<lparr>cmd_program = ''mt'', cmd_args = [''-f'', [], ''status'']\<rparr>) =
     [''mt'', ''-f'', ''status'']"
  by (simp add: display_command_def shell_quote_def plain_char_def is_ascii_alphanumeric_def)

text \<open>
  C40 (roundtrip). A shell that splits a printed command into words gets back the program and
  the arguments, whatever blanks, quotes and backslashes they have, provided that none of them
  is empty.
\<close>

theorem printed_command_splits_into_argv:
  assumes "[] \<notin> set (argv c)"
  shows "shell_words False None (display_command c) = argv c"
proof -
  have "cmd_program c \<noteq> []" and "[] \<notin> set (cmd_args c)" using assms by (auto simp: argv_def)
  then show ?thesis
    using shell_words_args [of "cmd_args c" "cmd_program c"]
    by (simp add: argv_def display_command_def shell_words_shell_quote)
qed

theorem printed_command_splits_into_argv_witness:
  "shell_words False None (display_command \<lparr>cmd_program = ''dd'', cmd_args = [''if=a b'', ''of='' @ [CHR 0x27]]\<rparr>) =
     [''dd'', ''if=a b'', ''of='' @ [CHR 0x27]]"
  using printed_command_splits_into_argv [of "\<lparr>cmd_program = ''dd'', cmd_args = [''if=a b'', ''of='' @ [CHR 0x27]]\<rparr>"]
  by (simp add: argv_def)

end
