(* ===== verification/Node.thy ===== *)
theory Node
  imports Config
begin

text \<open>
  The single-node runtime (\<open>crates/node/src/main.rs\<close>): how it finds its configuration and the
  configurations it starts the five components with. The command line, the environment and
  the parser of the configuration file are arguments. Starting the components and waiting for
  the interrupt is not modelled.
\<close>

definition METADATA_ADDR :: string where "METADATA_ADDR = ''127.0.0.1:21001''"

definition SCHEDULER_ADDR :: string where "SCHEDULER_ADDR = ''127.0.0.1:22001''"

definition CACHE_ADDR :: string where "CACHE_ADDR = ''127.0.0.1:23001''"

definition TAPE_ADDR :: string where "TAPE_ADDR = ''127.0.0.1:24001''"

definition GATEWAY_ADDR :: string where "GATEWAY_ADDR = ''127.0.0.1:9000''"

record 'f single_node_configs =
  sn_metadata :: metadata_config
  sn_cache :: "'f cache_config"
  sn_tape :: "tape_config option"
  sn_scheduler :: scheduler_config
  sn_gateway :: gateway_config

definition single_node_configs :: "(string \<Rightarrow> 'f) \<Rightarrow> string \<Rightarrow> bool \<Rightarrow> 'f single_node_configs" where
  "single_node_configs lit data_dir tape_enabled =
     (let scheduler = scheduler_config_default
            \<lparr>sc_listen := SCHEDULER_ADDR, sc_metadata_addrs := [METADATA_ADDR], sc_cache_addrs := [CACHE_ADDR],
             sc_tape_addrs := (if tape_enabled then [TAPE_ADDR] else [])\<rparr>;
          archive = (sc_archive scheduler)\<lparr>asc_scan_interval_secs := 2, asc_batch_size := 128\<rparr>;
          recall = (sc_recall scheduler)\<lparr>rsc_scan_interval_secs := 2, rsc_max_concurrent_restores := 4\<rparr>;
          archive = (if tape_enabled then archive else archive\<lparr>asc_enabled := False\<rparr>);
          recall = (if tape_enabled then recall else recall\<lparr>rsc_enabled := False\<rparr>)
      in \<lparr>sn_metadata = metadata_config_default
            \<lparr>mc_listen := METADATA_ADDR, mc_cluster := ''1:'' @ METADATA_ADDR,
             mc_data_path := path_join data_dir ''metadata''\<rparr>,
          sn_cache = (cache_config_default lit)
            \<lparr>cc_listen := CACHE_ADDR, cc_metadata_addrs := [METADATA_ADDR],
             cc_backend := HddConfig (path_join data_dir ''cache'') 100\<rparr>,
          sn_tape = (if tape_enabled
            then Some (tape_config_default\<lparr>tc_listen := TAPE_ADDR, tc_metadata_addrs := [METADATA_ADDR]\<rparr>)
            else None),
          sn_scheduler = scheduler\<lparr>sc_archive := archive, sc_recall := recall\<rparr>,
          sn_gateway = \<lparr>gc_listen = GATEWAY_ADDR, gc_scheduler_addrs = [SCHEDULER_ADDR]\<rparr>\<rparr>)"

record node_runtime_config =
  nr_data_dir :: string
  nr_tape_enabled :: bool

definition default_data_dir :: string where
  "default_data_dir = ''data/single-node''"

definition default_tape_enabled :: bool where
  "default_tape_enabled = True"

definition node_runtime_config_default :: node_runtime_config where
  "node_runtime_config_default = \<lparr>nr_data_dir = default_data_dir, nr_tape_enabled = default_tape_enabled\<rparr>"

text \<open>The arguments after the program name are searched in order; the environment comes last.\<close>

fun config_path_args :: "string list \<Rightarrow> (string + string option) option" where
  "config_path_args [] = None"
| "config_path_args (arg # args) =
     (if arg = ''--config''
      then Some (case args of path # _ \<Rightarrow> Inr (Some path) | [] \<Rightarrow> Inl ''--config requires a path'')
      else case strip_prefix ''--config='' arg of
             Some path \<Rightarrow> Some (Inr (Some path))
           | None \<Rightarrow> config_path_args args)"

definition config_path :: "string list \<Rightarrow> (string \<Rightarrow> string option) \<Rightarrow> string + string option" where
  "config_path args env =
     (case config_path_args (drop 1 args) of Some r \<Rightarrow> r | None \<Rightarrow> Inr (env ''COLDSTORE_CONFIG''))"

definition no_tape_override :: "string list \<Rightarrow> (string \<Rightarrow> string option) \<Rightarrow> bool" where
  "no_tape_override args env \<longleftrightarrow>
     ''--no-tape'' \<in> set args \<or>
     env ''COLDSTORE_NO_TAPE'' \<in> Some ` {''1'', ''true'', ''TRUE'', ''yes'', ''YES'', ''on'', ''ON''}"

definition load_runtime_config ::
  "(string \<Rightarrow> string + node_runtime_config) \<Rightarrow> string list \<Rightarrow> (string \<Rightarrow> string option) \<Rightarrow> string + node_runtime_config" where
  "load_runtime_config parse args env =
     try_then (config_path args env) (\<lambda>path.
     try_then (case path of Some p \<Rightarrow> parse p | None \<Rightarrow> Inr node_runtime_config_default) (\<lambda>runtime.
       let runtime = (case env ''COLDSTORE_DATA_DIR'' of
               Some data_dir \<Rightarrow> runtime\<lparr>nr_data_dir := data_dir\<rparr> | None \<Rightarrow> runtime)
       in Inr (if no_tape_override args env then runtime\<lparr>nr_tape_enabled := False\<rparr> else runtime)))"

end
