(* ===== verification/Scheduler_Properties.thy ===== *)
theory Scheduler_Properties
  imports Scheduler_Service
begin

text \<open>
  Properties of the scheduler that hold over any services: what a pass of its loops leaves of
  the claims on objects and tasks, and how long its start waits for the services.
\<close>

section \<open>Claims\<close>

text \<open>The keys of the objects being archived and the tasks being recalled.\<close>

definition claims :: "scheduler_state \<Rightarrow> string set \<times> string set" where
  "claims st = (sst_active_archive_keys st, sst_active_recall_tasks st)"

lemma acquire_archive_claims:
  "acquire_archive_item key st = (True, st') \<Longrightarrow> claims (release_archive_item key st') = claims st"
  "acquire_archive_item key st = (False, st') \<Longrightarrow> st' = st"
  by (auto simp: acquire_archive_item_def release_archive_item_def claims_def split: if_splits)

lemma acquire_recall_claims:
  "acquire_recall_task key st = (True, st') \<Longrightarrow> claims (release_recall_task key (acquire_tape_lease tape st')) = claims st"
  "acquire_recall_task key st = (False, st') \<Longrightarrow> st' = st"
  by (auto simp: acquire_recall_task_def release_recall_task_def acquire_tape_lease_def claims_def split: if_splits)

lemma archive_loop_claims:
  "claims (fst (snd (archive_entry_loop sha sv cache ac tape entries result s))) = claims (fst s)"
proof (induction entries arbitrary: result s)
  case (Cons entry entries)
  obtain st w where s: "s = (st, w)" by fastforce
  let ?key = "phase1_archive_item_key (sk_bucket entry) (sk_key entry) (sk_version_id entry)"
  obtain claimed st' where a: "acquire_archive_item ?key st = (claimed, st')" by fastforce
  show ?case
  proof (cases claimed)
    case False
    then show ?thesis using a acquire_archive_claims(2) [of ?key st st'] Cons.IH by (simp add: s Let_def)
  next
    case True
    obtain r w' where p: "process_archive_entry sha sv cache ac tape (asc_tape_id (sc_archive (sst_config st'))) entry w = (r, w')"
      by fastforce
    show ?thesis
      using a True p acquire_archive_claims(1) [of ?key st st']
      by (auto simp: s Let_def Cons.IH split: sum.split option.split)
  qed
qed simp

lemma recall_loop_claims:
  "claims (fst (snd (recall_task_loop sha sv rc tape tasks result s))) = claims (fst s)"
proof (induction tasks arbitrary: result s)
  case (Cons task tasks)
  obtain st w where s: "s = (st, w)" by fastforce
  let ?key = "phase1_recall_task_key task"
  obtain claimed st' where a: "acquire_recall_task ?key st = (claimed, st')" by fastforce
  show ?case
  proof (cases claimed)
    case False
    then show ?thesis using a acquire_recall_claims(2) [of ?key st st'] Cons.IH by (simp add: s Let_def)
  next
    case True
    obtain r w' where p: "recall_one sha sv rc tape task w = (r, w')" by fastforce
    show ?thesis
      using a True p acquire_recall_claims(1) [of ?key st st' "rt_tape_id task"]
      by (auto simp: s Let_def Cons.IH split: sum.split option.split)
  qed
qed simp

lemma batch_claims:
  "claims (fst (snd (archive_staging_batch sha sv cache ac tape limit s))) = claims (fst s)"
  "claims (fst (snd (recall_pending_batch sha sv rc reader max_tasks s))) = claims (fst s)"
  by (simp_all add: archive_staging_batch_def recall_pending_batch_def archive_loop_claims recall_loop_claims split: prod.split sum.split)

lemma lease_claims: "claims (acquire_tape_lease tape st) = claims st"
  by (simp add: claims_def acquire_tape_lease_def)

text \<open>
  C3 (invariant). A pass of the archive loop or of the recall loop leaves the claims as they
  were, whichever of its steps fails: no object and no task stays claimed by a pass that is
  over, so a later pass is never kept from it.
\<close>

theorem passes_release_claims:
  "claims (fst (archive_agent_tick sha sv s)) = claims (fst s) \<and>
   claims (fst (recall_agent_tick sha sv s)) = claims (fst s)"
proof (cases s)
  case (Pair st w)
  have "claims (fst (snd (archive_staging_once sha sv (st, w)))) = claims st"
    by (simp add: archive_staging_once_def Let_def batch_claims lease_claims)
  moreover have "claims (fst (snd (recall_pending_once sha sv n (st, w)))) = claims st" for n
    by (simp add: recall_pending_once_def Let_def batch_claims)
  ultimately show ?thesis by (simp add: Pair archive_agent_tick_def recall_agent_tick_def)
qed

section \<open>Waiting for the services\<close>

text \<open>The network after some attempts to connect.\<close>

definition after_attempts :: "(string \<Rightarrow> 'n \<Rightarrow> (string + 'c) \<times> 'n) \<Rightarrow> string \<Rightarrow> nat \<Rightarrow> 'n \<Rightarrow> 'n" where
  "after_attempts connect addr i n = ((\<lambda>n. snd (connect addr n)) ^^ i) n"

definition attempt_fails :: "(string \<Rightarrow> 'n \<Rightarrow> (string + 'c) \<times> 'n) \<Rightarrow> string \<Rightarrow> 'n \<Rightarrow> nat \<Rightarrow> bool" where
  "attempt_fails connect addr n i \<longleftrightarrow> (\<exists>err. fst (connect addr (after_attempts connect addr i n)) = Inl err)"

lemma after_attempts_Suc: "after_attempts connect addr (Suc i) n = after_attempts connect addr i (snd (connect addr n))"
  by (simp only: after_attempts_def funpow_Suc_right comp_def)

lemma attempt_fails_Suc: "attempt_fails connect addr n (Suc i) = attempt_fails connect addr (snd (connect addr n)) i"
  by (simp add: attempt_fails_def after_attempts_Suc)

lemma connect_attempts_success:
  assumes "i < attempts" and "\<And>j. j < i \<Longrightarrow> attempt_fails connect addr n j" and "\<not> attempt_fails connect addr n i"
  shows "connect_attempts attempts connect none last_error addr n = connect addr (after_attempts connect addr i n)"
  using assms
proof (induction attempts arbitrary: i last_error n)
  case (Suc attempts)
  show ?case
  proof (cases i)
    case 0
    then show ?thesis
      using Suc.prems(3) by (cases "connect addr n"; cases "fst (connect addr n)") (auto simp: attempt_fails_def after_attempts_def)
  next
    case (Suc i')
    obtain err n' where c: "connect addr n = (Inl err, n')"
      using Suc.prems(2) [of 0] Suc by (cases "connect addr n") (auto simp: attempt_fails_def after_attempts_def)
    have "connect_attempts attempts connect none (Some err) addr n' = connect addr (after_attempts connect addr i' n')"
      by (rule Suc.IH) (use Suc.prems Suc attempt_fails_Suc [of connect addr n] c in auto)
    then show ?thesis using c Suc by (simp add: after_attempts_Suc)
  qed
qed simp

lemma connect_attempts_failure:
  assumes "\<And>j. j < attempts \<Longrightarrow> attempt_fails connect addr n j"
  shows "\<exists>err. connect_attempts attempts connect none last_error addr n = (Inl err, after_attempts connect addr attempts n)"
  using assms
proof (induction attempts arbitrary: last_error n)
  case (Suc attempts)
  obtain err n' where c: "connect addr n = (Inl err, n')"
    using Suc.prems [of 0] by (cases "connect addr n") (auto simp: attempt_fails_def after_attempts_def)
  have "\<exists>e. connect_attempts attempts connect none (Some err) addr n' = (Inl e, after_attempts connect addr attempts n')"
    by (rule Suc.IH) (use Suc.prems attempt_fails_Suc [of connect addr n] c in auto)
  then show ?case using c by (simp add: after_attempts_Suc)
qed (simp add: after_attempts_def)

lemma connect_attempts_ends:
  "(\<exists>i < attempts. (\<forall>j < i. attempt_fails connect addr n j) \<and> \<not> attempt_fails connect addr n i \<and>
      connect_attempts attempts connect none last_error addr n = connect addr (after_attempts connect addr i n)) \<or>
   (\<exists>err. (\<forall>j < attempts. attempt_fails connect addr n j) \<and>
      connect_attempts attempts connect none last_error addr n = (Inl err, after_attempts connect addr attempts n))"
proof (cases "\<forall>j < attempts. attempt_fails connect addr n j")
  case True
  then show ?thesis using connect_attempts_failure [of attempts connect addr n] by blast
next
  case False
  then obtain k where "k < attempts" "\<not> attempt_fails connect addr n k" by blast
  then obtain i where i: "i < attempts" "\<not> attempt_fails connect addr n i" "\<forall>j < i. attempt_fails connect addr n j"
    using ex_least_nat_le [of "\<lambda>i. \<not> attempt_fails connect addr n i" k] by (meson le_less_trans)
  then have "connect_attempts attempts connect none last_error addr n = connect addr (after_attempts connect addr i n)"
    by (intro connect_attempts_success) blast+
  with i show ?thesis by blast
qed

text \<open>
  C4 (termination). The start of a worker waits for the metadata service for at most thirty
  attempts: it goes on with the first that succeeds, and it gives up with an error after
  exactly thirty that fail.
\<close>

theorem metadata_wait_ends:
  "(\<exists>i < 30. (\<forall>j < i. attempt_fails connect addr n j) \<and> \<not> attempt_fails connect addr n i \<and>
      connect_metadata_with_retry connect addr n = connect addr (after_attempts connect addr i n)) \<or>
   (\<exists>err. (\<forall>j < 30. attempt_fails connect addr n j) \<and>
      connect_metadata_with_retry connect addr n = (Inl err, after_attempts connect addr 30 n))"
  unfolding connect_metadata_with_retry_def by (rule connect_attempts_ends)

text \<open>A service that is up after two attempts.\<close>

definition late_service :: "string \<Rightarrow> nat \<Rightarrow> (string + unit) \<times> nat" where
  "late_service addr n = (if n < 2 then Inl ''connection refused'' else Inr (), n + 1)"

theorem metadata_wait_ends_witness:
  "connect_metadata_with_retry late_service ''http://127.0.0.1:21001'' 0 = (Inr (), 3)"
proof -
  have after: "after_attempts late_service addr i 0 = i" for addr i
    by (induction i) (simp_all add: after_attempts_def late_service_def)
  have fails: "attempt_fails late_service addr 0 i \<longleftrightarrow> i < 2" for addr i
    by (simp add: attempt_fails_def after late_service_def)
  have "\<not> attempt_fails late_service addr 0 2" for addr by (simp add: fails)
  moreover have "(2 :: nat) < 30" by simp
  ultimately have "\<not> (\<forall>j < 30. attempt_fails late_service addr 0 j)" for addr by blast
  then obtain i where i: "\<forall>j < i. attempt_fails late_service ''http://127.0.0.1:21001'' 0 j"
    "\<not> attempt_fails late_service ''http://127.0.0.1:21001'' 0 i"
    "connect_metadata_with_retry late_service ''http://127.0.0.1:21001'' 0 =
       late_service ''http://127.0.0.1:21001'' (after_attempts late_service ''http://127.0.0.1:21001'' i 0)"
    using metadata_wait_ends [of late_service "''http://127.0.0.1:21001''" 0] by blast
  have "i - 1 < i \<longrightarrow> i - 1 < 2" "\<not> i < 2" using i(1,2) unfolding fails by blast+
  then have "i = 2" by linarith
  then show ?thesis unfolding i(3) after by (simp add: late_service_def)
qed

end
