(* ===== verification/Scheduler_Integrity.thy ===== *)
theory Scheduler_Integrity
  imports Scheduler_Service
begin

text \<open>
  What the scheduler keeps of the objects it moves between the cache and the tape. The
  services behind it are an interface, the locale \<open>cold_services\<close>: what a call may do to the
  objects, the tasks and the restored bytes, whether or not its reply arrives. For any
  services of that kind, every request and every pass of the loops keeps the invariant
  \<open>cold_inv\<close>, from which it follows that the bytes of a download have the checksum of its
  object.
\<close>

section \<open>Postconditions of operations\<close>

definition post :: "'r \<times> 'w \<Rightarrow> ('r \<Rightarrow> 'w \<Rightarrow> bool) \<Rightarrow> bool" where
  "post p Q \<longleftrightarrow> (case p of (r, w) \<Rightarrow> Q r w)"

lemma post_pair [simp]: "post (r, w) Q = Q r w"
  by (simp add: post_def)

lemma postI: "(\<And>r w. p = (r, w) \<Longrightarrow> Q r w) \<Longrightarrow> post p Q"
  by (cases p) simp

lemma postD: "post p Q \<Longrightarrow> p = (r, w) \<Longrightarrow> Q r w"
  by simp

lemma post_mono: "post p Q \<Longrightarrow> (\<And>r w. Q r w \<Longrightarrow> R r w) \<Longrightarrow> post p R"
  by (cases p) simp

lemma post_snd: "post p Q \<Longrightarrow> \<exists>r. Q r (snd p)"
  by (cases p) auto

lemma post_conj: "post p Q \<Longrightarrow> post p R \<Longrightarrow> post p (\<lambda>r w. Q r w \<and> R r w)"
  by (cases p) simp

lemma post_imp: "(c \<Longrightarrow> post p Q) \<Longrightarrow> post p (\<lambda>r w. c \<longrightarrow> Q r w)"
  by (cases p) simp

lemma post_if: "(c \<Longrightarrow> post p Q) \<Longrightarrow> (\<not> c \<Longrightarrow> post q Q) \<Longrightarrow> post (if c then p else q) Q"
  by simp

lemma post_try:
  assumes "post p Q" and "\<And>e w. Q (Inl e) w \<Longrightarrow> R (Inl e) w" and "\<And>x w. Q (Inr x) w \<Longrightarrow> post (f x w) R"
  shows "post (try_st p f) R"
  using assms by (cases p; cases "fst p") auto

lemma post_case: "post p Q \<Longrightarrow> (\<And>x w. Q x w \<Longrightarrow> post (f x w) R) \<Longrightarrow> post (case p of (x, w) \<Rightarrow> f x w) R"
  by (cases p) simp

lemma post_map_error:
  assumes "post p Q" and "\<And>e w. Q (Inl e) w \<Longrightarrow> R (Inl (g e)) w" and "\<And>x w. Q (Inr x) w \<Longrightarrow> R (Inr x) w"
  shows "post (map_error g p) R"
  using assms by (cases p; cases "fst p") auto

lemma post_tolerate:
  assumes "post p Q" and "\<And>e w. Q (Inl e) w \<Longrightarrow> R (Inl e) w" and "\<And>e w. Q (Inl e) w \<Longrightarrow> post (g w) R"
    and "\<And>x w. Q (Inr x) w \<Longrightarrow> post (f w) R"
  shows "post (tolerate c p g f) R"
  using assms by (cases p; cases "fst p") (auto simp: tolerate_def)

section \<open>What the services hold\<close>

record cold_view =
  cv_object :: "string \<times> string \<Rightarrow> object_metadata option"
  cv_archive :: "string \<Rightarrow> archive_task option"
  cv_recall :: "string \<Rightarrow> recall_task option"
  cv_cached :: "cache_key \<Rightarrow> bytes option"

text \<open>A step that may only lose restored bytes.\<close>

definition loses :: "cold_view \<Rightarrow> cold_view \<Rightarrow> bool" where
  "loses v v' \<longleftrightarrow> cv_object v' = cv_object v \<and> cv_archive v' = cv_archive v \<and> cv_recall v' = cv_recall v \<and>
     cv_cached v' \<subseteq>\<^sub>m cv_cached v"

lemma loses_refl [simp]: "loses v v"
  by (simp add: loses_def)

lemma loses_trans: "loses u v \<Longrightarrow> loses v w \<Longrightarrow> loses u w"
  unfolding loses_def by (metis map_le_trans)

lemma losesD:
  assumes "loses v v'"
  shows "cv_object v' = cv_object v" "cv_archive v' = cv_archive v" "cv_recall v' = cv_recall v"
    and "cv_cached v' k = Some d \<Longrightarrow> cv_cached v k = Some d"
  using assms unfolding loses_def map_le_def by (metis, metis, metis, metis domI)

text \<open>
  An object is settled once its archive task has left the state Pending, which it does at
  most once; before that it has no recall task and no restored bytes.
\<close>

definition settled :: "cold_view \<Rightarrow> string \<Rightarrow> string \<Rightarrow> bool" where
  "settled v b k \<longleftrightarrow> (\<exists>t. cv_archive v (phase1_bundle_id b k None) = Some t \<and>
     at_status t \<noteq> archive_task_status_i32 ArchiveTaskPending)"

definition fresh :: "cold_view \<Rightarrow> string \<Rightarrow> string \<Rightarrow> bool" where
  "fresh v b k \<longleftrightarrow> (\<forall>i t. cv_recall v i = Some t \<longrightarrow> (rt_bucket t, rt_key t) \<noteq> (b, k)) \<and> cv_cached v (b, k, None) = None"

text \<open>Recall tasks and restored bytes of an object have the checksum \<open>c\<close>.\<close>

definition agrees :: "(bytes \<Rightarrow> bytes) \<Rightarrow> cold_view \<Rightarrow> string \<Rightarrow> string \<Rightarrow> string \<Rightarrow> bool" where
  "agrees sha v b k c \<longleftrightarrow>
     (\<forall>i t. cv_recall v i = Some t \<longrightarrow> rt_bucket t = b \<longrightarrow> rt_key t = k \<longrightarrow> rt_checksum t = c) \<and>
     (\<forall>d. cv_cached v (b, k, None) = Some d \<longrightarrow> sha256_hex sha d = c)"

definition is_cold :: "object_metadata \<Rightarrow> bool" where
  "is_cold ob \<longleftrightarrow> om_storage_class ob = storage_class_i32 Cold"

definition named :: "string \<Rightarrow> string \<Rightarrow> object_metadata \<Rightarrow> bool" where
  "named b k ob \<longleftrightarrow> om_bucket ob = b \<and> om_key ob = k \<and> om_version_id ob = None \<and> om_etag ob = Some (om_checksum ob)"

definition cold_inv :: "(bytes \<Rightarrow> bytes) \<Rightarrow> cold_view \<Rightarrow> bool" where
  "cold_inv sha v \<longleftrightarrow>
     (\<forall>b k ob. cv_object v (b, k) = Some ob \<longrightarrow> named b k ob) \<and>
     (\<forall>b k ob. cv_object v (b, k) = Some ob \<longrightarrow> is_cold ob \<longrightarrow> settled v b k \<and> agrees sha v b k (om_checksum ob)) \<and>
     (\<forall>b k. \<not> settled v b k \<longrightarrow> fresh v b k)"

lemma cold_invD:
  assumes "cold_inv sha v"
  shows "cv_object v (b, k) = Some ob \<Longrightarrow> named b k ob"
    and "cv_object v (b, k) = Some ob \<Longrightarrow> is_cold ob \<Longrightarrow> settled v b k"
    and "cv_object v (b, k) = Some ob \<Longrightarrow> is_cold ob \<Longrightarrow> agrees sha v b k (om_checksum ob)"
    and "\<not> settled v b k \<Longrightarrow> fresh v b k"
  using assms unfolding cold_inv_def by blast+

lemma cold_invI:
  assumes "\<And>b k ob. cv_object v (b, k) = Some ob \<Longrightarrow> named b k ob"
    and "\<And>b k ob. cv_object v (b, k) = Some ob \<Longrightarrow> is_cold ob \<Longrightarrow> settled v b k"
    and "\<And>b k ob. cv_object v (b, k) = Some ob \<Longrightarrow> is_cold ob \<Longrightarrow> agrees sha v b k (om_checksum ob)"
    and "\<And>b k. \<not> settled v b k \<Longrightarrow> fresh v b k"
  shows "cold_inv sha v"
  using assms unfolding cold_inv_def by blast

lemma settled_loses: "loses v v' \<Longrightarrow> settled v' b k = settled v b k"
  by (simp add: settled_def losesD)

lemma fresh_loses: "loses v v' \<Longrightarrow> fresh v b k \<Longrightarrow> fresh v' b k"
  using losesD(4) [of v v' "(b, k, None)"] by (cases "cv_cached v' (b, k, None)") (auto simp: fresh_def losesD(3))

lemma agrees_loses: "loses v v' \<Longrightarrow> agrees sha v b k c \<Longrightarrow> agrees sha v' b k c"
  using losesD(4) [of v v' "(b, k, None)"] by (auto simp: agrees_def losesD(3))

lemma fresh_agrees: "fresh v b k \<Longrightarrow> agrees sha v b k c"
  by (auto simp: fresh_def agrees_def)

subsection \<open>The steps that keep the invariant\<close>

lemma inv_loses:
  assumes "cold_inv sha v" and "loses v v'"
  shows "cold_inv sha v'"
  using assms cold_invD [OF assms(1)]
  by (intro cold_invI) (auto simp: losesD(1) settled_loses intro: agrees_loses fresh_loses)

lemma settled_object_update [simp]: "settled (v\<lparr>cv_object := f\<rparr>) = settled v"
  by (simp add: settled_def fun_eq_iff)

lemma fresh_object_update [simp]: "fresh (v\<lparr>cv_object := f\<rparr>) = fresh v"
  by (simp add: fresh_def fun_eq_iff)

lemma agrees_object_update [simp]: "agrees sha (v\<lparr>cv_object := f\<rparr>) = agrees sha v"
  by (simp add: agrees_def fun_eq_iff)

lemma inv_object:
  assumes "cold_inv sha v" and "named b k ob"
    and "is_cold ob \<Longrightarrow> settled v b k \<and> agrees sha v b k (om_checksum ob)"
  shows "cold_inv sha (v\<lparr>cv_object := (cv_object v)((b, k) \<mapsto> ob)\<rparr>)"
  using assms cold_invD [OF assms(1)] by (intro cold_invI) (auto split: if_splits)

lemma inv_same_object:
  assumes "cold_inv sha v" and "cv_object v (b, k) = Some ob"
    and "om_bucket ob' = om_bucket ob" "om_key ob' = om_key ob" "om_version_id ob' = om_version_id ob"
      "om_etag ob' = om_etag ob" "om_checksum ob' = om_checksum ob" "om_storage_class ob' = om_storage_class ob"
  shows "cold_inv sha (v\<lparr>cv_object := (cv_object v)((b, k) \<mapsto> ob')\<rparr>)"
proof (rule inv_object [OF assms(1)])
  show "named b k ob'" using cold_invD(1) [OF assms(1,2)] assms(3-) by (simp add: named_def)
  show "settled v b k \<and> agrees sha v b k (om_checksum ob')" if "is_cold ob'"
    using that cold_invD(2,3) [OF assms(1,2)] assms(3-) by (simp add: is_cold_def)
qed

lemma inv_delete_object: "cold_inv sha v \<Longrightarrow> cold_inv sha (v\<lparr>cv_object := (cv_object v)((b, k) := None)\<rparr>)"
  by (intro cold_invI) (auto dest: cold_invD split: if_splits)

lemma settled_archive_mono:
  assumes "settled v b k" and "cv_archive v i = None \<or> at_status t \<noteq> archive_task_status_i32 ArchiveTaskPending"
  shows "settled (v\<lparr>cv_archive := (cv_archive v)(i \<mapsto> t)\<rparr>) b k"
  using assms by (auto simp: settled_def)

lemma inv_archive:
  assumes "cold_inv sha v"
    and "cv_archive v i = None \<or> at_status t \<noteq> archive_task_status_i32 ArchiveTaskPending"
  shows "cold_inv sha (v\<lparr>cv_archive := (cv_archive v)(i \<mapsto> t)\<rparr>)" (is "cold_inv sha ?v")
proof (rule cold_invI)
  show "named b k ob" if "cv_object ?v (b, k) = Some ob" for b k ob
    using that cold_invD(1) [OF assms(1)] by simp
  show "settled ?v b k" if "cv_object ?v (b, k) = Some ob" "is_cold ob" for b k ob
    using that cold_invD(2) [OF assms(1)] settled_archive_mono [OF _ assms(2)] by simp
  show "agrees sha ?v b k (om_checksum ob)" if "cv_object ?v (b, k) = Some ob" "is_cold ob" for b k ob
    using that cold_invD(3) [OF assms(1), of b k ob] by (simp add: agrees_def)
  show "fresh ?v b k" if "\<not> settled ?v b k" for b k
    using that cold_invD(4) [OF assms(1), of b k] settled_archive_mono [OF _ assms(2)] by (auto simp: fresh_def)
qed

lemma inv_recall:
  assumes "cold_inv sha v" and "settled v (rt_bucket t) (rt_key t)"
    and "\<And>ob. cv_object v (rt_bucket t, rt_key t) = Some ob \<Longrightarrow> is_cold ob \<Longrightarrow> rt_checksum t = om_checksum ob"
  shows "cold_inv sha (v\<lparr>cv_recall := (cv_recall v)(i \<mapsto> t)\<rparr>)" (is "cold_inv sha ?v")
proof (rule cold_invI)
  have s: "settled ?v b k = settled v b k" for b k by (simp add: settled_def)
  show "named b k ob" if "cv_object ?v (b, k) = Some ob" for b k ob
    using that cold_invD(1) [OF assms(1)] by simp
  show "settled ?v b k" if "cv_object ?v (b, k) = Some ob" "is_cold ob" for b k ob
    using that cold_invD(2) [OF assms(1)] s by simp
  show "agrees sha ?v b k (om_checksum ob)" if "cv_object ?v (b, k) = Some ob" "is_cold ob" for b k ob
    using that cold_invD(3) [OF assms(1), of b k ob] assms(3) by (auto simp: agrees_def)
  show "fresh ?v b k" if "\<not> settled ?v b k" for b k
    using that cold_invD(4) [OF assms(1), of b k] assms(2) s by (auto simp: fresh_def)
qed

lemma inv_cached:
  assumes "cold_inv sha v" and "cv_object v (b, k) = Some ob" and "is_cold ob" and "sha256_hex sha d = om_checksum ob"
    and "cv_object v' = cv_object v" "cv_archive v' = cv_archive v" "cv_recall v' = cv_recall v"
    and "cv_cached v' \<subseteq>\<^sub>m (cv_cached v)((b, k, None) \<mapsto> d)"
  shows "cold_inv sha v'"
proof (rule cold_invI)
  have s: "settled v' b k = settled v b k" for b k using assms(6) by (simp add: settled_def)
  have c: "e = d \<and> (b', k') = (b, k) \<or> cv_cached v (b', k', None) = Some e" if "cv_cached v' (b', k', None) = Some e" for b' k' e
  proof -
    have "((cv_cached v)((b, k, None) \<mapsto> d)) (b', k', None) = Some e"
      using that assms(8) unfolding map_le_def by (metis domI)
    then show ?thesis by (auto split: if_splits)
  qed
  show "named b' k' ob'" if "cv_object v' (b', k') = Some ob'" for b' k' ob'
    using that cold_invD(1) [OF assms(1)] assms(5) by simp
  show "settled v' b' k'" if "cv_object v' (b', k') = Some ob'" "is_cold ob'" for b' k' ob'
    using that cold_invD(2) [OF assms(1)] s assms(5) by simp
  show "agrees sha v' b' k' (om_checksum ob')" if "cv_object v' (b', k') = Some ob'" "is_cold ob'" for b' k' ob'
    using that cold_invD(3) [OF assms(1), of b' k' ob'] c [of b' k'] assms(2,4,5,7) by (auto simp: agrees_def)
  show "fresh v' b' k'" if "\<not> settled v' b' k'" for b' k'
  proof -
    have "(b', k') \<noteq> (b, k)" using that s cold_invD(2) [OF assms(1-3)] by auto
    then show ?thesis using that cold_invD(4) [OF assms(1), of b' k'] s c [of b' k'] assms(7)
      by (cases "cv_cached v' (b', k', None)") (auto simp: fresh_def)
  qed
qed

section \<open>The interface of the services\<close>

definition same_identity :: "object_metadata \<Rightarrow> object_metadata \<Rightarrow> bool" where
  "same_identity ob ob' \<longleftrightarrow> om_bucket ob' = om_bucket ob \<and> om_key ob' = om_key ob \<and> om_version_id ob' = om_version_id ob \<and>
     om_etag ob' = om_etag ob \<and> om_checksum ob' = om_checksum ob"

text \<open>An operation of the world \<open>'w\<close> that may only lose restored bytes.\<close>

definition quiet :: "('w \<Rightarrow> bool) \<Rightarrow> ('w \<Rightarrow> cold_view) \<Rightarrow> ('w \<Rightarrow> 'r \<times> 'w) \<Rightarrow> bool" where
  "quiet good view op \<longleftrightarrow> (\<forall>w. good w \<longrightarrow> post (op w) (\<lambda>r w'. good w' \<and> loses (view w) (view w')))"

lemma quiet_iff: "quiet good view op \<longleftrightarrow> (\<forall>w. good w \<longrightarrow> good (snd (op w)) \<and> loses (view w) (view (snd (op w))))"
  by (simp add: quiet_def post_def case_prod_beta)

lemma quiet_return: "quiet good view (\<lambda>w. (r, w))"
  by (simp add: quiet_iff)

lemma quiet_snd: "quiet good view op \<Longrightarrow> (\<And>w. snd (op' w) = snd (op w)) \<Longrightarrow> quiet good view op'"
  by (simp add: quiet_iff)

lemma quiet_case:
  assumes "quiet good view op" and "\<And>x. quiet good view (f x)"
  shows "quiet good view (\<lambda>w. case op w of (x, w) \<Rightarrow> f x w)"
  using assms unfolding quiet_iff by (auto simp: case_prod_beta intro: loses_trans)

lemma quiet_try:
  assumes "quiet good view op" and "\<And>x. quiet good view (f x)"
  shows "quiet good view (\<lambda>w. try_st (op w) f)"
proof (rule quiet_snd)
  have step: "quiet good view (\<lambda>w. case q of Inl e \<Rightarrow> (Inl e, w) | Inr x \<Rightarrow> f x w)" for q
    using assms(2) quiet_return by (cases q) auto
  show "quiet good view (\<lambda>w. case op w of (q, w) \<Rightarrow> (case q of Inl e \<Rightarrow> (Inl e, w) | Inr x \<Rightarrow> f x w))"
    by (rule quiet_case [OF assms(1) step])
  show "snd (try_st (op w) f) = snd (case op w of (q, w) \<Rightarrow> (case q of Inl e \<Rightarrow> (Inl e, w) | Inr x \<Rightarrow> f x w))" for w
    by (simp add: try_st_def case_prod_beta)
qed

lemma quiet_if: "quiet good view op \<Longrightarrow> quiet good view op' \<Longrightarrow> quiet good view (\<lambda>w. if c then op w else op' w)"
  by (cases c) simp_all

lemma quiet_discard: "quiet good view op \<Longrightarrow> quiet good view (\<lambda>w. (r, snd (op w)))"
  by (simp add: quiet_iff)

definition sets_object :: "cold_view \<Rightarrow> string \<times> string \<Rightarrow> object_metadata \<Rightarrow> cold_view \<Rightarrow> bool" where
  "sets_object v p ob v' \<longleftrightarrow> v' = v\<lparr>cv_object := (cv_object v)(p \<mapsto> ob)\<rparr>"

text \<open>A download of one object: its entity tag is the checksum of its bytes.\<close>

definition checked_download :: "(bytes \<Rightarrow> bytes) \<Rightarrow> get_object_payload messages \<Rightarrow> bool" where
  "checked_download sha messages \<longleftrightarrow> (\<exists>m data. gm_etag m = sha256_hex sha data \<and>
     messages = [Inr (Some (GetObjectMeta m)), Inr (Some (GetObjectData data))])"

text \<open>
  A call that changes something either has its effect or only loses restored bytes, whatever
  it answers: its reply may be lost. A call that has to be known to have had its effect says
  so in its law.
\<close>

locale cold_services =
  fixes sv :: "'w services" and good :: "'w \<Rightarrow> bool" and view :: "'w \<Rightarrow> cold_view"
  assumes clock_quiet: "quiet good view (now_timestamp sv)" "quiet good view (days_from_now sv days)"
    and bucket_quiet: "quiet good view (m_list_buckets sv)" "quiet good view (m_create_bucket sv bucket)"
      "quiet good view (m_delete_bucket sv name)" "quiet good view (m_get_bucket sv name)"
    and read_quiet: "quiet good view (m_list_objects sv request)" "quiet good view (m_head_object sv b k)"
      "quiet good view (m_get_object sv b k)" "quiet good view (m_get_archive_task sv i)"
      "quiet good view (m_get_recall_task sv i)" "quiet good view (m_list_pending_recall_tasks sv)"
    and cache_quiet: "quiet good view (k_put_staging sv staging)" "quiet good view (k_get_staging sv key)"
      "quiet good view (k_delete_staging sv key)" "quiet good view (k_list_staging_keys sv limit after)"
      "quiet good view (k_get sv key)" "quiet good view (k_delete sv key)"
    and tape_quiet: "quiet good view (t_acquire_drive sv acquire)" "quiet good view (t_release_drive sv drive)"
      "quiet good view (t_load_tape sv tape drive slot)" "quiet good view (t_write_bundle sv stream)"
      "quiet good view (t_read_bundle sv location)"
    and head_result: "good w \<Longrightarrow> m_head_object sv b k w = (Inr ob, w') \<Longrightarrow> cv_object (view w) (b, k) = Some ob"
    and get_result: "good w \<Longrightarrow> m_get_object sv b k w = (Inr ob, w') \<Longrightarrow> cv_object (view w) (b, k) = Some ob"
    and archive_task_result: "good w \<Longrightarrow> m_get_archive_task sv i w = (Inr at, w') \<Longrightarrow>
      cv_archive (view w) i = Some at \<and> at_id at = i"
    and recall_task_result: "good w \<Longrightarrow> m_get_recall_task sv i w = (Inr rt, w') \<Longrightarrow>
      cv_recall (view w) i = Some rt \<and> rt_id rt = i"
    and pending_result: "good w \<Longrightarrow> m_list_pending_recall_tasks sv w = (Inr rts, w') \<Longrightarrow> rt \<in> set rts \<Longrightarrow>
      cv_recall (view w) (rt_id rt) = Some rt"
    and staging_result: "good w \<Longrightarrow> k_get_staging sv (b, k, v) w = (Inr staged, w') \<Longrightarrow>
      collect_messages dup emp staging_view None [] staged = Inr (Some meta, data) \<Longrightarrow> so_version_id meta = v"
    and cached_result: "good w \<Longrightarrow> k_get sv key w = (Inr cached, w') \<Longrightarrow>
      collect_messages dup emp cached_view None [] cached = Inr (size', data) \<Longrightarrow> cv_cached (view w) key = Some data"
    and put_object_law: "good w \<Longrightarrow> om_version_id ob = None \<Longrightarrow> post (m_put_object sv ob w) (\<lambda>r w'. good w' \<and>
      (loses (view w) (view w') \<or> (\<exists>ob'. same_identity ob ob' \<and> om_storage_class ob' = om_storage_class ob \<and>
         sets_object (view w) (om_bucket ob, om_key ob) ob' (view w'))))"
    and delete_object_law: "good w \<Longrightarrow> post (m_delete_object sv \<lparr>dor_bucket = b, dor_key = k\<rparr> w) (\<lambda>r w'. good w' \<and>
      (loses (view w) (view w') \<or> view w' = (view w)\<lparr>cv_object := (cv_object (view w))((b, k) := None)\<rparr>))"
    and restore_status_law: "good w \<Longrightarrow> post (m_update_restore_status sv status w) (\<lambda>r w'. good w' \<and>
      (loses (view w) (view w') \<or> (\<exists>ob ob'. cv_object (view w) (urs_bucket status, urs_key status) = Some ob \<and>
         same_identity ob ob' \<and> om_storage_class ob' = om_storage_class ob \<and>
         sets_object (view w) (urs_bucket status, urs_key status) ob' (view w'))))"
    and complete_law: "good w \<Longrightarrow> cao_version_id completion = None \<Longrightarrow>
      post (m_complete_archive_object sv completion w) (\<lambda>r w'. good w' \<and>
      (loses (view w) (view w') \<or> (\<exists>ob ob'. cv_object (view w) (cao_bucket completion, cao_key completion) = Some ob \<and>
         same_identity ob ob' \<and> sets_object (view w) (cao_bucket completion, cao_key completion) ob' (view w'))))"
    and put_archive_law: "good w \<Longrightarrow> post (m_put_archive_task sv at w) (\<lambda>r w'. good w' \<and>
      (loses (view w) (view w') \<or> (cv_archive (view w) (at_id at) = None \<and>
         (\<exists>at'. view w' = (view w)\<lparr>cv_archive := (cv_archive (view w))(at_id at \<mapsto> at')\<rparr>))))"
    and update_archive_law: "good w \<Longrightarrow> post (m_update_archive_task sv at w) (\<lambda>r w'. good w' \<and>
      (loses (view w) (view w') \<and> r \<noteq> Inr () \<or>
         (\<exists>at'. at_status at' = at_status at \<and> view w' = (view w)\<lparr>cv_archive := (cv_archive (view w))(at_id at \<mapsto> at')\<rparr>)))"
    and put_recall_law: "good w \<Longrightarrow> post (m_put_recall_task sv rt w) (\<lambda>r w'. good w' \<and>
      (loses (view w) (view w') \<or> (cv_recall (view w) (rt_id rt) = None \<and>
         (\<exists>rt'. (rt_bucket rt', rt_key rt', rt_checksum rt') = (rt_bucket rt, rt_key rt, rt_checksum rt) \<and>
            view w' = (view w)\<lparr>cv_recall := (cv_recall (view w))(rt_id rt \<mapsto> rt')\<rparr>))))"
    and update_recall_law: "good w \<Longrightarrow> post (m_update_recall_task sv rt w) (\<lambda>r w'. good w' \<and>
      (loses (view w) (view w') \<or>
         (\<exists>rt'. (rt_bucket rt', rt_key rt', rt_checksum rt') = (rt_bucket rt, rt_key rt, rt_checksum rt) \<and>
            view w' = (view w)\<lparr>cv_recall := (cv_recall (view w))(rt_id rt \<mapsto> rt')\<rparr>)))"
    and put_restored_law: "good w \<Longrightarrow>
      post (k_put_restored sv [Inr (Some (PutMeta meta')), Inr (Some (PutData data))] w) (\<lambda>r w'. good w' \<and>
        cv_object (view w') = cv_object (view w) \<and> cv_archive (view w') = cv_archive (view w) \<and>
        cv_recall (view w') = cv_recall (view w) \<and>
        (cv_cached (view w') \<subseteq>\<^sub>m (cv_cached (view w))((pr_bucket meta', pr_key meta', pr_version_id meta') \<mapsto> data) \<or>
         cv_cached (view w') \<subseteq>\<^sub>m cv_cached (view w)))"
begin

definition safe :: "(bytes \<Rightarrow> bytes) \<Rightarrow> 'w \<Rightarrow> bool" where
  "safe sha w \<longleftrightarrow> good w \<and> cold_inv sha (view w)"

text \<open>The state in which an object may be completed: its task is claimed and it has no past.\<close>

definition ready :: "(bytes \<Rightarrow> bytes) \<Rightarrow> string \<Rightarrow> string \<Rightarrow> 'w \<Rightarrow> bool" where
  "ready sha b k w \<longleftrightarrow> safe sha w \<and> settled (view w) b k \<and> fresh (view w) b k"

lemma quiet_safe:
  assumes "quiet good view op" and "safe sha w"
  shows "post (op w) (\<lambda>r w'. safe sha w' \<and> loses (view w) (view w'))"
proof (rule post_mono)
  show "post (op w) (\<lambda>r w'. good w' \<and> loses (view w) (view w'))"
    using assms by (simp add: quiet_def safe_def)
  show "safe sha w' \<and> loses (view w) (view w')" if "good w' \<and> loses (view w) (view w')" for w'
    using that assms(2) inv_loses [of sha "view w" "view w'"] by (simp add: safe_def)
qed

lemma quiet_ready:
  assumes "quiet good view op" and "ready sha b k w"
  shows "post (op w) (\<lambda>r w'. ready sha b k w')"
proof (rule post_mono)
  show "post (op w) (\<lambda>r w'. safe sha w' \<and> loses (view w) (view w'))"
    using quiet_safe [OF assms(1)] assms(2) by (simp add: ready_def)
  show "ready sha b k w'" if "safe sha w' \<and> loses (view w) (view w')" for w'
  proof -
    from that have l: "loses (view w) (view w')" by blast
    show ?thesis using that assms(2) settled_loses [OF l, of b k] fresh_loses [OF l, of b k] by (simp add: ready_def)
  qed
qed

lemmas quiet_laws = clock_quiet bucket_quiet read_quiet cache_quiet tape_quiet

subsection \<open>Operations that change nothing of the objects\<close>

lemma acquire_and_load_tape_quiet: "quiet good view (acquire_and_load_tape sv drive tape)"
  unfolding acquire_and_load_tape_def Let_def
  by (intro quiet_try quiet_if quiet_return quiet_laws)

lemma release_quiet: "quiet good view (\<lambda>w. (r, release_drive_best_effort sv drive w))"
  unfolding release_drive_best_effort_def by (intro quiet_discard quiet_laws)

lemma quiet_sum:
  assumes "\<And>e. quiet good view (f e)" and "\<And>x. quiet good view (g x)"
  shows "quiet good view (\<lambda>w. case r of Inl e \<Rightarrow> f e w | Inr x \<Rightarrow> g x w)"
  using assms by (cases r) simp_all

lemma tape_write_bundle_quiet: "quiet good view (tape_write_bundle sv c bundle_id n data)"
  unfolding tape_write_bundle_def Let_def
proof (rule quiet_try [OF acquire_and_load_tape_quiet], rule quiet_case [OF tape_quiet(4)])
qed (intro quiet_sum quiet_if release_quiet)

lemma tape_read_bundle_quiet: "quiet good view (tape_read_bundle sv drive tape filemark len)"
  unfolding tape_read_bundle_def
proof (rule quiet_try [OF acquire_and_load_tape_quiet], rule quiet_case)
  show "quiet good view (\<lambda>w. try_st (t_read_bundle sv r w) (\<lambda>messages w. (collect_tape_read messages, w)))" for r
    by (intro quiet_try quiet_return quiet_laws)
qed (rule release_quiet)

subsection \<open>Archiving\<close>

lemma put_archive_safe: "safe sha w \<Longrightarrow> post (m_put_archive_task sv at w) (\<lambda>r w'. safe sha w')"
  by (rule post_mono [OF put_archive_law]) (auto simp: safe_def intro: inv_loses inv_archive)

lemma update_archive_safe:
  assumes "safe sha w" and "at_status at \<noteq> archive_task_status_i32 ArchiveTaskPending"
  shows "post (m_update_archive_task sv at w) (\<lambda>r w'. safe sha w' \<and> (r = Inr () \<longrightarrow>
    (\<exists>at'. at_status at' = at_status at \<and> view w' = (view w)\<lparr>cv_archive := (cv_archive (view w))(at_id at \<mapsto> at')\<rparr>)))"
proof (rule post_mono [OF update_archive_law])
  show "good w" using assms(1) by (simp add: safe_def)
  have "cold_inv sha ((view w)\<lparr>cv_archive := (cv_archive (view w))(at_id at \<mapsto> at')\<rparr>)" if "at_status at' = at_status at" for at'
    using inv_archive [of sha "view w" "at_id at" at'] assms that by (simp add: safe_def)
  then show "safe sha w' \<and> (r = Inr () \<longrightarrow> (\<exists>at'. at_status at' = at_status at \<and>
      view w' = (view w)\<lparr>cv_archive := (cv_archive (view w))(at_id at \<mapsto> at')\<rparr>))"
    if "good w' \<and> (loses (view w) (view w') \<and> r \<noteq> Inr () \<or> (\<exists>at'. at_status at' = at_status at \<and>
      view w' = (view w)\<lparr>cv_archive := (cv_archive (view w))(at_id at \<mapsto> at')\<rparr>))" for r w'
    using that assms(1) by (auto simp: safe_def intro: inv_loses)
qed

lemma update_archive_task_safe:
  assumes "safe sha w" and "at_status at \<noteq> archive_task_status_i32 ArchiveTaskPending"
  shows "post (update_archive_task sv at w) (\<lambda>r w'. safe sha w')"
  unfolding update_archive_task_def by (rule post_try [OF update_archive_safe [OF assms]]) auto

lemma get_archive_task_safe:
  assumes "safe sha w"
  shows "post (get_archive_task sv i w) (\<lambda>r w'. safe sha w' \<and>
    (\<forall>t. r = Inr t \<longrightarrow> cv_archive (view w') i = Some t \<and> at_id t = i))"
proof (rule postI)
  fix r w' assume g: "get_archive_task sv i w = (r, w')"
  then have m: "m_get_archive_task sv i w = (r, w')"
    by (auto simp: get_archive_task_def try_st_def split: prod.splits sum.splits)
  have q: "safe sha w' \<and> loses (view w) (view w')" by (rule postD [OF quiet_safe [OF read_quiet(4) assms] m])
  then show "safe sha w' \<and> (\<forall>t. r = Inr t \<longrightarrow> cv_archive (view w') i = Some t \<and> at_id t = i)"
    using archive_task_result [of w i _ w'] assms m losesD(2) [of "view w" "view w'"] by (auto simp: safe_def)
qed

lemma claim_makes_ready:
  assumes "safe sha w" and "cv_archive (view w) (phase1_bundle_id b k None) = Some t"
    and "at_status t = archive_task_status_i32 ArchiveTaskPending"
    and "safe sha w'" and "view w' = (view w)\<lparr>cv_archive := (cv_archive (view w))(phase1_bundle_id b k None \<mapsto> t')\<rparr>"
    and "at_status t' \<noteq> archive_task_status_i32 ArchiveTaskPending"
  shows "ready sha b k w'"
proof -
  have "\<not> settled (view w) b k" using assms(2,3) by (simp add: settled_def)
  then have "fresh (view w) b k" using assms(1) by (auto simp: safe_def dest: cold_invD(4))
  then show ?thesis using assms(4-) by (simp add: ready_def settled_def fresh_def)
qed

text \<open>A task is claimed by one call: the claim is the step in which it leaves the state Pending.\<close>

lemma start_archive_task_safe:
  assumes "safe sha w" and "cv_archive (view w) (at_id t) = Some t" and "at_id t = phase1_bundle_id b k v"
    and "archive_task_status_try_from (at_status t) = Some ArchiveTaskPending"
  shows "post (start_archive_task sv task t w)
    (\<lambda>r w'. safe sha w' \<and> ((\<exists>t. r = Inr (True, t)) \<longrightarrow> v = None \<longrightarrow> ready sha b k w'))" (is "post _ ?R")
  unfolding start_archive_task_def Let_def
proof (rule post_case [OF quiet_safe [OF clock_quiet(1) assms(1)]])
  fix now w2 assume w2: "safe sha w2 \<and> loses (view w) (view w2)"
  let ?t = "t\<lparr>at_status := archive_task_status_i32 ArchiveTaskInProgress, at_error := None, at_started_at := Some now\<rparr>"
  have u: "post (m_update_archive_task sv ?t w2) (\<lambda>r w'. safe sha w' \<and> (r = Inr () \<longrightarrow> v = None \<longrightarrow> ready sha b k w'))"
    by (rule post_mono [OF update_archive_safe])
      (use w2 assms(2,3) archive_task_status_try_from_SomeD [OF assms(4)] losesD(2) [of "view w" "view w2"] in \<open>auto intro: claim_makes_ready\<close>)
  show "post (tolerate FailedPrecondition (m_update_archive_task sv ?t w2)
      (\<lambda>w. (Inr (False, task), w)) (\<lambda>w. (Inr (True, ?t), w))) ?R"
    by (rule post_tolerate [OF u]) auto
qed

lemma claim_stored_archive_task_safe:
  assumes "safe sha w" and "at_id task = phase1_bundle_id b k v"
  shows "post (claim_stored_archive_task sv task w)
    (\<lambda>r w'. safe sha w' \<and> ((\<exists>t. r = Inr (True, t)) \<longrightarrow> v = None \<longrightarrow> ready sha b k w'))"
  unfolding claim_stored_archive_task_def
proof (rule post_try [OF get_archive_task_safe [OF assms(1)]])
qed (use assms(2) in \<open>auto split: option.split archive_task_status.split intro!: start_archive_task_safe\<close>)

lemma claim_archive_task_safe:
  assumes "safe sha w" and "at_id task = phase1_bundle_id b k v"
  shows "post (claim_archive_task sv task w)
    (\<lambda>r w'. safe sha w' \<and> ((\<exists>t. r = Inr (True, t)) \<longrightarrow> v = None \<longrightarrow> ready sha b k w'))"
  unfolding claim_archive_task_def
  by (rule post_tolerate [OF put_archive_safe [OF assms(1)]]) (use assms(2) in \<open>auto intro: claim_stored_archive_task_safe\<close>)

lemmas after_clock = post_case [OF quiet_safe [OF clock_quiet(1)]]

lemma finalize_archive_task_success_safe:
  assumes "safe sha w"
  shows "post (finalize_archive_task_success sv task n w) (\<lambda>r w'. safe sha w')"
  unfolding finalize_archive_task_success_def Let_def
proof (rule post_try [OF get_archive_task_safe [OF assms]])
qed (auto split: option.split archive_task_status.split intro!: after_clock post_tolerate [OF update_archive_task_safe])

lemma mark_archive_task_failed_safe:
  assumes "safe sha w"
  shows "post (mark_archive_task_failed sv task err w) (\<lambda>r w'. safe sha w')"
  unfolding mark_archive_task_failed_def
proof (rule post_try [OF get_archive_task_safe [OF assms]])
qed (auto split: option.split archive_task_status.split intro!: after_clock update_archive_task_safe)

text \<open>
  The completion of a claimed object: it becomes archived only here, and it has neither
  recall tasks nor restored bytes that could disagree with its checksum.
\<close>

lemma complete_safe:
  assumes "ready sha (cao_bucket completion) (cao_key completion) w" and "cao_version_id completion = None"
  shows "post (m_complete_archive_object sv completion w) (\<lambda>r w'. safe sha w')"
proof (rule post_mono [OF complete_law [OF _ assms(2)]])
  let ?b = "cao_bucket completion" and ?k = "cao_key completion"
  show "good w" using assms(1) by (simp add: ready_def safe_def)
  have i: "cold_inv sha (view w)" "settled (view w) ?b ?k" "fresh (view w) ?b ?k"
    using assms(1) by (simp_all add: ready_def safe_def)
  have "cold_inv sha (view w')"
    if "cv_object (view w) (?b, ?k) = Some ob" "same_identity ob ob'" "sets_object (view w) (?b, ?k) ob' (view w')" for w' ob ob'
  proof -
    have "named ?b ?k ob'" using cold_invD(1) [OF i(1) that(1)] that(2) by (simp add: named_def same_identity_def)
    then show ?thesis using that(3) inv_object [OF i(1), of ?b ?k ob'] i(2) fresh_agrees [OF i(3)] by (simp add: sets_object_def)
  qed
  then show "safe sha w'" if "good w' \<and> (loses (view w) (view w') \<or> (\<exists>ob ob'. cv_object (view w) (?b, ?k) = Some ob \<and>
      same_identity ob ob' \<and> sets_object (view w) (?b, ?k) ob' (view w')))" for w'
    using that inv_loses [OF i(1)] by (auto simp: safe_def)
qed

lemma head_object_safe:
  assumes "safe sha w"
  shows "post (m_head_object sv b k w) (\<lambda>r w'. safe sha w' \<and> loses (view w) (view w') \<and>
    (\<forall>ob. r = Inr ob \<longrightarrow> cv_object (view w') (b, k) = Some ob \<and> named b k ob))"
proof (rule postI)
  fix r w' assume m: "m_head_object sv b k w = (r, w')"
  have q: "safe sha w' \<and> loses (view w) (view w')" by (rule postD [OF quiet_safe [OF read_quiet(2) assms] m])
  then show "safe sha w' \<and> loses (view w) (view w') \<and>
      (\<forall>ob. r = Inr ob \<longrightarrow> cv_object (view w') (b, k) = Some ob \<and> named b k ob)"
    using head_result [of w b k _ w'] assms m losesD(1) [of "view w" "view w'"] cold_invD(1) [of sha "view w" b k]
    by (auto simp: safe_def)
qed

lemma archive_get_staging_ready:
  assumes "post (k_get_staging sv (b, k, v) w) (\<lambda>r w'. R w')" and "good w"
  shows "post (archive_get_staging sv b k v w) (\<lambda>r w'. R w' \<and> (\<forall>s. r = Inr s \<longrightarrow> so_version_id (sg_meta s) = v))"
proof (rule postI)
  fix r w' assume g: "archive_get_staging sv b k v w = (r, w')"
  obtain q w2 where m: "k_get_staging sv (b, k, v) w = (q, w2)" by fastforce
  show "R w' \<and> (\<forall>s. r = Inr s \<longrightarrow> so_version_id (sg_meta s) = v)"
    using g m postD [OF assms(1) m] staging_result [OF assms(2), of b k v _ w2]
    by (auto simp: archive_get_staging_def try_st_def split: sum.splits option.splits)
qed

lemma validated_version:
  assumes "validate_staged_object_matches_metadata sha ob staged = Inr u"
  shows "so_version_id (sg_meta staged) = om_version_id ob"
  using assms by (auto simp: validate_staged_object_matches_metadata_def Let_def split: if_splits)

lemma archive_delete_staging_quiet: "quiet good view (archive_delete_staging sv b k v)"
  unfolding archive_delete_staging_def by (intro quiet_try quiet_return quiet_laws)

lemma write_staged_object_safe:
  assumes "safe sha w" and "sk_version_id entry = None \<Longrightarrow> ready sha (sk_bucket entry) (sk_key entry) w"
    and "om_version_id ob = None"
  shows "post (write_staged_object sha sv (cache_archive_client sv) (tape_write_bundle sv c) entry bundle_id ob task w)
    (\<lambda>r w'. safe sha w')"
proof -
  let ?b = "sk_bucket entry" and ?k = "sk_key entry" and ?v = "sk_version_id entry"
  have finish: "post (try_st (archive_delete_staging sv ?b ?k ?v w) (\<lambda>_ w.
      try_st (finalize_archive_task_success sv task n w) (\<lambda>_ w. (Inr n, w)))) (\<lambda>r w'. safe sha w')"
    if "safe sha w" for w n
    using that by (intro post_try [OF quiet_safe [OF archive_delete_staging_quiet]]
      post_try [OF finalize_archive_task_success_safe]) auto
  have complete: "post (try_st (m_complete_archive_object sv (completion_request entry cur bd written) w) (\<lambda>_ w.
      try_st (archive_delete_staging sv ?b ?k ?v w) (\<lambda>_ w.
      try_st (finalize_archive_task_success sv task n w) (\<lambda>_ w. (Inr n, w))))) (\<lambda>r w'. safe sha w')"
    if "ready sha ?b ?k w" "om_version_id cur = None" for w cur bd written n
    using that by (intro post_try [OF complete_safe] finish) (auto simp: completion_request_def)
  have head: "post (m_head_object sv ?b ?k w) (\<lambda>r w'. ready sha ?b ?k w' \<and> (\<forall>ob. r = Inr ob \<longrightarrow> om_version_id ob = None))"
    if "ready sha ?b ?k w" for w
    using that by (intro post_mono [OF post_conj [OF head_object_safe quiet_ready [OF read_quiet(2)]]])
      (auto simp: ready_def named_def)
  have staged: "post (archive_get_staging sv ?b ?k ?v w)
      (\<lambda>r w'. (safe sha w' \<and> (?v = None \<longrightarrow> ready sha ?b ?k w')) \<and> (\<forall>s. r = Inr s \<longrightarrow> so_version_id (sg_meta s) = ?v))"
  proof (rule archive_get_staging_ready)
    show "good w" using assms(1) by (simp add: safe_def)
    show "post (k_get_staging sv (?b, ?k, ?v) w) (\<lambda>r w'. safe sha w' \<and> (?v = None \<longrightarrow> ready sha ?b ?k w'))"
      using assms(2) by (intro post_conj post_imp quiet_ready [OF cache_quiet(2)]
        post_mono [OF quiet_safe [OF cache_quiet(2) assms(1)]]) auto
  qed
  show ?thesis
    unfolding write_staged_object_def cache_archive_client_def Let_def archive_cache.simps
    apply (rule post_try [OF staged], simp)
    apply (rule post_try [where Q = "\<lambda>r w'. safe sha w' \<and> (\<forall>u. r = Inr u \<longrightarrow> ready sha ?b ?k w')"])
      apply (use assms(3) in \<open>auto dest: validated_version\<close>) [1]
     apply simp
    apply (rule post_try [OF quiet_ready [OF tape_write_bundle_quiet]], blast, simp add: ready_def)
    apply (rule post_if, simp add: ready_def)
    apply (rule post_try [OF head], assumption, simp add: ready_def)
    apply (rule post_if, simp add: ready_def)
    apply (rule post_try [where Q = "\<lambda>r. ready sha ?b ?k"], simp, simp add: ready_def)
    apply (rule post_case [OF quiet_ready [OF clock_quiet(1)]], assumption)
    apply (rule complete, assumption, simp)
    done
qed

lemma quiet_safe_snd: "quiet good view op \<Longrightarrow> safe sha w \<Longrightarrow> safe sha (snd (op w))"
  using post_snd [OF quiet_safe] by blast

lemma delete_staging_best_effort_safe: "safe sha w \<Longrightarrow> safe sha (delete_staging_best_effort sv cache b k v w)"
  by (simp add: delete_staging_best_effort_def quiet_safe_snd [OF cache_quiet(3)])

lemma delete_cached_object_best_effort_safe: "safe sha w \<Longrightarrow> safe sha (delete_cached_object_best_effort sv cache b k v w)"
  by (simp add: delete_cached_object_best_effort_def quiet_safe_snd [OF cache_quiet(3)] quiet_safe_snd [OF cache_quiet(6)])

lemma process_archive_entry_safe:
  assumes "safe sha w"
  shows "post (process_archive_entry sha sv cache (cache_archive_client sv) (tape_write_bundle sv c) tape_id entry w)
    (\<lambda>r w'. safe sha w')"
  unfolding process_archive_entry_def Let_def
  apply (rule post_try [OF post_map_error [OF head_object_safe [OF assms],
      where R = "\<lambda>r w'. safe sha w' \<and> (\<forall>ob. r = Inr ob \<longrightarrow> om_version_id ob = None)"]])
     apply (auto simp: named_def) [3]
  apply (rule after_clock, blast)
  apply (rule post_if, simp add: delete_staging_best_effort_safe)
  apply (rule post_try [OF post_map_error [OF claim_archive_task_safe [where b = "sk_bucket entry" and k = "sk_key entry"
      and v = "sk_version_id entry"], where R = "\<lambda>r w'. safe sha w' \<and> ((\<exists>t. r = Inr (True, t)) \<longrightarrow> sk_version_id entry = None \<longrightarrow>
      ready sha (sk_bucket entry) (sk_key entry) w')"]])
       apply (auto simp: phase1_archive_task_def intro!: post_try [OF post_map_error [OF write_staged_object_safe,
      where R = "\<lambda>r. safe sha"]])
  done

lemma archive_entry_loop_safe:
  assumes "safe sha w"
  shows "safe sha (snd (snd (archive_entry_loop sha sv cache (cache_archive_client sv) (tape_write_bundle sv c) entries result (st, w))))"
  using assms
proof (induction entries arbitrary: result st w)
  case (Cons entry entries)
  have p: "safe sha w'" if "process_archive_entry sha sv cache (cache_archive_client sv) (tape_write_bundle sv c) tape_id entry w = (r, w')"
    for tape_id r w'
    using postD [OF process_archive_entry_safe [OF Cons.prems] that] .
  show ?case
    using Cons p post_snd [OF mark_archive_task_failed_safe]
    by (auto simp: Let_def split: prod.split bool.split sum.split option.split)
qed simp

lemma archive_staging_once_safe:
  assumes "safe sha w"
  shows "safe sha (snd (snd (archive_staging_once sha sv (st, w))))"
proof -
  have "quiet good view (ac_list_staging_keys (cache_archive_client sv) limit)" for limit
    unfolding cache_archive_client_def archive_list_staging_keys_def archive_cache.simps
    by (rule quiet_try [OF cache_quiet(4)]) (simp add: split_def quiet_return)
  then have "safe sha w'" if "ac_list_staging_keys (cache_archive_client sv) limit w = (r, w')" for limit r w'
    using postD [OF quiet_safe [OF _ assms]] that by fast
  then show ?thesis
    using assms archive_entry_loop_safe
    by (auto simp: archive_staging_once_def archive_staging_batch_def Let_def split: prod.split sum.split)
qed

subsection \<open>Recalling\<close>

text \<open>A recall task that may be stored: its object is settled, and has its checksum if it is archived.\<close>

definition owned :: "'w \<Rightarrow> recall_task \<Rightarrow> bool" where
  "owned w t \<longleftrightarrow> settled (view w) (rt_bucket t) (rt_key t) \<and>
     (\<forall>ob. cv_object (view w) (rt_bucket t, rt_key t) = Some ob \<longrightarrow> is_cold ob \<longrightarrow> rt_checksum t = om_checksum ob)"

definition stays :: "(bytes \<Rightarrow> bytes) \<Rightarrow> 'w \<Rightarrow> 'w \<Rightarrow> bool" where
  "stays sha w w' \<longleftrightarrow> safe sha w' \<and> (\<forall>t. owned w t \<longrightarrow> owned w' t)"

lemma stays_refl: "safe sha w \<Longrightarrow> stays sha w w"
  by (simp add: stays_def)

lemma stays_safe: "stays sha w0 w \<Longrightarrow> safe sha w"
  by (simp add: stays_def)

lemma stays_owned: "stays sha w0 w \<Longrightarrow> owned w0 t \<Longrightarrow> owned w t"
  by (simp add: stays_def)

lemma stays_trans: "stays sha w0 w \<Longrightarrow> stays sha w w' \<Longrightarrow> stays sha w0 w'"
  by (simp add: stays_def)

lemma stays_step:
  assumes "stays sha w0 w" and "safe sha w'" and "\<And>t. owned w t \<Longrightarrow> owned w' t"
  shows "stays sha w0 w'"
  using assms by (simp add: stays_def)

lemma owned_loses: "loses (view w) (view w') \<Longrightarrow> owned w' t = owned w t"
  by (simp add: owned_def settled_loses losesD(1))

lemma owned_task: "safe sha w \<Longrightarrow> cv_recall (view w) i = Some t \<Longrightarrow> owned w t"
  using cold_invD(3) [of sha "view w" "rt_bucket t" "rt_key t"] cold_invD(4) [of sha "view w" "rt_bucket t" "rt_key t"]
  unfolding owned_def safe_def agrees_def fresh_def by metis

lemma owned_same: "(rt_bucket t', rt_key t', rt_checksum t') = (rt_bucket t, rt_key t, rt_checksum t) \<Longrightarrow> owned w t' = owned w t"
  by (simp add: owned_def)

lemma quiet_stays:
  assumes "quiet good view op" and "stays sha w0 w"
  shows "post (op w) (\<lambda>r w'. stays sha w0 w' \<and> loses (view w) (view w'))"
  by (rule post_mono [OF quiet_safe [OF assms(1) stays_safe [OF assms(2)]]])
    (auto intro: stays_step [OF assms(2)] simp: owned_loses)

lemma stays_recall:
  assumes "stays sha w0 w" and "owned w t" and "good w'"
    and "(rt_bucket t', rt_key t', rt_checksum t') = (rt_bucket t, rt_key t, rt_checksum t)"
    and "view w' = (view w)\<lparr>cv_recall := (cv_recall (view w))(i \<mapsto> t')\<rparr>"
  shows "stays sha w0 w'"
proof (rule stays_step [OF assms(1)])
  have "owned w t'" using assms(2) owned_same [OF assms(4)] by simp
  then have "cold_inv sha ((view w)\<lparr>cv_recall := (cv_recall (view w))(i \<mapsto> t')\<rparr>)"
    using stays_safe [OF assms(1)] by (intro inv_recall) (auto simp: safe_def owned_def)
  then have "cold_inv sha (view w')" unfolding assms(5) .
  then show "safe sha w'" using assms(3) by (simp add: safe_def)
  show "owned w' u" if "owned w u" for u using that assms(5) by (simp add: owned_def settled_def)
qed

lemma stays_loses: "stays sha w0 w \<Longrightarrow> good w' \<Longrightarrow> loses (view w) (view w') \<Longrightarrow> stays sha w0 w'"
  using inv_loses [of sha "view w" "view w'"] by (auto intro: stays_step simp: owned_loses safe_def stays_def)

lemma put_recall_stays:
  assumes "stays sha w0 w" and "owned w t"
  shows "post (m_put_recall_task sv t w) (\<lambda>r w'. stays sha w0 w')"
  using stays_safe [OF assms(1)]
  by (intro post_mono [OF put_recall_law]) (auto simp: safe_def intro: stays_loses [OF assms(1)] stays_recall [OF assms])

lemma update_recall_stays:
  assumes "stays sha w0 w" and "owned w t"
  shows "post (m_update_recall_task sv t w) (\<lambda>r w'. stays sha w0 w')"
  using stays_safe [OF assms(1)]
  by (intro post_mono [OF update_recall_law]) (auto simp: safe_def intro: stays_loses [OF assms(1)] stays_recall [OF assms])

lemma stays_object:
  assumes "stays sha w0 w" and "good w'" and "cv_object (view w) (b, k) = Some ob" and "same_identity ob ob'"
    and "om_storage_class ob' = om_storage_class ob" and "sets_object (view w) (b, k) ob' (view w')"
  shows "stays sha w0 w'"
proof (rule stays_step [OF assms(1)])
  have "cold_inv sha (view w')"
    using assms inv_same_object [of sha "view w" b k ob ob'] by (simp add: stays_def safe_def same_identity_def sets_object_def)
  then show "safe sha w'" using assms(2) by (simp add: safe_def)
  show "owned w' u" if "owned w u" for u
    using that assms(3-) by (auto simp: owned_def same_identity_def sets_object_def is_cold_def)
qed

lemma restore_status_stays:
  assumes "stays sha w0 w"
  shows "post (m_update_restore_status sv status w) (\<lambda>r w'. stays sha w0 w')"
  using stays_safe [OF assms]
  by (intro post_mono [OF restore_status_law]) (auto simp: safe_def intro: stays_loses [OF assms] stays_object [OF assms])

lemma update_recall_task_stays:
  "stays sha w0 w \<Longrightarrow> owned w t \<Longrightarrow> post (update_recall_task sv t w) (\<lambda>r w'. stays sha w0 w')"
  unfolding update_recall_task_def by (rule post_try [OF update_recall_stays]) auto

lemma update_object_restore_status_stays:
  "stays sha w0 w \<Longrightarrow> post (update_object_restore_status sv b k status e w) (\<lambda>r w'. stays sha w0 w')"
  unfolding update_object_restore_status_def by (rule post_try [OF restore_status_stays]) auto

lemma get_recall_task_stays:
  assumes "stays sha w0 w"
  shows "post (get_recall_task sv i w) (\<lambda>r w'. stays sha w0 w' \<and> (\<forall>t. r = Inr t \<longrightarrow> owned w' t))"
proof (rule postI)
  fix r w' assume "get_recall_task sv i w = (r, w')"
  then have m: "m_get_recall_task sv i w = (r, w')"
    by (auto simp: get_recall_task_def try_st_def split: prod.splits sum.splits)
  have q: "stays sha w0 w' \<and> loses (view w) (view w')" by (rule postD [OF quiet_stays [OF read_quiet(5) assms] m])
  have "owned w' t" if "r = Inr t" for t
  proof -
    have "cv_recall (view w) i = Some t" using recall_task_result [of w i t w'] m that stays_safe [OF assms] by (simp add: safe_def)
    then show ?thesis using q owned_task [of sha w' i t] losesD(3) [of "view w" "view w'"] by (auto dest: stays_safe)
  qed
  then show "stays sha w0 w' \<and> (\<forall>t. r = Inr t \<longrightarrow> owned w' t)" using q by blast
qed

lemmas then_clock = post_case [OF quiet_stays [OF clock_quiet(1)]]

lemma owned_update:
  "owned w (t\<lparr>rt_status := a\<rparr>) = owned w t" "owned w (t\<lparr>rt_error := b\<rparr>) = owned w t"
  "owned w (t\<lparr>rt_started_at := c\<rparr>) = owned w t" "owned w (t\<lparr>rt_completed_at := c\<rparr>) = owned w t"
  "owned w (t\<lparr>rt_retry_count := d\<rparr>) = owned w t"
  by (simp_all add: owned_def)

lemma start_recall_task_stays:
  assumes "stays sha w0 w" and "owned w t"
  shows "post (start_recall_task sv task t w)
    (\<lambda>r w'. stays sha w0 w' \<and> (\<forall>t. r = Inr (True, t) \<longrightarrow> owned w' t))"
  unfolding start_recall_task_def Let_def
proof (rule then_clock [OF stays_refl [OF stays_safe [OF assms(1)]]])
  fix now w2 assume "stays sha w w2 \<and> loses (view w) (view w2)"
  then have w2: "stays sha w w2" ..
  let ?t = "t\<lparr>rt_status := restore_status_i32 RestoreInProgress, rt_error := None, rt_started_at := Some now\<rparr>"
  have "owned w2 ?t" using stays_owned [OF w2 assms(2)] by (simp add: owned_update)
  with w2 show "post (tolerate FailedPrecondition (m_update_recall_task sv ?t w2) (\<lambda>w. (Inr (False, task), w))
      (\<lambda>w. try_st (update_object_restore_status sv (rt_bucket ?t) (rt_key ?t) RestoreInProgress (rt_expire_at ?t) w)
        (\<lambda>_ w. (Inr (True, ?t), w)))) (\<lambda>r w'. stays sha w0 w' \<and> (\<forall>t. r = Inr (True, t) \<longrightarrow> owned w' t))"
    using assms(2) by (intro post_tolerate [OF update_recall_stays [of sha w]] post_try [OF update_object_restore_status_stays [of sha w]])
      (auto simp: owned_update intro: stays_owned stays_trans [OF assms(1)])
qed

lemma claim_stored_recall_task_stays:
  assumes "stays sha w0 w"
  shows "post (claim_stored_recall_task sv task w)
    (\<lambda>r w'. stays sha w0 w' \<and> (\<forall>t. r = Inr (True, t) \<longrightarrow> owned w' t))"
  unfolding claim_stored_recall_task_def
proof (rule post_try [OF get_recall_task_stays [OF assms]])
qed (auto split: option.split restore_status.split intro!: start_recall_task_stays)

lemma claim_recall_task_stays:
  assumes "stays sha w0 w" and "owned w task"
  shows "post (claim_recall_task sv task w) (\<lambda>r w'. stays sha w0 w' \<and> (\<forall>t. r = Inr (True, t) \<longrightarrow> owned w' t))"
  unfolding claim_recall_task_def
  by (rule post_tolerate [OF put_recall_stays [OF assms]]) (auto intro: claim_stored_recall_task_stays)

lemmas then_update = post_tolerate [OF update_recall_task_stays] post_try [OF update_recall_task_stays]
  update_object_restore_status_stays

lemma mark_recall_failed_stays:
  assumes "stays sha w0 w"
  shows "post (mark_recall_failed sv task err w) (\<lambda>r w'. stays sha w0 w')"
  unfolding mark_recall_failed_def Let_def
proof (rule post_try [OF get_recall_task_stays [OF assms]])
qed (auto simp: owned_update owned_loses split: option.split intro!: then_clock then_update)

lemma retry_recall_task_later_stays:
  assumes "stays sha w0 w"
  shows "post (retry_recall_task_later sv task err w) (\<lambda>r w'. stays sha w0 w')"
  unfolding retry_recall_task_later_def Let_def
proof (rule post_try [OF get_recall_task_stays [OF assms]])
qed (auto simp: owned_update split: option.split intro!: then_update)

text \<open>What reaches the restored part of the cache has the checksum of its object.\<close>

lemma cache_restore_client_stays:
  assumes "stays sha w0 w" and "cv_object (view w) (b, k) = Some ob" and "is_cold ob" and "sha256_hex sha data = om_checksum ob"
  shows "post (cache_restore_client sha sv ob data expire_at w) (\<lambda>r w'. stays sha w0 w')"
proof -
  have i: "good w" "cold_inv sha (view w)" using stays_safe [OF assms(1)] by (simp_all add: safe_def)
  have n: "named b k ob" by (rule cold_invD(1) [OF i(2) assms(2)])
  have "stays sha w0 w'" if "good w'" "cv_object (view w') = cv_object (view w)" "cv_archive (view w') = cv_archive (view w)"
    "cv_recall (view w') = cv_recall (view w)" "cv_cached (view w') \<subseteq>\<^sub>m (cv_cached (view w))((b, k, None) \<mapsto> data)" for w'
    by (rule stays_step [OF assms(1)])
      (use that inv_cached [OF i(2) assms(2-4) that(2-5)] in \<open>simp_all add: safe_def owned_def settled_def\<close>)
  moreover have "stays sha w0 w'" if "good w'" "cv_object (view w') = cv_object (view w)" "cv_archive (view w') = cv_archive (view w)"
    "cv_recall (view w') = cv_recall (view w)" "cv_cached (view w') \<subseteq>\<^sub>m cv_cached (view w)" for w'
    using that by (intro stays_loses [OF assms(1)]) (simp_all add: loses_def)
  ultimately show ?thesis
    unfolding cache_restore_client_def using i(1) n
    by (intro post_try [OF put_restored_law]) (auto simp: named_def)
qed

text \<open>The object that a recall works on stays as it was read while the tape is read.\<close>

definition holds_object :: "(bytes \<Rightarrow> bytes) \<Rightarrow> 'w \<Rightarrow> recall_task \<Rightarrow> object_metadata \<Rightarrow> 'w \<Rightarrow> bool" where
  "holds_object sha w0 t ob w \<longleftrightarrow> stays sha w0 w \<and> owned w t \<and> cv_object (view w) (rt_bucket t, rt_key t) = Some ob"

lemma quiet_holds:
  assumes "quiet good view op" and "holds_object sha w0 t ob w"
  shows "post (op w) (\<lambda>r w'. holds_object sha w0 t ob w')"
proof (rule post_mono [OF quiet_stays [OF assms(1)]])
  show "stays sha w0 w" using assms(2) by (simp add: holds_object_def)
  show "holds_object sha w0 t ob w'" if "stays sha w0 w' \<and> loses (view w) (view w')" for w'
    using that assms(2) losesD(1) [of "view w" "view w'"] by (auto simp: holds_object_def owned_loses)
qed

lemma head_holds:
  assumes "stays sha w0 w" and "owned w t"
  shows "post (m_head_object sv (rt_bucket t) (rt_key t) w)
    (\<lambda>r w'. stays sha w0 w' \<and> (\<forall>ob. r = Inr ob \<longrightarrow> holds_object sha w0 t ob w'))"
proof (rule postI)
  fix r w' assume m: "m_head_object sv (rt_bucket t) (rt_key t) w = (r, w')"
  have q: "stays sha w0 w' \<and> loses (view w) (view w')" by (rule postD [OF quiet_stays [OF read_quiet(2) assms(1)] m])
  then show "stays sha w0 w' \<and> (\<forall>ob. r = Inr ob \<longrightarrow> holds_object sha w0 t ob w')"
    using postD [OF head_object_safe [OF stays_safe [OF assms(1)]] m] assms(2) by (auto simp: holds_object_def owned_loses)
qed

lemma expiry_quiet: "quiet good view (\<lambda>w. case e of Some t \<Rightarrow> (t, w) | None \<Rightarrow> days_from_now sv n w)"
  by (cases e) (simp_all add: quiet_return clock_quiet)

lemma finish_recall_stays:
  assumes "stays sha w0 w" and "owned w t"
  shows "post (case now_timestamp sv w of (now, w) \<Rightarrow>
      try_st (update_recall_task sv (t\<lparr>rt_status := restore_status_i32 RestoreCompleted, rt_completed_at := Some now, rt_error := None\<rparr>) w)
        (\<lambda>_ w. try_st (update_object_restore_status sv b k RestoreCompleted e w) (\<lambda>_ w. (Inr n, w)))) (\<lambda>r w'. stays sha w0 w')"
  using assms(2) by (intro then_clock [OF assms(1)] post_try [OF update_recall_task_stays [of sha w0]]
    post_try [OF update_object_restore_status_stays [of sha w0]]) (auto simp: owned_update owned_loses)

lemma process_recall_task_stays:
  assumes "stays sha w0 w" and "owned w t"
  shows "post (process_recall_task sha sv (cache_restore_client sha sv) (tape_read_bundle sv drive) t w) (\<lambda>r w'. stays sha w0 w')"
proof -
  have w0: "stays sha w0 w'" if "holds_object sha w0 t ob w'" for ob w' using that by (simp add: holds_object_def)
  have restore: "post (cache_restore_client sha sv ob data e w) (\<lambda>r w'. stays sha w0 w' \<and> owned w' t)"
    if h: "holds_object sha w0 t ob w" and "om_storage_class ob = storage_class_i32 Cold" "sha256_hex sha data = rt_checksum t" for ob data e w
  proof (rule post_mono [OF cache_restore_client_stays [OF stays_refl]])
    show "safe sha w" "cv_object (view w) (rt_bucket t, rt_key t) = Some ob" "is_cold ob" "sha256_hex sha data = om_checksum ob"
      using that by (auto simp: holds_object_def is_cold_def owned_def dest: stays_safe)
    show "stays sha w0 w' \<and> owned w' t" if "stays sha w w'" for w'
      using that h by (auto simp: holds_object_def intro: stays_trans stays_owned)
  qed
  show ?thesis
    unfolding process_recall_task_def
    apply (rule post_try [OF head_holds [OF assms]], simp)
    apply (intro post_if; (simp; fail)?)
    apply (rule post_try [OF quiet_holds [OF tape_read_bundle_quiet]], blast, erule w0)
    apply (intro post_if; (simp add: w0; fail)?)
    apply (rule post_case [OF quiet_holds [OF expiry_quiet]], assumption)
    apply (rule post_try [OF restore], assumption, simp, simp, simp)
    apply (rule finish_recall_stays; simp)
    done
qed

lemma recall_one_stays:
  assumes "stays sha w0 w" and "owned w t"
  shows "post (recall_one sha sv (cache_restore_client sha sv) (tape_read_bundle sv drive) t w) (\<lambda>r w'. stays sha w0 w')"
  unfolding recall_one_def
proof (rule post_try [OF claim_recall_task_stays [OF assms]], simp, clarify, rule post_if, simp)
  fix claimed t' w' assume w': "stays sha w0 w'" "\<forall>x. Inr (claimed, t') = Inr (True, x) \<longrightarrow> owned w' x" "\<not> \<not> claimed"
  let ?p = "process_recall_task sha sv (cache_restore_client sha sv) (tape_read_bundle sv drive) t' w'"
  have "stays sha w0 w2" if "?p = (r, w2)" for r w2
    using postD [OF process_recall_task_stays that] w' by simp
  then show "post (case ?p of (Inl status, w) \<Rightarrow>
        try_st (if is_retriable_recall_processing_error status then retry_recall_task_later sv t' (status_message status) w
          else mark_recall_failed sv t' (status_message status) w) (\<lambda>_ w. (Inr None, w))
      | (Inr bytes_read, w) \<Rightarrow> (Inr (Some (bytes_read, rt_id t')), w)) (\<lambda>r w'. stays sha w0 w')"
    by (auto split: prod.split sum.split intro!: post_try [OF retry_recall_task_later_stays] post_try [OF mark_recall_failed_stays])
qed

lemma recall_task_loop_safe:
  assumes "safe sha w" and "\<And>t. t \<in> set tasks \<Longrightarrow> owned w t"
  shows "safe sha (snd (snd (recall_task_loop sha sv (cache_restore_client sha sv) (tape_read_bundle sv drive) tasks result (st, w))))"
  using assms
proof (induction tasks arbitrary: result st w)
  case (Cons t tasks)
  have p: "stays sha w w'" if "recall_one sha sv (cache_restore_client sha sv) (tape_read_bundle sv drive) t w = (r, w')" for r w'
    using postD [OF recall_one_stays [OF stays_refl [OF Cons.prems(1)]] that] Cons.prems(2) by simp
  then have "safe sha w' \<and> (\<forall>t \<in> set tasks. owned w' t)"
    if "recall_one sha sv (cache_restore_client sha sv) (tape_read_bundle sv drive) t w = (r, w')" for r w'
    using that Cons.prems(2) stays_safe stays_owned by (metis list.set_intros(2))
  then show ?case
    using Cons by (auto simp: Let_def split: prod.split bool.split sum.split option.split)
qed simp

lemma recall_pending_once_safe:
  assumes "safe sha w"
  shows "safe sha (snd (snd (recall_pending_once sha sv n (st, w))))"
proof -
  have "safe sha w' \<and> (\<forall>ts t. r = Inr ts \<longrightarrow> t \<in> set ts \<longrightarrow> owned w' t)" if m: "m_list_pending_recall_tasks sv w = (r, w')" for r w'
  proof -
    have q: "safe sha w' \<and> loses (view w) (view w')" by (rule postD [OF quiet_safe [OF read_quiet(6) assms] m])
    moreover have "owned w' t" if "r = Inr ts" "t \<in> set ts" for ts t
      using pending_result [of w ts w' t] m that assms owned_task [OF assms] owned_loses [of w w' t] q by (simp add: safe_def)
    ultimately show ?thesis by blast
  qed
  then show ?thesis
    using assms
    by (auto simp: recall_pending_once_def recall_pending_batch_def Let_def split: prod.split sum.split
      intro!: recall_task_loop_safe dest!: in_set_takeD)
qed

subsection \<open>Requests\<close>

lemma put_staging_object_quiet: "quiet good view (put_staging_object sv cache s)"
  unfolding put_staging_object_def by (cases "cache_client cache") (simp_all add: quiet_return cache_quiet)

lemma put_object_safe:
  assumes "safe sha w" and "named (om_bucket ob) (om_key ob) ob" and "\<not> is_cold ob"
  shows "post (m_put_object sv ob w) (\<lambda>r w'. safe sha w')"
proof (rule post_mono [OF put_object_law])
  show "good w" "om_version_id ob = None" using assms by (simp_all add: safe_def named_def)
  have i: "cold_inv sha (view w)" using assms(1) by (simp add: safe_def)
  have "cold_inv sha (view w')" if "same_identity ob ob'" "om_storage_class ob' = om_storage_class ob"
    "sets_object (view w) (om_bucket ob, om_key ob) ob' (view w')" for ob' w'
    using that assms(2,3) inv_object [OF i, of "om_bucket ob" "om_key ob" ob']
    by (simp add: sets_object_def same_identity_def named_def is_cold_def)
  then show "safe sha w'" if "good w' \<and> (loses (view w) (view w') \<or> (\<exists>ob'. same_identity ob ob' \<and>
      om_storage_class ob' = om_storage_class ob \<and> sets_object (view w) (om_bucket ob, om_key ob) ob' (view w')))" for w'
    using that inv_loses [OF i] by (auto simp: safe_def)
qed

lemma sb_put_object_safe: "safe sha w \<Longrightarrow> post (sb_put_object sha sv cache b k body ct w) (\<lambda>r w'. safe sha w')"
  unfolding sb_put_object_def Let_def
  apply (rule post_try [OF quiet_safe [OF put_staging_object_quiet]], assumption, simp)
  apply (rule after_clock, blast)
  subgoal for x w1 now w2
    using put_object_safe [of sha w2 "new_object now b k (len_u64 body) (sha256_hex sha body) ct"]
    by (auto simp: new_object_def named_def is_cold_def split: prod.split sum.split intro: delete_staging_best_effort_safe)
  done

lemma sb_delete_object_safe:
  assumes "safe sha w"
  shows "post (sb_delete_object sv cache b k w) (\<lambda>r w'. safe sha w')"
proof -
  have "post (m_delete_object sv \<lparr>dor_bucket = b, dor_key = k\<rparr> w) (\<lambda>r w'. safe sha w')"
    using assms by (intro post_mono [OF delete_object_law]) (auto simp: safe_def intro: inv_loses inv_delete_object)
  then show ?thesis
    unfolding sb_delete_object_def by (rule post_try) (auto intro: delete_cached_object_best_effort_safe)
qed

lemma open_restore_safe:
  assumes "safe sha w" and "cv_object (view w) (b, k) = Some ob" and "is_cold ob"
  shows "post (open_restore sv b k days tier ob w) (\<lambda>r w'. safe sha w')"
proof -
  have owned: "owned w (pending_recall_task b k ob a t off tier days e now)" for a t off e now
    using assms cold_invD(2) [of sha "view w" b k ob] by (simp add: owned_def pending_recall_task_def safe_def)
  have put: "post (case m_put_recall_task sv (pending_recall_task b k ob a t off tier days e now) w' of
        (Inl status, w) \<Rightarrow> (Inl status, snd (update_object_restore_status sv b k RestoreFailed None w))
      | (Inr _, w) \<Rightarrow> (Inr n, w)) (\<lambda>r w'. safe sha w')" if "stays sha w w'" for a t off e now w' n
  proof -
    have "safe sha (snd (update_object_restore_status sv b k RestoreFailed None w2))" if "stays sha w w2" for w2
      using post_snd [OF update_object_restore_status_stays [OF that]] stays_safe by blast
    then show ?thesis
      using put_recall_stays [OF that stays_owned [OF that owned], of a t off e now]
      by (auto split: prod.split sum.split dest: stays_safe)
  qed
  show ?thesis
    unfolding open_restore_def
    apply (simp split: option.split add: assms(1))
    apply (intro allI impI)
    apply (rule post_case [OF quiet_stays [OF clock_quiet(2) stays_refl [OF assms(1)]]])
    apply (rule post_try [OF restore_status_stays [of sha w]], blast, erule stays_safe)
    apply (rule then_clock, assumption)
    apply (rule put, blast)
    done
qed

lemma sb_restore_object_safe:
  assumes "safe sha w"
  shows "post (sb_restore_object sv b k days tier w) (\<lambda>r w'. safe sha w')"
proof -
  have get: "post (m_get_object sv b k w) (\<lambda>r w'. safe sha w' \<and> (\<forall>ob. r = Inr ob \<longrightarrow> cv_object (view w') (b, k) = Some ob))"
  proof (rule postI)
    fix r w' assume m: "m_get_object sv b k w = (r, w')"
    show "safe sha w' \<and> (\<forall>ob. r = Inr ob \<longrightarrow> cv_object (view w') (b, k) = Some ob)"
      using postD [OF quiet_safe [OF read_quiet(3) assms] m] get_result [of w b k _ w'] assms m losesD(1) [of "view w" "view w'"]
      by (auto simp: safe_def)
  qed
  show ?thesis
    unfolding sb_restore_object_def
    by (rule post_try [OF get])
      (auto simp: is_cold_def split: option.split restore_status.split intro!: open_restore_safe)
qed

text \<open>The bytes of a download have the checksum of its object.\<close>

lemma sb_get_object_result:
  assumes "safe sha w"
  shows "post (sb_get_object sv cache b k w) (\<lambda>r w'. safe sha w' \<and>
    (\<forall>ob data. r = Inr (ob, data) \<longrightarrow> named b k ob \<and> sha256_hex sha data = om_checksum ob))"
proof -
  have read: "post (read_restored_object sv cache ob w1) (\<lambda>r w'. safe sha w' \<and>
      (\<forall>data. r = Inr data \<longrightarrow> sha256_hex sha data = om_checksum ob))"
    if "safe sha w1" and ob: "cv_object (view w1) (b, k) = Some ob" "named b k ob" for ob w1
  proof (rule postI)
    fix r w' assume r: "read_restored_object sv cache ob w1 = (r, w')"
    obtain q w2 where m: "k_get sv (b, k, None) w1 = (q, w2)" by fastforce
    have q: "safe sha w2" using postD [OF quiet_safe [OF cache_quiet(5) \<open>safe sha w1\<close>] m] by blast
    have "sha256_hex sha data = om_checksum ob"
      if "q = Inr msgs" "collect_messages d e cached_view None [] msgs = Inr (n, data)" "is_cold ob" for msgs d e n data
      using cached_result [of w1 "(b, k, None)" msgs w2] cold_invD(3) [of sha "view w1" b k ob] m that ob(1) \<open>safe sha w1\<close>
      by (auto simp: safe_def agrees_def)
    then show "safe sha w' \<and> (\<forall>data. r = Inr data \<longrightarrow> sha256_hex sha data = om_checksum ob)"
      using r m q ob(2) \<open>safe sha w1\<close>
      by (cases q) (auto simp: read_restored_object_def collect_restored_def Let_def named_def is_cold_def try_st_def
        split: if_splits sum.splits option.splits)
  qed
  show ?thesis
    unfolding sb_get_object_def sb_head_object_def
    apply (rule post_try [OF head_object_safe [OF assms]], simp)
    apply (rule post_try [OF read])
    apply auto
    done
qed

subsection \<open>The handlers\<close>

lemma quiet_handlers:
  "quiet good view (ss_list_buckets sv)" "quiet good view (ss_create_bucket sv bucket)"
  "quiet good view (ss_delete_bucket sv bucket)" "quiet good view (ss_head_bucket sv bucket)"
  "quiet good view (ss_list_objects sv r)" "quiet good view (ss_head_object http_date sv bucket key)"
  unfolding ss_list_buckets_def sb_list_buckets_def ss_create_bucket_def sb_create_bucket_def ss_delete_bucket_def
    sb_delete_bucket_def ss_head_bucket_def sb_head_bucket_def ss_list_objects_def sb_list_objects_def ss_head_object_def
    sb_head_object_def
  by (intro quiet_try quiet_case quiet_return quiet_laws)+

lemma ss_put_object_safe: "safe sha w \<Longrightarrow> post (ss_put_object sha sv cache messages w) (\<lambda>r w'. safe sha w')"
  using sb_put_object_safe by (auto simp: ss_put_object_def split: sum.split option.split)

lemma ss_delete_object_safe: "safe sha w \<Longrightarrow> post (ss_delete_object sv cache b k w) (\<lambda>r w'. safe sha w')"
  unfolding ss_delete_object_def by (rule post_try [OF sb_delete_object_safe]) auto

lemma ss_restore_object_safe: "safe sha w \<Longrightarrow> post (ss_restore_object sv r w) (\<lambda>r w'. safe sha w')"
  using sb_restore_object_safe by (auto simp: ss_restore_object_def split: option.split)

lemma ss_get_object_safe:
  "safe sha w \<Longrightarrow> post (ss_get_object http_date sv cache b k w) (\<lambda>r w'. safe sha w' \<and>
     (\<forall>messages. r = Inr messages \<longrightarrow> checked_download sha messages))"
  unfolding ss_get_object_def
  by (rule post_try [OF sb_get_object_result])
    (auto simp: checked_download_def build_get_object_meta_def unwrap_or_default_def named_def)

lemma archive_agent_tick_safe: "safe sha (snd s) \<Longrightarrow> safe sha (snd (archive_agent_tick sha sv s))"
  using archive_staging_once_safe [of sha "snd s" "fst s"] by (simp add: archive_agent_tick_def)

lemma recall_agent_tick_safe: "safe sha (snd s) \<Longrightarrow> safe sha (snd (recall_agent_tick sha sv s))"
  using recall_pending_once_safe [of sha "snd s" _ "fst s"] by (simp add: recall_agent_tick_def)

end

end
