(* ===== verification/System.thy ===== *)
theory System
  imports Scheduler_Integrity Gateway_Handler Cache_Properties
begin

text \<open>
  The components put together: a gateway and a scheduler worker over one metadata service,
  one cache service and one tape service, with a network between them that may lose a
  request, lose a reply or cut a stream at every call. The services are the models of their
  own theories; what is added here is how a call reaches them.

  A handler of a service, and a pass of a loop of the scheduler, runs without another one in
  between. The locale \<open>cold_services\<close> of the scheduler is interpreted on this system, so what
  was proved for any services of that kind holds of it: a download has the checksum of its
  object.
\<close>

section \<open>Calls over the network\<close>

text \<open>
  A fault of a call: the request does not arrive, the reply does not, or the stream of the
  call breaks off after some messages. A call without a stream that is cut loses its reply.
\<close>

datatype network_fault = Request_Lost status | Reply_Lost status | Stream_Cut nat status

text \<open>
  The world behind the scheduler. \<open>wd_clock\<close> has the readings of the clock in the order they
  are taken, and \<open>wd_faults\<close> the faults of the calls in the order they are made.
\<close>

record ('d, 'f, 'x) world =
  wd_clock :: "nat \<Rightarrow> timestamp"
  wd_reads :: nat
  wd_faults :: "nat \<Rightarrow> network_fault option"
  wd_calls :: nat
  wd_metadata :: "('d, 'f) metadata_service"
  wd_cache :: "('x, any_backend) cache_service"
  wd_tape :: simulator_tape_backend

definition read_clock :: "('d, 'f, 'x) world \<Rightarrow> timestamp \<times> ('d, 'f, 'x) world" where
  "read_clock w = (wd_clock w (wd_reads w), w\<lparr>wd_reads := wd_reads w + 1\<rparr>)"

text \<open>\<open>next_call\<close> takes the fault of the next call.\<close>

definition next_call :: "('d, 'f, 'x) world \<Rightarrow> network_fault option \<times> ('d, 'f, 'x) world" where
  "next_call w = (wd_faults w (wd_calls w), w\<lparr>wd_calls := wd_calls w + 1\<rparr>)"

definition remote :: "(('d, 'f, 'x) world, 'a) rpc \<Rightarrow> (('d, 'f, 'x) world, 'a) rpc" where
  "remote call w =
     (case next_call w of
        (None, w) \<Rightarrow> call w
      | (Some (Request_Lost err), w) \<Rightarrow> (Inl err, w)
      | (Some (Reply_Lost err), w) \<Rightarrow> (Inl err, snd (call w))
      | (Some (Stream_Cut n err), w) \<Rightarrow> (Inl err, snd (call w)))"

definition remote_stream :: "(('d, 'f, 'x) world, 'p messages) rpc \<Rightarrow> (('d, 'f, 'x) world, 'p messages) rpc" where
  "remote_stream call w =
     (case next_call w of
        (None, w) \<Rightarrow> call w
      | (Some (Request_Lost err), w) \<Rightarrow> (Inl err, w)
      | (Some (Reply_Lost err), w) \<Rightarrow> (Inl err, snd (call w))
      | (Some (Stream_Cut n err), w) \<Rightarrow> try_st (call w) (\<lambda>messages w. (Inr (take n messages @ [Inl err]), w)))"

definition remote_upload ::
  "('p messages \<Rightarrow> (('d, 'f, 'x) world, 'a) rpc) \<Rightarrow> 'p messages \<Rightarrow> (('d, 'f, 'x) world, 'a) rpc" where
  "remote_upload call stream w =
     (case next_call w of
        (None, w) \<Rightarrow> call stream w
      | (Some (Request_Lost err), w) \<Rightarrow> (Inl err, w)
      | (Some (Reply_Lost err), w) \<Rightarrow> (Inl err, snd (call stream w))
      | (Some (Stream_Cut n err), w) \<Rightarrow> (Inl err, snd (call (take n stream @ [Inl err]) w)))"

section \<open>The services\<close>

text \<open>A handler that changes the metadata reads the clock for its two applications.\<close>

definition change_metadata ::
  "(timestamp \<Rightarrow> timestamp \<Rightarrow> ('d, 'f) handler) \<Rightarrow> (('d, 'f, 'x) world, unit) rpc" where
  "change_metadata handler w =
     (case read_clock w of (now, w) \<Rightarrow>
     (case read_clock w of (now', w) \<Rightarrow>
     (case handler now now' (wd_metadata w) of (r, s) \<Rightarrow> (r, w\<lparr>wd_metadata := s\<rparr>))))"

definition ask_metadata :: "(('d, 'f) metadata_service \<Rightarrow> 'a result) \<Rightarrow> (('d, 'f, 'x) world, 'a) rpc" where
  "ask_metadata handler w = (handler (wd_metadata w), w)"

text \<open>
  A handler of the cache reads the clock up to three times, in seconds; a reading that it does
  not use is not observed.
\<close>

definition call_cache ::
  "(i64 \<Rightarrow> i64 \<Rightarrow> i64 \<Rightarrow> ('x, any_backend) cache_service \<Rightarrow> 'a result \<times> ('x, any_backend) cache_service) \<Rightarrow>
   (('d, 'f, 'x) world, 'a) rpc" where
  "call_cache handler w =
     (case read_clock w of (t1, w) \<Rightarrow>
     (case read_clock w of (t2, w) \<Rightarrow>
     (case read_clock w of (t3, w) \<Rightarrow>
     (case handler (ts_seconds t1) (ts_seconds t2) (ts_seconds t3) (wd_cache w) of
        (r, s) \<Rightarrow> (r, w\<lparr>wd_cache := s\<rparr>)))))"

text \<open>A panic of a handler of the tape service breaks its connection.\<close>

definition call_tape ::
  "(simulator_tape_backend \<Rightarrow> (simulator_tape_backend, 'a) call) \<Rightarrow> (('d, 'f, 'x) world, 'a) rpc" where
  "call_tape handler w =
     (case handler (wd_tape w) of
        (None, s) \<Rightarrow> (Inl (Status Unknown ''transport error''), w\<lparr>wd_tape := s\<rparr>)
      | (Some r, s) \<Rightarrow> (r, w\<lparr>wd_tape := s\<rparr>))"

text \<open>The messages of a stream that a service answers with.\<close>

definition streamed :: "(('d, 'f, 'x) world, 'p list) rpc \<Rightarrow> (('d, 'f, 'x) world, 'p messages) rpc" where
  "streamed call w = try_st (call w) (\<lambda>messages w. (Inr (map (\<lambda>m. Inr (Some m)) messages), w))"

text \<open>
  What the components are given from outside: the environment of the metadata service,
  floating point, the serializer, the calendar, the digest, and what the HTTP library knows
  of header values and dates.
\<close>

record ('d, 'f, 'x) system_env =
  se_env :: "('d, 'f) env"
  se_f64 :: "'x f64_ops"
  se_json :: json
  se_plus_days :: "u32 \<Rightarrow> timestamp \<Rightarrow> timestamp"
  se_sha :: "bytes \<Rightarrow> bytes"
  se_http_date :: http_date
  se_header_value :: "string \<Rightarrow> bool"
  se_dates :: date_parsers

definition system_services :: "('d, 'f, 'x) system_env \<Rightarrow> ('d, 'f, 'x) world services" where
  "system_services E =
     (let e = se_env E; fl = se_f64 E; be = dyn_ops (se_json E); tb = simulator_backend
      in \<lparr>now_timestamp = read_clock,
          days_from_now = (\<lambda>days w. case read_clock w of (now, w) \<Rightarrow> (se_plus_days E days now, w)),
          m_list_buckets = remote (ask_metadata md_list_buckets),
          m_create_bucket = (\<lambda>b. remote (change_metadata (\<lambda>t t'. md_create_bucket e t t' b))),
          m_delete_bucket = (\<lambda>name. remote (change_metadata (\<lambda>t t'. md_delete_bucket e t t' name))),
          m_get_bucket = (\<lambda>name. remote (ask_metadata (\<lambda>s. md_get_bucket s name))),
          m_head_object = (\<lambda>b k. remote (ask_metadata (\<lambda>s. md_head_object s b k))),
          m_get_object = (\<lambda>b k. remote (ask_metadata (\<lambda>s. md_get_object s b k))),
          m_put_object = (\<lambda>ob. remote (change_metadata (\<lambda>t t'. md_put_object e t t' ob))),
          m_delete_object = (\<lambda>r. remote (change_metadata (\<lambda>t t'. md_delete_object e t t' r))),
          m_update_restore_status = (\<lambda>r. remote (change_metadata (\<lambda>t t'. md_update_restore_status e t t' r))),
          m_list_objects = (\<lambda>r. remote (ask_metadata (\<lambda>s. md_list_objects s r))),
          m_complete_archive_object = (\<lambda>r. remote (change_metadata (\<lambda>t t'. md_complete_archive_object e t t' r))),
          m_put_archive_task = (\<lambda>task. remote (change_metadata (\<lambda>t t'. md_put_archive_task e t t' task))),
          m_get_archive_task = (\<lambda>i. remote (ask_metadata (\<lambda>s. md_get_archive_task s i))),
          m_update_archive_task = (\<lambda>task. remote (change_metadata (\<lambda>t t'. md_update_archive_task e t t' task))),
          m_put_recall_task = (\<lambda>task. remote (change_metadata (\<lambda>t t'. md_put_recall_task e t t' task))),
          m_get_recall_task = (\<lambda>i. remote (ask_metadata (\<lambda>s. md_get_recall_task s i))),
          m_update_recall_task = (\<lambda>task. remote (change_metadata (\<lambda>t t'. md_update_recall_task e t t' task))),
          m_list_pending_recall_tasks = remote (ask_metadata md_list_pending_recall_tasks),
          k_put_staging = remote_upload (\<lambda>ms. call_cache (\<lambda>t1 t2 t3. cs_put_staging fl be t1 t2 t3 ms)),
          k_get_staging = (\<lambda>key. remote_stream (streamed (call_cache (\<lambda>_ _ _. cs_get_staging be key)))),
          k_delete_staging = (\<lambda>key. remote (call_cache (\<lambda>_ _ _. cs_delete_staging be key))),
          k_list_staging_keys = (\<lambda>limit after. remote (call_cache (\<lambda>_ _ _ s. (cs_list_staging_keys limit after s, s)))),
          k_put_restored = remote_upload (\<lambda>ms. call_cache (\<lambda>t1 t2 t3. cs_put_restored fl be t1 t2 t3 ms)),
          k_get = (\<lambda>key. remote_stream (streamed (call_cache (\<lambda>t1 t2 _. cs_get be t1 t2 key)))),
          k_delete = (\<lambda>key. remote (call_cache (\<lambda>_ _ _. cs_delete be key))),
          t_acquire_drive = (\<lambda>r. remote (call_tape (acquire_drive tb r))),
          t_release_drive = (\<lambda>d. remote (call_tape (release_drive tb d))),
          t_load_tape = (\<lambda>t d s. remote (call_tape (load_tape tb t d s))),
          t_write_bundle = remote_upload (\<lambda>ms. call_tape (write_bundle_from_messages tb ms)),
          t_read_bundle = (\<lambda>r. remote_stream (streamed (call_tape (read_bundle tb r))))\<rparr>)"

section \<open>The gateway in front\<close>

text \<open>The calls of the gateway go over the same network.\<close>

definition network_client :: "('d, 'f, 'x) world scheduler_client \<Rightarrow> ('d, 'f, 'x) world scheduler_client" where
  "network_client c =
     \<lparr>cl_list_buckets = remote (cl_list_buckets c),
      cl_create_bucket = (\<lambda>b. remote (cl_create_bucket c b)),
      cl_delete_bucket = (\<lambda>b. remote (cl_delete_bucket c b)),
      cl_head_bucket = (\<lambda>b. remote (cl_head_bucket c b)),
      cl_list_objects = (\<lambda>r. remote (cl_list_objects c r)),
      cl_put_object = remote_upload (cl_put_object c),
      cl_get_object = (\<lambda>b k. remote_stream (cl_get_object c b k)),
      cl_delete_object = (\<lambda>b k. remote (cl_delete_object c b k)),
      cl_head_object = (\<lambda>b k. remote (cl_head_object c b k)),
      cl_restore_object = (\<lambda>r. remote (cl_restore_object c r))\<rparr>"

text \<open>Every address of the fleet leads to a worker over the same services; connecting may fail.\<close>

definition system_connect :: "('d, 'f, 'x) system_env \<Rightarrow> bool \<Rightarrow> ('d, 'f, 'x) world connector" where
  "system_connect E cache addr w =
     (case next_call w of
        (None, w) \<Rightarrow> (Inr (network_client (scheduler_handlers (se_sha E) (se_http_date E) (system_services E) cache)), w)
      | (Some _, w) \<Rightarrow> (Inl ''transport error'', w))"

record ('d, 'f, 'x) system =
  sy_next_addr :: usize
  sy_scheduler :: scheduler_state
  sy_world :: "('d, 'f, 'x) world"

text \<open>What happens to the system: a request arrives at the gateway, or a loop of the scheduler wakes up.\<close>

datatype system_event = Http http_request | Archive_Tick | Recall_Tick

definition http_step ::
  "('d, 'f, 'x) system_env \<Rightarrow> string list \<Rightarrow> http_request \<Rightarrow> ('d, 'f, 'x) system \<Rightarrow>
   http_response option \<times> ('d, 'f, 'x) system" where
  "http_step E addrs r s =
     (case dispatch (se_header_value E) (se_dates E) (se_http_date E)
             (grpc_gateway_backend (system_connect E (sst_cache (sy_scheduler s))) addrs) r (sy_next_addr s, sy_world s) of
        (response, (n, w)) \<Rightarrow> (response, s\<lparr>sy_next_addr := n, sy_world := w\<rparr>))"

definition tick ::
  "(scheduler_state \<times> ('d, 'f, 'x) world \<Rightarrow> scheduler_state \<times> ('d, 'f, 'x) world) \<Rightarrow> ('d, 'f, 'x) system \<Rightarrow>
   ('d, 'f, 'x) system" where
  "tick agent s = (case agent (sy_scheduler s, sy_world s) of (st, w) \<Rightarrow> s\<lparr>sy_scheduler := st, sy_world := w\<rparr>)"

fun system_step ::
  "('d, 'f, 'x) system_env \<Rightarrow> string list \<Rightarrow> system_event \<Rightarrow> ('d, 'f, 'x) system \<Rightarrow> ('d, 'f, 'x) system" where
  "system_step E addrs (Http r) s = snd (http_step E addrs r s)"
| "system_step E addrs Archive_Tick s = tick (archive_agent_tick (se_sha E) (system_services E)) s"
| "system_step E addrs Recall_Tick s = tick (recall_agent_tick (se_sha E) (system_services E)) s"

text \<open>The network carries fewer than \<open>N\<close> calls.\<close>

definition carries_fewer_calls_than :: "nat \<Rightarrow> ('d, 'f, 'x) world \<Rightarrow> bool" where
  "carries_fewer_calls_than N w \<longleftrightarrow> (\<forall>n \<ge> N. \<exists>err. wd_faults w n = Some (Request_Lost err))"

section \<open>The invariant of the services\<close>

text \<open>No component of the system creates a version of an object.\<close>

definition unversioned :: "metadata_state \<Rightarrow> bool" where
  "unversioned st \<longleftrightarrow> (\<forall>k ob. hm_get (ms_objects st) k = Some ob \<longrightarrow> snd (snd k) = None)"

definition metadata_view :: "metadata_state \<Rightarrow> (cache_key \<Rightarrow> bytes option) \<Rightarrow> cold_view" where
  "metadata_view st cached =
     \<lparr>cv_object = (\<lambda>(b, k). hm_get (ms_objects st) (b, k, None)), cv_archive = hm_get (ms_archive_tasks st),
      cv_recall = hm_get (ms_recall_tasks st), cv_cached = cached\<rparr>"

definition restored_bytes :: "json \<Rightarrow> ('x, any_backend) cache_service \<Rightarrow> cache_key \<Rightarrow> bytes option" where
  "restored_bytes j s k = map_option fst (content (objects_of j) s (Restored, k))"

definition system_view :: "json \<Rightarrow> ('d, 'f, 'x) world \<Rightarrow> cold_view" where
  "system_view j w = metadata_view (sv_state (wd_metadata w)) (restored_bytes j (wd_cache w))"

definition services_ok :: "json \<Rightarrow> ('d, 'f, 'x) world \<Rightarrow> bool" where
  "services_ok j w \<longleftrightarrow> cache_ok (backend_ok j) (objects_of j) (wd_cache w) \<and>
     wf_meta (sv_state (wd_metadata w)) \<and> unversioned (sv_state (wd_metadata w))"

text \<open>
  The cache has a storage id left for every call that may still arrive; \<open>system_busy\<close> is the
  same while a call is served.
\<close>

definition system_good :: "json \<Rightarrow> nat \<Rightarrow> ('d, 'f, 'x) world \<Rightarrow> bool" where
  "system_good j N w \<longleftrightarrow> services_ok j w \<and> carries_fewer_calls_than N w \<and> N \<le> wd_calls w + ids_left (wd_cache w)"

definition system_busy :: "json \<Rightarrow> nat \<Rightarrow> ('d, 'f, 'x) world \<Rightarrow> bool" where
  "system_busy j N w \<longleftrightarrow> services_ok j w \<and> carries_fewer_calls_than N w \<and> N < wd_calls w + ids_left (wd_cache w) \<and>
     0 < ids_left (wd_cache w)"

lemma busy_good: "system_busy j N w \<Longrightarrow> system_good j N w"
  by (simp add: system_busy_def system_good_def)

lemma world_frame [simp]:
  "system_view j (w\<lparr>wd_reads := n\<rparr>) = system_view j w" "system_view j (w\<lparr>wd_calls := n\<rparr>) = system_view j w"
  "system_view j (w\<lparr>wd_tape := t\<rparr>) = system_view j w"
  "system_busy j N (w\<lparr>wd_reads := n\<rparr>) = system_busy j N w" "system_busy j N (w\<lparr>wd_tape := t\<rparr>) = system_busy j N w"
  "system_good j N (w\<lparr>wd_reads := n\<rparr>) = system_good j N w" "system_good j N (w\<lparr>wd_tape := t\<rparr>) = system_good j N w"
  by (simp_all add: system_view_def system_busy_def system_good_def services_ok_def carries_fewer_calls_than_def)

lemma next_call_good:
  assumes "system_good j N w" and "next_call w = (fault, w')"
  shows "system_good j N w'" and "system_view j w' = system_view j w"
    and "\<nexists>err. fault = Some (Request_Lost err) \<Longrightarrow> system_busy j N w'"
proof -
  have w': "w' = w\<lparr>wd_calls := wd_calls w + 1\<rparr>" "fault = wd_faults w (wd_calls w)" using assms(2) by (auto simp: next_call_def)
  show "system_good j N w'" "system_view j w' = system_view j w"
    using assms(1) by (auto simp: w' system_good_def services_ok_def carries_fewer_calls_than_def)
  assume "\<nexists>err. fault = Some (Request_Lost err)"
  then have "wd_calls w < N"
    using assms(1) w'(2) by (auto simp: system_good_def carries_fewer_calls_than_def not_less [symmetric])
  then show "system_busy j N w'"
    using assms(1) by (auto simp: w' system_good_def system_busy_def services_ok_def carries_fewer_calls_than_def)
qed

text \<open>
  A call that does \<open>R\<close> while it is served does \<open>R\<close> over the network, where it may also fail
  with or without having been served.
\<close>

definition call_does :: "json \<Rightarrow> nat \<Rightarrow> (('d, 'f, 'x) world, 'a) rpc \<Rightarrow> ('a result \<Rightarrow> cold_view \<Rightarrow> bool) \<Rightarrow> cold_view \<Rightarrow> bool" where
  "call_does j N call R v \<longleftrightarrow> (\<forall>w. system_busy j N w \<longrightarrow> system_view j w = v \<longrightarrow>
     post (call w) (\<lambda>r w'. system_good j N w' \<and> R r (system_view j w')))"

lemma call_doesD:
  "call_does j N call R v \<Longrightarrow> system_busy j N w \<Longrightarrow> system_view j w = v \<Longrightarrow>
     post (call w) (\<lambda>r w'. system_good j N w' \<and> R r (system_view j w'))"
  by (simp add: call_does_def)

lemma remote_does:
  assumes "system_good j N w" and "call_does j N call R (system_view j w)"
    and "\<And>e. R (Inl e) (system_view j w)" and "\<And>r e v. R r v \<Longrightarrow> R (Inl e) v"
  shows "post (remote call w) (\<lambda>r w'. system_good j N w' \<and> R r (system_view j w'))"
proof -
  obtain fault w1 where n: "next_call w = (fault, w1)" by fastforce
  note g = next_call_good [OF assms(1) n]
  have c: "post (call w1) (\<lambda>r w'. system_good j N w' \<and> R r (system_view j w'))" if "\<nexists>err. fault = Some (Request_Lost err)"
    by (rule call_doesD [OF assms(2) g(3) [OF that] g(2)])
  then have "system_good j N (snd (call w1)) \<and> R (Inl e) (system_view j (snd (call w1)))"
    if "\<nexists>err. fault = Some (Request_Lost err)" for e
    using post_snd [OF c [OF that]] assms(4) by blast
  then show ?thesis
    using n g(1,2) c assms(3) by (auto simp: remote_def split: option.split network_fault.split)
qed

lemma remote_upload_does:
  assumes "system_good j N w" and "\<And>ms. ms = stream \<or> (\<exists>n e. ms = take n stream @ [Inl e]) \<Longrightarrow> call_does j N (call ms) R (system_view j w)"
    and "\<And>e. R (Inl e) (system_view j w)" and "\<And>r e v. R r v \<Longrightarrow> R (Inl e) v"
  shows "post (remote_upload call stream w) (\<lambda>r w'. system_good j N w' \<and> R r (system_view j w'))"
proof -
  obtain fault w1 where n: "next_call w = (fault, w1)" by fastforce
  note g = next_call_good [OF assms(1) n]
  have c: "post (call ms w1) (\<lambda>r w'. system_good j N w' \<and> R r (system_view j w'))"
    if "\<nexists>err. fault = Some (Request_Lost err)" "ms = stream \<or> (\<exists>n e. ms = take n stream @ [Inl e])" for ms
    by (rule call_doesD [OF assms(2) [OF that(2)] g(3) [OF that(1)] g(2)])
  have "system_good j N (snd (call ms w1)) \<and> R (Inl e) (system_view j (snd (call ms w1)))"
    if "\<nexists>err. fault = Some (Request_Lost err)" "ms = stream \<or> (\<exists>n e. ms = take n stream @ [Inl e])" for ms e
    using post_snd [OF c [OF that]] assms(4) by fast
  then show ?thesis
    using n g(1,2) c assms(3) by (auto simp: remote_upload_def split: option.split network_fault.split)
qed

text \<open>A call that answers has been served in a state with the same view.\<close>

lemma remote_Inr:
  assumes "remote call w = (Inr x, w')" and "system_good j N w"
  obtains w1 where "system_busy j N w1" "system_view j w1 = system_view j w" "call w1 = (Inr x, w')"
proof -
  obtain fault w1 where n: "next_call w = (fault, w1)" by fastforce
  then have "fault = None" "call w1 = (Inr x, w')" using assms(1) by (auto simp: remote_def split: option.splits network_fault.splits)
  with that next_call_good [OF assms(2) n] show ?thesis by simp
qed

lemma remote_stream_Inr:
  assumes "remote_stream call w = (Inr ms, w')" and "system_good j N w" and "\<nexists>e. Inl e \<in> set ms"
  obtains w1 where "system_busy j N w1" "system_view j w1 = system_view j w" "call w1 = (Inr ms, w')"
proof -
  obtain fault w1 where n: "next_call w = (fault, w1)" by fastforce
  then have "fault = None" "call w1 = (Inr ms, w')"
    using assms(1,3) by (auto simp: remote_stream_def try_st_Inr split: option.splits network_fault.splits)
  with that next_call_good [OF assms(2) n] show ?thesis by simp
qed

lemma remote_stream_quiet:
  assumes "system_good j N w" and "call_does j N call (\<lambda>r v. loses (system_view j w) v) (system_view j w)"
  shows "post (remote_stream call w) (\<lambda>r w'. system_good j N w' \<and> loses (system_view j w) (system_view j w'))"
proof -
  obtain fault w1 where n: "next_call w = (fault, w1)" by fastforce
  note g = next_call_good [OF assms(1) n]
  have c: "post (call w1) (\<lambda>r w'. system_good j N w' \<and> loses (system_view j w) (system_view j w'))"
    if "\<nexists>err. fault = Some (Request_Lost err)"
    by (rule call_doesD [OF assms(2) g(3) [OF that] g(2)])
  then have "system_good j N (snd (call w1)) \<and> loses (system_view j w) (system_view j (snd (call w1)))"
    if "\<nexists>err. fault = Some (Request_Lost err)"
    using post_snd [OF c [OF that]] by blast
  then show ?thesis
    using n g(1,2) c by (auto simp: remote_stream_def split: option.split network_fault.split intro!: post_try [OF c])
qed

section \<open>The calls of the metadata service\<close>

lemma read_clock_frame: "read_clock w = (t, w') \<Longrightarrow> \<exists>n. w' = w\<lparr>wd_reads := n\<rparr>"
  by (auto simp: read_clock_def)

lemma apply_and_persist_effect:
  assumes "apply_and_persist e now now' cmd s = (r, s')"
  shows "sv_state s' = sv_state s \<and> r \<noteq> Inr () \<or> apply_command now cmd (sv_state s) = (Inr (), sv_state s')"
proof (cases "sv_raft_backend s")
  case (Some b)
  obtain q st where q: "apply_command now cmd (sv_state s) = (q, st)" by fastforce
  show ?thesis
  proof (cases q)
    case (Inl err)
    with assms Some q apply_command_refused [of now cmd "sv_state s" err st] show ?thesis
      by (auto simp: apply_and_persist_def propose_local_apply_def)
  next
    case (Inr u)
    with assms Some q show ?thesis
      by (auto simp: apply_and_persist_def propose_local_apply_def split: prod.splits sum.splits option.splits
        dest: persist_locked_frame)
  qed
qed (use assms in \<open>auto simp: apply_and_persist_def\<close>)

lemma change_does:
  assumes "\<And>t st st'. apply_command t cmd st = (Inr (), st') \<Longrightarrow> wf_meta st \<Longrightarrow> unversioned st \<Longrightarrow> metadata_view st c = v \<Longrightarrow>
      unversioned st' \<and> R (metadata_view st' c)"
    and "c = cv_cached v"
  shows "call_does j N (change_metadata (\<lambda>t t'. apply_and_persist e t t' cmd)) (\<lambda>r v'. v' = v \<and> r \<noteq> Inr () \<or> R v') v"
  unfolding call_does_def
proof (intro allI impI postI)
  fix w r w' assume b: "system_busy j N w" and v: "system_view j w = v"
    and call: "change_metadata (\<lambda>t t'. apply_and_persist e t t' cmd) w = (r, w')"
  obtain t t' n s' where a: "apply_and_persist e t t' cmd (wd_metadata w) = (r, s')" "w' = w\<lparr>wd_reads := n, wd_metadata := s'\<rparr>"
    using call by (auto simp: change_metadata_def read_clock_def split: prod.splits)
  have c: "c = restored_bytes j (wd_cache w)" using v assms(2) by (auto simp: system_view_def metadata_view_def)
  have ok: "wf_meta (sv_state (wd_metadata w))" "unversioned (sv_state (wd_metadata w))"
    using b by (auto simp: system_busy_def services_ok_def)
  have wf: "wf_meta st'" if "apply_command t cmd (sv_state (wd_metadata w)) = (Inr (), st')" for st'
    using wf_apply_command [OF ok(1), of t cmd] that by simp
  show "system_good j N w' \<and> (system_view j w' = v \<and> r \<noteq> Inr () \<or> R (system_view j w'))"
    using apply_and_persist_effect [OF a(1)] assms(1) [OF _ ok] wf v a(2) b c
    by (auto simp: system_good_def system_busy_def services_ok_def carries_fewer_calls_than_def system_view_def)
qed

lemma remote_change:
  assumes "system_good j N w"
    and "\<And>t st st'. apply_command t cmd st = (Inr (), st') \<Longrightarrow> wf_meta st \<Longrightarrow> unversioned st \<Longrightarrow>
      metadata_view st (cv_cached (system_view j w)) = system_view j w \<Longrightarrow>
      unversioned st' \<and> R (metadata_view st' (cv_cached (system_view j w)))"
  shows "post (remote (change_metadata (\<lambda>t t'. apply_and_persist e t t' cmd)) w)
    (\<lambda>r w'. system_good j N w' \<and> (system_view j w' = system_view j w \<and> r \<noteq> Inr () \<or> R (system_view j w')))"
proof -
  let ?R = "\<lambda>r v'. v' = system_view j w \<and> r \<noteq> Inr () \<or> R v'"
  have "call_does j N (change_metadata (\<lambda>t t'. apply_and_persist e t t' cmd)) ?R (system_view j w)"
    by (rule change_does [OF assms(2) refl])
  then show ?thesis by (rule remote_does [OF assms(1)]) auto
qed

subsection \<open>Effects of the commands\<close>

lemma unversioned_frame:
  "ms_objects st' = ms_objects st \<Longrightarrow> unversioned st' = unversioned st"
  by (simp add: unversioned_def)

lemma metadata_view_objects:
  assumes "hm_get (ms_objects st') = (hm_get (ms_objects st))((b, k, None) := ob)"
    and "ms_archive_tasks st' = ms_archive_tasks st" and "ms_recall_tasks st' = ms_recall_tasks st"
  shows "metadata_view st' c = (metadata_view st c)\<lparr>cv_object := (cv_object (metadata_view st c))((b, k) := ob)\<rparr>"
  using assms by (auto simp: metadata_view_def fun_eq_iff)

lemma unversioned_objects:
  assumes "hm_get (ms_objects st') = (hm_get (ms_objects st))((b, k, None) := ob)" and "unversioned st"
  shows "unversioned st'"
  using assms by (auto simp: unversioned_def split: if_splits)

lemma find_unversioned:
  assumes "wf_meta st" and "unversioned st" and "find_object st b k None = Inr ob"
  shows "hm_get (ms_objects st) (b, k, None) = Some ob"
proof -
  have ob: "hm_get (ms_objects st) (b, k, om_version_id ob) = Some ob"
    using find_object_key [OF wf_meta_tables(1) [OF assms(1)] assms(3)] by blast
  then have "om_version_id ob = None" using assms(2) unfolding unversioned_def by fastforce
  with ob show ?thesis by simp
qed

lemma find_mut_unversioned:
  assumes "wf_meta st" and "unversioned st" and "find_object_mut st b k None = Inr key"
  shows "key = (b, k, None) \<and> (\<exists>ob. hm_get (ms_objects st) key = Some ob)"
proof -
  obtain ob where ob: "find_object st b k None = Inr ob" "hm_get (ms_objects st) key = Some ob"
    using find_object_mut_selects [OF keyed_distinct [OF wf_meta_tables(1) [OF assms(1)]] assms(3)] by blast
  then show ?thesis
    using find_object_key [OF wf_meta_tables(1) [OF assms(1)] ob(1)] keyedD [OF wf_meta_tables(1) [OF assms(1)] ob(2)]
      assms(2) by (auto simp: unversioned_def key_of_object_def)
qed

lemma put_object_effect:
  assumes "apply_command t (PutObject ob) st = (Inr (), st')" and "om_version_id ob = None"
  shows "hm_get (ms_objects st') = (hm_get (ms_objects st))((om_bucket ob, om_key ob, None) \<mapsto> stamp_object t ob)"
    and "ms_archive_tasks st' = ms_archive_tasks st" and "ms_recall_tasks st' = ms_recall_tasks st"
  using assms by (auto simp: apply_put_object_def key_of_object_def stamp_object_def Let_def split: if_splits)

lemma delete_object_effect:
  assumes "apply_command t (DeleteObject req) st = (Inr (), st')"
  shows "hm_get (ms_objects st') = (hm_get (ms_objects st))((dor_bucket req, dor_key req, None) := None)"
    and "ms_archive_tasks st' = ms_archive_tasks st" and "ms_recall_tasks st' = ms_recall_tasks st"
  using assms by (auto simp: apply_delete_object_def Let_def split: if_splits)

lemma restore_status_effect:
  assumes "apply_command t (UpdateRestoreStatus req) st = (Inr (), st')" and "wf_meta st" and "unversioned st"
  obtains ob where "hm_get (ms_objects st) (urs_bucket req, urs_key req, None) = Some ob"
    "hm_get (ms_objects st') = (hm_get (ms_objects st))((urs_bucket req, urs_key req, None) \<mapsto>
       ob\<lparr>om_restore_status := Some (urs_status req), om_restore_expire_at := urs_expire_at req, om_updated_at := Some t\<rparr>)"
    "ms_archive_tasks st' = ms_archive_tasks st" "ms_recall_tasks st' = ms_recall_tasks st"
proof -
  obtain key where key: "find_object_mut st (urs_bucket req) (urs_key req) None = Inr key"
    using assms(1) by (cases "find_object_mut st (urs_bucket req) (urs_key req) None") (auto simp: apply_update_restore_status_def)
  obtain ob where ob: "key = (urs_bucket req, urs_key req, None)" "hm_get (ms_objects st) key = Some ob"
    using find_mut_unversioned [OF assms(2,3) key] by blast
  show ?thesis
    by (rule that [of ob])
      (use assms(1) key ob in \<open>auto simp: apply_update_restore_status_def modify_object_def fun_eq_iff split: sum.splits\<close>)
qed

lemma complete_effect:
  assumes "apply_command t (CompleteArchiveObject req) st = (Inr (), st')" and "wf_meta st" and "cao_version_id req = None"
  obtains ob bu where "hm_get (ms_objects st) (cao_bucket req, cao_key req, None) = Some ob"
    "hm_get (ms_objects st') = (hm_get (ms_objects st))((cao_bucket req, cao_key req, None) \<mapsto> archived_object t req bu ob)"
    "ms_archive_tasks st' = ms_archive_tasks st" "ms_recall_tasks st' = ms_recall_tasks st"
proof -
  have a: "apply_complete_archive_object t req st = (Inr (), st')" using assms(1) by simp
  from complete_archive_object_Inr [OF assms(2) a] assms(3) obtain bu ob
    where ob: "hm_get (ms_objects st) (cao_bucket req, cao_key req, None) = Some ob"
      "hm_get (ms_objects st') = (hm_get (ms_objects st))((cao_bucket req, cao_key req, None) \<mapsto> archived_object t req bu ob)"
    by auto
  show ?thesis by (rule that [OF ob]) (use a apply_complete_archive_object_tasks [of t req st] in simp_all)
qed

lemma put_archive_effect:
  assumes "apply_command t (PutArchiveTask at) st = (Inr (), st')"
  shows "st' = st \<or> hm_get (ms_archive_tasks st) (at_id at) = None \<and>
    (\<exists>at'. st' = st\<lparr>ms_archive_tasks := hm_insert (at_id at) at' (ms_archive_tasks st)\<rparr>)"
  using assms by (auto simp: apply_put_archive_task_def Let_def split: option.splits if_splits)

lemma update_archive_effect:
  assumes "apply_command t (UpdateArchiveTask at) st = (Inr (), st')"
  shows "st' = st\<lparr>ms_archive_tasks := hm_insert (at_id at) at (ms_archive_tasks st)\<rparr>"
  using assms by (auto simp: apply_update_archive_task_def split: option.splits sum.splits)

lemma put_recall_effect:
  assumes "apply_command t (PutRecallTask rt) st = (Inr (), st')"
  shows "st' = st \<or> hm_get (ms_recall_tasks st) (rt_id rt) = None \<and>
    (\<exists>rt'. (rt_bucket rt', rt_key rt', rt_checksum rt') = (rt_bucket rt, rt_key rt, rt_checksum rt) \<and>
       st' = st\<lparr>ms_recall_tasks := hm_insert (rt_id rt) rt' (ms_recall_tasks st)\<rparr>)"
proof -
  let ?rt = "if rt_created_at rt = None then rt\<lparr>rt_created_at := Some t\<rparr> else rt"
  have rt: "(rt_bucket ?rt, rt_key ?rt, rt_checksum ?rt) = (rt_bucket rt, rt_key rt, rt_checksum rt)" "rt_id ?rt = rt_id rt" by auto
  show ?thesis
  proof (cases "hm_get (ms_recall_tasks st) (rt_id rt)")
    case None
    with assms have "st' = st\<lparr>ms_recall_tasks := hm_insert (rt_id rt) ?rt (ms_recall_tasks st)\<rparr>"
      by (auto simp: apply_put_recall_task_def Let_def split: if_splits)
    with rt(1) None show ?thesis by blast
  next
    case (Some existing)
    with assms show ?thesis by (simp add: apply_put_recall_task_def Let_def split: if_splits)
  qed
qed

lemma update_recall_effect:
  assumes "apply_command t (UpdateRecallTask rt) st = (Inr (), st')"
  shows "st' = st\<lparr>ms_recall_tasks := hm_insert (rt_id rt) rt (ms_recall_tasks st)\<rparr>"
  using assms by (auto simp: apply_update_recall_task_def split: option.splits sum.splits)

lemma bucket_effect:
  assumes "apply_command t cmd st = (Inr (), st')" and "(\<exists>b. cmd = CreateBucket b) \<or> (\<exists>n. cmd = DeleteBucket n)"
  shows "ms_objects st' = ms_objects st" "ms_archive_tasks st' = ms_archive_tasks st" "ms_recall_tasks st' = ms_recall_tasks st"
  using assms by (auto simp: apply_create_bucket_def apply_delete_bucket_def Let_def split: if_splits)

lemma task_views [simp]:
  "metadata_view (st\<lparr>ms_archive_tasks := hm_insert i at (ms_archive_tasks st)\<rparr>) c =
     (metadata_view st c)\<lparr>cv_archive := (cv_archive (metadata_view st c))(i \<mapsto> at)\<rparr>"
  "metadata_view (st\<lparr>ms_recall_tasks := hm_insert i rt (ms_recall_tasks st)\<rparr>) c =
     (metadata_view st c)\<lparr>cv_recall := (cv_recall (metadata_view st c))(i \<mapsto> rt)\<rparr>"
  "unversioned (st\<lparr>ms_archive_tasks := ats\<rparr>) = unversioned st"
  "unversioned (st\<lparr>ms_recall_tasks := rts\<rparr>) = unversioned st"
  by (auto simp: metadata_view_def unversioned_def fun_eq_iff)

lemma metadata_view_select [simp]:
  "cv_object (metadata_view st c) (b, k) = hm_get (ms_objects st) (b, k, None)"
  "cv_archive (metadata_view st c) = hm_get (ms_archive_tasks st)"
  "cv_recall (metadata_view st c) = hm_get (ms_recall_tasks st)"
  by (simp_all add: metadata_view_def)

subsection \<open>The laws\<close>

lemma good_ok: "system_good j N w \<Longrightarrow> wf_meta (sv_state (wd_metadata w)) \<and> unversioned (sv_state (wd_metadata w))"
  by (simp add: system_good_def services_ok_def)

lemma busy_ok: "system_busy j N w \<Longrightarrow> wf_meta (sv_state (wd_metadata w)) \<and> unversioned (sv_state (wd_metadata w))"
  by (simp add: system_busy_def services_ok_def)

lemma remote_ask_quiet: "quiet (system_good j N) (system_view j) (remote (ask_metadata q))"
  unfolding quiet_def
proof (intro allI impI)
  fix w :: "('a, 'b, 'c) world" assume g: "system_good j N w"
  show "post (remote (ask_metadata q) w) (\<lambda>r w'. system_good j N w' \<and> loses (system_view j w) (system_view j w'))"
  proof (rule remote_does [OF g])
    show "call_does j N (ask_metadata q) (\<lambda>r v. loses (system_view j w) v) (system_view j w)"
      by (simp add: call_does_def ask_metadata_def busy_good)
  qed simp_all
qed

lemma remote_ask_Inr:
  assumes "remote (ask_metadata q) w = (Inr x, w')" and "system_good j N w"
  shows "\<exists>s. q s = Inr x \<and> wf_meta (sv_state s) \<and> unversioned (sv_state s) \<and>
    system_view j w = metadata_view (sv_state s) (cv_cached (system_view j w))"
proof -
  obtain w1 where w1: "system_busy j N w1" "system_view j w1 = system_view j w" "ask_metadata q w1 = (Inr x, w')"
    using remote_Inr [OF assms] by blast
  have "system_view j w1 = metadata_view (sv_state (wd_metadata w1)) (cv_cached (system_view j w1))"
    by (simp add: system_view_def metadata_view_def)
  then have "system_view j w = metadata_view (sv_state (wd_metadata w1)) (cv_cached (system_view j w))" using w1(2) by simp
  moreover have "q (wd_metadata w1) = Inr x" using w1(3) by (auto simp: ask_metadata_def)
  ultimately show ?thesis using busy_ok [OF w1(1)] by blast
qed

lemma put_object_does:
  assumes "system_good j N w" and "om_version_id ob = None"
  shows "post (remote (change_metadata (\<lambda>t t'. md_put_object e t t' ob)) w) (\<lambda>r w'. system_good j N w' \<and>
    (loses (system_view j w) (system_view j w') \<or> (\<exists>ob'. same_identity ob ob' \<and> om_storage_class ob' = om_storage_class ob \<and>
       sets_object (system_view j w) (om_bucket ob, om_key ob) ob' (system_view j w'))))"
  unfolding md_put_object_def
proof (rule post_mono [OF remote_change [OF assms(1), where R = "\<lambda>v. \<exists>ob'. same_identity ob ob' \<and>
    om_storage_class ob' = om_storage_class ob \<and> sets_object (system_view j w) (om_bucket ob, om_key ob) ob' v"]])
  fix t st st' assume a: "apply_command t (PutObject ob) st = (Inr (), st')" "unversioned st"
    and v: "metadata_view st (cv_cached (system_view j w)) = system_view j w"
  note eff = put_object_effect [OF a(1) assms(2)]
  show "unversioned st' \<and> (\<exists>ob'. same_identity ob ob' \<and> om_storage_class ob' = om_storage_class ob \<and>
      sets_object (system_view j w) (om_bucket ob, om_key ob) ob' (metadata_view st' (cv_cached (system_view j w))))"
    using unversioned_objects [OF eff(1) a(2)] metadata_view_objects [OF eff, of "cv_cached (system_view j w)"] v
    by (auto simp: sets_object_def same_identity_def stamp_object_def intro!: exI [of _ "stamp_object t ob"])
qed auto

lemma delete_object_does:
  assumes "system_good j N w"
  shows "post (remote (change_metadata (\<lambda>t t'. md_delete_object e t t' \<lparr>dor_bucket = b, dor_key = k\<rparr>)) w) (\<lambda>r w'.
    system_good j N w' \<and> (loses (system_view j w) (system_view j w') \<or>
      system_view j w' = (system_view j w)\<lparr>cv_object := (cv_object (system_view j w))((b, k) := None)\<rparr>))"
  unfolding md_delete_object_def
proof (rule post_mono [OF remote_change [OF assms, where R = "\<lambda>v.
    v = (system_view j w)\<lparr>cv_object := (cv_object (system_view j w))((b, k) := None)\<rparr>"]])
  fix t st st' assume a: "apply_command t (DeleteObject \<lparr>dor_bucket = b, dor_key = k\<rparr>) st = (Inr (), st')" "unversioned st"
    and v: "metadata_view st (cv_cached (system_view j w)) = system_view j w"
  note eff = delete_object_effect [OF a(1), simplified]
  show "unversioned st' \<and> metadata_view st' (cv_cached (system_view j w)) =
      (system_view j w)\<lparr>cv_object := (cv_object (system_view j w))((b, k) := None)\<rparr>"
    using unversioned_objects [OF eff(1) a(2)] metadata_view_objects [OF eff, of "cv_cached (system_view j w)"] v by simp
qed auto

lemma restore_status_does:
  assumes "system_good j N w"
  shows "post (remote (change_metadata (\<lambda>t t'. md_update_restore_status e t t' status)) w) (\<lambda>r w'. system_good j N w' \<and>
    (loses (system_view j w) (system_view j w') \<or> (\<exists>ob ob'. cv_object (system_view j w) (urs_bucket status, urs_key status) = Some ob \<and>
       same_identity ob ob' \<and> om_storage_class ob' = om_storage_class ob \<and>
       sets_object (system_view j w) (urs_bucket status, urs_key status) ob' (system_view j w'))))"
  unfolding md_update_restore_status_def
proof (rule post_mono [OF remote_change [OF assms(1), where R = "\<lambda>v. \<exists>ob ob'.
    cv_object (system_view j w) (urs_bucket status, urs_key status) = Some ob \<and> same_identity ob ob' \<and>
    om_storage_class ob' = om_storage_class ob \<and> sets_object (system_view j w) (urs_bucket status, urs_key status) ob' v"]])
  fix t st st' assume a: "apply_command t (UpdateRestoreStatus status) st = (Inr (), st')" "wf_meta st" "unversioned st"
    and v: "metadata_view st (cv_cached (system_view j w)) = system_view j w"
  obtain ob where ob: "hm_get (ms_objects st) (urs_bucket status, urs_key status, None) = Some ob"
    and eff: "hm_get (ms_objects st') = (hm_get (ms_objects st))((urs_bucket status, urs_key status, None) \<mapsto>
      ob\<lparr>om_restore_status := Some (urs_status status), om_restore_expire_at := urs_expire_at status, om_updated_at := Some t\<rparr>)"
      "ms_archive_tasks st' = ms_archive_tasks st" "ms_recall_tasks st' = ms_recall_tasks st"
    using restore_status_effect [OF a] by blast
  have "cv_object (system_view j w) (urs_bucket status, urs_key status) = Some ob" using ob v by (metis metadata_view_select(1))
  then show "unversioned st' \<and> (\<exists>ob ob'. cv_object (system_view j w) (urs_bucket status, urs_key status) = Some ob \<and>
      same_identity ob ob' \<and> om_storage_class ob' = om_storage_class ob \<and>
      sets_object (system_view j w) (urs_bucket status, urs_key status) ob' (metadata_view st' (cv_cached (system_view j w))))"
    using unversioned_objects [OF eff(1) a(3)] metadata_view_objects [OF eff, of "cv_cached (system_view j w)"] v
    by (intro conjI exI [of _ ob] exI [of _ "ob\<lparr>om_restore_status := Some (urs_status status),
      om_restore_expire_at := urs_expire_at status, om_updated_at := Some t\<rparr>"]) (auto simp: sets_object_def same_identity_def)
qed auto

lemma complete_does:
  assumes "system_good j N w" and "cao_version_id req = None"
  shows "post (remote (change_metadata (\<lambda>t t'. md_complete_archive_object e t t' req)) w) (\<lambda>r w'. system_good j N w' \<and>
    (loses (system_view j w) (system_view j w') \<or> (\<exists>ob ob'. cv_object (system_view j w) (cao_bucket req, cao_key req) = Some ob \<and>
       same_identity ob ob' \<and> sets_object (system_view j w) (cao_bucket req, cao_key req) ob' (system_view j w'))))"
  unfolding md_complete_archive_object_def
proof (rule post_mono [OF remote_change [OF assms(1), where R = "\<lambda>v. \<exists>ob ob'.
    cv_object (system_view j w) (cao_bucket req, cao_key req) = Some ob \<and> same_identity ob ob' \<and>
    sets_object (system_view j w) (cao_bucket req, cao_key req) ob' v"]])
  fix t st st' assume a: "apply_command t (CompleteArchiveObject req) st = (Inr (), st')" "wf_meta st" and u: "unversioned st"
    and v: "metadata_view st (cv_cached (system_view j w)) = system_view j w"
  obtain ob bu where ob: "hm_get (ms_objects st) (cao_bucket req, cao_key req, None) = Some ob"
    and eff: "hm_get (ms_objects st') = (hm_get (ms_objects st))((cao_bucket req, cao_key req, None) \<mapsto> archived_object t req bu ob)"
      "ms_archive_tasks st' = ms_archive_tasks st" "ms_recall_tasks st' = ms_recall_tasks st"
    using complete_effect [OF a assms(2)] by blast
  have "cv_object (system_view j w) (cao_bucket req, cao_key req) = Some ob" using ob v by (metis metadata_view_select(1))
  then show "unversioned st' \<and> (\<exists>ob ob'. cv_object (system_view j w) (cao_bucket req, cao_key req) = Some ob \<and>
      same_identity ob ob' \<and> sets_object (system_view j w) (cao_bucket req, cao_key req) ob' (metadata_view st' (cv_cached (system_view j w))))"
    using unversioned_objects [OF eff(1) u] metadata_view_objects [OF eff, of "cv_cached (system_view j w)"] v
    by (intro conjI exI [of _ ob] exI [of _ "archived_object t req bu ob"]) (auto simp: sets_object_def same_identity_def archived_object_def)
qed auto

lemma put_archive_does:
  assumes "system_good j N w"
  shows "post (remote (change_metadata (\<lambda>t t'. md_put_archive_task e t t' at)) w) (\<lambda>r w'. system_good j N w' \<and>
    (loses (system_view j w) (system_view j w') \<or> (cv_archive (system_view j w) (at_id at) = None \<and>
       (\<exists>at'. system_view j w' = (system_view j w)\<lparr>cv_archive := (cv_archive (system_view j w))(at_id at \<mapsto> at')\<rparr>))))"
  unfolding md_put_archive_task_def
proof (rule post_mono [OF remote_change [OF assms(1), where R = "\<lambda>v. v = system_view j w \<or>
    cv_archive (system_view j w) (at_id at) = None \<and>
    (\<exists>at'. v = (system_view j w)\<lparr>cv_archive := (cv_archive (system_view j w))(at_id at \<mapsto> at')\<rparr>)"]])
  fix t st st' assume "apply_command t (PutArchiveTask at) st = (Inr (), st')" "unversioned st"
    and v: "metadata_view st (cv_cached (system_view j w)) = system_view j w"
  then show "unversioned st' \<and> (metadata_view st' (cv_cached (system_view j w)) = system_view j w \<or>
      cv_archive (system_view j w) (at_id at) = None \<and>
      (\<exists>at'. metadata_view st' (cv_cached (system_view j w)) =
         (system_view j w)\<lparr>cv_archive := (cv_archive (system_view j w))(at_id at \<mapsto> at')\<rparr>))"
    using put_archive_effect [of t at st st'] metadata_view_select(2) [of st "cv_cached (system_view j w)"] by auto
qed auto

lemma update_archive_does:
  assumes "system_good j N w"
  shows "post (remote (change_metadata (\<lambda>t t'. md_update_archive_task e t t' at)) w) (\<lambda>r w'. system_good j N w' \<and>
    (loses (system_view j w) (system_view j w') \<and> r \<noteq> Inr () \<or> (\<exists>at'. at_status at' = at_status at \<and>
       system_view j w' = (system_view j w)\<lparr>cv_archive := (cv_archive (system_view j w))(at_id at \<mapsto> at')\<rparr>)))"
  unfolding md_update_archive_task_def
proof (rule post_mono [OF remote_change [OF assms(1), where R = "\<lambda>v.
    v = (system_view j w)\<lparr>cv_archive := (cv_archive (system_view j w))(at_id at \<mapsto> at)\<rparr>"]])
  fix t st st' assume "apply_command t (UpdateArchiveTask at) st = (Inr (), st')" "unversioned st"
    and v: "metadata_view st (cv_cached (system_view j w)) = system_view j w"
  then show "unversioned st' \<and> metadata_view st' (cv_cached (system_view j w)) =
      (system_view j w)\<lparr>cv_archive := (cv_archive (system_view j w))(at_id at \<mapsto> at)\<rparr>"
    using update_archive_effect [of t at st st'] metadata_view_select(2) [of st "cv_cached (system_view j w)"] by auto
qed auto

lemma put_recall_does:
  assumes "system_good j N w"
  shows "post (remote (change_metadata (\<lambda>t t'. md_put_recall_task e t t' rt)) w) (\<lambda>r w'. system_good j N w' \<and>
    (loses (system_view j w) (system_view j w') \<or> (cv_recall (system_view j w) (rt_id rt) = None \<and>
       (\<exists>rt'. (rt_bucket rt', rt_key rt', rt_checksum rt') = (rt_bucket rt, rt_key rt, rt_checksum rt) \<and>
         system_view j w' = (system_view j w)\<lparr>cv_recall := (cv_recall (system_view j w))(rt_id rt \<mapsto> rt')\<rparr>))))"
  unfolding md_put_recall_task_def
proof (rule post_mono [OF remote_change [OF assms(1), where R = "\<lambda>v. v = system_view j w \<or>
    cv_recall (system_view j w) (rt_id rt) = None \<and>
    (\<exists>rt'. (rt_bucket rt', rt_key rt', rt_checksum rt') = (rt_bucket rt, rt_key rt, rt_checksum rt) \<and>
      v = (system_view j w)\<lparr>cv_recall := (cv_recall (system_view j w))(rt_id rt \<mapsto> rt')\<rparr>)"]])
  fix t st st' assume "apply_command t (PutRecallTask rt) st = (Inr (), st')" "unversioned st"
    and v: "metadata_view st (cv_cached (system_view j w)) = system_view j w"
  then show "unversioned st' \<and> (metadata_view st' (cv_cached (system_view j w)) = system_view j w \<or>
      cv_recall (system_view j w) (rt_id rt) = None \<and>
      (\<exists>rt'. (rt_bucket rt', rt_key rt', rt_checksum rt') = (rt_bucket rt, rt_key rt, rt_checksum rt) \<and>
         metadata_view st' (cv_cached (system_view j w)) =
         (system_view j w)\<lparr>cv_recall := (cv_recall (system_view j w))(rt_id rt \<mapsto> rt')\<rparr>))"
    using put_recall_effect [of t rt st st'] metadata_view_select(3) [of st "cv_cached (system_view j w)"] by auto
qed auto

lemma update_recall_does:
  assumes "system_good j N w"
  shows "post (remote (change_metadata (\<lambda>t t'. md_update_recall_task e t t' rt)) w) (\<lambda>r w'. system_good j N w' \<and>
    (loses (system_view j w) (system_view j w') \<or>
       (\<exists>rt'. (rt_bucket rt', rt_key rt', rt_checksum rt') = (rt_bucket rt, rt_key rt, rt_checksum rt) \<and>
         system_view j w' = (system_view j w)\<lparr>cv_recall := (cv_recall (system_view j w))(rt_id rt \<mapsto> rt')\<rparr>)))"
  unfolding md_update_recall_task_def
proof (rule post_mono [OF remote_change [OF assms(1), where R = "\<lambda>v.
    v = (system_view j w)\<lparr>cv_recall := (cv_recall (system_view j w))(rt_id rt \<mapsto> rt)\<rparr>"]])
  fix t st st' assume "apply_command t (UpdateRecallTask rt) st = (Inr (), st')" "unversioned st"
    and v: "metadata_view st (cv_cached (system_view j w)) = system_view j w"
  then show "unversioned st' \<and> metadata_view st' (cv_cached (system_view j w)) =
      (system_view j w)\<lparr>cv_recall := (cv_recall (system_view j w))(rt_id rt \<mapsto> rt)\<rparr>"
    using update_recall_effect [of t rt st st'] metadata_view_select(3) [of st "cv_cached (system_view j w)"] by auto
qed auto

lemma bucket_change_quiet:
  assumes "(\<exists>b. cmd = CreateBucket b) \<or> (\<exists>n. cmd = DeleteBucket n)"
  shows "quiet (system_good j N) (system_view j) (remote (change_metadata (\<lambda>t t'. apply_and_persist e t t' cmd)))"
  unfolding quiet_def
proof (intro allI impI)
  fix w :: "('a, 'b, 'c) world" assume g: "system_good j N w"
  show "post (remote (change_metadata (\<lambda>t t'. apply_and_persist e t t' cmd)) w)
    (\<lambda>r w'. system_good j N w' \<and> loses (system_view j w) (system_view j w'))"
  proof (rule post_mono [OF remote_change [OF g, where R = "\<lambda>v. v = system_view j w"]])
    fix t st st' assume "apply_command t cmd st = (Inr (), st')" "unversioned st"
      and v: "metadata_view st (cv_cached (system_view j w)) = system_view j w"
    then show "unversioned st' \<and> metadata_view st' (cv_cached (system_view j w)) = system_view j w"
      using bucket_effect [of t cmd st st'] assms by (auto simp: metadata_view_def unversioned_def)
  qed auto
qed

section \<open>The calls of the cache service\<close>

text \<open>What a handler of the cache may do to the restored bytes.\<close>

definition cache_does ::
  "json \<Rightarrow> (('x, any_backend) cache_service \<Rightarrow> 'a result \<times> ('x, any_backend) cache_service) \<Rightarrow>
   ((cache_key \<Rightarrow> bytes option) \<Rightarrow> bool) \<Rightarrow> (cache_key \<Rightarrow> bytes option) \<Rightarrow> bool" where
  "cache_does j handler Q c \<longleftrightarrow> (\<forall>s r s'. cache_ok (backend_ok j) (objects_of j) s \<longrightarrow> 0 < ids_left s \<longrightarrow>
     restored_bytes j s = c \<longrightarrow> handler s = (r, s') \<longrightarrow>
     cache_ok (backend_ok j) (objects_of j) s' \<and> ids_left s \<le> ids_left s' + 1 \<and> Q (restored_bytes j s'))"

lemma call_cache_does:
  assumes "\<And>t1 t2 t3. cache_does j (handler t1 t2 t3) Q (cv_cached v)"
  shows "call_does j N (call_cache handler) (\<lambda>r v'. Q (cv_cached v') \<and> v' = v\<lparr>cv_cached := cv_cached v'\<rparr>) v"
  unfolding call_does_def
proof (intro allI impI postI)
  fix w r w' assume b: "system_busy j N w" and v: "system_view j w = v" and call: "call_cache handler w = (r, w')"
  obtain t1 t2 t3 n s' where h: "handler t1 t2 t3 (wd_cache w) = (r, s')" "w' = w\<lparr>wd_reads := n, wd_cache := s'\<rparr>"
    using call by (auto simp: call_cache_def read_clock_def split: prod.splits)
  have "restored_bytes j (wd_cache w) = cv_cached v" using v by (auto simp: system_view_def metadata_view_def)
  then have "cache_ok (backend_ok j) (objects_of j) s' \<and> ids_left (wd_cache w) \<le> ids_left s' + 1 \<and> Q (restored_bytes j s')"
    using assms [of t1 t2 t3] h(1) b unfolding cache_does_def system_busy_def services_ok_def by blast
  then show "system_good j N w' \<and> Q (cv_cached (system_view j w')) \<and> system_view j w' = v\<lparr>cv_cached := cv_cached (system_view j w')\<rparr>"
    using b h(2) v by (auto simp: system_good_def system_busy_def services_ok_def carries_fewer_calls_than_def system_view_def
      metadata_view_def)
qed

lemma cached_loses: "c \<subseteq>\<^sub>m cv_cached v \<and> v' = v\<lparr>cv_cached := c\<rparr> \<Longrightarrow> loses v v'"
  by (simp add: loses_def)

lemma cache_call_quiet:
  assumes "\<And>t1 t2 t3 c. cache_does j (handler t1 t2 t3) (\<lambda>c'. c' \<subseteq>\<^sub>m c) c"
  shows "call_does j N (call_cache handler) (\<lambda>r v'. loses v v') v"
proof -
  have "call_does j N (call_cache handler) (\<lambda>r v'. cv_cached v' \<subseteq>\<^sub>m cv_cached v \<and> v' = v\<lparr>cv_cached := cv_cached v'\<rparr>) v"
    by (rule call_cache_does) (rule assms)
  then show ?thesis
    unfolding call_does_def by (auto intro: cached_loses elim!: post_mono)
qed

lemma remote_quiet:
  assumes "\<And>v. call_does j N call (\<lambda>r v'. loses v v') v"
  shows "quiet (system_good j N) (system_view j) (remote call)"
  unfolding quiet_def using assms by (auto intro!: remote_does)

lemma streamed_does:
  assumes "call_does j N call (\<lambda>r v'. loses v v') v"
  shows "call_does j N (streamed call) (\<lambda>r v'. loses v v') v"
  using assms unfolding call_does_def streamed_def by (auto intro!: post_try)

lemma remote_streamed_quiet:
  assumes "\<And>v. call_does j N call (\<lambda>r v'. loses v v') v"
  shows "quiet (system_good j N) (system_view j) (remote_stream (streamed call))"
  unfolding quiet_def using assms by (auto intro!: remote_stream_quiet streamed_does)

lemma remote_upload_quiet:
  assumes "\<And>ms v. call_does j N (call ms) (\<lambda>r v'. loses v v') v"
  shows "quiet (system_good j N) (system_view j) (remote_upload call stream)"
  unfolding quiet_def using assms by (auto intro!: remote_upload_does)

lemma restored_le:
  "loses_restored (backend_ok j) (objects_of j) s s' \<Longrightarrow> restored_bytes j s' \<subseteq>\<^sub>m restored_bytes j s"
  unfolding loses_restored_def map_le_def restored_bytes_def by (auto simp: dom_def)

lemma shrinks_does:
  assumes "\<And>s r s'. cache_ok (backend_ok j) (objects_of j) s \<Longrightarrow> handler s = (r, s') \<Longrightarrow> dyn.shrinks j s s'"
  shows "cache_does j handler (\<lambda>c'. c' \<subseteq>\<^sub>m c) c"
  unfolding cache_does_def
proof (intro allI impI)
  fix s r s' assume "cache_ok (backend_ok j) (objects_of j) s" "restored_bytes j s = c" "handler s = (r, s')"
  with assms show "cache_ok (backend_ok j) (objects_of j) s' \<and> ids_left s \<le> ids_left s' + 1 \<and> restored_bytes j s' \<subseteq>\<^sub>m c"
    using restored_le [of j s s'] by (auto simp: dyn.shrinks_def loses_restored_def)
qed

lemma cache_handlers_quiet:
  "cache_does j (cs_get_staging (dyn_ops j) key) (\<lambda>c'. c' \<subseteq>\<^sub>m c) c"
  "cache_does j (cs_get (dyn_ops j) t1 t2 key) (\<lambda>c'. c' \<subseteq>\<^sub>m c) c"
  "cache_does j (cs_delete (dyn_ops j) key) (\<lambda>c'. c' \<subseteq>\<^sub>m c) c"
  "cache_does j (\<lambda>s. (cs_list_staging_keys limit after s, s)) (\<lambda>c'. c' \<subseteq>\<^sub>m c) c"
  by (intro shrinks_does; use dyn.get_staging_spec dyn.get_shrinks dyn.delete_shrinks dyn.shrinks_refl in blast)+

lemma delete_staging_quiet: "cache_does j (cs_delete_staging (dyn_ops j) key) (\<lambda>c'. c' \<subseteq>\<^sub>m c) c"
  unfolding cache_does_def
proof (intro allI impI)
  fix s r s' assume s: "cache_ok (backend_ok j) (objects_of j) s" "restored_bytes j s = c" "cs_delete_staging (dyn_ops j) key s = (r, s')"
  obtain q where d: "delete_entry (dyn_ops j) key Staging s = (q, s')"
    using s(3) by (cases "delete_entry (dyn_ops j) key Staging s"; cases "fst (delete_entry (dyn_ops j) key Staging s)")
      (auto simp: cs_delete_staging_def)
  from dyn.delete_entry_spec [OF s(1) d] s(2)
  show "cache_ok (backend_ok j) (objects_of j) s' \<and> ids_left s \<le> ids_left s' + 1 \<and> restored_bytes j s' \<subseteq>\<^sub>m c"
    by (cases q) (auto simp: restored_bytes_def map_le_def)
qed

lemma put_staging_quiet: "cache_does j (cs_put_staging fl (dyn_ops j) t1 t2 t3 ms) (\<lambda>c'. c' \<subseteq>\<^sub>m c) c"
  unfolding cache_does_def
proof (intro allI impI)
  fix s r s' assume s: "cache_ok (backend_ok j) (objects_of j) s" "0 < ids_left s" "restored_bytes j s = c"
    and h: "cs_put_staging fl (dyn_ops j) t1 t2 t3 ms s = (r, s')"
  from h show "cache_ok (backend_ok j) (objects_of j) s' \<and> ids_left s \<le> ids_left s' + 1 \<and> restored_bytes j s' \<subseteq>\<^sub>m c"
  proof (cases rule: cs_put_staging_cases)
    case rejected
    with s show ?thesis by simp
  next
    case (put m data q)
    let ?x = "(staged_attrs m t1)\<lparr>xa_last_access_at := t2\<rparr>"
    have x: "(ps_bucket m, ps_key m, ps_version_id m) = (xa_bucket ?x, xa_key ?x, xa_version_id ?x)" "xa_category ?x = Staging"
      by (simp_all add: staged_attrs_def)
    note sp = dyn.put_bytes_spec [OF s(1,2) put(3) x(1)]
    show ?thesis
    proof (cases q)
      case (Inl err)
      with sp restored_le [of j s s'] s(3) show ?thesis by (auto simp: loses_restored_def)
    next
      case (Inr i)
      with sp x(2) obtain s1 where s1: "loses_restored (backend_ok j) (objects_of j) s s1" "cache_ok (backend_ok j) (objects_of j) s'"
        "content (objects_of j) s' = (content (objects_of j) s1)((Staging, ps_bucket m, ps_key m, ps_version_id m) \<mapsto> (data, core ?x))"
        by auto
      then have "restored_bytes j s' = restored_bytes j s1" by (auto simp: restored_bytes_def)
      with sp s1 restored_le [OF s1(1)] s(3) show ?thesis by simp
    qed
  qed
qed

lemma collect_put_error: "Inl e \<in> set ms \<Longrightarrow> \<exists>e'. collect_put empty_chunk meta data ms = Inl e'"
  by (induction empty_chunk meta data ms rule: collect_put.induct) auto

lemma put_restored_does:
  assumes "ms = [Inr (Some (PutMeta m)), Inr (Some (PutData data))] \<or> (\<exists>e. Inl e \<in> set ms)"
  shows "cache_does j (cs_put_restored fl (dyn_ops j) t1 t2 t3 ms)
    (\<lambda>c'. c' \<subseteq>\<^sub>m c((pr_bucket m, pr_key m, pr_version_id m) \<mapsto> data) \<or> c' \<subseteq>\<^sub>m c) c"
  unfolding cache_does_def
proof (intro allI impI)
  fix s r s' assume s: "cache_ok (backend_ok j) (objects_of j) s" "0 < ids_left s" "restored_bytes j s = c"
    and h: "cs_put_restored fl (dyn_ops j) t1 t2 t3 ms s = (r, s')"
  let ?k = "(pr_bucket m, pr_key m, pr_version_id m)"
  from h show "cache_ok (backend_ok j) (objects_of j) s' \<and> ids_left s \<le> ids_left s' + 1 \<and>
    (restored_bytes j s' \<subseteq>\<^sub>m c(?k \<mapsto> data) \<or> restored_bytes j s' \<subseteq>\<^sub>m c)"
  proof (cases rule: cs_put_restored_cases)
    case rejected
    with s show ?thesis by simp
  next
    case (put m' data' t q)
    have "ms = [Inr (Some (PutMeta m)), Inr (Some (PutData data))]"
      using assms put(1) collect_put_error [of _ ms "''empty put_restored chunk''" None "[]"] by auto
    with put(1) have m: "m' = m" "data' = data" by auto
    let ?x = "(restored_attrs m (ts_seconds t) t1)\<lparr>xa_last_access_at := t2\<rparr>"
    have x: "?k = (xa_bucket ?x, xa_key ?x, xa_version_id ?x)" "xa_category ?x = Restored"
      by (simp_all add: restored_attrs_def)
    note sp = dyn.put_bytes_spec [OF s(1,2) put(4) [unfolded m] x(1)]
    show ?thesis
    proof (cases q)
      case (Inl err)
      with sp restored_le [of j s s'] s(3) show ?thesis by (auto simp: loses_restored_def)
    next
      case (Inr i)
      with sp x(2) obtain s1 where s1: "loses_restored (backend_ok j) (objects_of j) s s1" "cache_ok (backend_ok j) (objects_of j) s'"
        "content (objects_of j) s' = (content (objects_of j) s1)((Restored, ?k) \<mapsto> (data, core ?x))" by auto
      then have "restored_bytes j s' = (restored_bytes j s1)(?k \<mapsto> data)" by (auto simp: restored_bytes_def fun_eq_iff)
      moreover have "(restored_bytes j s1)(?k \<mapsto> data) \<subseteq>\<^sub>m c(?k \<mapsto> data)"
        using restored_le [OF s1(1)] s(3) by (simp add: map_le_def)
      ultimately show ?thesis using sp s1(2) by simp
    qed
  qed
qed

subsection \<open>The streams that are read\<close>

lemma collect_messages_Inr: "collect_messages d e f meta data ms = Inr x \<Longrightarrow> \<nexists>err. Inl err \<in> set ms"
  by (induction d e f meta data ms rule: collect_messages.induct) (auto split: sum.splits if_splits)

lemma collect_data_messages:
  assumes "\<And>chunk. f (g chunk) = Inr chunk"
  shows "collect_messages d e f meta data (map (\<lambda>m. Inr (Some m)) (map g chunks)) = Inr (meta, data @ concat chunks)"
  using assms by (induction chunks arbitrary: data) simp_all

lemma collect_restored_messages:
  "collect_messages d e cached_view None [] (map (\<lambda>m. Inr (Some m)) (restored_messages data x)) = Inr (Some (xa_size x), data)"
  using collect_data_messages [of cached_view GetData d e "Some (xa_size x)" "[]" "slice_chunks STREAM_CHUNK_SIZE data"]
    concat_slice_chunks [of STREAM_CHUNK_SIZE data]
  by (simp add: restored_messages_def STREAM_CHUNK_SIZE_def)

lemma collect_staged_messages:
  assumes "collect_messages d e staging_view None [] (map (\<lambda>m. Inr (Some m)) (staged_messages data x)) = Inr (Some meta, data')"
  shows "so_version_id meta = xa_version_id x"
  using assms collect_data_messages [of staging_view StagingData d e _ "[]" "slice_chunks STREAM_CHUNK_SIZE data"]
  by (auto simp: staged_messages_def)

lemma streamed_Inr:
  assumes "streamed (call_cache handler) w = (Inr ms, w')"
  obtains t1 t2 t3 xs s' where "handler t1 t2 t3 (wd_cache w) = (Inr xs, s')" "ms = map (\<lambda>m. Inr (Some m)) xs"
  using assms that by (auto simp: streamed_def call_cache_def read_clock_def try_st_Inr split: prod.splits)

lemma k_get_result:
  assumes "system_good j N w" and "remote_stream (streamed (call_cache (\<lambda>t1 t2 _. cs_get (dyn_ops j) t1 t2 key))) w = (Inr ms, w')"
    and "collect_messages d e cached_view None [] ms = Inr (n, data)"
  shows "cv_cached (system_view j w) key = Some data"
proof -
  obtain w1 where w1: "system_busy j N w1" "system_view j w1 = system_view j w"
      "streamed (call_cache (\<lambda>t1 t2 _. cs_get (dyn_ops j) t1 t2 key)) w1 = (Inr ms, w')"
    by (rule remote_stream_Inr [OF assms(2,1) collect_messages_Inr [OF assms(3)]])
  obtain t1 t2 xs s' where g: "cs_get (dyn_ops j) t1 t2 key (wd_cache w1) = (Inr xs, s')" "ms = map (\<lambda>m. Inr (Some m)) xs"
    by (rule streamed_Inr [OF w1(3)])
  have ok: "cache_ok (backend_ok j) (objects_of j) (wd_cache w1)" using w1(1) by (simp add: system_busy_def services_ok_def)
  from dyn.get_restored_spec [OF ok g(1)] obtain data' x
    where c: "content (objects_of j) (wd_cache w1) (Restored, key) = Some (data', x)" "xs = restored_messages data' x"
    by (auto split: option.splits if_splits)
  then have "data' = data" using assms(3) g(2) collect_restored_messages [of d e data' x] by simp
  with c(1) have "cv_cached (system_view j w1) key = Some data"
    by (simp add: system_view_def metadata_view_def restored_bytes_def)
  with w1(2) show ?thesis by simp
qed

lemma k_get_staging_result:
  assumes "system_good j N w" and "remote_stream (streamed (call_cache (\<lambda>_ _ _. cs_get_staging (dyn_ops j) (b, k, v)))) w = (Inr ms, w')"
    and "collect_messages d e staging_view None [] ms = Inr (Some meta, data)"
  shows "so_version_id meta = v"
proof -
  obtain w1 where w1: "system_busy j N w1"
      "streamed (call_cache (\<lambda>_ _ _. cs_get_staging (dyn_ops j) (b, k, v))) w1 = (Inr ms, w')"
    by (rule remote_stream_Inr [OF assms(2,1) collect_messages_Inr [OF assms(3)]])
  obtain xs s' where g: "cs_get_staging (dyn_ops j) (b, k, v) (wd_cache w1) = (Inr xs, s')" "ms = map (\<lambda>m. Inr (Some m)) xs"
    by (rule streamed_Inr [OF w1(2)])
  have ok: "cache_ok (backend_ok j) (objects_of j) (wd_cache w1)" using w1(1) by (simp add: system_busy_def services_ok_def)
  from dyn.get_staging_spec [OF ok g(1)] obtain data' x
    where c: "content (objects_of j) (wd_cache w1) (Staging, b, k, v) = Some (data', x)" "xs = staged_messages data' x"
    by (auto simp: staged_def elim: staging_spec.cases)
  then obtain en where en: "look (cs_index (wd_cache w1)) (Staging, b, k, v) = Some en" "x = core (se_xattrs en)"
    by (auto simp: content_def stored_def split: option.splits)
  have "entry_key en = (b, k, v)"
    using ok by (intro look_entry(1) [OF _ en(1)]) (simp add: cache_ok_def wf_index_tables)
  then have "xa_version_id x = v" using en(2) by (simp add: entry_key_def core_def)
  with collect_staged_messages [of d e data' x meta data] assms(3) c(2) g(2) show ?thesis by simp
qed

section \<open>The calls of the tape service\<close>

lemma call_tape_quiet: "call_does j N (call_tape handler) (\<lambda>r v'. loses v v') v"
  unfolding call_does_def by (auto simp: call_tape_def busy_good split: prod.split option.split)

section \<open>The system as the services of the scheduler\<close>

lemma clock_reading_quiet: "quiet (system_good j N) (system_view j) read_clock"
  by (simp add: quiet_iff read_clock_def)

lemma bucket_handlers_quiet:
  "quiet (system_good j N) (system_view j) (remote (change_metadata (\<lambda>t t'. md_create_bucket e t t' b)))"
  "quiet (system_good j N) (system_view j) (remote (change_metadata (\<lambda>t t'. md_delete_bucket e t t' name)))"
  unfolding md_create_bucket_def md_delete_bucket_def by (intro bucket_change_quiet; blast)+

lemma find_result:
  fixes w :: "('d, 'f, 'x) world"
  assumes "system_good j N w" and "remote (ask_metadata (\<lambda>s. find_object (sv_state s) b k None)) w = (Inr ob, w')"
  shows "cv_object (system_view j w) (b, k) = Some ob"
proof -
  obtain s :: "('d, 'f) metadata_service" where s: "find_object (sv_state s) b k None = Inr ob" "wf_meta (sv_state s)" "unversioned (sv_state s)"
    "system_view j w = metadata_view (sv_state s) (cv_cached (system_view j w))"
    using remote_ask_Inr [OF assms(2,1)] by blast
  show ?thesis using find_unversioned [OF s(2,3,1)] by (subst s(4)) simp
qed

lemma ask_archive_task:
  fixes w :: "('d, 'f, 'x) world"
  assumes "system_good j N w" and "remote (ask_metadata (\<lambda>s. md_get_archive_task s i)) w = (Inr at, w')"
  shows "cv_archive (system_view j w) i = Some at \<and> at_id at = i"
proof -
  obtain s :: "('d, 'f) metadata_service" where s: "md_get_archive_task s i = Inr at" "wf_meta (sv_state s)"
    "system_view j w = metadata_view (sv_state s) (cv_cached (system_view j w))"
    using remote_ask_Inr [OF assms(2,1)] by blast
  then have at: "hm_get (ms_archive_tasks (sv_state s)) i = Some at" by (auto simp: md_get_archive_task_def split: option.splits)
  with keyedD [OF wf_meta_tables(4) [OF s(2)] at] show ?thesis by (subst s(3)) simp
qed

lemma ask_recall_task:
  fixes w :: "('d, 'f, 'x) world"
  assumes "system_good j N w" and "remote (ask_metadata (\<lambda>s. md_get_recall_task s i)) w = (Inr rt, w')"
  shows "cv_recall (system_view j w) i = Some rt \<and> rt_id rt = i"
proof -
  obtain s :: "('d, 'f) metadata_service" where s: "md_get_recall_task s i = Inr rt" "wf_meta (sv_state s)"
    "system_view j w = metadata_view (sv_state s) (cv_cached (system_view j w))"
    using remote_ask_Inr [OF assms(2,1)] by blast
  then have rt: "hm_get (ms_recall_tasks (sv_state s)) i = Some rt" by (auto simp: md_get_recall_task_def split: option.splits)
  with keyedD [OF wf_meta_tables(5) [OF s(2)] rt] show ?thesis by (subst s(3)) simp
qed

lemma ask_pending:
  fixes w :: "('d, 'f, 'x) world"
  assumes "system_good j N w" and "remote (ask_metadata md_list_pending_recall_tasks) w = (Inr rts, w')" and "rt \<in> set rts"
  shows "cv_recall (system_view j w) (rt_id rt) = Some rt"
proof -
  obtain s :: "('d, 'f) metadata_service" where s: "md_list_pending_recall_tasks s = Inr rts" "wf_meta (sv_state s)"
    "system_view j w = metadata_view (sv_state s) (cv_cached (system_view j w))"
    using remote_ask_Inr [OF assms(2,1)] by blast
  then obtain i where "(i, rt) \<in> set (ms_recall_tasks (sv_state s))"
    using assms(3) by (auto simp: md_list_pending_recall_tasks_def)
  then have "hm_get (ms_recall_tasks (sv_state s)) (rt_id rt) = Some rt"
    by (rule keyed_get [OF wf_meta_tables(5) [OF s(2)]])
  then show ?thesis by (subst s(3)) simp
qed

lemma remote_put_restored:
  assumes "system_good j N w"
  shows "post (remote_upload (\<lambda>ms. call_cache (\<lambda>t1 t2 t3. cs_put_restored fl (dyn_ops j) t1 t2 t3 ms))
      [Inr (Some (PutMeta m)), Inr (Some (PutData data))] w) (\<lambda>r w'. system_good j N w' \<and>
    cv_object (system_view j w') = cv_object (system_view j w) \<and> cv_archive (system_view j w') = cv_archive (system_view j w) \<and>
    cv_recall (system_view j w') = cv_recall (system_view j w) \<and>
    (cv_cached (system_view j w') \<subseteq>\<^sub>m (cv_cached (system_view j w))((pr_bucket m, pr_key m, pr_version_id m) \<mapsto> data) \<or>
     cv_cached (system_view j w') \<subseteq>\<^sub>m cv_cached (system_view j w)))"
proof -
  let ?k = "(pr_bucket m, pr_key m, pr_version_id m)" and ?v = "system_view j w"
  let ?Q = "\<lambda>c'. c' \<subseteq>\<^sub>m (cv_cached ?v)(?k \<mapsto> data) \<or> c' \<subseteq>\<^sub>m cv_cached ?v"
  have fields: "cv_object v' = cv_object ?v \<and> cv_archive v' = cv_archive ?v \<and> cv_recall v' = cv_recall ?v"
    if "v' = ?v\<lparr>cv_cached := cv_cached v'\<rparr>" for v' by (subst that, subst that, subst that) simp
  have "post (remote_upload (\<lambda>ms. call_cache (\<lambda>t1 t2 t3. cs_put_restored fl (dyn_ops j) t1 t2 t3 ms))
      [Inr (Some (PutMeta m)), Inr (Some (PutData data))] w)
    (\<lambda>r w'. system_good j N w' \<and> (?Q (cv_cached (system_view j w')) \<and> system_view j w' = ?v\<lparr>cv_cached := cv_cached (system_view j w')\<rparr>))"
  proof (rule remote_upload_does [OF assms])
    fix ms :: "put_restored_meta put_payload messages"
    assume "ms = [Inr (Some (PutMeta m)), Inr (Some (PutData data))] \<or>
      (\<exists>n e. ms = take n [Inr (Some (PutMeta m)), Inr (Some (PutData data))] @ [Inl e])"
    then show "call_does j N (call_cache (\<lambda>t1 t2 t3. cs_put_restored fl (dyn_ops j) t1 t2 t3 ms))
        (\<lambda>r v'. ?Q (cv_cached v') \<and> v' = ?v\<lparr>cv_cached := cv_cached v'\<rparr>) ?v"
      by (intro call_cache_does put_restored_does) auto
  qed simp_all
  then show ?thesis by (rule post_mono) (use fields in blast)
qed

interpretation cold: cold_services "system_services E" "system_good (se_json E) N" "system_view (se_json E)" for E N
proof
  let ?q = "quiet (system_good (se_json E) N) (system_view (se_json E))"
  show "?q (now_timestamp (system_services E))" by (simp add: system_services_def Let_def clock_reading_quiet)
  show "?q (days_from_now (system_services E) days)" for days
    by (simp add: system_services_def Let_def quiet_case [OF clock_reading_quiet quiet_return])
qed (simp_all add: system_services_def Let_def bucket_handlers_quiet remote_ask_quiet
    remote_quiet [OF cache_call_quiet] remote_quiet [OF call_tape_quiet] remote_streamed_quiet [OF cache_call_quiet]
    remote_streamed_quiet [OF call_tape_quiet] remote_upload_quiet [OF cache_call_quiet] remote_upload_quiet [OF call_tape_quiet]
    cache_handlers_quiet delete_staging_quiet put_staging_quiet
    md_head_object_def md_get_object_def find_result ask_archive_task ask_recall_task ask_pending
    k_get_staging_result k_get_result put_object_does delete_object_does restore_status_does [simplified]
    complete_does [simplified] put_archive_does update_archive_does put_recall_does [simplified]
    update_recall_does [simplified] remote_put_restored)

end
