(* ===== verification/System_Run.thy ===== *)
theory System_Run
  imports System
begin

text \<open>
  The whole system run by the simplifier: bucket, key, bytes, digest and clock are variables,
  every handler of every component on the way is evaluated. An object is stored through the gateway, moved
  to tape by the archive loop, asked for, moved to the cache by the recall loop, and
  downloaded.
\<close>

section \<open>The operations by their fields\<close>

text \<open>The client that a connection of the gateway leads to.\<close>

definition worker :: "('d, 'f, 'x) system_env \<Rightarrow> bool \<Rightarrow> ('d, 'f, 'x) world scheduler_client" where
  "worker E cache = network_client (scheduler_handlers (se_sha E) (se_http_date E) (system_services E) cache)"

lemma service_fields:
  "now_timestamp (system_services E) = read_clock"
  "days_from_now (system_services E) days w = (case read_clock w of (now, w) \<Rightarrow> (se_plus_days E days now, w))"
  "m_list_buckets (system_services E) = remote (ask_metadata md_list_buckets)"
  "m_create_bucket (system_services E) bi = remote (change_metadata (\<lambda>t t'. md_create_bucket (se_env E) t t' bi))"
  "m_delete_bucket (system_services E) name =
     remote (change_metadata (\<lambda>t t'. md_delete_bucket (se_env E) t t' name))"
  "m_get_bucket (system_services E) name = remote (ask_metadata (\<lambda>s. md_get_bucket s name))"
  "m_head_object (system_services E) b k = remote (ask_metadata (\<lambda>s. md_head_object s b k))"
  "m_get_object (system_services E) b k = remote (ask_metadata (\<lambda>s. md_get_object s b k))"
  "m_put_object (system_services E) ob = remote (change_metadata (\<lambda>t t'. md_put_object (se_env E) t t' ob))"
  "m_delete_object (system_services E) dr = remote (change_metadata (\<lambda>t t'. md_delete_object (se_env E) t t' dr))"
  "m_update_restore_status (system_services E) ur =
     remote (change_metadata (\<lambda>t t'. md_update_restore_status (se_env E) t t' ur))"
  "m_list_objects (system_services E) lr = remote (ask_metadata (\<lambda>s. md_list_objects s lr))"
  "m_complete_archive_object (system_services E) cr =
     remote (change_metadata (\<lambda>t t'. md_complete_archive_object (se_env E) t t' cr))"
  "m_put_archive_task (system_services E) at =
     remote (change_metadata (\<lambda>t t'. md_put_archive_task (se_env E) t t' at))"
  "m_get_archive_task (system_services E) i = remote (ask_metadata (\<lambda>s. md_get_archive_task s i))"
  "m_update_archive_task (system_services E) at =
     remote (change_metadata (\<lambda>t t'. md_update_archive_task (se_env E) t t' at))"
  "m_put_recall_task (system_services E) rt =
     remote (change_metadata (\<lambda>t t'. md_put_recall_task (se_env E) t t' rt))"
  "m_get_recall_task (system_services E) i = remote (ask_metadata (\<lambda>s. md_get_recall_task s i))"
  "m_update_recall_task (system_services E) rt =
     remote (change_metadata (\<lambda>t t'. md_update_recall_task (se_env E) t t' rt))"
  "m_list_pending_recall_tasks (system_services E) = remote (ask_metadata md_list_pending_recall_tasks)"
  "k_put_staging (system_services E) =
     remote_upload (\<lambda>ms. call_cache (\<lambda>t1 t2 t3. cs_put_staging (se_f64 E) (dyn_ops (se_json E)) t1 t2 t3 ms))"
  "k_get_staging (system_services E) ck =
     remote_stream (streamed (call_cache (\<lambda>_ _ _. cs_get_staging (dyn_ops (se_json E)) ck)))"
  "k_delete_staging (system_services E) ck =
     remote (call_cache (\<lambda>_ _ _. cs_delete_staging (dyn_ops (se_json E)) ck))"
  "k_list_staging_keys (system_services E) limit after =
     remote (call_cache (\<lambda>_ _ _ s. (cs_list_staging_keys limit after s, s)))"
  "k_put_restored (system_services E) =
     remote_upload (\<lambda>ms. call_cache (\<lambda>t1 t2 t3. cs_put_restored (se_f64 E) (dyn_ops (se_json E)) t1 t2 t3 ms))"
  "k_get (system_services E) ck =
     remote_stream (streamed (call_cache (\<lambda>t1 t2 _. cs_get (dyn_ops (se_json E)) t1 t2 ck)))"
  "k_delete (system_services E) ck = remote (call_cache (\<lambda>_ _ _. cs_delete (dyn_ops (se_json E)) ck))"
  "t_acquire_drive (system_services E) ar = remote (call_tape (acquire_drive simulator_backend ar))"
  "t_release_drive (system_services E) d = remote (call_tape (release_drive simulator_backend d))"
  "t_load_tape (system_services E) tape d slot = remote (call_tape (load_tape simulator_backend tape d slot))"
  "t_write_bundle (system_services E) =
     remote_upload (\<lambda>ms. call_tape (write_bundle_from_messages simulator_backend ms))"
  "t_read_bundle (system_services E) rr = remote_stream (streamed (call_tape (read_bundle simulator_backend rr)))"
  by (simp_all add: system_services_def Let_def)

lemma worker_fields:
  "cl_list_buckets (worker E c) = remote (ss_list_buckets (system_services E))"
  "cl_create_bucket (worker E c) b = remote (ss_create_bucket (system_services E) b)"
  "cl_delete_bucket (worker E c) b = remote (ss_delete_bucket (system_services E) b)"
  "cl_head_bucket (worker E c) b = remote (ss_head_bucket (system_services E) b)"
  "cl_list_objects (worker E c) lr = remote (ss_list_objects (system_services E) lr)"
  "cl_put_object (worker E c) = remote_upload (ss_put_object (se_sha E) (system_services E) c)"
  "cl_get_object (worker E c) b k = remote_stream (ss_get_object (se_http_date E) (system_services E) c b k)"
  "cl_delete_object (worker E c) b k = remote (ss_delete_object (system_services E) c b k)"
  "cl_head_object (worker E c) b k = remote (ss_head_object (se_http_date E) (system_services E) b k)"
  "cl_restore_object (worker E c) r = remote (ss_restore_object (system_services E) r)"
  by (simp_all add: worker_def network_client_def scheduler_handlers_def)

lemma gateway_fields:
  "gb_list_buckets (grpc_gateway_backend connect addrs) = with_client connect addrs cl_list_buckets"
  "gb_create_bucket (grpc_gateway_backend connect addrs) bucket =
     with_client connect addrs (\<lambda>client. cl_create_bucket client bucket)"
  "gb_delete_bucket (grpc_gateway_backend connect addrs) bucket =
     with_client connect addrs (\<lambda>client. cl_delete_bucket client bucket)"
  "gb_head_bucket (grpc_gateway_backend connect addrs) bucket =
     with_client connect addrs (\<lambda>client. cl_head_bucket client bucket)"
  "gb_list_objects (grpc_gateway_backend connect addrs) request =
     with_client connect addrs (\<lambda>client. cl_list_objects client request)"
  "gb_put_object (grpc_gateway_backend connect addrs) = grpc_put_object connect addrs"
  "gb_get_object (grpc_gateway_backend connect addrs) = grpc_get_object connect addrs"
  "gb_delete_object (grpc_gateway_backend connect addrs) bucket key =
     with_client connect addrs (\<lambda>client. cl_delete_object client bucket key)"
  "gb_head_object (grpc_gateway_backend connect addrs) bucket key =
     with_client connect addrs (\<lambda>client. cl_head_object client bucket key)"
  "gb_restore_object (grpc_gateway_backend connect addrs) = grpc_restore_object connect addrs"
  by (simp_all add: grpc_gateway_backend_def)

lemma dyn_fields:
  "cb_write (dyn_ops j) k d x = dyn_call (hdd_write j k d x) (cb_write (spdk_ops j) k d x)"
  "cb_read (dyn_ops j) i = dyn_call (hdd_read j i) (cb_read (spdk_ops j) i)"
  "cb_delete (dyn_ops j) i = dyn_call (hdd_delete j i) (cb_delete (spdk_ops j) i)"
  "cb_available_bytes (dyn_ops j) = dyn_call (hdd_available_bytes j) (cb_available_bytes (spdk_ops j))"
  "dyn_call f g (AnyHdd h) = (case f h of (r, h) \<Rightarrow> (r, AnyHdd h))"
  by (simp_all add: dyn_ops_def hdd_ops_def dyn_call_def)

lemma routed:
  "dispatch hv dp date gb \<lparr>rq_method = PUT, rq_route = Bucket_Route b, rq_query = q, rq_headers = h, rq_body = d\<rparr> w =
     gw_create_bucket gb b w"
  "dispatch hv dp date gb \<lparr>rq_method = PUT, rq_route = Object_Route b k, rq_query = q, rq_headers = h, rq_body = d\<rparr> w =
     gw_put_object hv gb b k h d w"
  "dispatch hv dp date gb \<lparr>rq_method = POST, rq_route = Object_Route b k, rq_query = q, rq_headers = h, rq_body = d\<rparr> w =
     gw_post_object gb b k q d w"
  "dispatch hv dp date gb \<lparr>rq_method = GET, rq_route = Object_Route b k, rq_query = q, rq_headers = h, rq_body = d\<rparr> w =
     gw_get_object hv dp date gb b k h w"
  by (simp_all add: dispatch_def)

text \<open>A call that the network does not disturb.\<close>

lemma undisturbed:
  assumes "wd_faults w (wd_calls w) = None"
  shows "remote call w = call (w\<lparr>wd_calls := wd_calls w + 1\<rparr>)"
    and "remote_stream stream w = stream (w\<lparr>wd_calls := wd_calls w + 1\<rparr>)"
    and "remote_upload upload ms w = upload ms (w\<lparr>wd_calls := wd_calls w + 1\<rparr>)"
    and "system_connect E c addr w = (Inr (worker E c), w\<lparr>wd_calls := wd_calls w + 1\<rparr>)"
  using assms by (simp_all add: remote_def remote_stream_def remote_upload_def system_connect_def next_call_def worker_def)

section \<open>A system to run\<close>

text \<open>
  The cache of its own theory, with 1 GiB of capacity, an empty metadata service in memory, the
  default scheduler with a tape in its drive, any clock, and a network that is only cut after
  more calls than the cache has storage ids.
\<close>

definition run_env :: "(bytes \<Rightarrow> bytes) \<Rightarrow> (unit, unit, nat) system_env" where
  "run_env sha =
     \<lparr>se_env = undefined, se_f64 = percent_ops, se_json = demo_json,
      se_plus_days = (\<lambda>days t. \<lparr>ts_seconds = ts_seconds t + 86400 * uint days, ts_nanos = ts_nanos t\<rparr>),
      se_sha = sha, se_http_date = (\<lambda>_ _. None), se_header_value = (\<lambda>_. True),
      se_dates = \<lparr>parse_from_str = (\<lambda>_ _. None), parse_from_rfc2822 = (\<lambda>_. None)\<rparr>\<rparr>"

definition run_faults :: "nat \<Rightarrow> network_fault option" where
  "run_faults n = (if n < 2 ^ 64 - 2 then None else Some (Request_Lost (Status Unavailable [])))"

definition run_tape :: simulator_tape_backend where
  "run_tape =
     \<lparr>sb_state = \<lparr>ss_library =
        \<lparr>vtl_slots = [\<lparr>el_address = slot_address 1, el_tape = None\<rparr>],
         vtl_drives = [\<lparr>el_address = drive_address 0, el_tape = Some (virtual_tape_new (TapeBarcode ''TAPE0001''))\<rparr>]\<rparr>,
        ss_acquired = [False], ss_next_filemark = [0]\<rparr>, sb_poisoned = False\<rparr>"

definition run_world :: "(nat \<Rightarrow> timestamp) \<Rightarrow> (unit, unit, nat) world" where
  "run_world clock =
     \<lparr>wd_clock = clock, wd_reads = 0, wd_faults = run_faults, wd_calls = 0,
      wd_metadata = service_new metadata_config_default (), wd_cache = Cache_Properties.demo_service, wd_tape = run_tape\<rparr>"

definition run_start :: "(nat \<Rightarrow> timestamp) \<Rightarrow> (unit, unit, nat) system" where
  "run_start clock =
     \<lparr>sy_next_addr = 0,
      sy_scheduler = \<lparr>sst_cache = True, sst_tape = True, sst_config = scheduler_config_default,
        sst_active_archive_keys = {}, sst_active_recall_tasks = {}, sst_tape_locks = []\<rparr>,
      sy_world = run_world clock\<rparr>"

definition request_for :: "http_method \<Rightarrow> route \<Rightarrow> (string, string) hashmap \<Rightarrow> bytes \<Rightarrow> http_request" where
  "request_for m r query body = \<lparr>rq_method = m, rq_route = r, rq_query = query, rq_headers = [], rq_body = body\<rparr>"

text \<open>The life of an object up to the point where it can be downloaded.\<close>

definition life_of :: "string \<Rightarrow> string \<Rightarrow> bytes \<Rightarrow> system_event list" where
  "life_of b k body =
     [Http (request_for PUT (Bucket_Route b) [] []), Http (request_for PUT (Object_Route b k) [] body), Archive_Tick,
      Http (request_for POST (Object_Route b k) [(''restore'', [])] []), Recall_Tick]"

section \<open>What the run evaluates\<close>

lemma run_env_fields:
  "se_f64 (run_env sha) = percent_ops" "se_json (run_env sha) = demo_json" "se_sha (run_env sha) = sha"
  "se_plus_days (run_env sha) days t = \<lparr>ts_seconds = ts_seconds t + 86400 * uint days, ts_nanos = ts_nanos t\<rparr>"
  "se_http_date (run_env sha) x y = None" "se_header_value (run_env sha) h"
  "se_dates (run_env sha) = \<lparr>parse_from_str = (\<lambda>_ _. None), parse_from_rfc2822 = (\<lambda>_. None)\<rparr>"
  by (simp_all add: run_env_def)

lemma run_faults_early: "n < 1000 \<Longrightarrow> run_faults n = None"
  by (simp add: run_faults_def)

lemma percent_fields:
  "f_lit percent_ops l = (if l = ''1.0'' then 100 else if l = ''0.8'' then 80 else 0)"
  "f_of_u64 percent_ops = unat" "f_le percent_ops = (\<le>)" "f_mul percent_ops x y = x * y div 100"
  "f_div percent_ops x y = x * 100 div y" "f_floor percent_ops x = x" "f_eq percent_ops = (=)"
  "f_to_u64 percent_ops = of_nat" "f_add percent_ops = (+)" "f_is_nan percent_ops x = False"
  "f_is_finite percent_ops x" "f_clamp percent_ops x lo hi = min (max x lo) hi"
  by (simp_all add: percent_ops_def)

definition json_bytes :: "xattrs_json \<Rightarrow> bytes" where
  "json_bytes x = replicate (to_nat x) 0"

lemma json_round_trip: "to_vec demo_json x = Inr (json_bytes x)" "from_slice demo_json (json_bytes x) = Inr x"
  by (simp_all add: demo_json_def json_bytes_def)

lemmas evict_numeral = evict_loop.simps(2) [of _ _ "pred_numeral n" for n, folded numeral_eq_Suc]

lemma printed: "nat_to_string 0 = ''0''" "nat_to_string (Suc 0) = ''1''" "nat_to_string 2 = ''2''"
  by code_simp+

lemma restore_query:
  "parse_restore_request [(''restore'', [])] [] = Inr \<lparr>rr_days = 1, rr_tier = Standard\<rparr>"
  "is_restore_request (raw_query [(''restore'', [])])"
  by code_simp+

lemma config_fields:
  "asc_batch_size (sc_archive scheduler_config_default) = 1000"
  "asc_drive_id (sc_archive scheduler_config_default) = default_scheduler_drive_id"
  "asc_tape_id (sc_archive scheduler_config_default) = default_scheduler_tape_id"
  "asc_tape_set (sc_archive scheduler_config_default) = default_scheduler_tape_set"
  "asc_block_size (sc_archive scheduler_config_default) = 262144"
  "rsc_max_concurrent_restores (sc_recall scheduler_config_default) = 10"
  "rsc_drive_id (sc_recall scheduler_config_default) = default_scheduler_drive_id"
  by (simp_all add: scheduler_config_default_def)

text \<open>Bytes that fit the cache of the system, and how they pass its streams.\<close>

lemma small_unat: "length (d :: bytes) \<le> 268435456 \<Longrightarrow> unat (len_u64 d) = length d"
  by (simp add: len_u64_def unat_of_nat take_bit_nat_eq_self)

lemma small_size:
  assumes "length (d :: bytes) \<le> 268435456"
  shows "268435456 \<le> (numeral c :: u64) \<Longrightarrow> \<not> numeral c < len_u64 d" "268435456 \<le> (numeral c :: u64) \<Longrightarrow> len_u64 d \<le> numeral c"
    "(len_u64 d = 0) = (d = [])" "(0 < len_u64 d) = (d \<noteq> [])"
  using assms small_unat [OF assms] by (auto simp: word_less_nat_alt word_le_nat_alt unat_eq_0 [symmetric])

lemma small_length:
  assumes "length (d :: bytes) \<le> 268435456"
  shows "268435456 < (numeral c :: nat) \<Longrightarrow> length d < numeral c" "268435456 \<le> (numeral c :: nat) \<Longrightarrow> length d \<le> numeral c"
  using le_less_trans [OF assms, of "numeral c"] order.trans [OF assms, of "numeral c"] by blast+

lemma collect_chunks:
  assumes "\<And>c. view (f c) = Inr c"
  shows "collect_messages dup none view meta data (map ((\<lambda>m. Inr (Some m)) \<circ> f) chunks) = Inr (meta, data @ concat chunks)"
  using assms by (induction chunks arbitrary: data) simp_all

lemma collect_stream:
  "collect_messages dup none staging_view meta data (map ((\<lambda>m. Inr (Some m)) \<circ> StagingData) (slice_chunks 65536 d)) = Inr (meta, data @ d)"
  "collect_messages dup none cached_view meta' data (map ((\<lambda>m. Inr (Some m)) \<circ> GetData) (slice_chunks 65536 d)) = Inr (meta', data @ d)"
  using concat_slice_chunks [of 65536 d] by (simp_all add: collect_chunks)

lemma read_one_record:
  "d \<noteq> [] \<Longrightarrow> length d \<le> 268435456 \<Longrightarrow>
     read_loop [Data d, Filemark] (length d) \<lparr>record_index = 0, byte_offset = 0\<rparr> [] =
       Some (d, \<lparr>record_index = 1, byte_offset = 0\<rparr>)"
  by (subst read_loop.simps, simp add: usize_MAX_def Let_def, subst read_loop.simps, simp)

lemma read_empty_record:
  "read_loop [Data [], Filemark] 18446744073709551615 \<lparr>record_index = 0, byte_offset = 0\<rparr> [] =
     Some ([], \<lparr>record_index = 2, byte_offset = 0\<rparr>)"
  by (subst read_loop.simps, simp add: usize_MAX_def Let_def, subst read_loop.simps, simp)

text \<open>The digest is printed without blanks and without a prefix.\<close>

lemma hex_chars: "c \<in> set (sha256_hex sha d) \<Longrightarrow> c \<in> set ''0123456789abcdef''"
proof -
  assume "c \<in> set (sha256_hex sha d)"
  then obtain b :: u8 where "c = hex_digit (unat b div 16) \<or> c = hex_digit (unat b mod 16)"
    by (auto simp: sha256_hex_def hex_byte_def)
  moreover have "unat b div 16 < 16" using unsigned_less [of b, where ?'a = nat] by auto
  ultimately obtain n where n: "c = hex_digit n" "n < 16" by fastforce
  show ?thesis unfolding n(1) hex_digit_def by (rule nth_mem) (use n(2) in simp)
qed

lemma cursor_after_start: "([] :: string) < b @ c # cs"
  by (cases b) simp_all

lemma trim_plain:
  assumes "\<And>c. c \<in> set s \<Longrightarrow> \<not> is_space c"
  shows "trim s = s"
proof -
  have d: "dropWhile is_space s' = s'" if "\<And>c. c \<in> set s' \<Longrightarrow> \<not> is_space c" for s'
    using that by (cases s') auto
  show ?thesis using d [of s] d [of "rev s"] assms by (simp add: trim_def)
qed

lemma digest_accepted: "trim (sha256_hex sha d) = sha256_hex sha d" "checksum_matches (sha256_hex sha d) (sha256_hex sha d)"
proof -
  show t: "trim (sha256_hex sha d) = sha256_hex sha d"
    by (rule trim_plain) (auto simp: is_space_def dest!: hex_chars)
  have "hd (sha256_hex sha d) \<in> set ''0123456789abcdef''" if "sha256_hex sha d \<noteq> []"
    using that hex_chars hd_in_set by blast
  then have "\<not> starts_with ''sha256:'' (sha256_hex sha d)" "\<not> starts_with ''SHA256:'' (sha256_hex sha d)"
    by (cases "sha256_hex sha d"; auto simp: starts_with_def)+
  then show "checksum_matches (sha256_hex sha d) (sha256_hex sha d)"
    by (simp add: checksum_matches_def t strip_prefix_def eq_ignore_ascii_case_def)
qed

lemma try_st_weak: "r = r' \<Longrightarrow> try_st r f = try_st r' f"
  by simp

lemma try_then_weak: "r = r' \<Longrightarrow> try_then r f = try_then r' f"
  by simp

lemmas run_tools =
  hm_modify_def map_error_def max_by_last_def sat_add_def sat_mul_def sat_sub_def usize_MAX_def digit_val_def
  digits_val_def is_ascii_digit_def parse_u32_def parse_unsigned_def path_join_def starts_with_def
  strip_prefix_def archive_bundle_status_i32_def archive_task_status_i32_def archive_task_status_try_from_def
  restore_status_i32_def restore_status_try_from_def restore_tier_i32_def restore_tier_try_from_def
  storage_class_i32_def default_recall_scan_interval_secs_def default_scheduler_drive_id_def
  default_scheduler_tape_id_def default_scheduler_tape_set_def

lemmas run_tapes =
  append_data_def append_filemark_def cursor_default_def drive_address_def slot_address_def tape_read_def
  tape_rewind_def truncate_at_cursor_def virtual_tape_new_def element_barcode_def ensure_drive_def
  find_element_def loaded_tape_def set_loaded_tape_def vtl_drive_def vtl_read_def vtl_rewind_def vtl_write_def
  vtl_write_filemark_def acquire_drive_def acquire_locked_def check_required_tape_def choose_drive_def
  drive_id_string_def drive_index_def element_tape_id_def on_library_def parse_drive_id_def read_bundle_def
  read_bundle_locked_def read_max_len_def release_drive_def seek_locked_def sim_acquire_drive_def
  sim_inventory_def sim_list_drives_def sim_read_bundle_def sim_release_drive_def sim_write_bundle_def
  simulator_backend_def vtl_map_err_def with_lock_def write_bundle_from_messages_def write_bundle_locked_def

lemmas run_metadata =
  apply_complete_archive_object_def apply_create_bucket_def apply_put_archive_task_def apply_put_object_def
  apply_put_recall_task_def apply_update_archive_task_def apply_update_recall_task_def
  apply_update_restore_status_def bucket_objects_def find_object_def find_object_mut_def
  is_pending_restore_status_def is_same_recall_task_def key_of_object_def metadata_state_default_def
  modify_object_def refresh_bucket_stats_def stamp_object_def timestamp_sort_key_def
  validate_archive_task_transition_def validate_complete_archive_preconditions_def
  validate_restore_transition_def u64_to_le_bytes_def LOG_KEY_PREFIX_def append_log_entry_def
  apply_and_persist_def ascii_def backend_memory_def log_entry_count_def log_key_def persist_if_needed_def
  persist_locked_def propose_def propose_local_apply_def service_new_def u64_to_be_bytes_def
  md_complete_archive_object_def md_create_bucket_def md_get_archive_task_def md_get_object_def
  md_get_recall_task_def md_head_object_def md_list_pending_recall_tasks_def md_put_archive_task_def
  md_put_object_def md_put_recall_task_def md_update_archive_task_def md_update_recall_task_def
  md_update_restore_status_def

lemmas run_cache =
  data_path_def dir_names_def file_read_def file_write_def from_json_def hdd_available_bytes_def hdd_delete_def
  hdd_list_all_def hdd_read_def hdd_read_xattrs_def hdd_write_def meta_path_def next_fault_def read_dir_def
  remove_file_def to_json_def with_fs_def STREAM_CHUNK_SIZE_def build_get_stream_def build_staging_stream_def
  cache_index_default_def cs_delete_staging_def cs_get_def cs_get_staging_def cs_list_staging_keys_def
  cs_put_restored_def cs_put_staging_def delete_entry_def effective_low_watermark_used_def
  effective_total_capacity_def ensure_object_size_within_total_capacity_def evict_if_needed_def find_entry_def
  insert_entry_def is_expired_at_def map_table_def over_watermark_def pressure_of_def put_bytes_def
  read_restored_def reclaim_expired_restored_except_def recompute_used_capacity_def restored_used_def
  should_evict_def sizes_def split_capacity_by_static_ratio_def staging_used_def table_def
  timestamp_from_unix_def touch_entry_def update_hit_state_def Cache_Properties.demo_service_def

lemmas run_scheduler =
  acquire_and_load_tape_def archive_delete_staging_def archive_get_staging_def archive_list_staging_keys_def
  cache_archive_client_def cache_restore_client_def collect_tape_read_def release_drive_best_effort_def
  tape_read_bundle_def tape_write_bundle_def acquire_archive_item_def acquire_recall_task_def
  acquire_tape_lease_def archive_staging_batch_def archived_bundle_def cache_client_def claim_archive_task_def
  claim_recall_task_def claim_stored_archive_task_def claim_stored_recall_task_def collect_restored_def
  completion_request_def finalize_archive_task_success_def get_archive_task_def get_recall_task_def
  is_pending_recall_task_def phase1_archive_item_key_def phase1_archive_task_def phase1_bundle_id_def
  phase1_recall_task_id_def phase1_recall_task_key_def process_archive_entry_def process_recall_task_def
  put_staging_object_def read_restored_object_def recall_one_def recall_pending_batch_def
  release_archive_item_def release_recall_task_def start_archive_task_def start_recall_task_def tolerate_def
  update_archive_task_def update_object_restore_status_def update_recall_task_def
  validate_staged_object_matches_metadata_def with_version_def write_staged_object_def archive_agent_tick_def
  archive_staging_once_def archive_tape_set_def build_get_object_meta_def build_restore_info_def new_object_def
  open_restore_def pending_recall_task_def recall_agent_tick_def recall_pending_once_def
  restore_expiry_http_date_def sb_create_bucket_def sb_get_object_def sb_head_object_def sb_put_object_def
  sb_restore_object_def show_int_def ss_create_bucket_def ss_get_object_def ss_put_object_def
  ss_restore_object_def unwrap_or_default_def

lemmas run_gateway =
  grpc_connect_def grpc_get_object_def grpc_put_object_def grpc_restore_object_def head_of_meta_def
  normalize_scheduler_addr_def read_download_def with_client_def apply_object_headers_def
  check_read_preconditions_def date_header_def download_response_def empty_response_def gw_create_bucket_def
  gw_get_object_def gw_post_object_def gw_put_object_def header_str_def insert_header_def
  normalize_restore_info_def object_resource_def put_object_success_response_def respond_def ask_metadata_def
  call_cache_def call_tape_def change_metadata_def http_step_def read_clock_def streamed_def tick_def

lemmas run_facts =
  undisturbed service_fields worker_fields gateway_fields dyn_fields routed run_env_fields percent_fields config_fields
  run_faults_early json_round_trip evict_numeral printed restore_query digest_accepted cursor_after_start upt_rec

text \<open>The run, for bytes of which there are some and for none.\<close>

lemma life_cycle_bytes:
  assumes "body \<noteq> []" and "length body \<le> 268435456" and day: "\<And>m n. ts_seconds (clock m) < ts_seconds (clock n) + 86400"
  shows "\<exists>response s. http_step (run_env sha) [''worker''] (request_for GET (Object_Route b k) [] [])
      (fold (system_step (run_env sha) [''worker'']) (life_of b k body) (run_start clock)) = (Some response, s) \<and>
    rs_status response = 200 \<and> rs_body response = body \<and>
    hm_get (rs_headers response) ''etag'' = Some (sha256_hex sha body)"
proof -
  have d: "\<not> ts_seconds (clock m) + 86400 \<le> ts_seconds (clock n)" for m n using day [of n m] by simp
  show ?thesis
    by (simp add: d life_of_def request_for_def run_start_def run_world_def run_tape_def Let_def run_facts run_tools
      run_tapes run_metadata run_cache run_scheduler run_gateway assms(1,2) small_unat [OF assms(2)] small_size [OF assms(2)]
      small_length [OF assms(2)] collect_stream read_one_record [OF assms(1,2)] cong: try_st_weak try_then_weak)
qed

lemma life_cycle_empty:
  assumes day: "\<And>m n. ts_seconds (clock m) < ts_seconds (clock n) + 86400"
  shows "\<exists>response s. http_step (run_env sha) [''worker''] (request_for GET (Object_Route b k) [] [])
      (fold (system_step (run_env sha) [''worker'']) (life_of b k []) (run_start clock)) = (Some response, s) \<and>
    rs_status response = 200 \<and> rs_body response = [] \<and>
    hm_get (rs_headers response) ''etag'' = Some (sha256_hex sha [])"
proof -
  have d: "\<not> ts_seconds (clock m) + 86400 \<le> ts_seconds (clock n)" for m n using day [of n m] by simp
  show ?thesis
    by (simp add: d life_of_def request_for_def run_start_def run_world_def run_tape_def Let_def run_facts run_tools
      run_tapes run_metadata run_cache run_scheduler run_gateway read_empty_record slice_chunks.simps [of _ "[]"] cong: try_st_weak try_then_weak)
qed

lemma life_cycle:
  assumes "length body \<le> 268435456" and "\<And>m n. ts_seconds (clock m) < ts_seconds (clock n) + 86400"
  shows "\<exists>response s. http_step (run_env sha) [''worker''] (request_for GET (Object_Route b k) [] [])
      (fold (system_step (run_env sha) [''worker'']) (life_of b k body) (run_start clock)) = (Some response, s) \<and>
    rs_status response = 200 \<and> rs_body response = body \<and>
    hm_get (rs_headers response) ''etag'' = Some (sha256_hex sha body)"
  using life_cycle_bytes [OF _ assms] life_cycle_empty [OF assms(2)] by (cases "body = []") auto

end
