(* ===== verification/System_Properties.thy ===== *)
theory System_Properties
  imports System_Run
begin

text \<open>
  What a client of the whole system observes. Every step of the system keeps the invariant of
  the scheduler's theory: requests through the gateway, passes of the two loops, and every
  fault of the network in between. From the empty system on, a complete download therefore
  has the digest that its \<open>etag\<close> names.
\<close>

section \<open>Steps keep the invariant\<close>

definition system_safe :: "('d, 'f, 'x) system_env \<Rightarrow> nat \<Rightarrow> ('d, 'f, 'x) world \<Rightarrow> bool" where
  "system_safe E N w \<longleftrightarrow> system_good (se_json E) N w \<and> cold_inv (se_sha E) (system_view (se_json E) w)"

lemma cold_safe: "cold.safe E N (se_sha E) w = system_safe E N w"
  by (simp add: cold.safe_def system_safe_def)

lemma next_call_safe: "system_safe E N w \<Longrightarrow> next_call w = (f, w') \<Longrightarrow> system_safe E N w'"
  using next_call_good [of "se_json E" N w f w'] by (simp add: system_safe_def)

text \<open>An operation that keeps the invariant, whatever it answers.\<close>

definition keeps_safe :: "('d, 'f, 'x) system_env \<Rightarrow> nat \<Rightarrow> (('d, 'f, 'x) world, 'a) rpc \<Rightarrow> bool" where
  "keeps_safe E N op \<longleftrightarrow> (\<forall>w. system_safe E N w \<longrightarrow> system_safe E N (snd (op w)))"

lemma keeps_safeI:
  assumes "\<And>w. system_safe E N w \<Longrightarrow> post (op w) (\<lambda>r w'. system_safe E N w')"
  shows "keeps_safe E N op"
  using assms post_snd unfolding keeps_safe_def by blast

lemma keeps_safeD: "keeps_safe E N op \<Longrightarrow> system_safe E N w \<Longrightarrow> system_safe E N (snd (op w))"
  by (simp add: keeps_safe_def)

lemma remote_keeps_safe: "keeps_safe E N op \<Longrightarrow> keeps_safe E N (remote op)"
  by (auto simp: keeps_safe_def remote_def split: prod.split option.split network_fault.split dest: next_call_safe)

lemma snd_try_st [simp]: "snd (try_st r (\<lambda>x s. (g x, s))) = snd r"
  by (auto simp: try_st_def split: prod.split sum.split)

lemma remote_stream_keeps_safe: "keeps_safe E N op \<Longrightarrow> keeps_safe E N (remote_stream op)"
  by (auto simp: keeps_safe_def remote_stream_def split: prod.split option.split network_fault.split dest: next_call_safe)

lemma remote_upload_keeps_safe: "(\<And>ms. keeps_safe E N (op ms)) \<Longrightarrow> keeps_safe E N (remote_upload op ms)"
  by (auto simp: keeps_safe_def remote_upload_def split: prod.split option.split network_fault.split dest: next_call_safe)

subsection \<open>The worker over the network\<close>

lemma quiet_keeps_safe:
  "quiet (system_good (se_json E) N) (system_view (se_json E)) op \<Longrightarrow> keeps_safe E N op"
  using cold.quiet_safe_snd [of E N op "se_sha E"] by (simp add: keeps_safe_def cold_safe)

lemma worker_keeps_safe:
  "keeps_safe E N (cl_list_buckets (worker E c))" "keeps_safe E N (cl_create_bucket (worker E c) b)"
  "keeps_safe E N (cl_delete_bucket (worker E c) b)" "keeps_safe E N (cl_head_bucket (worker E c) b)"
  "keeps_safe E N (cl_list_objects (worker E c) r)" "keeps_safe E N (cl_put_object (worker E c) ms)"
  "keeps_safe E N (cl_get_object (worker E c) b k)" "keeps_safe E N (cl_delete_object (worker E c) b k)"
  "keeps_safe E N (cl_head_object (worker E c) b k)" "keeps_safe E N (cl_restore_object (worker E c) q)"
proof -
  note q = cold.quiet_handlers [of E N, THEN quiet_keeps_safe]
  note r = remote_keeps_safe remote_upload_keeps_safe remote_stream_keeps_safe
  have g: "keeps_safe E N (ss_get_object (se_http_date E) (system_services E) c b k)"
    by (rule keeps_safeI, rule post_mono [OF cold.ss_get_object_safe [of E N "se_sha E"]]) (simp_all add: cold_safe)
  have "keeps_safe E N (ss_put_object (se_sha E) (system_services E) c ms)" for ms
    by (rule keeps_safeI) (use cold.ss_put_object_safe [of E N "se_sha E"] in \<open>simp add: cold_safe\<close>)
  moreover have "keeps_safe E N (ss_delete_object (system_services E) c b k)"
    by (rule keeps_safeI) (use cold.ss_delete_object_safe [of E N "se_sha E"] in \<open>simp add: cold_safe\<close>)
  moreover have "keeps_safe E N (ss_restore_object (system_services E) q)"
    by (rule keeps_safeI) (use cold.ss_restore_object_safe [of E N "se_sha E"] in \<open>simp add: cold_safe\<close>)
  ultimately show
    "keeps_safe E N (cl_list_buckets (worker E c))" "keeps_safe E N (cl_create_bucket (worker E c) b)"
    "keeps_safe E N (cl_delete_bucket (worker E c) b)" "keeps_safe E N (cl_head_bucket (worker E c) b)"
    "keeps_safe E N (cl_list_objects (worker E c) r)" "keeps_safe E N (cl_put_object (worker E c) ms)"
    "keeps_safe E N (cl_get_object (worker E c) b k)" "keeps_safe E N (cl_delete_object (worker E c) b k)"
    "keeps_safe E N (cl_head_object (worker E c) b k)" "keeps_safe E N (cl_restore_object (worker E c) q)"
    by (simp_all add: worker_def network_client_def scheduler_handlers_def q r g)
qed

text \<open>A download over the network breaks off, or it has the digest its metadata names.\<close>

definition verified :: "(bytes \<Rightarrow> bytes) \<Rightarrow> downloaded_object result \<Rightarrow> bool" where
  "verified sha r \<longleftrightarrow> (\<forall>ob. r = Inr ob \<longrightarrow> ho_etag (do_head ob) = sha256_hex sha (do_body ob))"

lemma cut_download_refused: "\<exists>e. read_body body (ms @ [Inl err]) = Inl e"
  by (induction body ms rule: read_body.induct) auto

lemma cut_refused: "\<exists>e. read_download (ms' @ [Inl err]) = Inl e"
proof (cases ms')
  case (Cons m ms)
  show ?thesis
    unfolding Cons using cut_download_refused [of "[]" ms err]
    by (auto simp: read_download_def try_then_def split: sum.split option.split get_object_payload.split)
qed (simp add: read_download_def)

lemma checked_download_verified: "checked_download sha messages \<Longrightarrow> verified sha (read_download messages)"
  by (auto simp: checked_download_def verified_def read_download_def head_of_meta_def)

lemma worker_download:
  assumes "system_safe E N w" and "cl_get_object (worker E c) b k w = (Inr messages, w')"
  shows "verified (se_sha E) (read_download messages)"
proof -
  let ?get = "ss_get_object (se_http_date E) (system_services E) c b k"
  obtain f w1 where n: "next_call w = (f, w1)" by fastforce
  have checked: "checked_download (se_sha E) ms" if "?get w1 = (Inr ms, w2)" for ms w2
    using postD [OF cold.ss_get_object_safe [of E N "se_sha E"] that] next_call_safe [OF assms(1) n] by (simp add: cold_safe)
  consider "?get w1 = (Inr messages, w')" | i ms err where "messages = take i ms @ [Inl err]"
    using assms(2) n by (auto simp: worker_def network_client_def scheduler_handlers_def remote_stream_def try_st_Inr
      split: option.splits network_fault.splits)
  then show ?thesis
  proof cases
    case 1
    then show ?thesis by (intro checked_download_verified checked)
  next
    case (2 i ms err)
    then show ?thesis using cut_refused [of "take i ms" err] by (auto simp: verified_def)
  qed
qed

subsection \<open>The gateway\<close>

text \<open>A connection of the gateway leads to the worker.\<close>

lemma connect_safe:
  assumes "system_safe E N w"
  shows "post (connect_from (system_connect E c) addrs base last_error offsets w)
    (\<lambda>r w'. system_safe E N w' \<and> (\<forall>client. r = Inr client \<longrightarrow> client = worker E c))"
  using assms
proof (induction offsets arbitrary: last_error w)
  case (Cons i offsets)
  obtain f w1 where n: "next_call w = (f, w1)" by fastforce
  then show ?case
    using Cons.IH [OF next_call_safe [OF Cons.prems n]] next_call_safe [OF Cons.prems n]
    by (cases f) (auto simp: system_connect_def worker_def Let_def)
qed simp

lemma with_client_safe:
  assumes "system_safe E N (snd s)" and "\<And>w. system_safe E N w \<Longrightarrow> post (call (worker E c) w) (\<lambda>r w'. system_safe E N w' \<and> Q r)"
    and "\<And>e. Q (Inl e)"
  shows "post (with_client (system_connect E c) addrs call s) (\<lambda>r s'. system_safe E N (snd s') \<and> Q r)"
proof -
  have "post (grpc_connect (system_connect E c) addrs s)
      (\<lambda>r s'. system_safe E N (snd s') \<and> (\<forall>client. r = Inr client \<longrightarrow> client = worker E c))"
    using assms(1) connect_safe [of E N "snd s" c addrs "fst s" None "[0..<length addrs]"]
    by (auto simp: grpc_connect_def split: prod.split intro!: postI dest: postD)
  then show ?thesis
    unfolding with_client_def
  proof (rule post_try)
    fix client s' assume "system_safe E N (snd s') \<and> (\<forall>cl. Inr client = Inr cl \<longrightarrow> cl = worker E c)"
    then show "post (case s' of (n, w) \<Rightarrow> case call client w of (r, w) \<Rightarrow> (r, n, w)) (\<lambda>r s'. system_safe E N (snd s') \<and> Q r)"
      using assms(2) [of "snd s'"] by (auto split: prod.split intro!: postI dest: postD)
  qed (use assms(3) in auto)
qed

lemma gateway_download_safe:
  assumes "system_safe E N (snd s)"
  shows "post (gb_get_object (grpc_gateway_backend (system_connect E c) addrs) b k s)
    (\<lambda>r s'. system_safe E N (snd s') \<and> verified (se_sha E) r)"
  unfolding grpc_gateway_backend_def gateway_backend.simps grpc_get_object_def
proof (rule with_client_safe [OF assms])
  fix w assume w: "system_safe E N w"
  show "post (try_st (cl_get_object (worker E c) b k w) (\<lambda>messages w. (read_download messages, w)))
      (\<lambda>r w'. system_safe E N w' \<and> verified (se_sha E) r)"
    using keeps_safeD [OF worker_keeps_safe(7) w, of c b k] worker_download [OF w, of c b k]
    by (cases "cl_get_object (worker E c) b k w"; cases "fst (cl_get_object (worker E c) b k w)") (auto simp: verified_def)
qed (simp add: verified_def)

lemma with_client_keeps:
  assumes "system_safe E N (snd s)" and "keeps_safe E N (call (worker E c))"
  shows "system_safe E N (snd (snd (with_client (system_connect E c) addrs call s)))"
proof -
  have "post (call (worker E c) w) (\<lambda>r w'. system_safe E N w' \<and> True)" if "system_safe E N w" for w
    using keeps_safeD [OF assms(2) that] by (auto intro: postI)
  then show ?thesis using post_snd [OF with_client_safe [OF assms(1), of call c "\<lambda>_. True" addrs]] by simp
qed

lemma gateway_keeps_safe:
  fixes s :: "usize \<times> ('d, 'f, 'x) world"
  defines "gb c addrs E \<equiv> grpc_gateway_backend (system_connect E c) addrs"
  assumes "system_safe E N (snd s)"
  shows "system_safe E N (snd (snd (gb_list_buckets (gb c addrs E) s)))"
    "system_safe E N (snd (snd (gb_create_bucket (gb c addrs E) b s)))"
    "system_safe E N (snd (snd (gb_delete_bucket (gb c addrs E) b s)))"
    "system_safe E N (snd (snd (gb_head_bucket (gb c addrs E) b s)))"
    "system_safe E N (snd (snd (gb_list_objects (gb c addrs E) r s)))"
    "system_safe E N (snd (snd (gb_put_object (gb c addrs E) b k body ct s)))"
    "system_safe E N (snd (snd (gb_get_object (gb c addrs E) b k s)))"
    "system_safe E N (snd (snd (gb_delete_object (gb c addrs E) b k s)))"
    "system_safe E N (snd (snd (gb_head_object (gb c addrs E) b k s)))"
    "system_safe E N (snd (snd (gb_restore_object (gb c addrs E) b k days tier s)))"
  using post_snd [OF gateway_download_safe [OF assms(2)]]
  by (simp_all add: gb_def grpc_gateway_backend_def grpc_put_object_def grpc_restore_object_def
      with_client_keeps [OF assms(2)] worker_keeps_safe)

lemma snd_respond [simp]: "snd (respond resource ok r) = snd r"
  by (auto simp: respond_def split: prod.split sum.split)

lemma preconditions_keep_safe:
  "system_safe E N (snd s) \<Longrightarrow> system_safe E N (snd (snd
     (check_read_preconditions hv dp (grpc_gateway_backend (system_connect E c) addrs) b k headers resource s)))"
  by (auto simp: check_read_preconditions_def Let_def gateway_keeps_safe split: sum.split)

lemma read_handlers_keep_safe:
  assumes "system_safe E N (snd s)"
  shows "system_safe E N (snd (snd (gw_get_object hv dp http_date (grpc_gateway_backend (system_connect E c) addrs) b k headers s)))"
    "system_safe E N (snd (snd (gw_head_object hv dp http_date (grpc_gateway_backend (system_connect E c) addrs) b k headers s)))"
  using preconditions_keep_safe [OF assms, of hv dp c addrs b k headers "object_resource b k"]
  by (auto simp: gw_get_object_def gw_head_object_def Let_def gateway_keeps_safe split: prod.split sum.split option.split)

lemma dispatch_keeps_safe:
  assumes "system_safe E N (snd s)"
  shows "system_safe E N (snd (snd (dispatch hv dp http_date (grpc_gateway_backend (system_connect E c) addrs) r s)))"
  using gateway_keeps_safe [OF assms] read_handlers_keep_safe [OF assms] assms
  by (auto simp: dispatch_def gw_list_buckets_def gw_list_objects_def gw_create_bucket_def gw_delete_bucket_def
      gw_head_bucket_def gw_put_object_def gw_delete_object_def gw_post_object_def Let_def
      split: route.split http_method.split sum.split)

lemma system_step_keeps_safe:
  assumes "system_safe E N (sy_world s)"
  shows "system_safe E N (sy_world (system_step E addrs ev s))"
proof (cases ev)
  case (Http r)
  then show ?thesis
    using dispatch_keeps_safe [of E N "(sy_next_addr s, sy_world s)" "se_header_value E" "se_dates E" "se_http_date E"
      "sst_cache (sy_scheduler s)" addrs r] assms
    by (auto simp: http_step_def split: prod.split)
next
  case Archive_Tick
  then show ?thesis
    using cold.archive_agent_tick_safe [of E N "se_sha E" "(sy_scheduler s, sy_world s)"] assms
    by (auto simp: tick_def cold_safe split: prod.split)
next
  case Recall_Tick
  then show ?thesis
    using cold.recall_agent_tick_safe [of E N "se_sha E" "(sy_scheduler s, sy_world s)"] assms
    by (auto simp: tick_def cold_safe split: prod.split)
qed

lemma history_keeps_safe:
  "system_safe E N (sy_world s) \<Longrightarrow> system_safe E N (sy_world (fold (system_step E addrs) evs s))"
  by (induction evs arbitrary: s) (simp_all add: system_step_keeps_safe)

section \<open>Downloads\<close>

lemma error_status: "rs_status (grpc_status_to_s3_response status resource) \<noteq> 200"
  by (auto simp: grpc_status_to_s3_response_def error_mapping_def s3_xml_response_def xml_response_def insert_header_def Let_def
      split: code.split option.split cache_reject_status.split)

lemma precondition_status:
  "fst (check_read_preconditions hv dp gb b k headers resource s) = Inr (Some response) \<Longrightarrow> rs_status response \<noteq> 200"
  by (auto simp: check_read_preconditions_def evaluate_preconditions_def precondition_failed_response_def
      not_modified_response_def s3_xml_response_def xml_response_def empty_response_def insert_header_def Let_def
      try_st_def split: sum.splits if_splits prod.splits option.splits)

lemma object_headers:
  assumes "apply_object_headers hv http_date head r = Some response"
  shows "rs_status response = rs_status r \<and> rs_body response = rs_body r \<and> hm_get (rs_headers response) ''etag'' = Some (ho_etag head)"
  using assms by (auto simp: apply_object_headers_def insert_header_def Let_def split: option.splits if_splits)

lemma download_status:
  assumes "download_response hv http_date headers resource ob = Some response" and "rs_status response = 200"
  shows "rs_body response = do_body ob \<and> hm_get (rs_headers response) ''etag'' = Some (ho_etag (do_head ob))"
  using assms
  by (auto simp: download_response_def partial_content_response_def parse_range_header_def bad_request_response_with_code_def
      range_not_satisfiable_response_def s3_xml_response_def xml_response_def empty_response_def insert_header_def Let_def
      dest!: object_headers split: option.splits sum.splits if_splits byte_range_parse_error.splits)

lemma get_response:
  assumes "system_safe E N (snd s)" and "rs_status response = 200"
    and "fst (gw_get_object hv dp http_date (grpc_gateway_backend (system_connect E c) addrs) b k headers s) = Some response"
  shows "hm_get (rs_headers response) ''etag'' = Some (sha256_hex (se_sha E) (rs_body response))"
proof -
  let ?gb = "grpc_gateway_backend (system_connect E c) addrs" and ?r = "object_resource b k"
  obtain q s1 where q: "check_read_preconditions hv dp ?gb b k headers ?r s = (q, s1)" by (rule prod.exhaust)
  have s1: "system_safe E N (snd s1)" using preconditions_keep_safe [OF assms(1), of hv dp c addrs b k headers ?r] q by simp
  have n: "q = Inr None"
    using assms(2,3) q precondition_status [of hv dp ?gb b k headers ?r s] error_status
    by (auto simp: gw_get_object_def Let_def split: sum.splits option.splits)
  obtain x s2 where x: "gb_get_object ?gb b k s1 = (x, s2)" by (rule prod.exhaust)
  have v: "verified (se_sha E) x" using postD [OF gateway_download_safe [OF s1] x] by simp
  obtain ob where "x = Inr ob" "download_response hv http_date headers ?r ob = Some response"
    using assms(2,3) q n x error_status by (auto simp: gw_get_object_def respond_def Let_def split: sum.splits)
  then show ?thesis using v download_status [OF _ assms(2)] by (simp add: verified_def)
qed

section \<open>The empty system\<close>

text \<open>
  A system that has just started: the cache is on an empty directory, the metadata has no
  entry, and the network has carried no call. It carries fewer calls than the cache has
  storage ids.
\<close>

definition started :: "('d, 'f, 'x) system_env \<Rightarrow> 'x cache_config \<Rightarrow> file_system \<Rightarrow> ('d, 'f, 'x) world \<Rightarrow> bool" where
  "started E config fs w \<longleftrightarrow>
     cache_service_new (se_f64 E) (se_json E) config fs = Inr (wd_cache w) \<and>
     dir_names (path_join (cache_dir config) ''meta'') fs = [] \<and>
     sv_state (wd_metadata w) = metadata_state_default \<and>
     wd_calls w = 0 \<and> carries_fewer_calls_than (2 ^ 64 - 2) w"

lemma started_safe:
  assumes "started E config fs w" and "json_laws (se_json E)"
  shows "system_safe E (2 ^ 64 - 2) w"
proof -
  have new: "cache_service_new (se_f64 E) (se_json E) config fs = Inr (wd_cache w)"
    "dir_names (path_join (cache_dir config) ''meta'') fs = []"
    and st: "sv_state (wd_metadata w) = metadata_state_default"
    and calls: "wd_calls w = 0" "carries_fewer_calls_than (2 ^ 64 - 2) w"
    using assms(1) by (simp_all add: started_def)
  note c = new_service_ok [OF new(1) assms(2) new(2)]
  have m: "wf_meta metadata_state_default" "unversioned metadata_state_default"
    by (rule wf_meta_default, simp add: unversioned_def metadata_state_default_def)
  have "cold_inv (se_sha E) (system_view (se_json E) w)"
    using c(3) by (auto simp: system_view_def st metadata_view_def metadata_state_default_def restored_bytes_def settled_def fresh_def
      intro!: cold_invI)
  then show ?thesis using c(1,2) m calls st by (simp add: system_safe_def system_good_def services_ok_def)
qed

text \<open>
  C1 (safety). Whatever happened to a system since it started, requests, passes of the
  archive and recall loops, lost requests and replies and broken streams, a complete
  download carries the SHA-256 digest of exactly the bytes in its body as its \<open>etag\<close>.
\<close>

theorem download_matches_etag:
  assumes "started E config fs (sy_world s0)" and "json_laws (se_json E)"
    and "http_step E addrs request (fold (system_step E addrs) events s0) = (Some response, s)"
    and "rq_method request = GET" and "rq_route request = Object_Route b k" and "rs_status response = 200"
  shows "hm_get (rs_headers response) ''etag'' = Some (sha256_hex (se_sha E) (rs_body response))"
proof -
  let ?s = "fold (system_step E addrs) events s0"
  have safe: "system_safe E (2 ^ 64 - 2) (snd (sy_next_addr ?s, sy_world ?s))"
    using history_keeps_safe [OF started_safe [OF assms(1,2)]] by simp
  show ?thesis
    by (rule get_response [OF safe assms(6), of "se_header_value E" "se_dates E" "se_http_date E" "sst_cache (sy_scheduler ?s)"
        addrs b k "rq_headers request"])
      (use assms(3-5) in \<open>auto simp: http_step_def dispatch_def split: prod.splits\<close>)
qed

lemma run_started: "started (run_env sha) demo_config \<lparr>fs_files = [], fs_faults = []\<rparr> (sy_world (run_start clock))"
  using demo_new by (auto simp: started_def run_start_def run_world_def run_env_fields service_new_def
      carries_fewer_calls_than_def run_faults_def)

theorem download_matches_etag_witness:
  "\<exists>response. fst (http_step (run_env (take 2)) [''worker''] (request_for GET (Object_Route ''b'' ''k'') [] [])
      (fold (system_step (run_env (take 2)) [''worker'']) (life_of ''b'' ''k'' [7, 8, 9]) (run_start (\<lambda>_. demo_time)))) = Some response \<and>
    rs_status response = 200 \<and> rs_body response = [7, 8, 9] \<and>
    hm_get (rs_headers response) ''etag'' = Some (sha256_hex (take 2) [7, 8, 9])"
proof -
  let ?E = "run_env (take 2)" and ?get = "request_for GET (Object_Route ''b'' ''k'') [] []"
  have "length ([7, 8, 9] :: bytes) \<le> 268435456" by simp
  then obtain response s where r: "http_step ?E [''worker''] ?get
      (fold (system_step ?E [''worker'']) (life_of ''b'' ''k'' [7, 8, 9]) (run_start (\<lambda>_. demo_time))) = (Some response, s)"
    "rs_status response = 200" "rs_body response = [7, 8, 9]"
    using life_cycle [of "[7, 8, 9]" "\<lambda>_. demo_time" "take 2" "''b''" "''k''"] by auto
  have "json_laws (se_json ?E)" "rq_method ?get = GET" "rq_route ?get = Object_Route ''b'' ''k''"
    by (simp_all add: run_env_fields demo_json_laws request_for_def)
  from download_matches_etag [OF run_started this(1) r(1) this(2,3) r(2)] r show ?thesis
    by (simp add: run_env_fields)
qed




end
