(* ===== verification/System_Limits.thy ===== *)
theory System_Limits
  imports System_Run
begin

text \<open>
  What the composed system does not do although its components suggest it: the scheduler and
  the metadata service disagree on three points, and each of them loses a request of the
  client for good. The statements hold for every world, whatever the network does.
\<close>

section \<open>Calls of the metadata service\<close>

lemma read_clock_metadata: "read_clock w = (t, w') \<Longrightarrow> wd_metadata w' = wd_metadata w"
  by (auto simp: read_clock_def)

lemma remote_ask_metadata:
  assumes "remote (ask_metadata q) w = (r, w')"
  shows "wd_metadata w' = wd_metadata w" and "r = Inr x \<Longrightarrow> q (wd_metadata w) = Inr x"
  using assms by (auto simp: remote_def next_call_def ask_metadata_def split: option.splits network_fault.splits)

lemma cache_call_metadata: "wd_metadata (snd (remote (call_cache handler) w)) = wd_metadata w"
  by (auto simp: remote_def next_call_def call_cache_def read_clock_def split: option.split network_fault.split prod.split)

lemma change_metadata_effect:
  assumes "change_metadata (\<lambda>t t'. apply_and_persist e t t' cmd) w = (r, w')"
  shows "sv_state (wd_metadata w') = sv_state (wd_metadata w) \<and> r \<noteq> Inr () \<or>
    (\<exists>t. apply_command t cmd (sv_state (wd_metadata w)) = (Inr (), sv_state (wd_metadata w')))"
proof -
  obtain t t' s' where a: "apply_and_persist e t t' cmd (wd_metadata w) = (r, s')" "wd_metadata w' = s'"
    using assms by (auto simp: change_metadata_def read_clock_def split: prod.splits)
  show ?thesis using apply_and_persist_effect [OF a(1)] a(2) by blast
qed

lemma remote_change_effect:
  assumes "remote (change_metadata (\<lambda>t t'. apply_and_persist e t t' cmd)) w = (r, w')"
  shows "sv_state (wd_metadata w') = sv_state (wd_metadata w) \<and> r \<noteq> Inr () \<or>
    (\<exists>t. apply_command t cmd (sv_state (wd_metadata w)) = (Inr (), sv_state (wd_metadata w')))"
proof -
  let ?call = "change_metadata (\<lambda>t t'. apply_and_persist e t t' cmd)" and ?w = "w\<lparr>wd_calls := wd_calls w + 1\<rparr>"
  obtain r1 w1 where c: "?call ?w = (r1, w1)" by fastforce
  have "(r, w') = (r1, w1) \<or> (\<exists>err. r = Inl err) \<and> w' \<in> {?w, w1}"
    using assms c by (auto simp: remote_def next_call_def split: option.splits network_fault.splits)
  then show ?thesis using change_metadata_effect [OF c] by auto
qed

text \<open>A change that the state machine refuses in every moment changes nothing.\<close>

lemma refused_change:
  assumes "remote (change_metadata (\<lambda>t t'. apply_and_persist e t t' cmd)) w = (r, w')"
    and "\<And>t st'. apply_command t cmd (sv_state (wd_metadata w)) \<noteq> (Inr (), st')"
  shows "sv_state (wd_metadata w') = sv_state (wd_metadata w) \<and> r \<noteq> Inr ()"
  using remote_change_effect [OF assms(1)] assms(2) by blast

section \<open>Listings\<close>

lemma page_loop_within_limit:
  "emitted + length objects \<le> limit \<Longrightarrow>
     snd (snd (snd (page_loop pre delimiter limit objects emitted contents ps last_key))) = False"
  by (induction objects arbitrary: emitted contents ps last_key) (auto split: option.split)

lemma page_not_truncated:
  assumes "max_keys = 0 \<and> length objects \<le> usize_MAX \<or> length objects \<le> unat max_keys"
  shows "\<not> pg_is_truncated (build_list_objects_page bucket objects pre marker delimiter max_keys)"
    and "pg_next_marker (build_list_objects_page bucket objects pre marker delimiter max_keys) = None"
proof -
  let ?limit = "if max_keys = 0 then usize_MAX else unat max_keys"
  let ?filtered = "sort_key (\<lambda>ob. (om_key ob, om_version_id ob))
    (filter (\<lambda>ob. starts_with (unwrap_or_default pre) (om_key ob) \<and> om_key ob > unwrap_or_default marker)
      (filter (\<lambda>ob. om_bucket ob = bucket) objects))"
  have "length objects \<le> ?limit" using assms by (auto simp: unat_eq_0)
  then have "0 + length ?filtered \<le> ?limit"
    unfolding length_sort filter_filter add_0 by (rule order.trans [OF length_filter_le])
  note within = page_loop_within_limit [OF this]
  obtain contents ps last_key truncated where l: "page_loop (unwrap_or_default pre) (unwrap_or_default delimiter) ?limit
      ?filtered 0 [] [] None = (contents, ps, last_key, truncated)" by (rule prod_cases4)
  have "\<not> truncated" using within [of "unwrap_or_default pre" "unwrap_or_default delimiter" "[]" "[]" None] unfolding l by simp
  then show "\<not> pg_is_truncated (build_list_objects_page bucket objects pre marker delimiter max_keys)"
    "pg_next_marker (build_list_objects_page bucket objects pre marker delimiter max_keys) = None"
    unfolding build_list_objects_page_def Let_def l by simp_all
qed

text \<open>
  C7 (error). The metadata service already cuts the listing at the number of keys asked for,
  and the scheduler computes the truncation of the page from what is left: a page is never
  reported as truncated and never has a marker to go on from, so a client cannot get at the
  objects behind the first page.
\<close>

theorem listing_never_truncated:
  assumes "sb_list_objects (system_services E) request w = (Inr page, w')"
  shows "\<not> pg_is_truncated page \<and> pg_next_marker page = None"
proof -
  let ?r = "\<lparr>lor_bucket = sl_bucket request, lor_prefix = sl_prefix request, lor_marker = sl_marker request,
    lor_max_keys = sl_max_keys request\<rparr>"
  obtain response w1 where m: "remote (ask_metadata (\<lambda>s. md_list_objects s ?r)) w = (Inr response, w1)"
    and page: "page = build_list_objects_page (sl_bucket request) (lop_objects response) (sl_prefix request)
      (sl_marker request) (sl_delimiter request) (sl_max_keys request)"
    using assms by (auto simp: sb_list_objects_def service_fields try_st_Inr)
  have "length (lop_objects response) \<le> (if sl_max_keys request = 0 then usize_MAX else unat (sl_max_keys request))"
    using remote_ask_metadata(2) [OF m refl] by (auto simp: md_list_objects_def Let_def split: if_splits)
  then show ?thesis unfolding page by (intro conjI page_not_truncated) (auto split: if_splits)
qed

text \<open>Worlds whose metadata is given.\<close>

definition world_with :: "metadata_state \<Rightarrow> (unit, unit, nat) world" where
  "world_with st = (run_world (\<lambda>_. demo_time))\<lparr>wd_metadata := (service_new metadata_config_default ())\<lparr>sv_state := st\<rparr>\<rparr>"

lemma world_with_fields: "wd_metadata (world_with st) = (service_new metadata_config_default ())\<lparr>sv_state := st\<rparr>"
    "wd_faults (world_with st) = run_faults" "wd_calls (world_with st) = 0"
  by (simp_all add: world_with_def run_world_def)

text \<open>Two objects in a bucket, and a listing of one key.\<close>

definition two_objects :: metadata_state where
  "two_objects = metadata_state_default
     \<lparr>ms_buckets := [(''photos'', demo_bucket)],
      ms_objects := [((''photos'', ''a.jpg'', None), demo_object), ((''photos'', ''b.jpg'', None), demo_object\<lparr>om_key := ''b.jpg''\<rparr>)]\<rparr>"

definition one_key :: scheduler_list_request where
  "one_key = \<lparr>sl_bucket = ''photos'', sl_prefix = None, sl_marker = None, sl_delimiter = None, sl_max_keys = 1\<rparr>"

theorem listing_never_truncated_witness:
  "\<exists>page w'. sb_list_objects (system_services (run_env (take 2))) one_key (world_with two_objects) = (Inr page, w') \<and>
     pg_objects page = [demo_object] \<and> \<not> pg_is_truncated page \<and> pg_next_marker page = None"
proof -
  have "\<exists>page w'. sb_list_objects (system_services (run_env (take 2))) one_key (world_with two_objects) = (Inr page, w') \<and>
      pg_objects page = [demo_object]"
    by (simp add: sb_list_objects_def service_fields undisturbed run_faults_early world_with_fields ask_metadata_def
        md_list_objects_def one_key_def two_objects_def service_new_def metadata_state_default_def demo_object_def
        build_list_objects_page_def candidate_prefix_def unwrap_or_default_def starts_with_def usize_MAX_def Let_def)
  then show ?thesis using listing_never_truncated [of "run_env (take 2)" one_key "world_with two_objects"] by blast
qed

section \<open>Recalls that are to be tried again\<close>

lemma get_recall_task_stored:
  assumes "get_recall_task (system_services E) i w = (r, w')"
  shows "wd_metadata w' = wd_metadata w" and "r = Inr t \<Longrightarrow> hm_get (ms_recall_tasks (sv_state (wd_metadata w))) i = Some t"
proof -
  have m: "remote (ask_metadata (\<lambda>s. md_get_recall_task s i)) w = (r, w')"
    using assms by (auto simp: get_recall_task_def service_fields try_st_def split: prod.splits sum.splits)
  show "wd_metadata w' = wd_metadata w" by (rule remote_ask_metadata(1) [OF m])
  show "r = Inr t \<Longrightarrow> hm_get (ms_recall_tasks (sv_state (wd_metadata w))) i = Some t"
    using remote_ask_metadata(2) [OF m, of t] by (auto simp: md_get_recall_task_def split: option.splits)
qed

text \<open>
  C6 (error). A recall that failed for a reason that may pass is put back to wait for its
  medium, but the state machine has no way back from a recall in progress: the change is
  refused, the task stays in progress, and no later pass of the loop takes it up.
\<close>

theorem retried_recall_stays_in_progress:
  assumes "wf_meta (sv_state (wd_metadata w))"
    and "hm_get (ms_recall_tasks (sv_state (wd_metadata w))) (rt_id task) = Some t"
    and "rt_status t = restore_status_i32 RestoreInProgress"
    and "retry_recall_task_later (system_services E) task err w = (r, w')"
  shows "r \<noteq> Inr () \<and> sv_state (wd_metadata w') = sv_state (wd_metadata w) \<and> \<not> is_pending_recall_task t"
proof -
  obtain r1 w1 where g: "get_recall_task (system_services E) (rt_id task) w = (r1, w1)" by fastforce
  note stored = get_recall_task_stored [OF g]
  have pending: "\<not> is_pending_recall_task t" by (simp add: is_pending_recall_task_def assms(3) restore_status_try_from_def)
  show ?thesis
  proof (cases r1)
    case (Inl e)
    then show ?thesis using assms(4) g stored(1) pending by (auto simp: retry_recall_task_later_def)
  next
    case (Inr current)
    then have c: "current = t" using stored(2) assms(2) by simp
    have id: "rt_id t = rt_id task" using keyedD [OF wf_meta_tables(5) [OF assms(1)] assms(2)] by simp
    let ?t = "t\<lparr>rt_status := restore_status_i32 RestoreWaitingForMedia, rt_error := Some err, rt_started_at := None,
      rt_retry_count := sat_add (rt_retry_count t) 1\<rparr>"
    obtain r2 w2 where u: "remote (change_metadata (\<lambda>t t'. md_update_recall_task (se_env E) t t' ?t)) w1 = (r2, w2)" by fastforce
    have "sv_state (wd_metadata w2) = sv_state (wd_metadata w1) \<and> r2 \<noteq> Inr ()"
      by (rule refused_change [OF u [unfolded md_update_recall_task_def]])
        (simp add: apply_update_recall_task_def stored(1) id assms(2,3) validate_restore_transition_def
          restore_status_try_from_def)
    moreover have "r = r2 \<and> w' = w2" if "r2 = Inl e" for e
      using assms(4) g Inr c u that assms(3)
      by (simp add: retry_recall_task_later_def update_recall_task_def service_fields Let_def restore_status_try_from_def)
    ultimately show ?thesis using stored(1) pending by (cases r2) auto
  qed
qed

definition stuck_task :: recall_task where
  "stuck_task = demo_recall\<lparr>rt_status := restore_status_i32 RestoreInProgress\<rparr>"

definition one_recall :: metadata_state where
  "one_recall = snd (apply_command demo_time (PutRecallTask stuck_task) metadata_state_default)"

theorem retried_recall_stays_in_progress_witness:
  "sv_state (wd_metadata (snd (retry_recall_task_later (system_services (run_env (take 2))) stuck_task ''busy''
     (world_with one_recall)))) = one_recall \<and> \<not> is_pending_recall_task stuck_task"
proof -
  have "wf_meta one_recall" unfolding one_recall_def by (intro wf_apply_command wf_meta_default)
  moreover have "hm_get (ms_recall_tasks one_recall) (rt_id stuck_task) = Some stuck_task"
    by (simp add: one_recall_def stuck_task_def demo_recall_def apply_put_recall_task_def metadata_state_default_def)
  moreover have "rt_status stuck_task = restore_status_i32 RestoreInProgress" by (simp add: stuck_task_def)
  moreover have st: "sv_state (wd_metadata (world_with one_recall)) = one_recall" by (simp add: world_with_fields)
  moreover obtain r w' where "retry_recall_task_later (system_services (run_env (take 2))) stuck_task ''busy''
      (world_with one_recall) = (r, w')" by (rule prod.exhaust)
  ultimately show ?thesis
    using retried_recall_stays_in_progress [of "world_with one_recall" stuck_task stuck_task "run_env (take 2)" "''busy''" r w']
    by simp
qed

section \<open>Objects that are stored again\<close>

lemma get_archive_task_stored:
  assumes "get_archive_task (system_services E) i w = (r, w')"
  shows "wd_metadata w' = wd_metadata w" and "r = Inr t \<Longrightarrow> hm_get (ms_archive_tasks (sv_state (wd_metadata w))) i = Some t"
proof -
  have m: "remote (ask_metadata (\<lambda>s. md_get_archive_task s i)) w = (r, w')"
    using assms by (auto simp: get_archive_task_def service_fields try_st_def split: prod.splits sum.splits)
  show "wd_metadata w' = wd_metadata w" by (rule remote_ask_metadata(1) [OF m])
  show "r = Inr t \<Longrightarrow> hm_get (ms_archive_tasks (sv_state (wd_metadata w))) i = Some t"
    using remote_ask_metadata(2) [OF m, of t] by (auto simp: md_get_archive_task_def split: option.splits)
qed

lemma stored_task_not_claimed:
  assumes "hm_get (ms_archive_tasks (sv_state (wd_metadata w))) (at_id task) = Some t"
    and "at_status t \<noteq> archive_task_status_i32 ArchiveTaskPending"
    and "claim_stored_archive_task (system_services E) task w = (r, w')"
  shows "wd_metadata w' = wd_metadata w \<and> (\<nexists>t'. r = Inr (True, t'))"
proof -
  obtain r1 w1 where g: "get_archive_task (system_services E) (at_id task) w = (r1, w1)" by fastforce
  have "archive_task_status_try_from (at_status t) \<noteq> Some ArchiveTaskPending"
    using assms(2) archive_task_status_try_from_SomeD by blast
  then show ?thesis
    using assms(1,3) g get_archive_task_stored [OF g]
    by (cases r1) (auto simp: claim_stored_archive_task_def split: option.splits archive_task_status.splits)
qed

lemma finished_task_not_claimed:
  assumes "hm_get (ms_archive_tasks (sv_state (wd_metadata w))) (at_id task) = Some t"
    and "at_status t \<noteq> archive_task_status_i32 ArchiveTaskPending"
    and "claim_archive_task (system_services E) task w = (r, w')"
  shows "sv_state (wd_metadata w') = sv_state (wd_metadata w) \<and> (\<nexists>t'. r = Inr (True, t'))"
proof -
  obtain r1 w1 where p: "remote (change_metadata (\<lambda>t t'. md_put_archive_task (se_env E) t t' task)) w = (r1, w1)" by fastforce
  have same: "sv_state (wd_metadata w1) = sv_state (wd_metadata w)"
    using remote_change_effect [OF p [unfolded md_put_archive_task_def]] put_archive_effect assms(1) by fastforce
  have "claim_stored_archive_task (system_services E) task w1 = (r, w') \<or> w' = w1 \<and> (\<exists>e. r = Inl e)"
    using assms(3) p by (auto simp: claim_archive_task_def service_fields tolerate_def split: sum.splits if_splits)
  then show ?thesis using stored_task_not_claimed [of w1 task t E r w'] same assms(1,2) by auto
qed

text \<open>
  C5 (error). The archive task of an object is named after its bucket and its key, and a task
  that has run is never claimed again: once an object was archived, or once archiving it
  failed, a staged entry for that key is left where it is by every pass of the loop and the
  metadata does not change, so an object that is stored again under the key stays waiting for
  its tape.
\<close>

theorem stored_again_never_archived:
  assumes "hm_get (ms_archive_tasks (sv_state (wd_metadata w)))
      (phase1_bundle_id (sk_bucket entry) (sk_key entry) (sk_version_id entry)) = Some t"
    and "at_status t \<noteq> archive_task_status_i32 ArchiveTaskPending"
    and "process_archive_entry sha (system_services E) cache ac tape tape_id entry w = (r, w')"
  shows "(\<nexists>n. r = Inr (Some n)) \<and> sv_state (wd_metadata w') = sv_state (wd_metadata w)"
proof -
  obtain r1 w1 where h: "remote (ask_metadata (\<lambda>s. md_head_object s (sk_bucket entry) (sk_key entry))) w = (r1, w1)" by fastforce
  obtain now w2 where n: "read_clock w1 = (now, w2)" by fastforce
  have same: "wd_metadata w2 = wd_metadata w" using remote_ask_metadata(1) [OF h] read_clock_metadata [OF n] by simp
  let ?task = "\<lambda>ob. phase1_archive_task now (phase1_bundle_id (sk_bucket entry) (sk_key entry) (sk_version_id entry)) tape_id (om_size ob)"
  show ?thesis
  proof (cases r1)
    case (Inl e)
    then show ?thesis using assms(3) h remote_ask_metadata(1) [OF h] by (auto simp: process_archive_entry_def service_fields)
  next
    case (Inr ob)
    obtain rc w3 where c: "claim_archive_task (system_services E) (?task ob) w2 = (rc, w3)" by fastforce
    have "sv_state (wd_metadata w3) = sv_state (wd_metadata w2) \<and> (\<nexists>t'. rc = Inr (True, t'))"
      by (rule finished_task_not_claimed [OF _ assms(2) c]) (simp add: same assms(1) phase1_archive_task_def)
    moreover have "wd_metadata (delete_staging_best_effort (system_services E) cache b k v w2) = wd_metadata w2" for b k v
      by (simp add: delete_staging_best_effort_def service_fields cache_call_metadata)
    ultimately show ?thesis
      using assms(3) h n Inr c same
      by (cases rc) (auto simp: process_archive_entry_def service_fields Let_def split: if_splits prod.splits)
  qed
qed

text \<open>An object that was archived and is stored again.\<close>

definition archived_before :: metadata_state where
  "archived_before = two_objects\<lparr>ms_archive_tasks :=
     [(''phase1-bundle:photos/a.jpg'', demo_task\<lparr>at_id := ''phase1-bundle:photos/a.jpg''\<rparr>)]\<rparr>"

definition staged_again :: staging_key_entry where
  "staged_again = \<lparr>sk_bucket = ''photos'', sk_key = ''a.jpg'', sk_version_id = None, sk_size = 5, sk_staged_at = None\<rparr>"

theorem stored_again_never_archived_witness:
  "sv_state (wd_metadata (snd (process_archive_entry (take 2) (system_services (run_env (take 2))) True
     (cache_archive_client (system_services (run_env (take 2)))) (\<lambda>_ _ _ w. (Inl (Status Unavailable []), w)) ''TAPE0001''
     staged_again (world_with archived_before)))) = archived_before"
proof -
  let ?t = "demo_task\<lparr>at_id := ''phase1-bundle:photos/a.jpg''\<rparr>"
  have st: "sv_state (wd_metadata (world_with archived_before)) = archived_before" by (simp add: world_with_fields)
  have t: "hm_get (ms_archive_tasks (sv_state (wd_metadata (world_with archived_before))))
      (phase1_bundle_id (sk_bucket staged_again) (sk_key staged_again) (sk_version_id staged_again)) = Some ?t"
    unfolding st by (simp add: archived_before_def staged_again_def phase1_bundle_id_def with_version_def)
  have done': "at_status ?t \<noteq> archive_task_status_i32 ArchiveTaskPending" by (simp add: demo_task_def)
  obtain r w' where p: "process_archive_entry (take 2) (system_services (run_env (take 2))) True
      (cache_archive_client (system_services (run_env (take 2)))) (\<lambda>_ _ _ w. (Inl (Status Unavailable []), w)) ''TAPE0001''
      staged_again (world_with archived_before) = (r, w')" by (rule prod.exhaust)
  have "sv_state (wd_metadata w') = archived_before"
    using stored_again_never_archived [OF t done' p] unfolding st by (rule conjunct2)
  then show ?thesis unfolding p by simp
qed

end
