(* ===== verification/Spec2Isabelle.thy ===== *)
theory Spec2Isabelle
  imports Cache_Properties Gateway_Properties Vtl_Tools Node Scheduler_Properties System_Properties System_Limits
begin

text \<open>
  \<^bold>\<open>A verification of coldstore\<close>

  The program under \<open>src/\<close> is an S3 front to a tape library. An object that a client puts is
  staged in a cache, moved to tape in the background, and deleted from the staging area; a
  client that wants it back asks for a restore, a second background loop reads it from tape
  into the cache, and then it can be downloaded until the restore expires. Five services do
  this. The \<^emph>\<open>gateway\<close> speaks HTTP and passes every request to one of a list of
  \<^emph>\<open>scheduler\<close> workers. The scheduler has no state of its own beyond what it is just working
  on: it keeps objects and tasks in the \<^emph>\<open>metadata\<close> service, bytes in the \<^emph>\<open>cache\<close> service, and
  bundles in the \<^emph>\<open>tape\<close> service, which drives a library simulated by the \<^emph>\<open>vtl\<close> crate.

  \<^bold>\<open>Conventions\<close>

  A struct is a record with the fields of the source, prefixed by an abbreviation of its name;
  an enum is a datatype. A method is a function that takes the state as its last argument and
  returns its result with the new state. An error is \<open>Inl\<close> of a \<open>status\<close> with the code and the
  message of the source; a panic is \<open>None\<close>. u64 and u32 are words, with the saturation and
  wrap-around of the source; usize is \<open>nat\<close> with the bound where the source can exceed it; i32
  and i64 are \<open>int\<close>. A hash map is an association list with distinct keys, whose order stands
  for the order of an iteration. \<open>try_then\<close> and \<open>try_st\<close> are the question mark, without and
  with a state. A stream of a call is the list of its messages, in which \<open>Inl\<close> is the error
  that ends it. \<open>Prelude\<close> and \<open>Rust_Strings\<close> have what the components share of this: the maps,
  the results, and the string functions of the standard library that the source calls.

  Code that is not under \<open>src/\<close> is an argument: the database and the message codec of the
  metadata service, the JSON codec of the cache attributes, floating point, the SHA-256
  digest, the calendar and the date parsers of the gateway, which header values HTTP accepts,
  processes of the operating system, and connections. What is assumed of it are named
  hypotheses: \<open>json_laws\<close>, \<open>database_laws\<close> and \<open>codecs_invert\<close> say that decoding inverts encoding
  and that a store returns what was put, \<open>accepts_visible\<close> that visible ASCII is a valid header
  value; every theorem that has one has an instance in its witness.

  \<^bold>\<open>The theories\<close>

  \<^item> \<open>Vtl_Model\<close>, \<open>Vtl_Simulator\<close> (\<open>crates/vtl/src/model.rs\<close>, \<open>simulator.rs\<close>): the tape as records
    and a cursor, slots and drives, moves, reads, writes, seeks. \<open>Vtl_Tools\<close> (\<open>command.rs\<close>,
    \<open>discover.rs\<close>, \<open>mhvtl.rs\<close>): command lines for mt, mtx and dd, their printing, and the parser of
    lsscsi. Moves conserve cartridges; printed commands split into the same words.
  \<^item> \<open>Tape_Service\<close> (\<open>crates/tape/src/service.rs\<close>): the backend behind its mutex, drives that are
    acquired and released, bundles that are streamed. The locale \<open>tape_drive\<close> of
    \<open>Vtl_Simulator\<close> states what a drive promises, \<open>bundle_backend\<close> what the handlers need of a
    backend; both are interpreted on the simulator. A bundle is read back byte for byte, an acquired drive is exclusive, and
    nothing panics.
  \<^item> \<open>Metadata_State\<close> (\<open>state_machine.rs\<close>, \<open>command.rs\<close>, and \<open>crates/common/src/models.rs\<close>): all commands
    with their checks, and the status machines. \<open>Metadata_Snapshot\<close>: the snapshot format.
    \<open>Metadata_Raft\<close> (\<open>raft.rs\<close>, \<open>raft_storage.rs\<close>): proposing, applying and persisting.
    \<open>Metadata_Cluster\<close> (\<open>lib.rs\<close>): the cluster string and the mode. \<open>Metadata_Service\<close>
    (\<open>service.rs\<close>): the handlers. The tables stay consistent, finished tasks stay finished,
    snapshots within the limits of their reader round-trip, larger and torn ones are refused,
    and an acknowledged command survives a restart or, beyond the limits, prevents it.
  \<^item> \<open>Cache_Backend\<close> (\<open>hdd.rs\<close>, \<open>spdk.rs\<close>, \<open>backend.rs\<close>): files on a file system in which every call may
    fail. \<open>Cache_Service\<close> (\<open>service.rs\<close>): index, budgets, eviction, expiry, rebuild, handlers.
    The locale \<open>object_store\<close> is the contract of a backend, interpreted on the two backends and on
    the choice between them. \<open>Cache_Refinement\<close> and \<open>Cache_Spec\<close> prove in it that the handlers
    implement a map from keys to bytes, whatever calls of the file system fail;
    \<open>Cache_Properties\<close> states it of the backends, with expiry, capacity and rebuild.
  \<^item> \<open>Scheduler_Client\<close>, \<open>Scheduler_Backend\<close>, \<open>Scheduler_Service\<close> (\<open>crates/scheduler/src/service.rs\<close>,
    \<open>lib.rs\<close>): the clients, the operations, the two loops, the handlers and the start, over a
    record \<open>services\<close> of the calls of the other services. \<open>Scheduler_Properties\<close> has what holds
    over any services; \<open>Scheduler_Integrity\<close> has the locale \<open>cold_services\<close>, the contract of the
    services, and in it the invariant that the bytes of a download match its object.
  \<^item> \<open>Gateway_Protocol\<close>, \<open>Gateway_Backend\<close>, \<open>Gateway_Handler\<close> (\<open>protocol.rs\<close>, \<open>lib.rs\<close>, \<open>handler.rs\<close> of
    \<open>crates/gateway/src\<close>): routing, handlers, errors, ranges, conditional requests, restore
    requests and the choice of a worker; \<open>Gateway_Properties\<close>.
  \<^item> \<open>Config\<close>, \<open>Node\<close> (\<open>crates/common/src/config.rs\<close>, \<open>crates/node/src/main.rs\<close>): configurations and the
    single node. \<open>Common_Proto\<close>: the shared messages and the numbers of the enumerations.
  \<^item> \<open>System\<close>: all of this put together. A world has the states of the three services, the
    readings of the clock, and the faults of the network, which at every call may lose the
    request or the reply or cut the stream; \<open>cold_services\<close> is interpreted on it. \<open>System_Run\<close>
    evaluates the life of an object in it, \<open>System_Properties\<close> has the properties of the whole,
    and \<open>System_Limits\<close> what the composition fails to do.

  \<^bold>\<open>What the whole guarantees\<close>

  From an empty system on, whatever requests, passes of the loops and faults of the network
  happened, a complete download carries the digest of exactly its bytes as entity tag. In
  the system \<open>run_start\<close>, which has just started and whose network loses nothing, the first object
  that is stored comes back. The theorems also show where the program falls short: an object
  that is stored again is not archived, a recall that is to be retried is stuck, a listing never
  says that it goes on, and a metadata state can be saved that cannot be loaded.

  \<^bold>\<open>Bounds\<close>

  The cache numbers its files with a 64-bit counter that starts at one and is not checked, so
  the first theorem assumes that the network carries fewer than \<open>2 ^ 64 - 2\<close> calls, which at a
  million calls a second takes half a million years. The second has objects of up to 256 MiB,
  which fit the cache of its system, and clocks whose readings are less than a day apart.
  Loops of the source recurse on their data, the loops of a tape by a measure on its cursor; the
  eviction loop and the connection loop count their rounds, as in the source. No bound is added
  as fuel.

  \<^bold>\<open>Not modelled\<close>

  A handler and a pass of a loop run without another one in between: interleavings of single
  calls of two handlers, the waiting for a semaphore or a mutex, and the timers of the loops
  are left out, and with them the tape lease beyond the entry of its table. Logging, the
  binding of sockets and the HTTP and gRPC transports are I/O; the binaries, the two \<open>lib.rs\<close>
  files of cache and tape and the start of the node only do that. The error type of the common
  crate is used by no component. Code generated from the proto files is represented by the
  messages it has.
\<close>

end
